(* ===== verification/JS_Prelude.thy ===== *)
theory JS_Prelude
  imports Main "HOL-Library.AList" "HOL-Library.Multiset"
begin

text \<open>
  The part of JavaScript's standard library that every component uses, and the generic lemmas
  the components share.

  A JavaScript string is a sequence of 16-bit code units. The model uses \<open>string\<close>, a list of
  \<open>char\<close>, for the strings whose code units lie below 256 (Latin-1); a constant text of the
  source that leaves this range (the Korean messages) is written in the notation of JavaScript's
  \<open>escape\<close>, one \<open>%uXXXX\<close> group for each code unit. An optional value (\<open>undefined\<close> or
  \<open>null\<close>) is \<open>None\<close>. \<open>Map\<close> and \<open>Set\<close> keep insertion order and are association lists and
  lists; \<open>AList.update\<close> replaces a value in place and appends a new key at the end, which is
  what \<open>Map.prototype.set\<close> does. \<open>Array.prototype.sort\<close> is stable, and so is \<open>js_sort\<close>.
\<close>

section \<open>Truthiness and the operators || and ??\<close>

definition truthy :: "string option \<Rightarrow> bool" where
  "truthy s = (case s of None \<Rightarrow> False | Some t \<Rightarrow> t \<noteq> [])"

definition js_or :: "string option \<Rightarrow> string option \<Rightarrow> string option" where
  "js_or a b = (if truthy a then a else b)"

definition or_default :: "string option \<Rightarrow> string \<Rightarrow> string" where
  "or_default a d = (case a of Some (c # t) \<Rightarrow> c # t | _ \<Rightarrow> d)"

definition nullish :: "'a option \<Rightarrow> 'a option \<Rightarrow> 'a option" where
  "nullish a b = (case a of None \<Rightarrow> b | Some x \<Rightarrow> Some x)"

definition nullish_default :: "'a option \<Rightarrow> 'a \<Rightarrow> 'a" where
  "nullish_default a d = (case a of None \<Rightarrow> d | Some x \<Rightarrow> x)"

lemma truthy_simps [simp]:
  "truthy None = False" "truthy (Some []) = False" "truthy (Some (c # s)) = True"
  by (simp_all add: truthy_def)

lemma truthy_iff: "truthy v \<longleftrightarrow> (\<exists>s. v = Some s \<and> s \<noteq> [])"
  by (cases v) (auto simp: truthy_def)

lemma js_or_simps [simp]:
  "js_or None b = b" "js_or (Some []) b = b" "js_or (Some (c # s)) b = Some (c # s)"
  by (simp_all add: js_or_def)

lemma nullish_simps [simp]:
  "nullish None b = b" "nullish (Some x) b = Some x"
  "nullish_default None d = d" "nullish_default (Some x) d = x"
  by (simp_all add: nullish_def nullish_default_def)

lemma or_default_simps [simp]:
  "or_default None d = d" "or_default (Some []) d = d" "or_default (Some (c # t)) d = c # t"
  by (simp_all add: or_default_def)

lemma or_default_nonempty: "d \<noteq> [] \<Longrightarrow> or_default a d \<noteq> []"
  by (auto simp: or_default_def split: option.splits list.splits)

section \<open>Characters\<close>

abbreviation code :: "char \<Rightarrow> nat" where
  "code c \<equiv> of_char c"

definition js_ws :: "char \<Rightarrow> bool" where
  "js_ws c = (code c \<in> {9, 10, 11, 12, 13, 32, 160})"

definition is_digit :: "char \<Rightarrow> bool" where
  "is_digit c = (48 \<le> code c \<and> code c \<le> 57)"

definition is_upper :: "char \<Rightarrow> bool" where
  "is_upper c = (65 \<le> code c \<and> code c \<le> 90)"

definition is_letter :: "char \<Rightarrow> bool" where
  "is_letter c = (65 \<le> code c \<and> code c \<le> 90 \<or> 97 \<le> code c \<and> code c \<le> 122)"

definition is_word :: "char \<Rightarrow> bool" where
  "is_word c = (is_letter c \<or> is_digit c \<or> code c = 95)"

text \<open>\<open>toLowerCase\<close> on Latin-1: it never changes the number of code units there.\<close>

definition lower_char :: "char \<Rightarrow> char" where
  "lower_char c =
     (let n = code c in
      if 65 \<le> n \<and> n \<le> 90 \<or> 192 \<le> n \<and> n \<le> 222 \<and> n \<noteq> 215 then char_of (n + 32) else c)"

definition upper_char :: "char \<Rightarrow> char" where
  "upper_char c =
     (let n = code c in if 97 \<le> n \<and> n \<le> 122 then char_of (n - 32) else c)"

definition js_lower :: "string \<Rightarrow> string" where
  "js_lower s = map lower_char s"

definition js_upper :: "string \<Rightarrow> string" where
  "js_upper s = map upper_char s"

lemma length_js_lower [simp]: "length (js_lower s) = length s"
  by (simp add: js_lower_def)

lemma code_less_256: "code c < 256"
  using of_char_mod_256 [of c, where 'a = nat] by (metis mod_less_divisor zero_less_numeral)

lemma js_lower_append [simp]: "js_lower (s @ t) = js_lower s @ js_lower t"
  by (simp add: js_lower_def)

lemma lower_char_idem [simp]: "lower_char (lower_char c) = lower_char c"
proof (cases "65 \<le> code c \<and> code c \<le> 90 \<or> 192 \<le> code c \<and> code c \<le> 222 \<and> code c \<noteq> 215")
  case True
  then have "code c + 32 < 256" by auto
  then have "code (char_of (code c + 32) :: char) = code c + 32" by simp
  with True show ?thesis by (auto simp: lower_char_def Let_def)
next
  case False
  then show ?thesis by (auto simp: lower_char_def Let_def)
qed

lemma js_lower_idem [simp]: "js_lower (js_lower s) = js_lower s"
  by (simp add: js_lower_def)


section \<open>Strings\<close>

definition js_trim :: "string \<Rightarrow> string" where
  "js_trim s = rev (dropWhile js_ws (rev (dropWhile js_ws s)))"

text \<open>\<open>s.split(c)\<close> for a one-character separator: always at least one piece.\<close>

fun split_on :: "char \<Rightarrow> string \<Rightarrow> string list" where
  "split_on c [] = [[]]"
| "split_on c (x # xs) =
     (if x = c then [] # split_on c xs
      else (case split_on c xs of [] \<Rightarrow> [[x]] | p # ps \<Rightarrow> (x # p) # ps))"

definition join :: "'a list \<Rightarrow> 'a list list \<Rightarrow> 'a list" where
  "join sep xs = (case xs of [] \<Rightarrow> [] | x # ys \<Rightarrow> x @ concat (map (\<lambda>y. sep @ y) ys))"

definition starts_with :: "string \<Rightarrow> string \<Rightarrow> bool" where
  "starts_with p s = (take (length p) s = p)"

text \<open>\<open>s.indexOf(q, from)\<close> for \<open>0 \<le> from\<close>; \<open>None\<close> is -1.\<close>

fun find_from :: "string \<Rightarrow> string \<Rightarrow> nat \<Rightarrow> nat option" where
  "find_from q [] i = (if q = [] then Some i else None)"
| "find_from q (x # xs) i =
     (if starts_with q (x # xs) then Some i else find_from q xs (Suc i))"

definition index_of :: "string \<Rightarrow> string \<Rightarrow> nat \<Rightarrow> nat option" where
  "index_of s q from = find_from q (drop from s) (min from (length s))"

definition js_includes :: "string \<Rightarrow> string \<Rightarrow> bool" where
  "js_includes s q = (index_of s q 0 \<noteq> None)"

definition pad_start :: "nat \<Rightarrow> char \<Rightarrow> string \<Rightarrow> string" where
  "pad_start n c s = replicate (n - length s) c @ s"

definition pad_end :: "nat \<Rightarrow> char \<Rightarrow> string \<Rightarrow> string" where
  "pad_end n c s = s @ replicate (n - length s) c"

lemma split_on_not_Nil [simp]: "split_on c s \<noteq> []"
  by (cases s) (auto split: list.splits)

lemma hd_split_on: "hd (split_on c s) = takeWhile (\<lambda>x. x \<noteq> c) s"
  by (induction s) (auto split: list.splits)

lemma join_split_on: "join [c] (split_on c s) = s"
proof (induction s)
  case Nil
  then show ?case by (simp add: join_def)
next
  case (Cons x xs)
  then show ?case by (cases "split_on c xs") (auto simp: join_def)
qed

lemma split_on_plain: "c \<notin> set s \<Longrightarrow> split_on c s = [s]"
  by (induction s) auto

lemma split_on_append: "c \<notin> set s \<Longrightarrow> split_on c (s @ c # t) = s # split_on c t"
  by (induction s) auto

lemma js_trim_Nil [simp]: "js_trim [] = []"
  by (simp add: js_trim_def)

lemma hd_dropWhile_ws: "dropWhile js_ws s \<noteq> [] \<Longrightarrow> \<not> js_ws (hd (dropWhile js_ws s))"
  by (rule hd_dropWhile)

lemma js_trim_eq: "js_trim s = s \<longleftrightarrow> s = [] \<or> \<not> js_ws (hd s) \<and> \<not> js_ws (last s)"
proof
  assume eq: "js_trim s = s"
  show "s = [] \<or> \<not> js_ws (hd s) \<and> \<not> js_ws (last s)"
  proof (cases "s = []")
    case False
    have len: "length (js_trim s) \<le> length (dropWhile js_ws s)"
      by (simp add: js_trim_def) (metis length_dropWhile_le length_rev)
    have d: "dropWhile js_ws s = s"
    proof (rule ccontr)
      assume "dropWhile js_ws s \<noteq> s"
      then have "length (dropWhile js_ws s) < length s"
        by (metis dropWhile_eq_drop le_neq_implies_less length_dropWhile_le length_drop
            diff_is_0_eq' diff_diff_cancel drop0 length_takeWhile_le)
      with len eq show False by simp
    qed
    with False have 1: "\<not> js_ws (hd s)" by (metis hd_dropWhile)
    from d eq have "dropWhile js_ws (rev s) = rev s"
      by (metis js_trim_def rev_rev_ident)
    with False have "\<not> js_ws (hd (rev s))" by (metis hd_dropWhile rev_is_Nil_conv)
    with False 1 show ?thesis by (simp add: hd_rev)
  qed simp
next
  assume "s = [] \<or> \<not> js_ws (hd s) \<and> \<not> js_ws (last s)"
  then consider "s = []" | "s \<noteq> []" "\<not> js_ws (hd s)" "\<not> js_ws (hd (rev s))"
    by (auto simp: hd_rev)
  then show "js_trim s = s"
  proof cases
    case 2
    then have "dropWhile js_ws s = s" by (cases s) auto
    moreover from 2 have "dropWhile js_ws (rev s) = rev s" by (cases "rev s") auto
    ultimately show ?thesis by (simp add: js_trim_def)
  qed simp
qed

lemma starts_with_iff: "starts_with p s \<longleftrightarrow> (\<exists>t. s = p @ t)"
  by (auto simp: starts_with_def intro: exI [of _ "drop (length p) s"])
     (metis append_take_drop_id)

lemma starts_with_append [simp]: "starts_with p (p @ s)"
  by (auto simp: starts_with_iff)

lemma find_from_Some:
  "find_from q s i = Some j \<Longrightarrow> i \<le> j \<and> j \<le> i + length s \<and> starts_with q (drop (j - i) s)"
proof (induction s arbitrary: i)
  case Nil
  then show ?case by (auto simp: starts_with_def split: if_splits)
next
  case (Cons x xs)
  show ?case
  proof (cases "starts_with q (x # xs)")
    case True
    with Cons.prems show ?thesis by simp
  next
    case False
    with Cons.prems have "find_from q xs (Suc i) = Some j" by simp
    from Cons.IH [OF this] show ?thesis
      by (auto simp: Suc_le_eq Suc_diff_Suc [symmetric])
  qed
qed

lemma find_from_None: "find_from q s i = None \<longleftrightarrow> \<not> (\<exists>a b. s = a @ q @ b)"
proof (induction s arbitrary: i)
  case Nil
  then show ?case by auto
next
  case (Cons x xs)
  have "(\<exists>a b. x # xs = a @ q @ b) \<longleftrightarrow> starts_with q (x # xs) \<or> (\<exists>a b. xs = a @ q @ b)"
    by (auto simp: starts_with_iff Cons_eq_append_conv)
  then show ?case using Cons.IH by auto
qed

lemma js_includes_iff: "js_includes s q \<longleftrightarrow> (\<exists>a b. s = a @ q @ b)"
  by (simp add: js_includes_def index_of_def find_from_None)

lemma js_includes_Nil [simp]: "js_includes s []"
  by (auto simp: js_includes_iff)

lemma length_pad_start [simp]: "length (pad_start n c s) = max n (length s)"
  by (simp add: pad_start_def)


section \<open>Decimal numerals: String(n) and Number(s)\<close>

definition digit_char :: "nat \<Rightarrow> char" where
  "digit_char d = char_of (48 + d)"

fun show_nat :: "nat \<Rightarrow> string" where
  "show_nat n = (if n < 10 then [digit_char n] else show_nat (n div 10) @ [digit_char (n mod 10)])"

declare show_nat.simps [simp del]

definition show_int :: "int \<Rightarrow> string" where
  "show_int i = (if i < 0 then CHR ''-'' # show_nat (nat (- i)) else show_nat (nat i))"

definition nat_of_digits :: "string \<Rightarrow> nat" where
  "nat_of_digits s = foldl (\<lambda>n c. n * 10 + (code c - 48)) 0 s"

text \<open>
  \<open>Number(s)\<close> on the decimal integers, with the surrounding white space and the empty string it
  accepts. Fractions, exponents and other radices are outside the model's numbers, and with every
  other text they give \<open>None\<close> (\<open>NaN\<close>).
\<close>

definition js_number :: "string \<Rightarrow> int option" where
  "js_number s =
     (case js_trim s of
        [] \<Rightarrow> Some 0
      | c # t \<Rightarrow>
          (if c = CHR ''-'' then
             (if t \<noteq> [] \<and> list_all is_digit t then Some (- int (nat_of_digits t)) else None)
           else if c = CHR ''+'' then
             (if t \<noteq> [] \<and> list_all is_digit t then Some (int (nat_of_digits t)) else None)
           else if list_all is_digit (c # t) then Some (int (nat_of_digits (c # t)))
           else None))"

lemma is_digit_digit_char: "d < 10 \<Longrightarrow> is_digit (digit_char d)"
  by (simp add: is_digit_def digit_char_def)

lemma code_digit_char [simp]: "d < 10 \<Longrightarrow> code (digit_char d) = 48 + d"
  by (simp add: digit_char_def)

lemma show_nat_digits: "list_all is_digit (show_nat n)"
proof (induction n rule: show_nat.induct)
  case (1 n)
  then show ?case by (subst show_nat.simps) (auto simp: is_digit_digit_char)
qed

lemma show_nat_not_Nil [simp]: "show_nat n \<noteq> []"
  by (subst show_nat.simps) simp

lemma nat_of_digits_append: "nat_of_digits (s @ [c]) = nat_of_digits s * 10 + (code c - 48)"
  by (simp add: nat_of_digits_def)

lemma nat_of_digits_show [simp]: "nat_of_digits (show_nat n) = n"
proof (induction n rule: show_nat.induct)
  case (1 n)
  show ?case
  proof (cases "n < 10")
    case True
    then show ?thesis
      by (subst show_nat.simps) (simp add: nat_of_digits_def)
  next
    case False
    with 1 have "nat_of_digits (show_nat (n div 10)) = n div 10" by simp
    with False show ?thesis
      by (subst show_nat.simps) (simp add: nat_of_digits_append)
  qed
qed

lemma digit_not_ws: "is_digit c \<Longrightarrow> \<not> js_ws c"
  by (auto simp: is_digit_def js_ws_def)

lemma hd_last_show_nat [simp]: "\<not> js_ws (hd (show_nat n))" "\<not> js_ws (last (show_nat n))"
  using show_nat_digits [of n] hd_in_set [of "show_nat n"] last_in_set [of "show_nat n"]
  by (auto simp: list_all_iff dest: digit_not_ws)

lemma minus_not_ws [simp]: "\<not> js_ws (CHR ''-'')"
  by (simp add: js_ws_def)

lemma js_trim_show_nat [simp]: "js_trim (show_nat n) = show_nat n"
  by (simp add: js_trim_eq)

lemma js_number_show_nat [simp]: "js_number (show_nat n) = Some (int n)"
proof (cases "show_nat n")
  case Nil
  then show ?thesis using show_nat_not_Nil [of n] by simp
next
  case (Cons c t)
  with show_nat_digits [of n] have "list_all is_digit (c # t)" by simp
  moreover from this have "c \<noteq> CHR ''-''" "c \<noteq> CHR ''+''" by (auto simp: is_digit_def)
  ultimately show ?thesis
    using Cons js_trim_show_nat [of n] nat_of_digits_show [of n] by (simp add: js_number_def)
qed

lemma show_nat_inj: "show_nat m = show_nat n \<Longrightarrow> m = n"
  by (metis nat_of_digits_show)

lemma js_number_show_int [simp]: "js_number (show_int i) = Some i"
proof (cases "i < 0")
  case True
  have "js_trim (CHR ''-'' # show_nat k) = CHR ''-'' # show_nat k" for k
    by (simp add: js_trim_eq)
  with True show ?thesis
    using show_nat_digits [of "nat (- i)"] by (simp add: js_number_def show_int_def)
qed (simp add: show_int_def)

lemma show_int_not_Nil [simp]: "show_int i \<noteq> []"
  by (simp add: show_int_def)

lemma js_trim_show_int [simp]: "js_trim (show_int i) = show_int i"
  by (simp add: show_int_def js_trim_eq)

section \<open>Stable sorting by a comparison function\<close>

text \<open>
  \<open>Array.prototype.sort(cmp)\<close>: the elements ordered by \<open>cmp\<close>, equal elements in their former
  order. For a consistent comparison function this determines the result, so the insertion sort
  below computes it.
\<close>

fun insert_by :: "('a \<Rightarrow> 'a \<Rightarrow> int) \<Rightarrow> 'a \<Rightarrow> 'a list \<Rightarrow> 'a list" where
  "insert_by cmp x [] = [x]"
| "insert_by cmp x (y # ys) = (if cmp x y \<le> 0 then x # y # ys else y # insert_by cmp x ys)"

definition js_sort :: "('a \<Rightarrow> 'a \<Rightarrow> int) \<Rightarrow> 'a list \<Rightarrow> 'a list" where
  "js_sort cmp xs = foldr (insert_by cmp) xs []"

lemma js_sort_simps [simp]:
  "js_sort cmp [] = []" "js_sort cmp (x # xs) = insert_by cmp x (js_sort cmp xs)"
  by (simp_all add: js_sort_def)

lemma mset_insert_by [simp]: "mset (insert_by cmp x xs) = add_mset x (mset xs)"
  by (induction xs) auto

lemma mset_js_sort [simp]: "mset (js_sort cmp xs) = mset xs"
  by (induction xs) auto

lemma set_js_sort [simp]: "set (js_sort cmp xs) = set xs"
  by (metis mset_js_sort set_mset_mset)

lemma length_js_sort [simp]: "length (js_sort cmp xs) = length xs"
  by (metis mset_js_sort size_mset)

lemma set_insert_by [simp]: "set (insert_by cmp x xs) = insert x (set xs)"
  by (metis mset_insert_by set_mset_add_mset_insert set_mset_mset)

text \<open>The contract of a consistent comparison function on the values it is used on.\<close>

locale comparator =
  fixes cmp :: "'a \<Rightarrow> 'a \<Rightarrow> int"
  assumes cmp_refl: "cmp x x \<le> 0"
    and cmp_total: "cmp x y \<le> 0 \<or> cmp y x \<le> 0"
    and cmp_trans: "cmp x y \<le> 0 \<Longrightarrow> cmp y z \<le> 0 \<Longrightarrow> cmp x z \<le> 0"
begin

abbreviation sorted_by :: "'a list \<Rightarrow> bool" where
  "sorted_by \<equiv> sorted_wrt (\<lambda>x y. cmp x y \<le> 0)"

lemma sorted_insert_by: "sorted_by xs \<Longrightarrow> sorted_by (insert_by cmp x xs)"
proof (induction xs)
  case (Cons y ys)
  show ?case
  proof (cases "cmp x y \<le> 0")
    case True
    with Cons.prems show ?thesis by (auto intro: cmp_trans)
  next
    case False
    with cmp_total [of x y] have "cmp y x \<le> 0" by simp
    with Cons False show ?thesis by auto
  qed
qed simp

lemma sorted_js_sort: "sorted_by (js_sort cmp xs)"
  by (induction xs) (auto simp: sorted_insert_by)

lemma insert_by_first: "\<forall>y \<in> set ys. cmp x y \<le> 0 \<Longrightarrow> insert_by cmp x ys = x # ys"
  by (cases ys) auto

lemma js_sort_sorted: "sorted_by xs \<Longrightarrow> js_sort cmp xs = xs"
  by (induction xs) (auto simp: insert_by_first)

text \<open>Stability: the elements that compare equal to a given one keep their order.\<close>

lemma filter_insert_by:
  assumes "\<And>y. P y \<Longrightarrow> P x \<Longrightarrow> cmp x y \<le> 0"
  shows "filter P (insert_by cmp x ys) = filter P (x # ys)"
  using assms by (induction ys) auto

lemma js_sort_stable:
  assumes "\<And>y z. P y \<Longrightarrow> P z \<Longrightarrow> cmp y z \<le> 0"
  shows "filter P (js_sort cmp xs) = filter P xs"
proof (induction xs)
  case (Cons x xs)
  have "filter P (insert_by cmp x (js_sort cmp xs)) = filter P (x # js_sort cmp xs)"
    by (rule filter_insert_by) (use assms in auto)
  with Cons show ?case by simp
qed simp

end

section \<open>Operations with state and exceptions\<close>

text \<open>
  An operation of a service takes the state of the world and returns either a value or the
  exception it throws, together with the new state: an exception does not undo the writes made
  before it.
\<close>

type_synonym ('e, 's, 'a) eff = "'s \<Rightarrow> ('e + 'a) \<times> 's"

definition ret :: "'a \<Rightarrow> ('e, 's, 'a) eff" where
  "ret x = (\<lambda>s. (Inr x, s))"

definition throw :: "'e \<Rightarrow> ('e, 's, 'a) eff" where
  "throw e = (\<lambda>s. (Inl e, s))"

definition and_then :: "('e, 's, 'a) eff \<Rightarrow> ('a \<Rightarrow> ('e, 's, 'b) eff) \<Rightarrow> ('e, 's, 'b) eff" where
  "and_then m k = (\<lambda>s. case m s of (Inl e, s') \<Rightarrow> (Inl e, s') | (Inr x, s') \<Rightarrow> k x s')"

definition update_state :: "('s \<Rightarrow> 's) \<Rightarrow> ('e, 's, unit) eff" where
  "update_state f = (\<lambda>s. (Inr (), f s))"

definition read_state :: "('s \<Rightarrow> 'a) \<Rightarrow> ('e, 's, 'a) eff" where
  "read_state f = (\<lambda>s. (Inr (f s), s))"

lemma eff_simps [simp]:
  "ret x s = (Inr x, s)" "throw e s = (Inl e, s)"
  "update_state f s = (Inr (), f s)" "read_state g s = (Inr (g s), s)"
  by (simp_all add: ret_def throw_def update_state_def read_state_def)

lemma and_then_simps [simp]:
  "m s = (Inl e, s') \<Longrightarrow> and_then m k s = (Inl e, s')"
  "m s = (Inr x, s') \<Longrightarrow> and_then m k s = k x s'"
  by (simp_all add: and_then_def)

lemma and_then_InrD:
  "and_then m k s = (Inr y, s'') \<Longrightarrow> \<exists>x s'. m s = (Inr x, s') \<and> k x s' = (Inr y, s'')"
  by (auto simp: and_then_def split: prod.splits sum.splits)

lemma and_then_cases:
  assumes "and_then m k s = (r, s'')"
  obtains (error) e where "m s = (Inl e, s'')" "r = Inl e"
    | (ok) x s' where "m s = (Inr x, s')" "k x s' = (r, s'')"
  using assms by (auto simp: and_then_def split: prod.splits sum.splits)

text \<open>A run that did not throw, as the pair of its value and its state.\<close>

lemma run_ok: "\<not> isl (fst (m s)) \<Longrightarrow> m s = (Inr (projr (fst (m s))), snd (m s))"
  by (cases "m s") (auto simp: sum.expand)

text \<open>
  What every operation keeps: a relation between the state before and after, reflexive and
  transitive, holds of a composed operation when it holds of the parts.
\<close>

locale preserved =
  fixes R :: "'s \<Rightarrow> 's \<Rightarrow> bool"
  assumes R_refl: "R s s"
    and R_trans: "R s s' \<Longrightarrow> R s' s'' \<Longrightarrow> R s s''"
begin

definition keeps :: "('e, 's, 'a) eff \<Rightarrow> bool" where
  "keeps m \<longleftrightarrow> (\<forall>s. R s (snd (m s)))"

lemma keeps_ret: "keeps (ret x)"
  and keeps_throw: "keeps (throw e)"
  and keeps_read: "keeps (read_state g)"
  by (simp_all add: keeps_def R_refl)

lemma keeps_update: "(\<And>s. R s (f s)) \<Longrightarrow> keeps (update_state f)"
  by (simp add: keeps_def)

lemma keeps_and_then: "keeps m \<Longrightarrow> (\<And>x. keeps (k x)) \<Longrightarrow> keeps (and_then m k)"
  unfolding keeps_def and_then_def
  by (auto split: prod.splits sum.splits) (metis R_trans snd_conv)+

lemma keeps_if: "keeps m \<Longrightarrow> keeps n \<Longrightarrow> keeps (if b then m else n)"
  by simp

lemma keeps_option: "keeps m \<Longrightarrow> (\<And>x. keeps (k x)) \<Longrightarrow> keeps (case v of None \<Rightarrow> m | Some x \<Rightarrow> k x)"
  by (cases v) auto

lemma keeps_sum: "(\<And>e. keeps (f e)) \<Longrightarrow> (\<And>x. keeps (k x)) \<Longrightarrow> keeps (case v of Inl e \<Rightarrow> f e | Inr x \<Rightarrow> k x)"
  by (cases v) auto

lemmas keeps_intros =
  keeps_ret keeps_throw keeps_read keeps_and_then keeps_if keeps_option keeps_sum

lemma keepsD: "keeps m \<Longrightarrow> m s = (r, s') \<Longrightarrow> R s s'"
  by (metis keeps_def snd_conv)

end

text \<open>The values of the results of \<open>Promise.allSettled\<close> that are fulfilled.\<close>

definition fulfilled :: "('e + 'a) list \<Rightarrow> 'a list" where
  "fulfilled results = map projr (filter (\<lambda>r. \<not> isl r) results)"

lemma fulfilled_simps [simp]:
  "fulfilled [] = []" "fulfilled (Inl e # rs) = fulfilled rs" "fulfilled (Inr x # rs) = x # fulfilled rs"
  by (simp_all add: fulfilled_def)

section \<open>Insertion-ordered Map and Set\<close>

text \<open>
  The interface of \<open>Map\<close>: what \<open>get\<close>, \<open>set\<close> and \<open>delete\<close> promise each other, and the order in
  which \<open>keys()\<close> enumerates.
\<close>

locale ordered_map =
  fixes get :: "'m \<Rightarrow> 'k \<Rightarrow> 'v option"
    and put :: "'k \<Rightarrow> 'v \<Rightarrow> 'm \<Rightarrow> 'm"
    and del :: "'k \<Rightarrow> 'm \<Rightarrow> 'm"
    and keys :: "'m \<Rightarrow> 'k list"
    and wf :: "'m \<Rightarrow> bool"
  assumes get_put: "get (put k v m) = (get m)(k := Some v)"
    and get_del: "get (del k m) = (get m)(k := None)"
    and keys_put: "keys (put k v m) = (if k \<in> set (keys m) then keys m else keys m @ [k])"
    and keys_del: "keys (del k m) = filter (\<lambda>x. x \<noteq> k) (keys m)"
    and get_keys: "get m k = None \<longleftrightarrow> k \<notin> set (keys m)"
    and wf_keys: "wf m \<longleftrightarrow> distinct (keys m)"
begin

lemma wf_put: "wf m \<Longrightarrow> wf (put k v m)"
  by (simp add: wf_keys keys_put)

lemma wf_del: "wf m \<Longrightarrow> wf (del k m)"
  by (simp add: wf_keys keys_del)

lemma get_Some_keys: "k \<in> set (keys m) \<longleftrightarrow> (\<exists>v. get m k = Some v)"
  using get_keys by (metis not_None_eq)

lemma keys_put_del: "k \<notin> set (keys m) \<Longrightarrow> keys (del k (put k v m)) = keys m"
  by (auto simp: keys_put keys_del filter_id_conv)

end

definition map_keys :: "('k \<times> 'v) list \<Rightarrow> 'k list" where
  "map_keys m = map fst m"

definition wf_map :: "('k \<times> 'v) list \<Rightarrow> bool" where
  "wf_map m = distinct (map fst m)"

lemma map_fst_update: "map fst (AList.update k v m) = (if k \<in> fst ` set m then map fst m else map fst m @ [k])"
  by (induction m) auto

lemma map_fst_delete: "map fst (AList.delete k m) = filter (\<lambda>x. x \<noteq> k) (map fst m)"
  by (induction m) auto

interpretation js_map: ordered_map map_of AList.update AList.delete map_keys wf_map
  by unfold_locales
    (auto simp: map_keys_def wf_map_def update_conv' delete_conv' map_fst_update map_fst_delete
      map_of_eq_None_iff)

text \<open>\<open>Set.prototype.add\<close> on a list without duplicates.\<close>

definition set_add :: "'a \<Rightarrow> 'a list \<Rightarrow> 'a list" where
  "set_add x xs = (if x \<in> set xs then xs else xs @ [x])"

text \<open>\<open>new Set(xs)\<close>: the first occurrence of every value, in order.\<close>

definition set_of_list :: "'a list \<Rightarrow> 'a list" where
  "set_of_list xs = foldl (\<lambda>acc x. set_add x acc) [] xs"

lemma set_set_add [simp]: "set (set_add x xs) = insert x (set xs)"
  by (auto simp: set_add_def)

lemma distinct_set_add [simp]: "distinct xs \<Longrightarrow> distinct (set_add x xs)"
  by (simp add: set_add_def)

lemma set_of_list_aux:
  "distinct acc \<Longrightarrow> distinct (foldl (\<lambda>acc x. set_add x acc) acc xs) \<and>
     set (foldl (\<lambda>acc x. set_add x acc) acc xs) = set acc \<union> set xs"
  by (induction xs arbitrary: acc) auto

lemma distinct_set_of_list [simp]: "distinct (set_of_list xs)"
  and set_set_of_list [simp]: "set (set_of_list xs) = set xs"
  using set_of_list_aux [of "[]" xs] by (simp_all add: set_of_list_def)

section \<open>Machines driven by events\<close>

text \<open>
  A component whose operations are called one after another is a step function; an invariant that
  every step keeps holds after any sequence of calls.
\<close>

locale machine =
  fixes step :: "'ev \<Rightarrow> 's \<Rightarrow> 's"
    and inv :: "'s \<Rightarrow> bool"
  assumes inv_step: "inv s \<Longrightarrow> inv (step e s)"
begin

lemma inv_run: "inv s \<Longrightarrow> inv (fold step es s)"
  by (induction es arbitrary: s) (simp_all add: inv_step)

end

end
