(* ===== verification/Account_Store.thy ===== *)
theory Account_Store
  imports JS_Prelude
begin

text \<open>
  The auth server's tables (apps/auth/src/database/schema.ts), the platform it runs on, and the
  queries of \<open>AccountService\<close> (apps/auth/src/account/account.service.ts).

  A table is the list of its rows. Every query of the service is a read of the first matching
  row or an update of the rows with one primary key. Code that is not in the repository is a
  field of \<open>auth_env\<close>: the clock, the random generators, \<open>bcryptjs\<close>, \<open>otplib\<close>, \<open>jose\<close>, and
  the comparisons MySQL makes with the columns' collations. One request reads one instant
  \<open>now_ms\<close>. A random value is drawn by its number: \<open>rand\<close> counts the draws.
\<close>

section \<open>Constants shared by the applications\<close>

definition MAX_FAIL_COUNT :: int where "MAX_FAIL_COUNT = 5"

definition PASSWORD_EXPIRY_DAYS :: int where "PASSWORD_EXPIRY_DAYS = 90"

definition ACCESS_TOKEN_EXPIRY :: string where "ACCESS_TOKEN_EXPIRY = ''1h''"

definition ACCESS_TOKEN_EXPIRY_SECONDS :: int where "ACCESS_TOKEN_EXPIRY_SECONDS = 3600"

definition REFRESH_TOKEN_EXPIRY :: string where "REFRESH_TOKEN_EXPIRY = ''4h''"

definition TWO_FACTOR_TOKEN_EXPIRY :: string where "TWO_FACTOR_TOKEN_EXPIRY = ''5m''"

definition JWT_ALGORITHM :: string where "JWT_ALGORITHM = ''RS256''"

definition JWT_ISSUER :: string where "JWT_ISSUER = ''auth-server''"

section \<open>Enumerations\<close>

datatype AccountStatus = ACTIVE | LOCKED | PENDING | IN_ACTIVE | DELETE

fun status_value :: "AccountStatus \<Rightarrow> string" where
  "status_value ACTIVE = ''ACTIVE''"
| "status_value LOCKED = ''LOCKED''"
| "status_value PENDING = ''PENDING''"
| "status_value IN_ACTIVE = ''IN_ACTIVE''"
| "status_value DELETE = ''DELETE''"

datatype UserType = ADMIN_BO | CUSTOMER_BO | KIOSK | DASHBOARD | PARTNER_BO | LOTTE_CARD_BO

fun user_type_value :: "UserType \<Rightarrow> string" where
  "user_type_value ADMIN_BO = ''ADMIN_BO''"
| "user_type_value CUSTOMER_BO = ''CUSTOMER_BO''"
| "user_type_value KIOSK = ''KIOSK''"
| "user_type_value DASHBOARD = ''DASHBOARD''"
| "user_type_value PARTNER_BO = ''PARTNER_BO''"
| "user_type_value LOTTE_CARD_BO = ''LOTTE_CARD_BO''"

definition TWO_FACTOR_REQUIRED_TYPES :: "string list" where
  "TWO_FACTOR_REQUIRED_TYPES =
     map user_type_value [ADMIN_BO, CUSTOMER_BO, PARTNER_BO, LOTTE_CARD_BO]"

lemma status_value_inj [simp]: "status_value s = status_value t \<longleftrightarrow> s = t"
  by (cases s; cases t) simp_all

lemma status_value_not_Nil [simp]: "status_value s \<noteq> []"
  by (cases s) simp_all

section \<open>Rows\<close>

text \<open>A \<open>varbinary\<close> column is read as a \<open>Buffer\<close>; the code also accepts a string.\<close>

datatype login_id = LoginBuffer string | LoginString string

record account =
  acc_id :: int
  acc_createdAt :: "int option"
  acc_email :: "string option"
  acc_failCount :: "int option"
  acc_lastLoginAt :: "int option"
  acc_loginId :: login_id
  acc_name :: "string option"
  acc_userType :: string
  acc_password :: "string option"
  acc_status :: "string option"
  acc_otpSecretKey :: "string option"
  acc_customerNo :: "string option"
  acc_lastPasswordChangedAt :: "int option"
  acc_updatedAt :: "int option"
  acc_ktmsAccessYn :: "string option"
  acc_userGroupId :: "int option"
  acc_roleType :: "string option"
  acc_menuGroupId :: "int option"
  acc_cashCourierYn :: string

record user_group =
  ug_id :: int
  ug_name :: string
  ug_type :: string
  ug_useYn :: string
  ug_email :: "string option"
  ug_createdAdm :: string
  ug_createdAt :: int
  ug_updatedAdm :: "string option"
  ug_updatedAt :: "int option"

record login_history =
  lh_loginId :: string
  lh_accountId :: "int option"
  lh_addrIp :: string
  lh_failCount :: "int option"
  lh_status :: "string option"
  lh_accessChannel :: "string option"
  lh_loginAt :: "int option"
  lh_failedAt :: "int option"

record auth_world =
  tb_account :: "account list"
  tb_user_group :: "user_group list"
  tb_login_history :: "login_history list"
  rand :: nat

section \<open>JSON Web Tokens as the libraries see them\<close>

text \<open>
  The claims the service writes or reads; a claim it does not set is \<open>None\<close>. A request is what
  the calls on \<open>SignJWT\<close> fix: the payload, the algorithm, the expiry span, issuer and subject.
\<close>

record jwt_claims =
  cl_sub :: "string option"
  cl_type :: "string option"
  cl_loginId :: "string option"
  cl_name :: "string option"
  cl_userType :: "string option"
  cl_roleType :: "string option"
  cl_customerNo :: "string option"
  cl_jti :: "string option"

record jwt_request =
  rq_payload :: jwt_claims
  rq_alg :: string
  rq_exp :: string
  rq_iss :: string
  rq_sub :: string

record auth_env =
  now_ms :: int
  node_env :: "string option"
  uuid :: "nat \<Rightarrow> string"
  otp_generate :: "nat \<Rightarrow> string"
  otp_keyuri :: "string \<Rightarrow> string \<Rightarrow> string \<Rightarrow> string"
  otp_verify :: "string \<Rightarrow> string \<Rightarrow> bool"
  bcrypt_compare :: "string \<Rightarrow> string \<Rightarrow> bool"
  bcrypt_hash :: "string \<Rightarrow> nat \<Rightarrow> nat \<Rightarrow> string"
  jose_sign :: "int \<Rightarrow> jwt_request \<Rightarrow> string"
  jose_verify :: "int \<Rightarrow> string \<Rightarrow> string \<Rightarrow> string list \<Rightarrow> jwt_claims option"
  login_id_eq :: "login_id \<Rightarrow> string \<Rightarrow> bool"
  user_type_eq :: "string \<Rightarrow> string \<Rightarrow> bool"
  utf8_decode :: "string \<Rightarrow> string"
  db_accepts :: "login_history \<Rightarrow> bool"

section \<open>Exceptions\<close>

datatype auth_error_key =
  ACCOUNT_PENDING | ACCOUNT_INACTIVE | ACCOUNT_DELETED | PASSWORD_EXPIRED | ACCOUNT_LOCKED
| INVALID_CREDENTIALS | INVALID_OTP | TOKEN_EXPIRED | INVALID_TOKEN_CLAIMS

record auth_error_exception =
  ex_errorCode :: string
  ex_errorMessage :: string
  ex_statusCode :: int
  ex_extensions :: "(string \<times> string) list"

text \<open>
  What an operation of the auth server can throw: its own exception, a rejected token or a wrong
  token type, a value that is not a function or object where one is read, a statement the database
  rejects, and the \<open>BadRequestException\<close> of the validation pipe.
\<close>

datatype exn =
  AuthErrorException auth_error_exception
| JwtRejected
| WrongTokenType string
| TypeErr
| DbRejected
| BadRequest string

type_synonym 'a auth_op = "(exn, auth_world, 'a) eff"

section \<open>A table with a primary key\<close>

text \<open>
  What a client of a table relies on: an update of the row with one key changes that row and no
  other. \<open>safe f\<close> says that \<open>f\<close> leaves the key alone.
\<close>

locale keyed_table =
  fixes find_row :: "'k \<Rightarrow> 'w \<Rightarrow> 'r option"
    and update_row :: "'k \<Rightarrow> ('r \<Rightarrow> 'r) \<Rightarrow> 'w \<Rightarrow> 'w"
    and key :: "'r \<Rightarrow> 'k"
  assumes find_update: "(\<And>r. key (f r) = key r) \<Longrightarrow>
      find_row j (update_row k f w) = (if j = k then map_option f (find_row j w) else find_row j w)"
    and update_update: "(\<And>r. key (f r) = key r) \<Longrightarrow>
      update_row k g (update_row k f w) = update_row k (\<lambda>r. g (f r)) w"
    and find_key: "find_row k w = Some r \<Longrightarrow> key r = k"
begin

lemma find_update_same:
  "(\<And>r. key (f r) = key r) \<Longrightarrow> find_row k w = Some r \<Longrightarrow> find_row k (update_row k f w) = Some (f r)"
  by (simp add: find_update)

lemma key_funpow: "(\<And>r. key (f r) = key r) \<Longrightarrow> key ((f ^^ n) r) = key r"
  by (induction n) simp_all

lemma find_update_funpow:
  assumes "\<And>r. key (f r) = key r"
  shows "find_row k ((update_row k f ^^ n) w) = map_option (f ^^ n) (find_row k w)"
proof (induction n)
  case 0
  then show ?case by (simp add: option.map_id [unfolded id_def])
next
  case (Suc n)
  then show ?case
    using assms by (cases "find_row k w") (simp_all add: find_update)
qed

end

definition find_account :: "int \<Rightarrow> auth_world \<Rightarrow> account option" where
  "find_account k w = find (\<lambda>a. acc_id a = k) (tb_account w)"

definition update_account :: "int \<Rightarrow> (account \<Rightarrow> account) \<Rightarrow> auth_world \<Rightarrow> auth_world" where
  "update_account k f w =
     w\<lparr>tb_account := map (\<lambda>a. if acc_id a = k then f a else a) (tb_account w)\<rparr>"

lemma find_map_update:
  assumes "\<And>r. key (f r) = key r"
  shows "find (\<lambda>a. key a = j) (map (\<lambda>a. if key a = k then f a else a) xs) =
    (if j = k then map_option f (find (\<lambda>a. key a = j) xs) else find (\<lambda>a. key a = j) xs)"
  by (induction xs) (auto simp: assms)

interpretation accounts: keyed_table find_account update_account acc_id
proof
  fix f :: "account \<Rightarrow> account" and j k w
  assume "\<And>r. acc_id (f r) = acc_id r"
  then show "find_account j (update_account k f w) =
      (if j = k then map_option f (find_account j w) else find_account j w)"
    by (simp add: find_account_def update_account_def find_map_update [where key = acc_id])
next
  fix f g :: "account \<Rightarrow> account" and k w
  assume "\<And>r. acc_id (f r) = acc_id r"
  then show "update_account k g (update_account k f w) = update_account k (\<lambda>r. g (f r)) w"
    by (simp add: update_account_def comp_def)
next
  fix k w and r :: account
  assume "find_account k w = Some r"
  then show "acc_id r = k" by (auto simp: find_account_def find_Some_iff)
qed

section \<open>The queries of AccountService\<close>

definition findByLoginIdAndUserType :: "auth_env \<Rightarrow> string \<Rightarrow> string \<Rightarrow> account option auth_op" where
  "findByLoginIdAndUserType env loginId userType =
     read_state (\<lambda>w. find (\<lambda>a. login_id_eq env (acc_loginId a) loginId \<and>
                              user_type_eq env (acc_userType a) userType) (tb_account w))"

text \<open>The id is a JavaScript number; \<open>NaN\<close> (here \<open>None\<close>) equals no key.\<close>

definition findById :: "int option \<Rightarrow> account option auth_op" where
  "findById key =
     read_state (\<lambda>w. case key of None \<Rightarrow> None | Some k \<Rightarrow> find_account k w)"

text \<open>\<open>fail_count + 1\<close> is SQL: it is \<open>NULL\<close> where the column is \<open>NULL\<close>.\<close>

definition incrementFailCount :: "int \<Rightarrow> unit auth_op" where
  "incrementFailCount k =
     update_state (update_account k (\<lambda>a. a\<lparr>acc_failCount := map_option (\<lambda>n. n + 1) (acc_failCount a)\<rparr>))"

definition lockAccount :: "int \<Rightarrow> unit auth_op" where
  "lockAccount k =
     update_state (update_account k (\<lambda>a. a\<lparr>acc_status := Some (status_value LOCKED)\<rparr>))"

definition resetFailCount :: "int \<Rightarrow> unit auth_op" where
  "resetFailCount k = update_state (update_account k (\<lambda>a. a\<lparr>acc_failCount := Some 0\<rparr>))"

definition resetFailCountAndUpdateLoginAt :: "auth_env \<Rightarrow> int \<Rightarrow> unit auth_op" where
  "resetFailCountAndUpdateLoginAt env k =
     update_state (update_account k
       (\<lambda>a. a\<lparr>acc_failCount := Some 0, acc_lastLoginAt := Some (now_ms env)\<rparr>))"

definition updateOtpSecretKey :: "int \<Rightarrow> string \<Rightarrow> unit auth_op" where
  "updateOtpSecretKey k otpSecretKey =
     update_state (update_account k (\<lambda>a. a\<lparr>acc_otpSecretKey := Some otpSecretKey\<rparr>))"

definition updatePassword :: "auth_env \<Rightarrow> int \<Rightarrow> string \<Rightarrow> unit auth_op" where
  "updatePassword env k hashedPassword =
     update_state (update_account k
       (\<lambda>a. a\<lparr>acc_password := Some hashedPassword, acc_lastPasswordChangedAt := Some (now_ms env)\<rparr>))"

lemmas account_ops =
  findByLoginIdAndUserType_def findById_def incrementFailCount_def lockAccount_def
  resetFailCount_def resetFailCountAndUpdateLoginAt_def updateOtpSecretKey_def updatePassword_def

lemma tb_login_history_update [simp]: "tb_login_history (update_account k f w) = tb_login_history w"
  and rand_update [simp]: "rand (update_account k f w) = rand w"
  by (simp_all add: update_account_def)

lemma find_account_frame [simp]:
  "find_account k (w\<lparr>tb_login_history := h\<rparr>) = find_account k w"
  "find_account k (w\<lparr>rand := n\<rparr>) = find_account k w"
  by (simp_all add: find_account_def)

lemma find_update_account [simp]:
  "(\<And>r. acc_id (f r) = acc_id r) \<Longrightarrow>
   find_account j (update_account k f w) =
     (if j = k then map_option f (find_account j w) else find_account j w)"
  by (rule accounts.find_update)

lemma find_account_id: "find_account k w = Some a \<Longrightarrow> acc_id a = k"
  by (rule accounts.find_key)

text \<open>
  What no operation of the auth server does: add, remove or renumber an account, change who the
  account is, or lose a row of the login history.
\<close>

definition account_identity :: "account \<Rightarrow> int \<times> login_id \<times> string \<times> string option \<times> string option \<times> string option" where
  "account_identity a =
     (acc_id a, acc_loginId a, acc_userType a, acc_name a, acc_roleType a, acc_customerNo a)"

definition db_extends :: "auth_world \<Rightarrow> auth_world \<Rightarrow> bool" where
  "db_extends w w' \<longleftrightarrow>
     map account_identity (tb_account w') = map account_identity (tb_account w) \<and>
     tb_user_group w' = tb_user_group w \<and>
     (\<exists>rows. tb_login_history w' = tb_login_history w @ rows) \<and>
     rand w \<le> rand w'"

interpretation db: preserved db_extends
  by unfold_locales (auto simp: db_extends_def intro: le_trans)

lemma db_extends_update_account:
  assumes "\<And>a. account_identity (f a) = account_identity a"
  shows "db_extends w (update_account k f w)"
  by (auto simp: db_extends_def update_account_def assms)

lemma keeps_account_ops:
  "db.keeps (findByLoginIdAndUserType env l u)" "db.keeps (findById i)"
  "db.keeps (incrementFailCount k)" "db.keeps (lockAccount k)" "db.keeps (resetFailCount k)"
  "db.keeps (resetFailCountAndUpdateLoginAt env k)" "db.keeps (updateOtpSecretKey k s)"
  "db.keeps (updatePassword env k s)"
  by (simp_all add: account_ops db.keeps_read db.keeps_update db_extends_update_account
      account_identity_def)

end
