(* ===== verification/Jwt_Tokens.thy ===== *)
theory Jwt_Tokens
  imports Account_Store
begin

text \<open>
  \<open>JwtTokenService\<close> (apps/auth/src/auth/jwt.service.ts), \<open>JwtStrategy.validate\<close>
  (apps/auth/src/auth/strategies/jwt.strategy.ts) and \<open>TotpService\<close>
  (apps/auth/src/auth/totp.service.ts). Signing and verification themselves are the library's
  (\<open>jose_sign\<close>, \<open>jose_verify\<close>); what the service fixes is the payload, the header, the expiry
  span, the issuer, the subject, the accepted algorithms and the check of the \<open>type\<close> claim.
\<close>

section \<open>Signing\<close>

definition no_claims :: jwt_claims where
  "no_claims = \<lparr>cl_sub = None, cl_type = None, cl_loginId = None, cl_name = None,
     cl_userType = None, cl_roleType = None, cl_customerNo = None, cl_jti = None\<rparr>"

text \<open>\<open>AccessTokenPayload\<close>, and the pair of a signed token and its id.\<close>

record access_payload =
  ap_sub :: string
  ap_loginId :: string
  ap_name :: string
  ap_userType :: string
  ap_roleType :: "string option"
  ap_customerNo :: string

record signed_token =
  st_token :: string
  st_jti :: string

definition access_request :: "access_payload \<Rightarrow> string \<Rightarrow> jwt_request" where
  "access_request p jti =
     \<lparr>rq_payload = no_claims\<lparr>cl_sub := Some (ap_sub p), cl_loginId := Some (ap_loginId p),
        cl_name := Some (ap_name p), cl_userType := Some (ap_userType p),
        cl_roleType := ap_roleType p, cl_customerNo := Some (ap_customerNo p), cl_jti := Some jti\<rparr>,
      rq_alg = JWT_ALGORITHM, rq_exp = ACCESS_TOKEN_EXPIRY, rq_iss = JWT_ISSUER, rq_sub = ap_sub p\<rparr>"

definition refresh_request :: "string \<Rightarrow> string \<Rightarrow> string \<Rightarrow> jwt_request" where
  "refresh_request sub userType jti =
     \<lparr>rq_payload = no_claims\<lparr>cl_sub := Some sub, cl_userType := Some userType, cl_jti := Some jti\<rparr>,
      rq_alg = JWT_ALGORITHM, rq_exp = REFRESH_TOKEN_EXPIRY, rq_iss = JWT_ISSUER, rq_sub = sub\<rparr>"

definition typed_request :: "string \<Rightarrow> string \<Rightarrow> string \<Rightarrow> jwt_request" where
  "typed_request ty sub userType =
     \<lparr>rq_payload = no_claims\<lparr>cl_sub := Some sub, cl_type := Some ty, cl_userType := Some userType\<rparr>,
      rq_alg = JWT_ALGORITHM, rq_exp = TWO_FACTOR_TOKEN_EXPIRY, rq_iss = JWT_ISSUER, rq_sub = sub\<rparr>"

text \<open>\<open>randomUUID()\<close> draws the next random value.\<close>

definition draw :: "(nat \<Rightarrow> 'a) \<Rightarrow> 'a auth_op" where
  "draw f = (\<lambda>w. (Inr (f (rand w)), w\<lparr>rand := Suc (rand w)\<rparr>))"

definition signAccessToken :: "auth_env \<Rightarrow> access_payload \<Rightarrow> signed_token auth_op" where
  "signAccessToken env payload =
     and_then (draw (uuid env)) (\<lambda>jti.
       ret \<lparr>st_token = jose_sign env (now_ms env) (access_request payload jti), st_jti = jti\<rparr>)"

definition signRefreshToken :: "auth_env \<Rightarrow> string \<Rightarrow> string \<Rightarrow> signed_token auth_op" where
  "signRefreshToken env sub userType =
     and_then (draw (uuid env)) (\<lambda>jti.
       ret \<lparr>st_token = jose_sign env (now_ms env) (refresh_request sub userType jti), st_jti = jti\<rparr>)"

definition signTwoFactorToken :: "auth_env \<Rightarrow> string \<Rightarrow> string \<Rightarrow> string auth_op" where
  "signTwoFactorToken env sub userType =
     ret (jose_sign env (now_ms env) (typed_request ''2fa'' sub userType))"

definition signPasswordChangeToken :: "auth_env \<Rightarrow> string \<Rightarrow> string \<Rightarrow> string auth_op" where
  "signPasswordChangeToken env sub userType =
     ret (jose_sign env (now_ms env) (typed_request ''password_change'' sub userType))"

section \<open>Verification\<close>

definition verifyToken :: "auth_env \<Rightarrow> string \<Rightarrow> jwt_claims auth_op" where
  "verifyToken env token =
     (case jose_verify env (now_ms env) token JWT_ISSUER [JWT_ALGORITHM] of
        None \<Rightarrow> throw JwtRejected | Some payload \<Rightarrow> ret payload)"

definition verifyTwoFactorToken :: "auth_env \<Rightarrow> string \<Rightarrow> (string option \<times> string option) auth_op" where
  "verifyTwoFactorToken env token =
     (case jose_verify env (now_ms env) token JWT_ISSUER [JWT_ALGORITHM] of
        None \<Rightarrow> throw JwtRejected
      | Some payload \<Rightarrow>
          if cl_type payload \<noteq> Some ''2fa'' then throw (WrongTokenType ''Invalid 2FA token type'')
          else ret (cl_sub payload, cl_userType payload))"

definition verifyPasswordChangeToken ::
  "auth_env \<Rightarrow> string \<Rightarrow> (string option \<times> string option) auth_op" where
  "verifyPasswordChangeToken env token =
     (case jose_verify env (now_ms env) token JWT_ISSUER [JWT_ALGORITHM] of
        None \<Rightarrow> throw JwtRejected
      | Some payload \<Rightarrow>
          if cl_type payload \<noteq> Some ''password_change''
          then throw (WrongTokenType ''Invalid password change token type'')
          else ret (cl_sub payload, cl_userType payload))"

text \<open>\<open>Number(payload.sub)\<close>: \<open>NaN\<close> for a missing subject.\<close>

definition number_of_sub :: "string option \<Rightarrow> int option" where
  "number_of_sub sub = (case sub of None \<Rightarrow> None | Some s \<Rightarrow> js_number s)"

text \<open>\<open>JwtStrategy.validate\<close>: the request's user is a projection of the claims.\<close>

record jwt_user =
  ju_userId :: "string option"
  ju_loginId :: "string option"
  ju_name :: "string option"
  ju_userType :: "string option"
  ju_roleType :: "string option"
  ju_customerNo :: "string option"

definition strategy_validate :: "jwt_claims \<Rightarrow> jwt_user" where
  "strategy_validate payload =
     \<lparr>ju_userId = cl_sub payload, ju_loginId = cl_loginId payload, ju_name = cl_name payload,
      ju_userType = cl_userType payload, ju_roleType = cl_roleType payload,
      ju_customerNo = cl_customerNo payload\<rparr>"

section \<open>One-time passwords\<close>

definition generateSecret :: "auth_env \<Rightarrow> string auth_op" where
  "generateSecret env = draw (otp_generate env)"

definition generateKeyUri :: "auth_env \<Rightarrow> string \<Rightarrow> string \<Rightarrow> string" where
  "generateKeyUri env username secret = otp_keyuri env username ''MX_ADMIN'' secret"

definition totp_verify :: "auth_env \<Rightarrow> string \<Rightarrow> string \<Rightarrow> bool" where
  "totp_verify env token secret = otp_verify env token secret"

section \<open>What the token operations do to the world\<close>

lemmas token_ops =
  draw_def signAccessToken_def signRefreshToken_def signTwoFactorToken_def
  signPasswordChangeToken_def verifyToken_def verifyTwoFactorToken_def
  verifyPasswordChangeToken_def generateSecret_def

lemma keeps_draw: "db.keeps (draw f)"
  by (simp add: db.keeps_def draw_def db_extends_def)

lemma keeps_token_ops:
  "db.keeps (signAccessToken env p)" "db.keeps (signRefreshToken env s u)"
  "db.keeps (signTwoFactorToken env s u)" "db.keeps (signPasswordChangeToken env s u)"
  "db.keeps (verifyToken env t)" "db.keeps (verifyTwoFactorToken env t)"
  "db.keeps (verifyPasswordChangeToken env t)" "db.keeps (generateSecret env)"
  unfolding signAccessToken_def signRefreshToken_def signTwoFactorToken_def
    signPasswordChangeToken_def verifyToken_def verifyTwoFactorToken_def
    verifyPasswordChangeToken_def generateSecret_def
  by (intro db.keeps_intros keeps_draw)+

text \<open>
  The three kinds of tokens cannot be confused by a verifier that checks \<open>type\<close>: a request
  carries the type claim only where the service sets it.
\<close>

lemma request_types [simp]:
  "cl_type (rq_payload (access_request p j)) = None"
  "cl_type (rq_payload (refresh_request s u j)) = None"
  "cl_type (rq_payload (typed_request ty s u)) = Some ty"
  "cl_sub (rq_payload (access_request p j)) = Some (ap_sub p)"
  "cl_sub (rq_payload (refresh_request s u j)) = Some s"
  "cl_sub (rq_payload (typed_request ty s u)) = Some s"
  by (simp_all add: access_request_def refresh_request_def typed_request_def no_claims_def)

lemma number_of_sub_simps [simp]:
  "number_of_sub None = None" "number_of_sub (Some (show_int k)) = Some k"
  by (simp_all add: number_of_sub_def)

end
