(* ===== verification/Login_History.thy ===== *)
theory Login_History
  imports Account_Store
begin

text \<open>
  \<open>LoginHistoryService\<close> (apps/auth/src/login-history/login-history.service.ts): one row of
  \<open>tb_login_history\<close> for a successful or a failed login. A success updates the account and
  inserts the row in one transaction: when the database rejects the row (\<open>db_accepts\<close>, for
  instance a value longer than its column), nothing is written.
\<close>

record login_meta =
  lm_clientIp :: string
  lm_accessChannel :: "string option"

definition normalizeLoginId :: "auth_env \<Rightarrow> login_id \<Rightarrow> string" where
  "normalizeLoginId env loginId =
     (case loginId of LoginString s \<Rightarrow> s | LoginBuffer b \<Rightarrow> utf8_decode env b)"

definition normalizeClientIp :: "string option \<Rightarrow> string" where
  "normalizeClientIp clientIp = or_default (map_option js_trim clientIp) ''unknown''"

definition insert_history :: "auth_env \<Rightarrow> login_history \<Rightarrow> unit auth_op" where
  "insert_history env row =
     (\<lambda>w. if db_accepts env row
          then (Inr (), w\<lparr>tb_login_history := tb_login_history w @ [row]\<rparr>)
          else (Inl DbRejected, w))"

text \<open>\<open>db.transaction\<close>: the writes of a callback that throws are undone.\<close>

definition transaction :: "'a auth_op \<Rightarrow> 'a auth_op" where
  "transaction m = (\<lambda>w. case m w of (Inl e, w') \<Rightarrow> (Inl e, w) | (Inr x, w') \<Rightarrow> (Inr x, w'))"

definition success_row :: "auth_env \<Rightarrow> account \<Rightarrow> login_meta \<Rightarrow> login_history" where
  "success_row env account meta =
     \<lparr>lh_loginId = normalizeLoginId env (acc_loginId account), lh_accountId = Some (acc_id account),
      lh_addrIp = normalizeClientIp (Some (lm_clientIp meta)), lh_failCount = Some 0,
      lh_status = acc_status account, lh_accessChannel = lm_accessChannel meta,
      lh_loginAt = Some (now_ms env), lh_failedAt = None\<rparr>"

definition recordSuccess :: "auth_env \<Rightarrow> account \<Rightarrow> login_meta \<Rightarrow> unit auth_op" where
  "recordSuccess env account meta =
     transaction
       (and_then
          (update_state (update_account (acc_id account)
             (\<lambda>a. a\<lparr>acc_failCount := Some 0, acc_lastLoginAt := Some (now_ms env)\<rparr>)))
          (\<lambda>_. insert_history env (success_row env account meta)))"

definition failure_row ::
  "auth_env \<Rightarrow> account \<Rightarrow> login_meta \<Rightarrow> int \<Rightarrow> string option \<Rightarrow> login_history" where
  "failure_row env account meta failCount status =
     \<lparr>lh_loginId = normalizeLoginId env (acc_loginId account), lh_accountId = Some (acc_id account),
      lh_addrIp = normalizeClientIp (Some (lm_clientIp meta)), lh_failCount = Some failCount,
      lh_status = status, lh_accessChannel = lm_accessChannel meta,
      lh_loginAt = None, lh_failedAt = Some (now_ms env)\<rparr>"

definition recordFailure ::
  "auth_env \<Rightarrow> account \<Rightarrow> login_meta \<Rightarrow> int \<Rightarrow> string option \<Rightarrow> unit auth_op" where
  "recordFailure env account meta failCount status =
     insert_history env (failure_row env account meta failCount status)"

lemma recordSuccess_run:
  "recordSuccess env a meta w =
     (if db_accepts env (success_row env a meta)
      then (Inr (), (update_account (acc_id a)
              (\<lambda>r. r\<lparr>acc_failCount := Some 0, acc_lastLoginAt := Some (now_ms env)\<rparr>) w)
              \<lparr>tb_login_history := tb_login_history w @ [success_row env a meta]\<rparr>)
      else (Inl DbRejected, w))"
  by (simp add: recordSuccess_def transaction_def and_then_def insert_history_def)

lemma recordFailure_run:
  "recordFailure env a meta n st w =
     (if db_accepts env (failure_row env a meta n st)
      then (Inr (), w\<lparr>tb_login_history := tb_login_history w @ [failure_row env a meta n st]\<rparr>)
      else (Inl DbRejected, w))"
  by (simp add: recordFailure_def insert_history_def)

lemma normalizeClientIp_not_Nil [simp]: "normalizeClientIp ip \<noteq> []"
  by (simp add: normalizeClientIp_def or_default_nonempty)

lemma keeps_insert_history: "db.keeps (insert_history env row)"
  by (simp add: db.keeps_def insert_history_def db_extends_def)

lemma keeps_transaction: "db.keeps m \<Longrightarrow> db.keeps (transaction m)"
  unfolding db.keeps_def transaction_def
  by (auto split: prod.splits sum.splits simp: db.R_refl) (metis snd_conv)

lemma keeps_history_ops:
  "db.keeps (recordSuccess env a meta)" "db.keeps (recordFailure env a meta n st)"
  unfolding recordSuccess_def recordFailure_def
  by (intro keeps_transaction db.keeps_and_then db.keeps_update keeps_insert_history
      db_extends_update_account; simp add: account_identity_def)+

end
