(* ===== verification/Auth_Service.thy ===== *)
theory Auth_Service
  imports Jwt_Tokens Login_History
begin

text \<open>
  \<open>AuthService\<close> (apps/auth/src/auth/auth.service.ts) and the error table
  (apps/auth/src/auth/constants/auth-error.ts): login with the lock-out rule, the second factor,
  the rotation of tokens, the change of a password. Every method is an operation on
  \<open>auth_world\<close>; an exception leaves the writes made before it.
\<close>

section \<open>The error table\<close>

record auth_error_entry =
  ae_code :: string
  ae_status :: int
  ae_message :: string

fun AUTH_ERROR :: "auth_error_key \<Rightarrow> auth_error_entry" where
  "AUTH_ERROR ACCOUNT_PENDING =
     \<lparr>ae_code = ''11001'', ae_status = 400,
      ae_message = ''%uC2B9%uC778%uC774 %uD544%uC694%uD55C %uACC4%uC815%uC785%uB2C8%uB2E4. %uAD00%uB9AC%uC790%uC5D0%uAC8C %uBB38%uC758%uD558%uC138%uC694.''\<rparr>"
| "AUTH_ERROR ACCOUNT_INACTIVE =
     \<lparr>ae_code = ''11002'', ae_status = 400,
      ae_message = ''%uC77C%uC2DC%uC801%uC73C%uB85C %uC0AC%uC6A9%uD560 %uC218 %uC5C6%uB294 %uACC4%uC815%uC785%uB2C8%uB2E4. %uAD00%uB9AC%uC790%uC5D0%uAC8C %uBB38%uC758%uD558%uC138%uC694.''\<rparr>"
| "AUTH_ERROR ACCOUNT_DELETED =
     \<lparr>ae_code = ''11003'', ae_status = 401,
      ae_message = ''%uC544%uC774%uB514%uC640 %uD328%uC2A4%uC6CC%uB4DC%uB97C %uD655%uC778%uD574%uC8FC%uC138%uC694.''\<rparr>"
| "AUTH_ERROR PASSWORD_EXPIRED =
     \<lparr>ae_code = ''11004'', ae_status = 400,
      ae_message = ''%uB9C8%uC9C0%uB9C9 %uD328%uC2A4%uC6CC%uB4DC %uBCC0%uACBD %uD6C4 90%uC77C%uC774 %uC9C0%uB0AC%uC2B5%uB2C8%uB2E4. %uD328%uC2A4%uC6CC%uB4DC%uB97C %uBCC0%uACBD%uD574%uC8FC%uC138%uC694.''\<rparr>"
| "AUTH_ERROR ACCOUNT_LOCKED =
     \<lparr>ae_code = ''11005'', ae_status = 403,
      ae_message = ''5%uD68C %uC774%uC0C1 %uB85C%uADF8%uC778%uC774 %uC2E4%uD328%uD558%uC5EC %uACC4%uC815%uC774 %uC7A0%uACBC%uC2B5%uB2C8%uB2E4. %uAD00%uB9AC%uC790%uC5D0%uAC8C %uBB38%uC758%uD558%uC138%uC694.''\<rparr>"
| "AUTH_ERROR INVALID_CREDENTIALS =
     \<lparr>ae_code = ''11010'', ae_status = 401,
      ae_message = ''%uC544%uC774%uB514%uC640 %uD328%uC2A4%uC6CC%uB4DC%uB97C %uD655%uC778%uD574%uC8FC%uC138%uC694.''\<rparr>"
| "AUTH_ERROR INVALID_OTP =
     \<lparr>ae_code = ''11011'', ae_status = 401,
      ae_message = ''OTP %uCF54%uB4DC%uAC00 %uC62C%uBC14%uB974%uC9C0 %uC54A%uC2B5%uB2C8%uB2E4.''\<rparr>"
| "AUTH_ERROR TOKEN_EXPIRED =
     \<lparr>ae_code = ''11012'', ae_status = 401,
      ae_message = ''%uC778%uC99D %uD1A0%uD070%uC774 %uB9CC%uB8CC%uB418%uC5C8%uC2B5%uB2C8%uB2E4.''\<rparr>"
| "AUTH_ERROR INVALID_TOKEN_CLAIMS =
     \<lparr>ae_code = ''11013'', ae_status = 500,
      ae_message = ''%uACC4%uC815 %uC778%uC99D %uC815%uBCF4%uAC00 %uC62C%uBC14%uB974%uC9C0 %uC54A%uC2B5%uB2C8%uB2E4. %uAD00%uB9AC%uC790%uC5D0%uAC8C %uBB38%uC758%uD558%uC138%uC694.''\<rparr>"

definition auth_exception :: "auth_error_key \<Rightarrow> (string \<times> string) list \<Rightarrow> exn" where
  "auth_exception k extensions =
     AuthErrorException \<lparr>ex_errorCode = ae_code (AUTH_ERROR k),
       ex_errorMessage = ae_message (AUTH_ERROR k), ex_statusCode = ae_status (AUTH_ERROR k),
       ex_extensions = extensions\<rparr>"

definition throwAuthError :: "auth_error_key \<Rightarrow> 'a auth_op" where
  "throwAuthError k = throw (auth_exception k [])"

text \<open>\<open>m.catch(() => this.throwAuthError(k))\<close>.\<close>

definition catch_with :: "auth_error_key \<Rightarrow> 'a auth_op \<Rightarrow> 'a auth_op" where
  "catch_with k m =
     (\<lambda>w. case m w of (Inl _, w') \<Rightarrow> throwAuthError k w' | (Inr x, w') \<Rightarrow> (Inr x, w'))"

lemma auth_exception_inj [simp]:
  "auth_exception k e = auth_exception k' e' \<longleftrightarrow> k = k' \<and> e = e'"
  by (cases k; cases k') (auto simp: auth_exception_def)

section \<open>Claims of an access token\<close>

definition requireNonBlank :: "string option \<Rightarrow> string auth_op" where
  "requireNonBlank value =
     (case map_option js_trim value of
        None \<Rightarrow> throwAuthError INVALID_TOKEN_CLAIMS
      | Some normalized \<Rightarrow>
          if normalized = [] then throwAuthError INVALID_TOKEN_CLAIMS else ret normalized)"

definition normalizeOptionalClaim :: "string option \<Rightarrow> string" where
  "normalizeOptionalClaim value = nullish_default (map_option js_trim value) []"

definition SPRING_COMPATIBLE_ROLE_TYPES :: "string list" where
  "SPRING_COMPATIBLE_ROLE_TYPES = [''SUPER_ADMIN'', ''ADMIN'', ''MEMBER'']"

definition normalizeRoleTypeClaim :: "string option \<Rightarrow> string option" where
  "normalizeRoleTypeClaim value =
     (case map_option js_trim value of
        None \<Rightarrow> None
      | Some roleType \<Rightarrow>
          if roleType = [] then None
          else if roleType \<in> set SPRING_COMPATIBLE_ROLE_TYPES then Some roleType else None)"

definition buildAccessTokenPayload :: "auth_env \<Rightarrow> account \<Rightarrow> access_payload auth_op" where
  "buildAccessTokenPayload env account =
     and_then (requireNonBlank (Some (show_int (acc_id account)))) (\<lambda>sub.
     and_then (requireNonBlank (Some (normalizeLoginId env (acc_loginId account)))) (\<lambda>loginId.
     and_then (requireNonBlank (acc_name account)) (\<lambda>name.
     and_then (requireNonBlank (Some (acc_userType account))) (\<lambda>userType.
       ret \<lparr>ap_sub = sub, ap_loginId = loginId, ap_name = name, ap_userType = userType,
            ap_roleType = normalizeRoleTypeClaim (acc_roleType account),
            ap_customerNo = normalizeOptionalClaim (acc_customerNo account)\<rparr>))))"

record auth_tokens =
  at_accessToken :: string
  at_refreshToken :: string
  at_expiresIn :: int

definition issueTokens :: "auth_env \<Rightarrow> account \<Rightarrow> auth_tokens auth_op" where
  "issueTokens env account =
     and_then (buildAccessTokenPayload env account) (\<lambda>payload.
     and_then (signAccessToken env payload) (\<lambda>accessResult.
     and_then (signRefreshToken env (ap_sub payload) (ap_userType payload)) (\<lambda>refreshResult.
       if js_trim (st_jti accessResult) = [] \<or> js_trim (st_jti refreshResult) = []
       then throwAuthError INVALID_TOKEN_CLAIMS
       else ret \<lparr>at_accessToken = st_token accessResult, at_refreshToken = st_token refreshResult,
                 at_expiresIn = ACCESS_TOKEN_EXPIRY_SECONDS\<rparr>)))"

section \<open>Password and account checks\<close>

text \<open>\<open>stored.replace(/^\{bcrypt\}/, '')\<close>.\<close>

definition strip_bcrypt :: "string \<Rightarrow> string" where
  "strip_bcrypt stored =
     (if starts_with ''{bcrypt}'' stored then drop (length ''{bcrypt}'') stored else stored)"

definition verifyPassword :: "auth_env \<Rightarrow> string \<Rightarrow> string option \<Rightarrow> bool" where
  "verifyPassword env plain stored =
     (case stored of
        None \<Rightarrow> False
      | Some s \<Rightarrow> if s = [] then False else bcrypt_compare env plain (strip_bcrypt s))"

definition hashPassword :: "auth_env \<Rightarrow> string \<Rightarrow> string auth_op" where
  "hashPassword env plain =
     and_then (draw (bcrypt_hash env plain 10)) (\<lambda>hash. ret (''{bcrypt}'' @ hash))"

text \<open>
  \<open>statusErrorMap[status]\<close> is a lookup in an object literal: the names it inherits from
  \<open>Object.prototype\<close> are found too, and then \<open>AUTH_ERROR\<close> has no entry for what was found.
\<close>

definition object_prototype_keys :: "string list" where
  "object_prototype_keys =
     [''constructor'', ''hasOwnProperty'', ''isPrototypeOf'', ''propertyIsEnumerable'',
      ''toLocaleString'', ''toString'', ''valueOf'', ''__defineGetter__'', ''__defineSetter__'',
      ''__lookupGetter__'', ''__lookupSetter__'', ''__proto__'']"

definition statusErrorMap :: "(string \<times> auth_error_key) list" where
  "statusErrorMap =
     [(status_value PENDING, ACCOUNT_PENDING), (status_value IN_ACTIVE, ACCOUNT_INACTIVE),
      (status_value DELETE, ACCOUNT_DELETED), (status_value LOCKED, ACCOUNT_LOCKED)]"

definition validateAccountStatus :: "string option \<Rightarrow> unit auth_op" where
  "validateAccountStatus status =
     (case status of
        None \<Rightarrow> ret ()
      | Some s \<Rightarrow>
          if s = [] \<or> s = status_value ACTIVE then ret ()
          else (case map_of statusErrorMap s of
                  Some errorKey \<Rightarrow> throwAuthError errorKey
                | None \<Rightarrow> if s \<in> set object_prototype_keys then throw TypeErr else ret ()))"

definition days_since :: "int \<Rightarrow> int \<Rightarrow> int" where
  "days_since now lastChanged = (now - lastChanged) div (1000 * 60 * 60 * 24)"

definition validatePasswordExpiry :: "auth_env \<Rightarrow> account \<Rightarrow> unit auth_op" where
  "validatePasswordExpiry env account =
     (case acc_lastPasswordChangedAt account of
        None \<Rightarrow> ret ()
      | Some lastChanged \<Rightarrow>
          if days_since (now_ms env) lastChanged \<ge> PASSWORD_EXPIRY_DAYS then
            and_then (signPasswordChangeToken env (show_int (acc_id account)) (acc_userType account))
              (\<lambda>passwordChangeToken.
                 throw (auth_exception PASSWORD_EXPIRED [(''passwordChangeToken'', passwordChangeToken)]))
          else ret ())"

section \<open>Failed and locked logins\<close>

definition handleFailedLogin :: "auth_env \<Rightarrow> account \<Rightarrow> login_meta \<Rightarrow> int \<Rightarrow> unit auth_op" where
  "handleFailedLogin env account meta newFailCount =
     and_then (incrementFailCount (acc_id account)) (\<lambda>_.
     and_then (if newFailCount \<ge> MAX_FAIL_COUNT then lockAccount (acc_id account) else ret ()) (\<lambda>_.
       recordFailure env account meta newFailCount
         (if newFailCount \<ge> MAX_FAIL_COUNT then Some (status_value LOCKED) else acc_status account)))"

definition handleLockedLogin :: "auth_env \<Rightarrow> account \<Rightarrow> login_meta \<Rightarrow> unit auth_op" where
  "handleLockedLogin env account meta =
     and_then (if acc_status account \<noteq> Some (status_value LOCKED)
               then lockAccount (acc_id account) else ret ()) (\<lambda>_.
       recordFailure env account meta (nullish_default (acc_failCount account) MAX_FAIL_COUNT)
         (Some (status_value LOCKED)))"

section \<open>Registration of the second factor\<close>

definition normalizeTotpAccountName :: "auth_env \<Rightarrow> account \<Rightarrow> string auth_op" where
  "normalizeTotpAccountName env account =
     (case map_option js_trim (acc_name account) of
        Some (c # n) \<Rightarrow> ret (c # n)
      | _ \<Rightarrow> requireNonBlank (Some (normalizeLoginId env (acc_loginId account))))"

definition createTotpRegistrationUrlIfRequired :: "auth_env \<Rightarrow> account \<Rightarrow> string option auth_op" where
  "createTotpRegistrationUrlIfRequired env account =
     (if acc_otpSecretKey account \<noteq> None \<and> acc_lastLoginAt account \<noteq> None then ret None
      else
        and_then (generateSecret env) (\<lambda>otpSecretKey.
        and_then (updateOtpSecretKey (acc_id account) otpSecretKey) (\<lambda>_.
        and_then (normalizeTotpAccountName env account) (\<lambda>username.
          ret (Some (generateKeyUri env username otpSecretKey))))))"

section \<open>The four entry points\<close>

text \<open>
  \<open>AuthResponse\<close>: the optional fields are absent (\<open>None\<close>) in the branches that do not set them;
  \<open>tOtpUrl\<close> may also be \<open>null\<close> (\<open>Some None\<close>).
\<close>

record auth_response =
  ar_requiresTwoFactor :: bool
  ar_tokens :: "auth_tokens option"
  ar_twoFactorToken :: "string option"
  ar_tOtpUrl :: "string option option"

definition login :: "auth_env \<Rightarrow> string \<Rightarrow> string \<Rightarrow> string \<Rightarrow> login_meta \<Rightarrow> auth_response auth_op" where
  "login env loginId password userType meta =
     and_then (findByLoginIdAndUserType env loginId userType) (\<lambda>found.
     case found of
       None \<Rightarrow> throwAuthError INVALID_CREDENTIALS
     | Some account \<Rightarrow>
         if acc_status account = Some (status_value LOCKED) \<or>
            nullish_default (acc_failCount account) 0 \<ge> MAX_FAIL_COUNT then
           and_then (handleLockedLogin env account meta) (\<lambda>_. throwAuthError ACCOUNT_LOCKED)
         else
           and_then (validateAccountStatus (acc_status account)) (\<lambda>_.
           if \<not> verifyPassword env password (acc_password account) then
             and_then (handleFailedLogin env account meta (nullish_default (acc_failCount account) 0 + 1))
               (\<lambda>_. throwAuthError INVALID_CREDENTIALS)
           else
             and_then (validatePasswordExpiry env account) (\<lambda>_.
             if userType \<in> set TWO_FACTOR_REQUIRED_TYPES then
               and_then (resetFailCount (acc_id account)) (\<lambda>_.
               and_then (signTwoFactorToken env (show_int (acc_id account)) userType) (\<lambda>twoFactorToken.
               and_then (createTotpRegistrationUrlIfRequired env account) (\<lambda>tOtpUrl.
                 ret \<lparr>ar_requiresTwoFactor = True, ar_tokens = None,
                      ar_twoFactorToken = Some twoFactorToken, ar_tOtpUrl = Some tOtpUrl\<rparr>)))
             else
               and_then (issueTokens env account) (\<lambda>tokens.
               and_then (recordSuccess env account meta) (\<lambda>_.
                 ret \<lparr>ar_requiresTwoFactor = False, ar_tokens = Some tokens,
                      ar_twoFactorToken = None, ar_tOtpUrl = None\<rparr>)))))"

definition verifyTwoFactor :: "auth_env \<Rightarrow> string \<Rightarrow> string \<Rightarrow> login_meta \<Rightarrow> auth_tokens auth_op" where
  "verifyTwoFactor env twoFactorToken totpCode meta =
     and_then (catch_with TOKEN_EXPIRED (verifyTwoFactorToken env twoFactorToken)) (\<lambda>(sub, _).
     and_then (findById (number_of_sub sub)) (\<lambda>found.
     case found of
       None \<Rightarrow> throwAuthError INVALID_CREDENTIALS
     | Some account \<Rightarrow>
         (case acc_otpSecretKey account of
            None \<Rightarrow> throwAuthError INVALID_CREDENTIALS
          | Some secret \<Rightarrow>
              if secret = [] then throwAuthError INVALID_CREDENTIALS
              else if node_env env = Some ''production'' \<and> \<not> totp_verify env totpCode secret
              then throwAuthError INVALID_OTP
              else
                and_then (issueTokens env account) (\<lambda>tokens.
                and_then (recordSuccess env account meta) (\<lambda>_. ret tokens)))))"

definition refreshTokens :: "auth_env \<Rightarrow> string \<Rightarrow> auth_tokens auth_op" where
  "refreshTokens env refreshToken =
     and_then (catch_with TOKEN_EXPIRED (verifyToken env refreshToken)) (\<lambda>payload.
     and_then (findById (number_of_sub (cl_sub payload))) (\<lambda>found.
     case found of
       None \<Rightarrow> throwAuthError INVALID_CREDENTIALS
     | Some account \<Rightarrow> issueTokens env account))"

record change_password_credential =
  cp_accessToken :: "string option"
  cp_passwordChangeToken :: "string option"

definition resolveChangePasswordAccountId ::
  "auth_env \<Rightarrow> change_password_credential \<Rightarrow> int option auth_op" where
  "resolveChangePasswordAccountId env credential =
     (case cp_passwordChangeToken credential of
        Some (c # t) \<Rightarrow>
          and_then (catch_with TOKEN_EXPIRED (verifyPasswordChangeToken env (c # t)))
            (\<lambda>(sub, _). ret (number_of_sub sub))
      | _ \<Rightarrow>
        (case cp_accessToken credential of
           Some (c # t) \<Rightarrow>
             and_then (catch_with TOKEN_EXPIRED (verifyToken env (c # t))) (\<lambda>payload.
               if truthy (cl_type payload) then throwAuthError TOKEN_EXPIRED
               else ret (number_of_sub (cl_sub payload)))
         | _ \<Rightarrow> throwAuthError TOKEN_EXPIRED))"

definition changePassword ::
  "auth_env \<Rightarrow> change_password_credential \<Rightarrow> string \<Rightarrow> string \<Rightarrow> bool auth_op" where
  "changePassword env credential currentPassword newPassword =
     and_then (resolveChangePasswordAccountId env credential) (\<lambda>accountId.
     and_then (findById accountId) (\<lambda>found.
     case found of
       None \<Rightarrow> throwAuthError INVALID_CREDENTIALS
     | Some account \<Rightarrow>
         if \<not> verifyPassword env currentPassword (acc_password account)
         then throwAuthError INVALID_CREDENTIALS
         else
           and_then (hashPassword env newPassword) (\<lambda>hashedPassword.
           and_then (updatePassword env (acc_id account) hashedPassword) (\<lambda>_. ret True))))"

end
