(* ===== verification/Auth_Example.thy ===== *)
theory Auth_Example
  imports Auth_Service
begin

text \<open>
  A concrete platform and a concrete database, on which the theorems about the auth server are
  applied: tokens are their claims written out, a password hash is the password, a one-time code
  is the secret, and the collations compare exactly.
\<close>

definition enc_claim :: "string option \<Rightarrow> string" where
  "enc_claim v = (case v of None \<Rightarrow> ''-'' | Some s \<Rightarrow> CHR ''+'' # s)"

definition dec_claim :: "string \<Rightarrow> string option" where
  "dec_claim v = (case v of c # s \<Rightarrow> if c = CHR ''+'' then Some s else None | [] \<Rightarrow> None)"

definition demo_sign :: "int \<Rightarrow> jwt_request \<Rightarrow> string" where
  "demo_sign now rq =
     (let c = rq_payload rq in
      join ''|'' (map enc_claim [cl_type c, cl_sub c, cl_userType c, cl_loginId c, cl_name c,
        cl_roleType c, cl_customerNo c, cl_jti c]))"

definition demo_verify :: "int \<Rightarrow> string \<Rightarrow> string \<Rightarrow> string list \<Rightarrow> jwt_claims option" where
  "demo_verify now token iss algs =
     (case map dec_claim (split_on (CHR ''|'') token) of
        [ty, sub, ut, li, nm, rt, cu, jt] \<Rightarrow>
          Some \<lparr>cl_sub = sub, cl_type = ty, cl_loginId = li, cl_name = nm, cl_userType = ut,
                cl_roleType = rt, cl_customerNo = cu, cl_jti = jt\<rparr>
      | _ \<Rightarrow> None)"

definition demo_env :: auth_env where
  "demo_env =
     \<lparr>now_ms = 1700000000000, node_env = Some ''production'', uuid = (\<lambda>n. ''id'' @ show_nat n),
      otp_generate = (\<lambda>n. ''S'' @ show_nat n), otp_keyuri = (\<lambda>a b c. ''otp:'' @ a @ b @ c),
      otp_verify = (\<lambda>t s. t = s), bcrypt_compare = (\<lambda>p h. p = h), bcrypt_hash = (\<lambda>p c n. p),
      jose_sign = demo_sign, jose_verify = demo_verify,
      login_id_eq = (\<lambda>i s. case i of LoginBuffer b \<Rightarrow> b = s | LoginString b \<Rightarrow> b = s),
      user_type_eq = (\<lambda>a b. a = b), utf8_decode = (\<lambda>b. b), db_accepts = (\<lambda>_. True)\<rparr>"

definition demo_account :: "string \<Rightarrow> account" where
  "demo_account userType =
     \<lparr>acc_id = 7, acc_createdAt = None, acc_email = None, acc_failCount = Some 0,
      acc_lastLoginAt = None, acc_loginId = LoginBuffer ''kim'', acc_name = Some ''Kim'',
      acc_userType = userType, acc_password = Some ''{bcrypt}pw'', acc_status = Some ''ACTIVE'',
      acc_otpSecretKey = None, acc_customerNo = None, acc_lastPasswordChangedAt = None,
      acc_updatedAt = None, acc_ktmsAccessYn = None, acc_userGroupId = None,
      acc_roleType = Some ''ADMIN'', acc_menuGroupId = None, acc_cashCourierYn = ''N''\<rparr>"

definition demo_world :: "account list \<Rightarrow> auth_world" where
  "demo_world accs = \<lparr>tb_account = accs, tb_user_group = [], tb_login_history = [], rand = 0\<rparr>"

lemma demo_world_simps [simp]:
  "tb_account (demo_world accs) = accs" "tb_login_history (demo_world accs) = []"
  "rand (demo_world accs) = 0"
  by (simp_all add: demo_world_def)

definition demo_meta :: login_meta where
  "demo_meta = \<lparr>lm_clientIp = ''10.0.0.1'', lm_accessChannel = None\<rparr>"

end
