(* ===== verification/Auth_Lockout.thy ===== *)
theory Auth_Lockout
  imports Auth_Example
begin

text \<open>
  The lock-out rule of \<open>AuthService.login\<close>: an abstract counter that an attempt moves, the proof
  that \<open>login\<close> implements it, and what follows for a series of attempts.
\<close>

section \<open>The account a login is about\<close>

definition login_account :: "auth_env \<Rightarrow> string \<Rightarrow> string \<Rightarrow> auth_world \<Rightarrow> account option" where
  "login_account env loginId userType w =
     find (\<lambda>a. login_id_eq env (acc_loginId a) loginId \<and> user_type_eq env (acc_userType a) userType)
       (tb_account w)"

lemma find_by_login [simp]:
  "findByLoginIdAndUserType env l u w = (Inr (login_account env l u w), w)"
  by (simp add: findByLoginIdAndUserType_def login_account_def)

lemma find_map_same:
  assumes "\<And>a. P (g a) = P a"
  shows "find P (map g xs) = map_option g (find P xs)"
  by (induction xs) (auto simp: assms)

lemma login_account_update:
  assumes "\<And>a. account_identity (f a) = account_identity a"
  shows "login_account env l u (update_account k f w) =
    map_option (\<lambda>a. if acc_id a = k then f a else a) (login_account env l u w)"
proof -
  have "acc_loginId (f a) = acc_loginId a \<and> acc_userType (f a) = acc_userType a" for a
    using assms [of a] by (simp add: account_identity_def)
  then show ?thesis
    unfolding login_account_def update_account_def by (simp add: find_map_same)
qed

lemma login_account_frame [simp]:
  "login_account env l u (w\<lparr>tb_login_history := h\<rparr>) = login_account env l u w"
  "login_account env l u (w\<lparr>rand := n\<rparr>) = login_account env l u w"
  by (simp_all add: login_account_def)

lemma login_account_tb: "tb_account w' = tb_account w \<Longrightarrow> login_account env l u w' = login_account env l u w"
  by (simp add: login_account_def)

section \<open>The abstract counter\<close>

datatype lock_state = Locked | Open int

definition lock_view :: "account \<Rightarrow> lock_state" where
  "lock_view a =
     (if acc_status a = Some (status_value LOCKED) \<or> nullish_default (acc_failCount a) 0 \<ge> MAX_FAIL_COUNT
      then Locked else Open (nullish_default (acc_failCount a) 0))"

text \<open>
  One attempt, with the right password or not: a locked account stays locked, a wrong password
  counts and the fifth locks, the right one starts again from zero or, where the login is refused
  for another reason, leaves the count alone.
\<close>

inductive lock_step :: "bool \<Rightarrow> lock_state \<Rightarrow> lock_state \<Rightarrow> bool" where
  stay_locked: "lock_step ok Locked Locked"
| count: "n + 1 < MAX_FAIL_COUNT \<Longrightarrow> lock_step False (Open n) (Open (n + 1))"
| lock: "n + 1 \<ge> MAX_FAIL_COUNT \<Longrightarrow> lock_step False (Open n) Locked"
| reset: "lock_step True (Open n) (Open 0)"
| refuse: "lock_step True (Open n) (Open n)"

inductive_simps lock_step_wrong: "lock_step False s t"
inductive_simps lock_step_right: "lock_step True s t"

inductive_cases lock_step_LockedE: "lock_step ok Locked t"

section \<open>What a login does to the accounts\<close>

text \<open>Building and signing tokens only draws random values.\<close>

definition only_draws :: "auth_world \<Rightarrow> auth_world \<Rightarrow> bool" where
  "only_draws w w' \<longleftrightarrow> w\<lparr>rand := 0\<rparr> = w'\<lparr>rand := 0\<rparr>"

interpretation quiet: preserved only_draws
  by unfold_locales (simp_all add: only_draws_def)

lemma only_drawsD:
  "only_draws w w' \<Longrightarrow> tb_account w' = tb_account w \<and> tb_login_history w' = tb_login_history w \<and>
     tb_user_group w' = tb_user_group w"
  unfolding only_draws_def by (cases w; cases w') simp

lemma quiet_throw [simp]: "quiet.keeps (throwAuthError k)"
  by (simp add: throwAuthError_def quiet.keeps_throw)

lemma quiet_draw: "quiet.keeps (draw f)"
  by (simp add: quiet.keeps_def draw_def only_draws_def)

lemma quiet_tokens:
  "quiet.keeps (signAccessToken env p)" "quiet.keeps (signRefreshToken env s u)"
  "quiet.keeps (signTwoFactorToken env s u)" "quiet.keeps (signPasswordChangeToken env s u)"
  "quiet.keeps (generateSecret env)"
  unfolding signAccessToken_def signRefreshToken_def signTwoFactorToken_def
    signPasswordChangeToken_def generateSecret_def
  by (intro quiet.keeps_intros quiet_draw)+

lemma quiet_requireNonBlank: "quiet.keeps (requireNonBlank v)"
  unfolding requireNonBlank_def by (intro quiet.keeps_intros quiet_throw)

lemma quiet_issueTokens: "quiet.keeps (issueTokens env a)"
  unfolding issueTokens_def buildAccessTokenPayload_def
  by (intro quiet.keeps_intros quiet_throw quiet_tokens quiet_requireNonBlank)

lemma quiet_validate: "quiet.keeps (validateAccountStatus s)" "quiet.keeps (validatePasswordExpiry env a)"
  unfolding validateAccountStatus_def validatePasswordExpiry_def
  by (intro quiet.keeps_intros quiet_throw quiet_tokens)+

lemma issueTokens_quiet: "issueTokens env a w = (r, w') \<Longrightarrow> only_draws w w'"
  by (rule quiet.keepsD [OF quiet_issueTokens])

section \<open>The three kinds of attempts\<close>

definition live_status :: "string option \<Rightarrow> bool" where
  "live_status s \<longleftrightarrow> s \<in> {None, Some (status_value ACTIVE), Some (status_value LOCKED)}"

lemma validate_live:
  "live_status s \<Longrightarrow> s \<noteq> Some (status_value LOCKED) \<Longrightarrow> validateAccountStatus s w = (Inr (), w)"
  by (auto simp: live_status_def validateAccountStatus_def)

lemma lock_view_Locked:
  "lock_view a = Locked \<longleftrightarrow>
     acc_status a = Some (status_value LOCKED) \<or> nullish_default (acc_failCount a) 0 \<ge> MAX_FAIL_COUNT"
  by (simp add: lock_view_def)

lemma login_locked:
  assumes "login_account env l u w = Some a" and "lock_view a = Locked"
  shows "login env l p u meta w =
    and_then (handleLockedLogin env a meta) (\<lambda>_. throwAuthError ACCOUNT_LOCKED) w"
  using assms by (simp add: login_def and_then_def lock_view_Locked)

lemma login_wrong:
  assumes "login_account env l u w = Some a" and "lock_view a = Open n"
    and "live_status (acc_status a)" and "\<not> verifyPassword env p (acc_password a)"
  shows "login env l p u meta w =
    and_then (handleFailedLogin env a meta (nullish_default (acc_failCount a) 0 + 1))
      (\<lambda>_. throwAuthError INVALID_CREDENTIALS) w"
proof -
  from assms(2) have open_a: "acc_status a \<noteq> Some (status_value LOCKED)"
    "\<not> nullish_default (acc_failCount a) 0 \<ge> MAX_FAIL_COUNT"
    using lock_view_Locked [of a] by auto
  with assms validate_live [of "acc_status a" w] show ?thesis
    by (simp add: login_def and_then_def)
qed

text \<open>The part of \<open>login\<close> after all its checks.\<close>

abbreviation login_accepted ::
  "auth_env \<Rightarrow> account \<Rightarrow> string \<Rightarrow> login_meta \<Rightarrow> auth_response auth_op" where
  "login_accepted env a u meta \<equiv>
     if u \<in> set TWO_FACTOR_REQUIRED_TYPES then
       and_then (resetFailCount (acc_id a)) (\<lambda>_.
       and_then (signTwoFactorToken env (show_int (acc_id a)) u) (\<lambda>twoFactorToken.
       and_then (createTotpRegistrationUrlIfRequired env a) (\<lambda>tOtpUrl.
         ret \<lparr>ar_requiresTwoFactor = True, ar_tokens = None,
              ar_twoFactorToken = Some twoFactorToken, ar_tOtpUrl = Some tOtpUrl\<rparr>)))
     else
       and_then (issueTokens env a) (\<lambda>tokens.
       and_then (recordSuccess env a meta) (\<lambda>_.
         ret \<lparr>ar_requiresTwoFactor = False, ar_tokens = Some tokens,
              ar_twoFactorToken = None, ar_tOtpUrl = None\<rparr>))"

lemma login_right:
  assumes "login_account env l u w = Some a" and "lock_view a = Open n"
    and "live_status (acc_status a)" and "verifyPassword env p (acc_password a)"
  shows "login env l p u meta w =
    and_then (validatePasswordExpiry env a) (\<lambda>_.
      login_accepted env a u meta) w"
proof -
  from assms(2) have open_a: "acc_status a \<noteq> Some (status_value LOCKED)"
    "\<not> nullish_default (acc_failCount a) 0 \<ge> MAX_FAIL_COUNT"
    using lock_view_Locked [of a] by auto
  with assms validate_live [of "acc_status a" w] show ?thesis
    by (simp add: login_def and_then_def)
qed

lemma set_same_status: "acc_status a = s \<Longrightarrow> a\<lparr>acc_status := s\<rparr> = a"
  by (cases a) simp

lemma locked_after:
  assumes "login_account env l u w = Some a" and "lock_view a = Locked"
    and "login env l p u meta w = (r, w')"
  shows "login_account env l u w' = Some (a\<lparr>acc_status := Some (status_value LOCKED)\<rparr>)"
    and "r = Inl (auth_exception ACCOUNT_LOCKED []) \<or> r = Inl DbRejected"
  using assms(1,3) unfolding login_locked [OF assms(1,2)]
  by (auto simp: handleLockedLogin_def and_then_def lockAccount_def recordFailure_run
      login_account_update account_identity_def throwAuthError_def
      set_same_status split: if_splits)

lemma wrong_after:
  assumes "login_account env l u w = Some a" and "lock_view a = Open n"
    and "live_status (acc_status a)" and "\<not> verifyPassword env p (acc_password a)"
    and "login env l p u meta w = (r, w')"
  shows "login_account env l u w' = Some
      (if n + 1 \<ge> MAX_FAIL_COUNT
       then a\<lparr>acc_failCount := map_option (\<lambda>n. n + 1) (acc_failCount a),
              acc_status := Some (status_value LOCKED)\<rparr>
       else a\<lparr>acc_failCount := map_option (\<lambda>n. n + 1) (acc_failCount a)\<rparr>)"
    and "r = Inl (auth_exception INVALID_CREDENTIALS []) \<or> r = Inl DbRejected"
proof -
  from assms(2) have n: "n = nullish_default (acc_failCount a) 0"
    by (auto simp: lock_view_def split: if_splits)
  show "login_account env l u w' = Some
      (if n + 1 \<ge> MAX_FAIL_COUNT
       then a\<lparr>acc_failCount := map_option (\<lambda>n. n + 1) (acc_failCount a),
              acc_status := Some (status_value LOCKED)\<rparr>
       else a\<lparr>acc_failCount := map_option (\<lambda>n. n + 1) (acc_failCount a)\<rparr>)"
    and "r = Inl (auth_exception INVALID_CREDENTIALS []) \<or> r = Inl DbRejected"
    using assms(1,5) unfolding login_wrong [OF assms(1-4)] n
    by (auto simp: handleFailedLogin_def and_then_def lockAccount_def incrementFailCount_def
        recordFailure_run login_account_update account_identity_def throwAuthError_def
        split: if_splits)
qed

lemma quiet_account: "only_draws w w' \<Longrightarrow> login_account env l u w' = login_account env l u w"
  by (rule login_account_tb) (blast dest: only_drawsD)

lemma quiet_totp_name: "quiet.keeps (normalizeTotpAccountName env a)"
  unfolding normalizeTotpAccountName_def
  by (simp add: quiet.keeps_ret quiet_requireNonBlank split: option.split list.split)

text \<open>What the registration of a second factor writes: only secret keys.\<close>

definition no_otp :: "account \<Rightarrow> account" where
  "no_otp a = a\<lparr>acc_otpSecretKey := None\<rparr>"

definition otp_only :: "auth_world \<Rightarrow> auth_world \<Rightarrow> bool" where
  "otp_only w w' \<longleftrightarrow>
     map no_otp (tb_account w') = map no_otp (tb_account w) \<and> tb_login_history w' = tb_login_history w"

interpretation otp: preserved otp_only
  by unfold_locales (simp_all add: otp_only_def)

lemma quiet_otp_only: "only_draws w w' \<Longrightarrow> otp_only w w'"
  unfolding otp_only_def by (auto dest: only_drawsD)

lemma quiet_otp: "quiet.keeps m \<Longrightarrow> otp.keeps m"
  by (simp add: quiet.keeps_def otp.keeps_def quiet_otp_only)

lemma otp_updateOtpSecretKey: "otp.keeps (updateOtpSecretKey k s)"
  unfolding updateOtpSecretKey_def
  by (rule otp.keeps_update) (simp add: otp_only_def update_account_def no_otp_def)

lemma otp_createTotp: "otp.keeps (createTotpRegistrationUrlIfRequired env a)"
  unfolding createTotpRegistrationUrlIfRequired_def
  by (intro otp.keeps_intros otp_updateOtpSecretKey quiet_otp quiet_totp_name quiet_tokens)

lemma otp_only_account:
  assumes "otp_only w w'"
  shows "map_option no_otp (login_account env l u w') = map_option no_otp (login_account env l u w)"
proof -
  let ?P = "\<lambda>a. login_id_eq env (acc_loginId a) l \<and> user_type_eq env (acc_userType a) u"
  have "map_option no_otp (find ?P xs) = find ?P (map no_otp xs)" for xs
    by (rule find_map_same [symmetric]) (simp add: no_otp_def)
  with assms show ?thesis by (simp add: login_account_def otp_only_def)
qed

lemma otp_only_fields:
  assumes "otp_only w w'" and "login_account env l u w = Some a"
  obtains a' where "login_account env l u w' = Some a'" "no_otp a' = no_otp a"
    "acc_status a' = acc_status a" "acc_failCount a' = acc_failCount a"
    "acc_password a' = acc_password a"
proof -
  from otp_only_account [OF assms(1), of env l u] assms(2) obtain a'
    where a': "login_account env l u w' = Some a'" "no_otp a' = no_otp a" by auto
  then have "acc_status (no_otp a') = acc_status (no_otp a)"
    "acc_failCount (no_otp a') = acc_failCount (no_otp a)"
    "acc_password (no_otp a') = acc_password (no_otp a)" by simp_all
  then have "acc_status a' = acc_status a" "acc_failCount a' = acc_failCount a"
    "acc_password a' = acc_password a" by (simp_all add: no_otp_def)
  with a' that show thesis by blast
qed

text \<open>The right password: refused or accepted, never counted.\<close>

lemma right_after:
  assumes found: "login_account env l u w = Some a" and "lock_view a = Open n"
    and "live_status (acc_status a)" and "verifyPassword env p (acc_password a)"
    and run: "login env l p u meta w = (r, w')"
  shows "\<exists>a'. login_account env l u w' = Some a' \<and> acc_status a' = acc_status a \<and>
    acc_password a' = acc_password a \<and>
    (acc_failCount a' = Some 0 \<or> acc_failCount a' = acc_failCount a \<and> isl r)"
proof -
  note run' = run [unfolded login_right [OF assms(1-4)]]
  obtain q v where exp: "validatePasswordExpiry env a w = (q, v)" by fastforce
  then have dv: "only_draws w v" by (rule quiet.keepsD [OF quiet_validate(2)])
  with found have v: "login_account env l u v = Some a" by (simp add: quiet_account)
  show ?thesis
  proof (cases q)
    case (Inl e)
    with exp run' have "r = Inl e" "w' = v" by (simp_all add: and_then_def)
    with v show ?thesis by simp
  next
    case (Inr x)
    show ?thesis
    proof (cases "u \<in> set TWO_FACTOR_REQUIRED_TYPES")
      case True
      let ?w1 = "update_account (acc_id a) (\<lambda>a. a\<lparr>acc_failCount := Some 0\<rparr>) v"
      have "otp_only ?w1 w'"
        using run' exp Inr True unfolding and_then_def
        by (simp add: resetFailCount_def signTwoFactorToken_def)
          (rule otp.keepsD [OF otp.keeps_and_then [OF otp_createTotp otp.keeps_ret]],
            simp add: and_then_def)
      moreover have "login_account env l u ?w1 = Some (a\<lparr>acc_failCount := Some 0\<rparr>)"
        using v by (simp add: login_account_update account_identity_def)
      ultimately show ?thesis by (auto elim!: otp_only_fields)
    next
      case False
      obtain q2 v2 where tok: "issueTokens env a v = (q2, v2)" by fastforce
      then have "only_draws v v2" by (rule issueTokens_quiet)
      with v have v2: "login_account env l u v2 = Some a" by (simp add: quiet_account)
      show ?thesis
      proof (cases q2)
        case (Inl e)
        with tok exp Inr False run' have "r = Inl e" "w' = v2" by (simp_all add: and_then_def)
        with v2 show ?thesis by simp
      next
        case (Inr t)
        with tok exp \<open>q = Inr x\<close> False run' v2 show ?thesis
          by (auto simp: and_then_def recordSuccess_run login_account_update account_identity_def
              split: if_splits)
      qed
    qed
  qed
qed

section \<open>Series of attempts\<close>

text \<open>The world after logins with the passwords \<open>ps\<close>, whatever each of them answered.\<close>

definition run_logins ::
  "auth_env \<Rightarrow> string \<Rightarrow> string \<Rightarrow> login_meta \<Rightarrow> string list \<Rightarrow> auth_world \<Rightarrow> auth_world" where
  "run_logins env l u meta ps w = fold (\<lambda>p v. snd (login env l p u meta v)) ps w"

text \<open>
  \<open>live_login env l u pw s w\<close>: the login finds an account with the stored password \<open>pw\<close> and a
  counter, neither pending nor closed, whose abstract counter is \<open>s\<close>.
\<close>

definition live_login ::
  "auth_env \<Rightarrow> string \<Rightarrow> string \<Rightarrow> string option \<Rightarrow> lock_state \<Rightarrow> auth_world \<Rightarrow> bool" where
  "live_login env l u pw s w \<longleftrightarrow>
     (case login_account env l u w of
        None \<Rightarrow> False
      | Some a \<Rightarrow> live_status (acc_status a) \<and> acc_failCount a \<noteq> None \<and> acc_password a = pw \<and>
                   lock_view a = s)"

lemma live_login_step:
  assumes "live_login env l u pw s w" and run: "login env l p u meta w = (r, w')"
  shows "\<exists>s'. live_login env l u pw s' w' \<and> lock_step (verifyPassword env p pw) s s' \<and>
    (isl r \<or> s' = Open 0)"
proof -
  obtain a n where a: "login_account env l u w = Some a" "live_status (acc_status a)"
    "acc_failCount a = Some n" "acc_password a = pw" "lock_view a = s"
    using assms(1) by (auto simp: live_login_def split: option.splits)
  show ?thesis
  proof (cases s)
    case Locked
    have "live_login env l u pw Locked w'"
      using locked_after(1) [OF a(1) _ run] a Locked
      by (simp add: live_login_def live_status_def lock_view_def)
    moreover have "isl r" using locked_after(2) [OF a(1) _ run] a Locked by auto
    ultimately show ?thesis using Locked lock_step.stay_locked by blast
  next
    case (Open m)
    with a have m: "m = n" "n < MAX_FAIL_COUNT" "acc_status a \<noteq> Some (status_value LOCKED)"
      by (auto simp: lock_view_def split: if_splits)
    show ?thesis
    proof (cases "verifyPassword env p pw")
      case True
      with right_after [OF a(1) _ a(2) _ run] a Open obtain a'
        where a': "login_account env l u w' = Some a'" "acc_status a' = acc_status a"
          "acc_password a' = pw" "acc_failCount a' = Some 0 \<or> acc_failCount a' = Some n \<and> isl r"
        by auto
      then have "live_login env l u pw (lock_view a') w'"
        using a by (auto simp: live_login_def)
      moreover have "lock_view a' = Open 0 \<or> lock_view a' = Open n \<and> isl r"
        using a' m by (auto simp: lock_view_def MAX_FAIL_COUNT_def)
      ultimately show ?thesis using Open m True lock_step.reset lock_step.refuse by metis
    next
      case False
      have wrong: "\<not> verifyPassword env p (acc_password a)" using False a by simp
      let ?s = "if n + 1 \<ge> MAX_FAIL_COUNT then Locked else Open (n + 1)"
      from a Open have "lock_view a = Open m" by simp
      from wrong_after [OF a(1) this a(2) wrong run] m a
      have "live_login env l u pw ?s w'" "isl r"
        by (auto simp: live_login_def live_status_def lock_view_def)
      moreover have "lock_step False (Open n) ?s" by (simp add: lock_step.count lock_step.lock)
      ultimately show ?thesis using False Open m by auto
    qed
  qed
qed

lemma live_login_run:
  assumes "live_login env l u pw s w" and "\<forall>p \<in> set ps. \<not> verifyPassword env p pw"
    and "s = Locked \<or> (\<exists>n < MAX_FAIL_COUNT. s = Open n)"
  shows "live_login env l u pw
    (case s of Locked \<Rightarrow> Locked
     | Open n \<Rightarrow> if n + int (length ps) \<ge> MAX_FAIL_COUNT then Locked else Open (n + int (length ps)))
    (run_logins env l u meta ps w)"
  using assms
proof (induction ps arbitrary: w s)
  case Nil
  then show ?case by (auto simp: run_logins_def)
next
  case (Cons p ps)
  obtain r w1 where run: "login env l p u meta w = (r, w1)" by fastforce
  from live_login_step [OF Cons.prems(1) run] Cons.prems(2) obtain s1
    where s1: "live_login env l u pw s1 w1" "lock_step False s s1" by auto
  from s1(2) Cons.prems(3) have "s1 = Locked \<or> (\<exists>n < MAX_FAIL_COUNT. s1 = Open n)"
    by (auto simp: lock_step_wrong)
  from Cons.IH [OF s1(1) _ this] Cons.prems(2)
  have "live_login env l u pw
    (case s1 of Locked \<Rightarrow> Locked
     | Open n \<Rightarrow> if n + int (length ps) \<ge> MAX_FAIL_COUNT then Locked else Open (n + int (length ps)))
    (run_logins env l u meta (p # ps) w)"
    using run by (simp add: run_logins_def)
  moreover have "(case s1 of Locked \<Rightarrow> Locked
     | Open n \<Rightarrow> if n + int (length ps) \<ge> MAX_FAIL_COUNT then Locked else Open (n + int (length ps))) =
    (case s of Locked \<Rightarrow> Locked
     | Open n \<Rightarrow> if n + int (length (p # ps)) \<ge> MAX_FAIL_COUNT then Locked
                 else Open (n + int (length (p # ps))))"
    using s1(2) by (auto simp: lock_step_wrong)
  ultimately show ?case by simp
qed

section \<open>Properties\<close>

text \<open>C1: \<open>login\<close> implements the abstract lock-out counter. For an account that is neither pending
  nor closed and whose \<open>fail_count\<close> is not \<open>NULL\<close>, every login moves the counter by one step of
  \<open>lock_step\<close> with the outcome of the password check, whatever else happens in the request; a
  login that answers with a response leaves the counter at zero.\<close>

theorem login_implements_lockout:
  assumes "live_login env l u pw s w" and "login env l p u meta w = (r, w')"
  shows "\<exists>s'. live_login env l u pw s' w' \<and> lock_step (verifyPassword env p pw) s s' \<and>
    (isl r \<or> s' = Open 0)"
  using assms by (rule live_login_step)

lemma login_implements_lockout_witness:
  "\<exists>s'. live_login demo_env ''kim'' ''KIOSK'' (Some ''{bcrypt}pw'') s'
      (snd (login demo_env ''kim'' ''no'' ''KIOSK'' demo_meta (demo_world [demo_account ''KIOSK'']))) \<and>
    lock_step (verifyPassword demo_env ''no'' (Some ''{bcrypt}pw'')) (Open 0) s' \<and>
    (isl (fst (login demo_env ''kim'' ''no'' ''KIOSK'' demo_meta (demo_world [demo_account ''KIOSK'']))) \<or>
     s' = Open 0)"
  by (rule login_implements_lockout [OF _ prod.collapse [symmetric]]) code_simp

text \<open>C2: five wrong passwords in a row lock the account: after them even the right password, and
  any other, is answered with \<open>ACCOUNT_LOCKED\<close>; after fewer the count is exact and the account
  is open.\<close>

theorem lockout_after_five:
  assumes "live_login env l u pw (Open 0) w" and "\<forall>p \<in> set ps. \<not> verifyPassword env p pw"
    and "\<forall>row. db_accepts env row"
  shows "if length ps \<ge> 5
    then fst (login env l q u meta (run_logins env l u meta ps w)) = Inl (auth_exception ACCOUNT_LOCKED [])
    else live_login env l u pw (Open (int (length ps))) (run_logins env l u meta ps w)"
proof -
  have run: "live_login env l u pw (if length ps \<ge> 5 then Locked else Open (int (length ps)))
      (run_logins env l u meta ps w)"
    using live_login_run [OF assms(1,2)] by (auto simp: MAX_FAIL_COUNT_def split: if_splits)
  show ?thesis
  proof (cases "length ps \<ge> 5")
    case True
    let ?w = "run_logins env l u meta ps w"
    from run True obtain a where a: "login_account env l u ?w = Some a" "lock_view a = Locked"
      by (auto simp: live_login_def split: option.splits)
    have "fst (login env l q u meta ?w) = Inl (auth_exception ACCOUNT_LOCKED [])"
      unfolding login_locked [OF a] using assms(3)
      by (simp add: handleLockedLogin_def and_then_def lockAccount_def recordFailure_run
          throwAuthError_def)
    with True show ?thesis by simp
  qed (use run in simp)
qed

lemma lockout_after_five_witness:
  "fst (login demo_env ''kim'' ''pw'' ''KIOSK'' demo_meta
     (run_logins demo_env ''kim'' ''KIOSK'' demo_meta [''a'', ''b'', ''c'', ''d'', ''e'']
       (demo_world [demo_account ''KIOSK'']))) = Inl (auth_exception ACCOUNT_LOCKED [])"
proof -
  have "live_login demo_env ''kim'' ''KIOSK'' (Some ''{bcrypt}pw'') (Open 0)
      (demo_world [demo_account ''KIOSK''])" by code_simp
  moreover have "\<forall>p \<in> set [''a'', ''b'', ''c'', ''d'', ''e'']. \<not> verifyPassword demo_env p (Some ''{bcrypt}pw'')"
    by code_simp
  moreover have "\<forall>row. db_accepts demo_env row" by (simp add: demo_env_def)
  ultimately show ?thesis
    using lockout_after_five [of demo_env "''kim''" "''KIOSK''" "Some ''{bcrypt}pw''"
        "demo_world [demo_account ''KIOSK'']" "[''a'', ''b'', ''c'', ''d'', ''e'']" "''pw''" demo_meta]
    by simp
qed

text \<open>An account whose \<open>fail_count\<close> is \<open>NULL\<close> is never locked: \<open>fail_count + 1\<close> stays
  \<open>NULL\<close>, so after any number of wrong passwords the account is as it was and the next one is
  answered with \<open>INVALID_CREDENTIALS\<close> again.\<close>

theorem null_fail_count_never_locks:
  assumes "login_account env l u w = Some a" and "acc_failCount a = None"
    and "acc_status a = Some (status_value ACTIVE)"
    and "\<forall>p \<in> set ps. \<not> verifyPassword env p (acc_password a)"
  shows "login_account env l u (run_logins env l u meta ps w) = Some a"
  using assms(1,4)
proof (induction ps arbitrary: w)
  case Nil
  then show ?case by (simp add: run_logins_def)
next
  case (Cons p ps)
  obtain r w1 where run: "login env l p u meta w = (r, w1)" by fastforce
  have "lock_view a = Open 0" "live_status (acc_status a)"
    using assms(2,3) by (simp_all add: lock_view_def live_status_def MAX_FAIL_COUNT_def)
  from wrong_after(1) [OF Cons.prems(1) this _ run] Cons.prems(2) assms(2)
  have "login_account env l u w1 = Some a"
    by (cases a) (simp add: MAX_FAIL_COUNT_def)
  from Cons.IH [OF this] Cons.prems(2) run show ?case by (simp add: run_logins_def)
qed

lemma null_fail_count_never_locks_witness:
  "login_account demo_env ''kim'' ''KIOSK''
     (run_logins demo_env ''kim'' ''KIOSK'' demo_meta [''a'', ''b'', ''c'', ''d'', ''e'', ''f'']
        (demo_world [demo_account ''KIOSK''\<lparr>acc_failCount := None\<rparr>])) =
   Some (demo_account ''KIOSK''\<lparr>acc_failCount := None\<rparr>)"
  by (rule null_fail_count_never_locks) code_simp+

end
