(* ===== verification/Auth_Properties.thy ===== *)
theory Auth_Properties
  imports Auth_Lockout
begin

text \<open>
  What the four entry points of \<open>AuthService\<close> guarantee beyond the lock-out rule: what they keep
  of the database, what a success and a failure mean, and how the kinds of tokens are separated.
\<close>

section \<open>What every operation keeps\<close>

lemma db_throwAuthError: "db.keeps (throwAuthError k)"
  by (simp add: throwAuthError_def db.keeps_throw)

lemma db_catch_with: "db.keeps m \<Longrightarrow> db.keeps (catch_with k m)"
  unfolding db.keeps_def catch_with_def throwAuthError_def
  by (auto split: prod.splits sum.splits) (metis snd_conv)+

lemma db_requireNonBlank: "db.keeps (requireNonBlank v)"
  unfolding requireNonBlank_def by (intro db.keeps_intros db_throwAuthError)

lemma db_issueTokens: "db.keeps (issueTokens env a)"
  unfolding issueTokens_def buildAccessTokenPayload_def
  by (intro db.keeps_intros db_throwAuthError db_requireNonBlank keeps_token_ops)

lemma db_checks:
  "db.keeps (validateAccountStatus s)" "db.keeps (validatePasswordExpiry env a)"
  "db.keeps (handleFailedLogin env a meta n)" "db.keeps (handleLockedLogin env a meta)"
  unfolding validateAccountStatus_def validatePasswordExpiry_def handleFailedLogin_def
    handleLockedLogin_def
  by (intro db.keeps_intros db_throwAuthError keeps_token_ops keeps_account_ops keeps_history_ops)+

lemma db_totp_name: "db.keeps (normalizeTotpAccountName env a)"
  unfolding normalizeTotpAccountName_def
  by (simp add: db.keeps_ret db_requireNonBlank split: option.split list.split)

lemma db_createTotp: "db.keeps (createTotpRegistrationUrlIfRequired env a)"
  unfolding createTotpRegistrationUrlIfRequired_def
  by (intro db.keeps_intros db_totp_name keeps_token_ops keeps_account_ops)

lemmas db_intros = db.keeps_intros db_throwAuthError db_catch_with db_issueTokens db_checks
  db_createTotp keeps_token_ops keeps_account_ops keeps_history_ops

lemma db_resolve: "db.keeps (resolveChangePasswordAccountId env c)"
  unfolding resolveChangePasswordAccountId_def
  by (auto simp: split_def split: option.split list.split intro!: db_intros)

lemma db_hashPassword: "db.keeps (hashPassword env p)"
  unfolding hashPassword_def by (intro db_intros keeps_draw)

lemma db_entry_points:
  "db.keeps (login env l p u meta)" "db.keeps (verifyTwoFactor env t c meta)"
  "db.keeps (refreshTokens env t)" "db.keeps (changePassword env cr p q)"
  unfolding login_def verifyTwoFactor_def refreshTokens_def changePassword_def split_def
  by (intro db_intros db_resolve db_hashPassword)+

text \<open>C9: no request adds, removes or renumbers an account, changes its login id, user type, name,
  role or customer, touches the user groups, or loses or rewrites a row of the login history, on
  any branch, errors included: the history only grows at its end.\<close>

theorem requests_keep_the_database:
  "db_extends w (snd (login env loginId password userType meta w)) \<and>
   db_extends w (snd (verifyTwoFactor env twoFactorToken totpCode meta w)) \<and>
   db_extends w (snd (refreshTokens env refreshToken w)) \<and>
   db_extends w (snd (changePassword env credential currentPassword newPassword w))"
  using db_entry_points unfolding db.keeps_def by blast

section \<open>Claims of the issued tokens\<close>

lemma requireNonBlank_eq:
  "requireNonBlank v w =
     (case v of None \<Rightarrow> (Inl (auth_exception INVALID_TOKEN_CLAIMS []), w)
      | Some s \<Rightarrow> if js_trim s = [] then (Inl (auth_exception INVALID_TOKEN_CLAIMS []), w)
                  else (Inr (js_trim s), w))"
  by (auto simp: requireNonBlank_def throwAuthError_def split: option.splits)

lemma buildAccessTokenPayload_eq:
  "buildAccessTokenPayload env a w =
     (if js_trim (normalizeLoginId env (acc_loginId a)) = [] \<or>
         js_trim (nullish_default (acc_name a) []) = [] \<or> js_trim (acc_userType a) = []
      then (Inl (auth_exception INVALID_TOKEN_CLAIMS []), w)
      else (Inr \<lparr>ap_sub = show_int (acc_id a),
              ap_loginId = js_trim (normalizeLoginId env (acc_loginId a)),
              ap_name = js_trim (nullish_default (acc_name a) []),
              ap_userType = js_trim (acc_userType a),
              ap_roleType = normalizeRoleTypeClaim (acc_roleType a),
              ap_customerNo = normalizeOptionalClaim (acc_customerNo a)\<rparr>, w))"
  by (cases "acc_name a") (simp_all add: buildAccessTokenPayload_def and_then_def requireNonBlank_eq)

lemma issueTokens_Inr:
  assumes "issueTokens env a w = (Inr t, w')"
  obtains payload where "buildAccessTokenPayload env a w = (Inr payload, w)"
    "at_accessToken t = jose_sign env (now_ms env) (access_request payload (uuid env (rand w)))"
    "at_refreshToken t = jose_sign env (now_ms env)
       (refresh_request (ap_sub payload) (ap_userType payload) (uuid env (Suc (rand w))))"
    "at_expiresIn t = ACCESS_TOKEN_EXPIRY_SECONDS" "w' = w\<lparr>rand := rand w + 2\<rparr>"
proof -
  obtain q v where b: "buildAccessTokenPayload env a w = (q, v)" by fastforce
  then have "v = w" by (auto simp: buildAccessTokenPayload_eq split: if_splits)
  with b assms show thesis
    by (cases q)
      (auto simp: issueTokens_def and_then_def signAccessToken_def signRefreshToken_def draw_def
        throwAuthError_def split: if_splits intro: that)
qed

lemma issueTokens_Inl:
  assumes "issueTokens env a w = (Inl e, w')"
  shows "e = auth_exception INVALID_TOKEN_CLAIMS []"
proof -
  obtain q v where b: "buildAccessTokenPayload env a w = (q, v)" by fastforce
  show ?thesis
  proof (cases q)
    case (Inl e')
    with b assms have "e = e'" by (simp add: issueTokens_def and_then_def)
    with b Inl show ?thesis by (simp add: buildAccessTokenPayload_eq split: if_splits)
  next
    case (Inr p)
    with b assms show ?thesis
      by (simp add: issueTokens_def and_then_def signAccessToken_def signRefreshToken_def draw_def
          throwAuthError_def split: if_splits)
  qed
qed

lemma issueTokens_frame:
  assumes "issueTokens env a w = (q, w')"
  shows "tb_account w' = tb_account w \<and> tb_login_history w' = tb_login_history w"
  using assms
  by (auto simp: issueTokens_def and_then_def buildAccessTokenPayload_eq signAccessToken_def signRefreshToken_def draw_def
      throwAuthError_def ret_def throw_def split: if_splits sum.splits prod.splits)

text \<open>C8: the claims of an issued token pair are well formed. Tokens are issued only when login id,
  name and user type are not blank; the access token then carries them trimmed, the account's id
  as subject, a role only from the list the Spring services accept, and the refresh token the same
  subject and user type; the two have different draws of the token id; issuing writes nothing.\<close>

theorem issued_claims:
  assumes "issueTokens env a w = (Inr t, w')"
  shows "\<exists>p. at_accessToken t = jose_sign env (now_ms env) (access_request p (uuid env (rand w))) \<and>
    at_refreshToken t = jose_sign env (now_ms env)
      (refresh_request (show_int (acc_id a)) (ap_userType p) (uuid env (Suc (rand w)))) \<and>
    ap_sub p = show_int (acc_id a) \<and>
    ap_loginId p = js_trim (normalizeLoginId env (acc_loginId a)) \<and> ap_loginId p \<noteq> [] \<and>
    Some (ap_name p) = map_option js_trim (acc_name a) \<and> ap_name p \<noteq> [] \<and>
    ap_userType p = js_trim (acc_userType a) \<and> ap_userType p \<noteq> [] \<and>
    (\<forall>role. ap_roleType p = Some role \<longrightarrow>
       role \<in> {''SUPER_ADMIN'', ''ADMIN'', ''MEMBER''} \<and> map_option js_trim (acc_roleType a) = Some role) \<and>
    at_expiresIn t = 3600 \<and> tb_account w' = tb_account w \<and> tb_login_history w' = tb_login_history w"
proof -
  obtain p where p: "buildAccessTokenPayload env a w = (Inr p, w)"
    "at_accessToken t = jose_sign env (now_ms env) (access_request p (uuid env (rand w)))"
    "at_refreshToken t = jose_sign env (now_ms env)
       (refresh_request (ap_sub p) (ap_userType p) (uuid env (Suc (rand w))))"
    "at_expiresIn t = ACCESS_TOKEN_EXPIRY_SECONDS" "w' = w\<lparr>rand := rand w + 2\<rparr>"
    using assms by (rule issueTokens_Inr)
  have name: "Some (ap_name p) = map_option js_trim (acc_name a) \<and> ap_name p \<noteq> []"
    using p(1) by (cases "acc_name a") (auto simp: buildAccessTokenPayload_eq split: if_splits)
  have role: "\<forall>role. ap_roleType p = Some role \<longrightarrow>
       role \<in> {''SUPER_ADMIN'', ''ADMIN'', ''MEMBER''} \<and> map_option js_trim (acc_roleType a) = Some role"
    using p(1) by (auto simp: buildAccessTokenPayload_eq normalizeRoleTypeClaim_def
        SPRING_COMPATIBLE_ROLE_TYPES_def split: if_splits option.splits)
  show ?thesis
    using p name role
    by (intro exI [of _ p]) (auto simp: buildAccessTokenPayload_eq ACCESS_TOKEN_EXPIRY_SECONDS_def
        split: if_splits)
qed

lemma issued_claims_witness:
  "\<exists>p. ap_name p = ''Kim'' \<and> ap_sub p = show_int 7 \<and>
     at_accessToken (projr (fst (issueTokens demo_env (demo_account ''KIOSK'') (demo_world [])))) =
       jose_sign demo_env (now_ms demo_env) (access_request p (uuid demo_env 0))"
proof -
  have "issueTokens demo_env (demo_account ''KIOSK'') (demo_world []) =
    (Inr (projr (fst (issueTokens demo_env (demo_account ''KIOSK'') (demo_world [])))),
     snd (issueTokens demo_env (demo_account ''KIOSK'') (demo_world [])))" by code_simp
  from issued_claims [OF this] show ?thesis
    by (auto simp: demo_account_def demo_world_def js_trim_def js_ws_def)
qed

section \<open>What a successful login means\<close>

lemma validateAccountStatus_state: "validateAccountStatus s w = (q, v) \<Longrightarrow> v = w"
  by (auto simp: validateAccountStatus_def throwAuthError_def split: option.splits if_splits)

lemma validateAccountStatus_Inr:
  "validateAccountStatus s w = (Inr (), v) \<Longrightarrow>
     s \<notin> Some ` status_value ` {PENDING, IN_ACTIVE, DELETE, LOCKED}"
  by (auto simp: validateAccountStatus_def statusErrorMap_def throwAuthError_def)

lemma validatePasswordExpiry_Inr:
  "validatePasswordExpiry env a w = (Inr (), v) \<Longrightarrow>
     v = w \<and> (\<forall>c. acc_lastPasswordChangedAt a = Some c \<longrightarrow>
       days_since (now_ms env) c < PASSWORD_EXPIRY_DAYS)"
  by (auto simp: validatePasswordExpiry_def and_then_def signPasswordChangeToken_def
      split: option.splits if_splits)

lemma login_Inr:
  assumes "login env l p u meta w = (Inr r, w')"
  obtains a where "login_account env l u w = Some a" "lock_view a \<noteq> Locked"
    "acc_status a \<notin> Some ` status_value ` {PENDING, IN_ACTIVE, DELETE, LOCKED}"
    "verifyPassword env p (acc_password a)"
    "\<forall>c. acc_lastPasswordChangedAt a = Some c \<longrightarrow> days_since (now_ms env) c < PASSWORD_EXPIRY_DAYS"
    "login_accepted env a u meta w = (Inr r, w')"
proof -
  obtain a where a: "login_account env l u w = Some a"
    using assms by (cases "login_account env l u w") (simp_all add: login_def and_then_def throwAuthError_def)
  have nl: "lock_view a \<noteq> Locked"
  proof
    assume "lock_view a = Locked"
    from locked_after(2) [OF a this assms] show False by simp
  qed
  note open_a = nl [unfolded lock_view_Locked]
  from open_a a assms obtain v where v: "validateAccountStatus (acc_status a) w = (Inr (), v)"
    by (auto simp: login_def and_then_def split: prod.splits sum.splits)
  then have [simp]: "v = w" by (rule validateAccountStatus_state)
  have pw: "verifyPassword env p (acc_password a)"
  proof (rule ccontr)
    assume "\<not> verifyPassword env p (acc_password a)"
    with open_a a v assms show False
      by (auto simp: login_def and_then_def throwAuthError_def split: prod.splits sum.splits)
  qed
  from open_a a v pw assms obtain v2 where e: "validatePasswordExpiry env a w = (Inr (), v2)"
    by (auto simp: login_def and_then_def split: prod.splits sum.splits)
  note e' = validatePasswordExpiry_Inr [OF e]
  show thesis
    by (rule that [OF a nl validateAccountStatus_Inr [OF v] pw])
      (use open_a a v pw e e' assms in \<open>simp_all add: login_def and_then_def\<close>)
qed

lemma two_factor_branch:
  assumes "and_then (resetFailCount (acc_id a)) (\<lambda>_.
        and_then (signTwoFactorToken env s u) (\<lambda>twoFactorToken.
        and_then (createTotpRegistrationUrlIfRequired env a) (\<lambda>tOtpUrl.
          ret \<lparr>ar_requiresTwoFactor = True, ar_tokens = None,
               ar_twoFactorToken = Some twoFactorToken, ar_tOtpUrl = Some tOtpUrl\<rparr>))) w = (Inr r, w')"
  shows "ar_requiresTwoFactor r" "ar_tokens r = None"
    "ar_twoFactorToken r = Some (jose_sign env (now_ms env) (typed_request ''2fa'' s u))"
    "otp_only (update_account (acc_id a) (\<lambda>a. a\<lparr>acc_failCount := Some 0\<rparr>) w) w'"
proof -
  let ?w1 = "update_account (acc_id a) (\<lambda>a. a\<lparr>acc_failCount := Some 0\<rparr>) w"
  obtain q v where q: "createTotpRegistrationUrlIfRequired env a ?w1 = (q, v)" by fastforce
  then have "otp_only ?w1 v" by (rule otp.keepsD [OF otp_createTotp])
  with assms q show "ar_requiresTwoFactor r" "ar_tokens r = None"
    "ar_twoFactorToken r = Some (jose_sign env (now_ms env) (typed_request ''2fa'' s u))"
    "otp_only ?w1 w'"
    by (cases q; auto simp: and_then_def resetFailCount_def signTwoFactorToken_def)+
qed

lemma token_branch:
  assumes "and_then (issueTokens env a) (\<lambda>tokens.
      and_then (recordSuccess env a meta) (\<lambda>_. ret (f tokens))) w = (Inr r, w')"
  obtains t where "issueTokens env a w = (Inr t, w\<lparr>rand := rand w + 2\<rparr>)" "r = f t"
    "tb_login_history w' = tb_login_history w @ [success_row env a meta]"
    "tb_account w' = tb_account (update_account (acc_id a)
       (\<lambda>b. b\<lparr>acc_failCount := Some 0, acc_lastLoginAt := Some (now_ms env)\<rparr>) w)"
proof -
  obtain q v where q: "issueTokens env a w = (q, v)" by fastforce
  with assms obtain t where t: "q = Inr t" by (cases q) (auto simp: and_then_def)
  with q have v: "v = w\<lparr>rand := rand w + 2\<rparr>" by (auto elim: issueTokens_Inr)
  with q t assms show thesis
    by (intro that [of t])
      (auto simp: and_then_def recordSuccess_run update_account_def split: if_splits)
qed

text \<open>C3: what a successful login means. The account exists, is not locked, pending, inactive or
  deleted, the password matched and is younger than 90 days. For a user type that requires the
  second factor the response holds no tokens, only the 2FA token for this account, and nothing is
  added to the login history; for any other type it holds the issued tokens, and exactly one
  success row is added, with the time of this login. In both cases the fail count is zero.\<close>

theorem login_success:
  assumes "login env l p u meta w = (Inr r, w')"
  shows "\<exists>a a'. login_account env l u w = Some a \<and> login_account env l u w' = Some a' \<and>
    acc_status a \<notin> Some ` status_value ` {PENDING, IN_ACTIVE, DELETE, LOCKED} \<and>
    nullish_default (acc_failCount a) 0 < 5 \<and> verifyPassword env p (acc_password a) \<and>
    (\<forall>c. acc_lastPasswordChangedAt a = Some c \<longrightarrow> days_since (now_ms env) c < 90) \<and>
    acc_failCount a' = Some 0 \<and>
    (if u \<in> set TWO_FACTOR_REQUIRED_TYPES then
       ar_requiresTwoFactor r \<and> ar_tokens r = None \<and>
       ar_twoFactorToken r =
         Some (jose_sign env (now_ms env) (typed_request ''2fa'' (show_int (acc_id a)) u)) \<and>
       tb_login_history w' = tb_login_history w
     else
       \<not> ar_requiresTwoFactor r \<and> ar_twoFactorToken r = None \<and>
       (\<exists>t. ar_tokens r = Some t \<and> fst (issueTokens env a w) = Inr t) \<and>
       acc_lastLoginAt a' = Some (now_ms env) \<and>
       tb_login_history w' = tb_login_history w @ [success_row env a meta])"
proof -
  from assms obtain a where a: "login_account env l u w = Some a" "lock_view a \<noteq> Locked"
    "acc_status a \<notin> Some ` status_value ` {PENDING, IN_ACTIVE, DELETE, LOCKED}"
    "verifyPassword env p (acc_password a)"
    "\<forall>c. acc_lastPasswordChangedAt a = Some c \<longrightarrow> days_since (now_ms env) c < 90"
    and rest: "login_accepted env a u meta w = (Inr r, w')"
    by (rule login_Inr) (simp_all add: PASSWORD_EXPIRY_DAYS_def)
  from a(2) have n: "nullish_default (acc_failCount a) 0 < 5"
    by (auto simp: lock_view_def MAX_FAIL_COUNT_def split: if_splits)
  show ?thesis
  proof (cases "u \<in> set TWO_FACTOR_REQUIRED_TYPES")
    case True
    note br = two_factor_branch [OF rest [simplified if_P [OF True]]]
    have "login_account env l u
        (update_account (acc_id a) (\<lambda>a. a\<lparr>acc_failCount := Some 0\<rparr>) w) = Some (a\<lparr>acc_failCount := Some 0\<rparr>)"
      using a(1) by (simp add: login_account_update account_identity_def)
    with br(4) obtain a' where "login_account env l u w' = Some a'" "acc_failCount a' = Some 0"
      by (auto elim!: otp_only_fields)
    moreover from br(4) have "tb_login_history w' = tb_login_history w"
      by (simp add: otp_only_def)
    ultimately show ?thesis using a n br True by auto
  next
    case False
    from token_branch [OF rest [simplified if_not_P [OF False]]] obtain t
      where t: "issueTokens env a w = (Inr t, w\<lparr>rand := rand w + 2\<rparr>)"
        "r = \<lparr>ar_requiresTwoFactor = False, ar_tokens = Some t, ar_twoFactorToken = None, ar_tOtpUrl = None\<rparr>"
        "tb_login_history w' = tb_login_history w @ [success_row env a meta]"
        "tb_account w' = tb_account (update_account (acc_id a)
           (\<lambda>b. b\<lparr>acc_failCount := Some 0, acc_lastLoginAt := Some (now_ms env)\<rparr>) w)" .
    from login_account_tb [OF t(4)] a(1)
    have "login_account env l u w' =
        Some (a\<lparr>acc_failCount := Some 0, acc_lastLoginAt := Some (now_ms env)\<rparr>)"
      by (simp add: login_account_update account_identity_def)
    with a n t False show ?thesis by auto
  qed
qed

lemma login_success_witness:
  "ar_tokens (projr (fst (login demo_env ''kim'' ''pw'' ''ADMIN_BO'' demo_meta
      (demo_world [demo_account ''ADMIN_BO''])))) = None \<and>
   length (tb_login_history (snd (login demo_env ''kim'' ''pw'' ''KIOSK'' demo_meta
      (demo_world [demo_account ''KIOSK''])))) = 1"
proof
  have u: "''ADMIN_BO'' \<in> set TWO_FACTOR_REQUIRED_TYPES" "''KIOSK'' \<notin> set TWO_FACTOR_REQUIRED_TYPES"
    by (simp_all add: TWO_FACTOR_REQUIRED_TYPES_def)
  have "\<not> isl (fst (login demo_env ''kim'' ''pw'' ''ADMIN_BO'' demo_meta (demo_world [demo_account ''ADMIN_BO''])))"
    by code_simp
  from login_success [OF run_ok [of "login demo_env ''kim'' ''pw'' ''ADMIN_BO'' demo_meta", OF this]] u
  show "ar_tokens (projr (fst (login demo_env ''kim'' ''pw'' ''ADMIN_BO'' demo_meta
      (demo_world [demo_account ''ADMIN_BO''])))) = None" by auto
  have "\<not> isl (fst (login demo_env ''kim'' ''pw'' ''KIOSK'' demo_meta (demo_world [demo_account ''KIOSK''])))"
    by code_simp
  from login_success [OF run_ok [of "login demo_env ''kim'' ''pw'' ''KIOSK'' demo_meta", OF this]] u
  show "length (tb_login_history (snd (login demo_env ''kim'' ''pw'' ''KIOSK'' demo_meta
      (demo_world [demo_account ''KIOSK''])))) = 1" by auto
qed

section \<open>The second factor\<close>

lemma catch_verify:
  "catch_with k (verifyToken env t) w =
     (case jose_verify env (now_ms env) t JWT_ISSUER [JWT_ALGORITHM] of
        None \<Rightarrow> (Inl (auth_exception k []), w) | Some c \<Rightarrow> (Inr c, w))"
  "catch_with k (verifyTwoFactorToken env t) w =
     (case jose_verify env (now_ms env) t JWT_ISSUER [JWT_ALGORITHM] of
        None \<Rightarrow> (Inl (auth_exception k []), w)
      | Some c \<Rightarrow> if cl_type c = Some ''2fa'' then (Inr (cl_sub c, cl_userType c), w)
                 else (Inl (auth_exception k []), w))"
  "catch_with k (verifyPasswordChangeToken env t) w =
     (case jose_verify env (now_ms env) t JWT_ISSUER [JWT_ALGORITHM] of
        None \<Rightarrow> (Inl (auth_exception k []), w)
      | Some c \<Rightarrow> if cl_type c = Some ''password_change'' then (Inr (cl_sub c, cl_userType c), w)
                 else (Inl (auth_exception k []), w))"
  by (simp_all add: catch_with_def verifyToken_def verifyTwoFactorToken_def
      verifyPasswordChangeToken_def throwAuthError_def split: option.split)

lemma findById_run: "findById k w = (Inr (case k of None \<Rightarrow> None | Some i \<Rightarrow> find_account i w), w)"
  by (simp add: findById_def)

lemmas run_rules = catch_verify findById_run throwAuthError_def

lemma verifyTwoFactor_cases:
  assumes "verifyTwoFactor env t c meta w = (r, w')"
  obtains (refused) e where "r = Inl e" "w' = w"
      "e \<in> {auth_exception TOKEN_EXPIRED [], auth_exception INVALID_CREDENTIALS [], auth_exception INVALID_OTP []}"
  | (accepted) claims a secret where
      "jose_verify env (now_ms env) t JWT_ISSUER [JWT_ALGORITHM] = Some claims"
      "cl_type claims = Some ''2fa''" "number_of_sub (cl_sub claims) = Some (acc_id a)"
      "find_account (acc_id a) w = Some a" "acc_otpSecretKey a = Some secret" "secret \<noteq> []"
      "node_env env = Some ''production'' \<longrightarrow> totp_verify env c secret"
      "and_then (issueTokens env a) (\<lambda>tokens.
         and_then (recordSuccess env a meta) (\<lambda>_. ret tokens)) w = (r, w')"
proof (cases "jose_verify env (now_ms env) t JWT_ISSUER [JWT_ALGORITHM]")
  case None
  with assms show thesis
    by (intro refused [of "auth_exception TOKEN_EXPIRED []"])
      (auto simp: verifyTwoFactor_def and_then_def run_rules)
next
  case (Some claims)
  show thesis
  proof (cases "cl_type claims = Some ''2fa''")
    case False
    with assms Some show thesis
      by (intro refused [of "auth_exception TOKEN_EXPIRED []"])
        (auto simp: verifyTwoFactor_def and_then_def run_rules)
  next
    case True
    note run = assms [unfolded verifyTwoFactor_def and_then_def run_rules, unfolded Some, simplified, unfolded True, simplified]
    show thesis
    proof (cases "\<exists>a. (case number_of_sub (cl_sub claims) of None \<Rightarrow> None | Some i \<Rightarrow> find_account i w) = Some a \<and>
        truthy (acc_otpSecretKey a)")
      case False
      with run show thesis
        by (intro refused [of "auth_exception INVALID_CREDENTIALS []"])
          (auto simp: truthy_def split: option.splits if_splits)
    next
      case found: True
      then obtain a secret k where a: "number_of_sub (cl_sub claims) = Some k" "find_account k w = Some a"
        "acc_otpSecretKey a = Some secret" "secret \<noteq> []"
        by (auto simp: truthy_iff split: option.splits)
      then have "acc_id a = k" by (simp add: find_account_id)
      show thesis
      proof (cases "node_env env = Some ''production'' \<and> \<not> totp_verify env c secret")
        case True
        with run a show thesis
          by (intro refused [of "auth_exception INVALID_OTP []"]) auto
      next
        case False
        with run a \<open>acc_id a = k\<close> Some True show thesis
          by (intro accepted [of claims a secret]) (auto simp: and_then_def)
      qed
    qed
  qed
qed

text \<open>C4: tokens after the second factor. \<open>verifyTwoFactor\<close> answers with tokens only for a
  valid token of type \<open>2fa\<close> whose subject is an account with a secret, in production only with a
  code that verifies against this secret; then it adds exactly one success row. A refusal is one of five
  errors, and whichever it is, a blank claim and a rejected write of the database included, the accounts
  and the login history are as before.\<close>

theorem two_factor_tokens:
  assumes "verifyTwoFactor env t c meta w = (r, w')"
  shows "case r of
      Inr tokens \<Rightarrow> \<exists>claims a secret.
        jose_verify env (now_ms env) t JWT_ISSUER [JWT_ALGORITHM] = Some claims \<and>
        cl_type claims = Some ''2fa'' \<and> number_of_sub (cl_sub claims) = Some (acc_id a) \<and>
        find_account (acc_id a) w = Some a \<and> acc_otpSecretKey a = Some secret \<and> secret \<noteq> [] \<and>
        (node_env env = Some ''production'' \<longrightarrow> totp_verify env c secret) \<and>
        fst (issueTokens env a w) = Inr tokens \<and>
        tb_login_history w' = tb_login_history w @ [success_row env a meta]
    | Inl e \<Rightarrow>
        e \<in> {DbRejected} \<union> (\<lambda>k. auth_exception k []) ` {TOKEN_EXPIRED, INVALID_CREDENTIALS, INVALID_OTP, INVALID_TOKEN_CLAIMS} \<and>
        tb_account w' = tb_account w \<and> tb_login_history w' = tb_login_history w"
  using assms
proof (cases rule: verifyTwoFactor_cases)
  case (refused e)
  then show ?thesis by auto
next
  case (accepted claims a secret)
  obtain q v where q: "issueTokens env a w = (q, v)" by fastforce
  have v: "tb_account v = tb_account w" "tb_login_history v = tb_login_history w"
    using issueTokens_frame [OF q] by simp_all
  show ?thesis
  proof (cases r)
    case (Inr tokens)
    with accepted(8) have "and_then (issueTokens env a) (\<lambda>t.
       and_then (recordSuccess env a meta) (\<lambda>_. ret t)) w = (Inr tokens, w')" by simp
    then obtain t where "issueTokens env a w = (Inr t, w\<lparr>rand := rand w + 2\<rparr>)" "tokens = t"
      "tb_login_history w' = tb_login_history w @ [success_row env a meta]"
      by (rule token_branch)
    with accepted Inr show ?thesis by auto
  next
    case (Inl e)
    show ?thesis
    proof (cases q)
      case (Inl e')
      then have "e' = auth_exception INVALID_TOKEN_CLAIMS []" using q issueTokens_Inl by blast
      moreover have "e = e'" "w' = v" using accepted(8) q Inl \<open>r = Inl e\<close> by (simp_all add: and_then_def)
      ultimately show ?thesis using \<open>r = Inl e\<close> v by simp
    next
      case (Inr t)
      then have "e = DbRejected" "w' = v"
        using accepted(8) q \<open>r = Inl e\<close>
        by (auto simp: and_then_def recordSuccess_run split: if_splits)
      then show ?thesis using \<open>r = Inl e\<close> v by simp
    qed
  qed
qed

lemma two_factor_tokens_witness:
  "length (tb_login_history (snd (verifyTwoFactor demo_env ''+2fa|+7|+ADMIN_BO|-|-|-|-|-'' ''SEED'' demo_meta
      (demo_world [demo_account ''ADMIN_BO''\<lparr>acc_otpSecretKey := Some ''SEED''\<rparr>])))) = 1"
proof -
  have "\<not> isl (fst (verifyTwoFactor demo_env ''+2fa|+7|+ADMIN_BO|-|-|-|-|-'' ''SEED'' demo_meta
      (demo_world [demo_account ''ADMIN_BO''\<lparr>acc_otpSecretKey := Some ''SEED''\<rparr>])))"
    by code_simp
  from two_factor_tokens [OF run_ok [of "verifyTwoFactor demo_env ''+2fa|+7|+ADMIN_BO|-|-|-|-|-'' ''SEED'' demo_meta", OF this]]
  show ?thesis by auto
qed

section \<open>Kinds of tokens\<close>

text \<open>
  What the service relies on of \<open>jose\<close>: a token it signed, with its own algorithm and issuer,
  verifies to the claims it was signed with while it has not expired.
\<close>

definition verifies :: "auth_env \<Rightarrow> jwt_request \<Rightarrow> bool" where
  "verifies env rq \<longleftrightarrow>
     jose_verify env (now_ms env) (jose_sign env (now_ms env) rq) JWT_ISSUER [JWT_ALGORITHM] =
       Some (rq_payload rq) \<and> jose_sign env (now_ms env) rq \<noteq> []"

lemma verifies_sign:
  assumes "verifies env rq"
  obtains ch s where "jose_sign env (now_ms env) rq = ch # s"
    "jose_verify env (now_ms env) (ch # s) JWT_ISSUER [JWT_ALGORITHM] = Some (rq_payload rq)"
  using assms unfolding verifies_def by (cases "jose_sign env (now_ms env) rq") auto

text \<open>C5: the kinds of tokens are kept apart where the code checks them. A token of another kind
  than \<open>2fa\<close> (an access, refresh or password-change token) is refused by \<open>verifyTwoFactor\<close>, and one of
  another kind than \<open>password_change\<close> as password-change token; the answer is \<open>TOKEN_EXPIRED\<close> and nothing
  changes. As access token of \<open>changePassword\<close> exactly the tokens without a kind are taken, for the account
  that is their subject: access tokens, but also refresh tokens; a token with a kind is refused there in
  the same way.\<close>

theorem token_kinds_apart:
  assumes "verifies env rq" and "token = jose_sign env (now_ms env) rq"
  shows "(cl_type (rq_payload rq) \<noteq> Some ''2fa'' \<longrightarrow>
      verifyTwoFactor env token totp meta w = (Inl (auth_exception TOKEN_EXPIRED []), w)) \<and>
    (cl_type (rq_payload rq) \<noteq> Some ''password_change'' \<longrightarrow>
      changePassword env \<lparr>cp_accessToken = x, cp_passwordChangeToken = Some token\<rparr> old new w =
        (Inl (auth_exception TOKEN_EXPIRED []), w)) \<and>
    (truthy (cl_type (rq_payload rq)) \<longrightarrow>
      changePassword env \<lparr>cp_accessToken = Some token, cp_passwordChangeToken = None\<rparr> old new w =
        (Inl (auth_exception TOKEN_EXPIRED []), w)) \<and>
    (\<not> truthy (cl_type (rq_payload rq)) \<longrightarrow>
      resolveChangePasswordAccountId env \<lparr>cp_accessToken = Some token, cp_passwordChangeToken = None\<rparr> w =
        (Inr (number_of_sub (cl_sub (rq_payload rq))), w)) \<and>
    (rq = access_request payload jti \<or> rq = refresh_request sub ut jti \<longrightarrow> \<not> truthy (cl_type (rq_payload rq)))"
proof -
  from assms(1) obtain ch s where "jose_sign env (now_ms env) rq = ch # s"
    "jose_verify env (now_ms env) (ch # s) JWT_ISSUER [JWT_ALGORITHM] = Some (rq_payload rq)"
    by (rule verifies_sign)
  moreover have "rq = access_request payload jti \<or> rq = refresh_request sub ut jti \<Longrightarrow> \<not> truthy (cl_type (rq_payload rq))"
    by (auto simp: access_request_def refresh_request_def no_claims_def truthy_def)
  ultimately show ?thesis using assms(2)
    by (simp add: verifyTwoFactor_def changePassword_def resolveChangePasswordAccountId_def
        and_then_def run_rules)
qed

lemma token_kinds_apart_witness:
  "verifyTwoFactor demo_env (jose_sign demo_env (now_ms demo_env) (refresh_request ''7'' ''KIOSK'' ''j''))
     ''SEED'' demo_meta (demo_world []) = (Inl (auth_exception TOKEN_EXPIRED []), demo_world [])"
proof -
  have "verifies demo_env (refresh_request ''7'' ''KIOSK'' ''j'')" by code_simp
  from token_kinds_apart [OF this refl] show ?thesis by simp
qed

text \<open>Where the code does not check the kind. \<open>refreshTokens\<close> accepts every valid token whose
  subject is an account: the 2FA token of a login that still lacks its second factor, and the
  password-change token of an expired password, are exchanged for a full token pair, and so is a
  token of an account that has been locked since.\<close>

theorem refresh_takes_any_token:
  assumes "verifies env rq" and "cl_sub (rq_payload rq) = Some (show_int k)"
    and "find_account k w = Some a"
  shows "refreshTokens env (jose_sign env (now_ms env) rq) w = issueTokens env a w"
proof -
  from assms(1) obtain ch s where "jose_sign env (now_ms env) rq = ch # s"
    "jose_verify env (now_ms env) (ch # s) JWT_ISSUER [JWT_ALGORITHM] = Some (rq_payload rq)"
    by (rule verifies_sign)
  with assms(2,3) show ?thesis
    by (simp add: refreshTokens_def and_then_def run_rules)
qed

lemma refresh_takes_any_token_witness:
  "\<not> isl (fst (refreshTokens demo_env
     (jose_sign demo_env (now_ms demo_env) (typed_request ''2fa'' (show_int 7) ''ADMIN_BO''))
     (demo_world [demo_account ''ADMIN_BO''\<lparr>acc_status := Some ''LOCKED''\<rparr>])))"
proof -
  have "verifies demo_env (typed_request ''2fa'' (show_int 7) ''ADMIN_BO'')"
    "find_account 7 (demo_world [demo_account ''ADMIN_BO''\<lparr>acc_status := Some ''LOCKED''\<rparr>]) =
       Some (demo_account ''ADMIN_BO''\<lparr>acc_status := Some ''LOCKED''\<rparr>)" by code_simp+
  from refresh_takes_any_token [OF this(1) _ this(2)] show ?thesis
    by simp code_simp
qed

section \<open>Changing a password\<close>

lemma resolve_state: "resolveChangePasswordAccountId env cr w = (q, v) \<Longrightarrow> v = w"
  by (auto simp: resolveChangePasswordAccountId_def and_then_def run_rules
      split: option.splits list.splits if_splits)

text \<open>C6: a password changes only with a credential and the current password. When
  \<open>changePassword\<close> succeeds, the credential resolved to an account, the current password matched,
  and exactly this account's password and change date are written; when it fails, nothing is.\<close>

theorem change_password_guarded:
  assumes "changePassword env cr old new w = (r, w')"
  shows "case r of
      Inr ok \<Rightarrow> ok \<and> (\<exists>a. resolveChangePasswordAccountId env cr w = (Inr (Some (acc_id a)), w) \<and>
        find_account (acc_id a) w = Some a \<and> verifyPassword env old (acc_password a) \<and>
        w' = update_account (acc_id a)
          (\<lambda>b. b\<lparr>acc_password := Some (''{bcrypt}'' @ bcrypt_hash env new 10 (rand w)),
                 acc_lastPasswordChangedAt := Some (now_ms env)\<rparr>) (w\<lparr>rand := Suc (rand w)\<rparr>))
    | Inl e \<Rightarrow> w' = w"
proof -
  obtain q v where q: "resolveChangePasswordAccountId env cr w = (q, v)" by fastforce
  then have [simp]: "v = w" by (rule resolve_state)
  show ?thesis
  proof (cases "\<exists>k a. q = Inr (Some k) \<and> find_account k w = Some a")
    case False
    with assms q have "isl r \<and> w' = w"
      by (cases q) (auto simp: changePassword_def and_then_def run_rules split: option.splits)
    then show ?thesis by (cases r) simp_all
  next
    case True
    then obtain a where a: "q = Inr (Some (acc_id a))" "find_account (acc_id a) w = Some a"
      by (auto dest: find_account_id)
    show ?thesis
    proof (cases "verifyPassword env old (acc_password a)")
      case True
      with a q assms have "r = Inr True" "w' = update_account (acc_id a)
          (\<lambda>b. b\<lparr>acc_password := Some (''{bcrypt}'' @ bcrypt_hash env new 10 (rand w)),
                 acc_lastPasswordChangedAt := Some (now_ms env)\<rparr>) (w\<lparr>rand := Suc (rand w)\<rparr>)"
        by (simp_all add: changePassword_def and_then_def findById_run hashPassword_def draw_def
            updatePassword_def)
      with a q True show ?thesis by (auto intro!: exI [of _ a])
    next
      case False
      with a q assms have "isl r \<and> w' = w"
        by (auto simp: changePassword_def and_then_def run_rules)
      then show ?thesis by (cases r) simp_all
    qed
  qed
qed

lemma change_password_guarded_witness:
  "snd (changePassword demo_env \<lparr>cp_accessToken = Some ''-|+7|+KIOSK|-|-|-|-|-'', cp_passwordChangeToken = None\<rparr>
      ''no'' ''new'' (demo_world [demo_account ''KIOSK''])) = demo_world [demo_account ''KIOSK'']"
proof -
  let ?m = "changePassword demo_env \<lparr>cp_accessToken = Some ''-|+7|+KIOSK|-|-|-|-|-'', cp_passwordChangeToken = None\<rparr>
      ''no'' ''new''"
  have "fst (?m (demo_world [demo_account ''KIOSK''])) = Inl (auth_exception INVALID_CREDENTIALS [])"
    by code_simp
  then have "?m (demo_world [demo_account ''KIOSK'']) =
      (Inl (auth_exception INVALID_CREDENTIALS []), snd (?m (demo_world [demo_account ''KIOSK''])))"
    by (simp only: prod_eq_iff fst_conv snd_conv)
  from change_password_guarded [OF this] show ?thesis by simp
qed

section \<open>The way back from an expired password\<close>

lemma verifyPassword_hash:
  "(\<And>n. bcrypt_compare env p (bcrypt_hash env p 10 n)) \<Longrightarrow>
   verifyPassword env p (Some (''{bcrypt}'' @ bcrypt_hash env p 10 n))"
  by (simp add: verifyPassword_def strip_bcrypt_def starts_with_def)

text \<open>C7: an expired password can be replaced and the login then succeeds. When every check but the
  age passes, \<open>login\<close> throws \<open>PASSWORD_EXPIRED\<close> with a password-change token and writes nothing;
  \<open>changePassword\<close> with this token and the old password stores the new one; and the next login with
  the new password passes all checks, age included.\<close>

theorem expired_password_flow:
  assumes found: "login_account env l u w = Some a" "find_account (acc_id a) w = Some a"
    and ok: "lock_view a = Open n" "live_status (acc_status a)" "verifyPassword env p (acc_password a)"
    and old: "acc_lastPasswordChangedAt a = Some c" "days_since (now_ms env) c \<ge> 90"
    and token: "rq = typed_request ''password_change'' (show_int (acc_id a)) (acc_userType a)"
      "verifies env rq"
    and bcrypt: "\<And>k. bcrypt_compare env q (bcrypt_hash env q 10 k)"
  shows "\<exists>t w2 a2. login env l p u meta w =
      (Inl (auth_exception PASSWORD_EXPIRED [(''passwordChangeToken'', t)]), w) \<and>
    changePassword env \<lparr>cp_accessToken = None, cp_passwordChangeToken = Some t\<rparr> p q w = (Inr True, w2) \<and>
    login_account env l u w2 = Some a2 \<and>
    login env l q u meta w2 = login_accepted env a2 u meta w2"
proof -
  let ?t = "jose_sign env (now_ms env) rq"
  let ?f = "\<lambda>b. b\<lparr>acc_password := Some (''{bcrypt}'' @ bcrypt_hash env q 10 (rand w)),
                 acc_lastPasswordChangedAt := Some (now_ms env)\<rparr>"
  let ?w2 = "update_account (acc_id a) ?f (w\<lparr>rand := Suc (rand w)\<rparr>)"
  from token(2) obtain ch s where t: "?t = ch # s"
    "jose_verify env (now_ms env) (ch # s) JWT_ISSUER [JWT_ALGORITHM] = Some (rq_payload rq)"
    by (rule verifies_sign)
  have "login env l p u meta w = (Inl (auth_exception PASSWORD_EXPIRED [(''passwordChangeToken'', ?t)]), w)"
    unfolding login_right [OF found(1) ok] using old token(1)
    by (simp add: validatePasswordExpiry_def and_then_def signPasswordChangeToken_def
        PASSWORD_EXPIRY_DAYS_def)
  moreover have "changePassword env \<lparr>cp_accessToken = None, cp_passwordChangeToken = Some ?t\<rparr> p q w =
      (Inr True, ?w2)"
    using t token(1) found(2) ok(3)
    by (simp add: changePassword_def resolveChangePasswordAccountId_def and_then_def run_rules
        hashPassword_def draw_def updatePassword_def)
  moreover have a2: "login_account env l u ?w2 = Some (?f a)"
    using found(1) by (subst login_account_update) (simp_all add: account_identity_def)
  moreover have "login env l q u meta ?w2 = login_accepted env (?f a) u meta ?w2"
  proof -
    have "lock_view (?f a) = Open n" "live_status (acc_status (?f a))"
      "verifyPassword env q (acc_password (?f a))"
      using ok bcrypt verifyPassword_hash [of env q "rand w"]
      by (simp_all add: lock_view_def split: if_splits)
    from login_right [OF a2 this] show ?thesis
      by (simp add: validatePasswordExpiry_def and_then_def days_since_def PASSWORD_EXPIRY_DAYS_def)
  qed
  ultimately show ?thesis by blast
qed

lemma expired_password_flow_witness:
  "\<exists>t w2. login demo_env ''kim'' ''pw'' ''KIOSK'' demo_meta
      (demo_world [demo_account ''KIOSK''\<lparr>acc_lastPasswordChangedAt := Some 0\<rparr>]) =
        (Inl (auth_exception PASSWORD_EXPIRED [(''passwordChangeToken'', t)]),
         demo_world [demo_account ''KIOSK''\<lparr>acc_lastPasswordChangedAt := Some 0\<rparr>]) \<and>
    changePassword demo_env \<lparr>cp_accessToken = None, cp_passwordChangeToken = Some t\<rparr> ''pw'' ''new''
      (demo_world [demo_account ''KIOSK''\<lparr>acc_lastPasswordChangedAt := Some 0\<rparr>]) = (Inr True, w2)"
proof -
  let ?a = "demo_account ''KIOSK''\<lparr>acc_lastPasswordChangedAt := Some 0\<rparr>"
  have "login_account demo_env ''kim'' ''KIOSK'' (demo_world [?a]) = Some ?a"
    "find_account (acc_id ?a) (demo_world [?a]) = Some ?a" "lock_view ?a = Open 0"
    "live_status (acc_status ?a)" "verifyPassword demo_env ''pw'' (acc_password ?a)"
    "acc_lastPasswordChangedAt ?a = Some 0" "days_since (now_ms demo_env) 0 \<ge> 90"
    "verifies demo_env (typed_request ''password_change'' (show_int (acc_id ?a)) (acc_userType ?a))"
    by code_simp+
  moreover have "bcrypt_compare demo_env ''new'' (bcrypt_hash demo_env ''new'' 10 k)" for k
    by (simp add: demo_env_def)
  ultimately show ?thesis
    using expired_password_flow [of demo_env "''kim''" "''KIOSK''" "demo_world [?a]" ?a 0 "''pw''" 0 _ "''new''" demo_meta]
    by blast
qed

text \<open>The second factor hangs on the spelling of the request's user type. Where the column's
  collation compares without case, a request for an \<open>ADMIN_BO\<close> account whose header is not spelled
  like the constant (for instance in lower case) passes all checks and goes on to
  \<open>issueTokens\<close>: it gets tokens on the password alone.\<close>

theorem two_factor_skipped_by_spelling:
  assumes "login_account env l u w = Some a" and "acc_userType a = user_type_value ADMIN_BO"
    and "u \<notin> set TWO_FACTOR_REQUIRED_TYPES" and "lock_view a = Open n" "live_status (acc_status a)"
    and "verifyPassword env p (acc_password a)" and "acc_lastPasswordChangedAt a = None"
  shows "login env l p u meta w =
    and_then (issueTokens env a) (\<lambda>tokens.
    and_then (recordSuccess env a meta) (\<lambda>_.
      ret \<lparr>ar_requiresTwoFactor = False, ar_tokens = Some tokens,
           ar_twoFactorToken = None, ar_tOtpUrl = None\<rparr>)) w"
  using login_right [OF assms(1,4-6)] assms(3,7) by (simp add: validatePasswordExpiry_def and_then_def)

lemma two_factor_skipped_by_spelling_witness:
  "ar_tokens (projr (fst (login (demo_env\<lparr>user_type_eq := (\<lambda>a b. js_lower a = js_lower b)\<rparr>)
      ''kim'' ''pw'' ''admin_bo'' demo_meta (demo_world [demo_account ''ADMIN_BO''])))) \<noteq> None"
proof -
  let ?e = "demo_env\<lparr>user_type_eq := (\<lambda>a b. js_lower a = js_lower b)\<rparr>"
  let ?a = "demo_account ''ADMIN_BO''"
  have "login_account ?e ''kim'' ''admin_bo'' (demo_world [?a]) = Some ?a"
    "acc_userType ?a = user_type_value ADMIN_BO" "''admin_bo'' \<notin> set TWO_FACTOR_REQUIRED_TYPES"
    "lock_view ?a = Open 0" "live_status (acc_status ?a)" "verifyPassword ?e ''pw'' (acc_password ?a)"
    "acc_lastPasswordChangedAt ?a = None" by code_simp+
  note run = two_factor_skipped_by_spelling [OF this]
  show ?thesis unfolding run by code_simp
qed

end
