(* ===== verification/Kst_Datetime.thy ===== *)
theory Kst_Datetime
  imports JS_Prelude
begin

text \<open>
  The conversion between \<open>Date\<close> and MySQL's DATETIME in Korean time
  (apps/auth/src/database/kst-datetime.ts). A \<open>Date\<close> is its time value, the milliseconds since
  1970 as an \<open>int\<close>; the calendar is ECMAScript's (\<open>DayFromYear\<close>, \<open>MonthFromTime\<close>,
  \<open>MakeDay\<close> of the language standard). The regular expression of the parser is a parser on the
  text; a value that does not match, on which the code throws, is \<open>None\<close>.
\<close>

section \<open>The calendar of the language\<close>

definition day_from_year :: "int \<Rightarrow> int" where
  "day_from_year y =
     365 * (y - 1970) + (y - 1969) div 4 - (y - 1901) div 100 + (y - 1601) div 400"

definition leap_year :: "int \<Rightarrow> bool" where
  "leap_year y = (y mod 4 = 0 \<and> (y mod 100 \<noteq> 0 \<or> y mod 400 = 0))"

definition leap_day :: "int \<Rightarrow> int" where
  "leap_day y = (if leap_year y then 1 else 0)"

text \<open>\<open>YearFromTime\<close>: the last year that begins on or before the day.\<close>

definition year_from_day :: "int \<Rightarrow> int" where
  "year_from_day d =
     (let y = 1970 + (400 * d) div 146097 in
      if day_from_year (y + 1) \<le> d then y + 1 else if day_from_year y \<le> d then y else y - 1)"

text \<open>The first day of each month (0 to 11) within the year.\<close>

definition month_start :: "int \<Rightarrow> int \<Rightarrow> int" where
  "month_start l m =
     (if m \<le> 0 then 0 else if m = 1 then 31 else if m = 2 then 59 + l else if m = 3 then 90 + l
      else if m = 4 then 120 + l else if m = 5 then 151 + l else if m = 6 then 181 + l
      else if m = 7 then 212 + l else if m = 8 then 243 + l else if m = 9 then 273 + l
      else if m = 10 then 304 + l else 334 + l)"

definition month_from_day :: "int \<Rightarrow> int \<Rightarrow> int" where
  "month_from_day l n =
     (if n < 31 then 0 else if n < 59 + l then 1 else if n < 90 + l then 2
      else if n < 120 + l then 3 else if n < 151 + l then 4 else if n < 181 + l then 5
      else if n < 212 + l then 6 else if n < 243 + l then 7 else if n < 273 + l then 8
      else if n < 304 + l then 9 else if n < 334 + l then 10 else 11)"

definition make_day :: "int \<Rightarrow> int \<Rightarrow> int \<Rightarrow> int" where
  "make_day year month date =
     (let ym = year + month div 12 in
      day_from_year ym + month_start (leap_day ym) (month mod 12) + date - 1)"

text \<open>\<open>Date.UTC\<close> reads the years 0 to 99 as 1900 to 1999.\<close>

definition date_utc :: "int \<Rightarrow> int \<Rightarrow> int \<Rightarrow> int \<Rightarrow> int \<Rightarrow> int \<Rightarrow> int \<Rightarrow> int" where
  "date_utc year month date hour minute second ms =
     (let y = (if 0 \<le> year \<and> year \<le> 99 then 1900 + year else year) in
      make_day y month date * 86400000 + hour * 3600000 + minute * 60000 + second * 1000 + ms)"

section \<open>The conversion\<close>

definition KST_OFFSET_MS :: int where
  "KST_OFFSET_MS = 9 * 60 * 60 * 1000"

definition pad :: "int \<Rightarrow> nat \<Rightarrow> string" where
  "pad value len = pad_start len (CHR ''0'') (show_int value)"

definition formatKstDatetime :: "int \<Rightarrow> string" where
  "formatKstDatetime value =
     (let kst = value + KST_OFFSET_MS;
          day = kst div 86400000; ms = kst mod 86400000;
          year = year_from_day day; n = day - day_from_year year; l = leap_day year;
          month = month_from_day l n
      in join '' ''
           [show_int year @ ''-'' @ pad (month + 1) 2 @ ''-'' @ pad (n - month_start l month + 1) 2,
            pad (ms div 3600000) 2 @ '':'' @ pad (ms div 60000 mod 60) 2 @ '':'' @
            pad (ms div 1000 mod 60) 2 @ ''.'' @ pad (ms mod 1000) 3])"

text \<open>The two parts that are written: the date and the time of day.\<close>

definition kst_date :: "int \<Rightarrow> string" where
  "kst_date value =
     (let day = (value + KST_OFFSET_MS) div 86400000;
          year = year_from_day day; n = day - day_from_year year; l = leap_day year; month = month_from_day l n
      in show_int year @ ''-'' @ pad (month + 1) 2 @ ''-'' @ pad (n - month_start l month + 1) 2)"

definition kst_time :: "int \<Rightarrow> string" where
  "kst_time value =
     (let ms = (value + KST_OFFSET_MS) mod 86400000
      in pad (ms div 3600000) 2 @ '':'' @ pad (ms div 60000 mod 60) 2 @ '':'' @ pad (ms div 1000 mod 60) 2 @ ''.'' @ pad (ms mod 1000) 3)"

lemma formatKst_parts: "formatKstDatetime value = kst_date value @ '' '' @ kst_time value"
  by (simp add: formatKstDatetime_def kst_date_def kst_time_def Let_def join_def)

text \<open>The pieces of the regular expression: \<open>\d{n}\<close> and one of some characters.\<close>

definition digits_n :: "nat \<Rightarrow> string \<Rightarrow> (string \<times> string) option" where
  "digits_n n s =
     (if length (take n s) = n \<and> list_all is_digit (take n s) then Some (take n s, drop n s) else None)"

definition one_of :: "char list \<Rightarrow> string \<Rightarrow> string option" where
  "one_of cs s = (case s of c # t \<Rightarrow> if c \<in> set cs then Some t else None | [] \<Rightarrow> None)"

definition fraction_part :: "string \<Rightarrow> string option" where
  "fraction_part s =
     (case s of
        [] \<Rightarrow> Some []
      | c # t \<Rightarrow>
          if c = CHR ''.'' \<and> 1 \<le> length t \<and> length t \<le> 6 \<and> list_all is_digit t then Some t else None)"

definition parseKstDatetime :: "string \<Rightarrow> int option" where
  "parseKstDatetime value =
     Option.bind (digits_n 4 (js_trim value)) (\<lambda>(year, s).
     Option.bind (one_of ''-'' s) (\<lambda>s.
     Option.bind (digits_n 2 s) (\<lambda>(month, s).
     Option.bind (one_of ''-'' s) (\<lambda>s.
     Option.bind (digits_n 2 s) (\<lambda>(day, s).
     Option.bind (one_of '' T'' s) (\<lambda>s.
     Option.bind (digits_n 2 s) (\<lambda>(hour, s).
     Option.bind (one_of '':'' s) (\<lambda>s.
     Option.bind (digits_n 2 s) (\<lambda>(minute, s).
     Option.bind (one_of '':'' s) (\<lambda>s.
     Option.bind (digits_n 2 s) (\<lambda>(second, s).
     Option.bind (fraction_part s) (\<lambda>fraction.
       let num = (\<lambda>d. int (nat_of_digits d));
           milliseconds = num (take 3 (pad_end 3 (CHR ''0'') fraction))
       in Some (date_utc (num year) (num month - 1) (num day) (num hour) (num minute) (num second)
                  milliseconds - KST_OFFSET_MS)))))))))))))"

section \<open>The calendar is consistent\<close>

lemma div_bounds:
  assumes "0 < (k::int)"
  shows "k * (x div k) \<le> x \<and> x < k * (x div k) + k"
  using mult_div_mod_eq [of k x] pos_mod_bound [OF assms, of x] pos_mod_sign [OF assms, of x]
  by linarith

lemma div_Suc_int:
  assumes "0 < (k::int)"
  shows "(x + 1) div k = x div k + (if (x + 1) mod k = 0 then 1 else 0)"
proof -
  define q r where "q = x div k" and "r = x mod k"
  have r: "0 \<le> r" "r < k" using assms by (simp_all add: r_def)
  have x: "x + 1 = k * q + (r + 1)" by (simp add: q_def r_def)
  show ?thesis
  proof (cases "r + 1 = k")
    case True
    with x have "x + 1 = k * (q + 1) + 0" by (simp add: algebra_simps)
    with assms show ?thesis
      using int_div_pos_eq [of "x + 1" k "q + 1" 0] int_mod_pos_eq [of "x + 1" k "q + 1" 0]
      by (simp add: q_def)
  next
    case False
    with r have "r + 1 < k" "0 \<le> r + 1" by simp_all
    with x r show ?thesis
      using int_div_pos_eq [of "x + 1" k q "r + 1"] int_mod_pos_eq [of "x + 1" k q "r + 1"]
      by (simp add: q_def)
  qed
qed

lemma day_from_year_Suc: "day_from_year (y + 1) = day_from_year y + 365 + leap_day y"
proof -
  have m: "(y - 1968) mod 4 = y mod 4" "(y - 1900) mod 100 = y mod 100" "(y - 1600) mod 400 = y mod 400"
    using mod_mult_self1 [of "y - 1968" 492 4] mod_mult_self1 [of "y - 1900" 19 100]
      mod_mult_self1 [of "y - 1600" 4 400] by simp_all
  have s: "y - 1969 + 1 = y - 1968" "y - 1901 + 1 = y - 1900" "y - 1601 + 1 = y - 1600" by simp_all
  have "(y - 1968) div 4 = (y - 1969) div 4 + (if y mod 4 = 0 then 1 else 0)"
    "(y - 1900) div 100 = (y - 1901) div 100 + (if y mod 100 = 0 then 1 else 0)"
    "(y - 1600) div 400 = (y - 1601) div 400 + (if y mod 400 = 0 then 1 else 0)"
    using div_Suc_int [of 4 "y - 1969"] div_Suc_int [of 100 "y - 1901"] div_Suc_int [of 400 "y - 1601"]
    unfolding s m by (simp_all only: zero_less_numeral)
  moreover have "y mod 400 = 0 \<longrightarrow> y mod 100 = 0" "y mod 100 = 0 \<longrightarrow> y mod 4 = 0"
    using mod_mod_cancel [of 100 400 y] mod_mod_cancel [of 4 100 y] by auto
  moreover have "day_from_year (y + 1) = 365 * (y - 1970) + 365 + (y - 1968) div 4 - (y - 1900) div 100 + (y - 1600) div 400"
    by (simp add: day_from_year_def)
  ultimately show ?thesis
    unfolding day_from_year_def [of y] leap_day_def leap_year_def by presburger
qed

lemma leap_day_bounds: "0 \<le> leap_day y" "leap_day y \<le> 1"
  by (simp_all add: leap_day_def)

text \<open>The estimate by the mean length of a year is off by at most one.\<close>

lemma day_from_year_bounds:
  "146097 * (y - 1970) - 800 \<le> 400 * day_from_year y" "400 * day_from_year y \<le> 146097 * (y - 1970) + 800"
proof -
  define a b c where abc: "a = (y - 1969) div 4" "b = (y - 1901) div 100" "c = (y - 1601) div 400"
  have "4 * a \<le> y - 1969 \<and> y - 1969 < 4 * a + 4" "100 * b \<le> y - 1901 \<and> y - 1901 < 100 * b + 100"
    "400 * c \<le> y - 1601 \<and> y - 1601 < 400 * c + 400"
    unfolding abc by (rule div_bounds; simp)+
  moreover have d: "day_from_year y = 365 * (y - 1970) + a - b + c"
    by (simp add: day_from_year_def abc)
  ultimately have "146097 * (y - 1970) - 800 \<le> 400 * day_from_year y \<and>
    400 * day_from_year y \<le> 146097 * (y - 1970) + 800" by (simp add: d)
  then show "146097 * (y - 1970) - 800 \<le> 400 * day_from_year y"
    "400 * day_from_year y \<le> 146097 * (y - 1970) + 800" by simp_all
qed

lemma year_from_day:
  defines "y \<equiv> \<lambda>d. year_from_day d"
  shows "day_from_year (y d) \<le> d" "d < day_from_year (y d) + 365 + leap_day (y d)"
proof -
  define e where "e = 1970 + (400 * d) div 146097"
  have e: "146097 * (e - 1970) \<le> 400 * d \<and> 400 * d < 146097 * (e - 1970) + 146097"
    using div_bounds [of 146097 "400 * d"] by (simp add: e_def)
  have "day_from_year (e - 1) \<le> d \<and> d < day_from_year (e + 2)" using e day_from_year_bounds [of "e - 1"] day_from_year_bounds [of "e + 2"] by simp
  moreover have "day_from_year e = day_from_year (e - 1) + 365 + leap_day (e - 1)"
    "day_from_year (e + 2) = day_from_year (e + 1) + 365 + leap_day (e + 1)"
    using day_from_year_Suc [of "e - 1"] day_from_year_Suc [of "e + 1"] by (simp_all add: add.assoc)
  moreover note day_from_year_Suc [of e]
  moreover have "y d = (if day_from_year (e + 1) \<le> d then e + 1 else if day_from_year e \<le> d then e else e - 1)"
    by (simp only: y_def year_from_day_def Let_def e_def)
  ultimately show "day_from_year (y d) \<le> d" "d < day_from_year (y d) + 365 + leap_day (y d)"
    by (auto split: if_splits)
qed

lemma month_day:
  assumes "0 \<le> n" "n < 365 + l" "l = 0 \<or> l = 1"
  defines "m \<equiv> month_from_day l n"
  shows "0 \<le> m \<and> m < 12 \<and> 0 \<le> n - month_start l m \<and> n - month_start l m < 31"
  using assms(1-3) unfolding m_def month_from_day_def month_start_def
  by (elim disjE) (simp_all split: if_split)

section \<open>Digits\<close>

lemma nat_of_digits_zeros: "nat_of_digits (replicate k (CHR ''0'') @ s) = nat_of_digits s"
  by (induction k) (simp_all add: nat_of_digits_def)

lemma length_show_nat: "n < 10 ^ Suc k \<Longrightarrow> length (show_nat n) \<le> Suc k"
proof (induction k arbitrary: n)
  case 0
  then show ?case by (subst show_nat.simps) simp
next
  case (Suc k)
  show ?case
  proof (cases "n < 10")
    case False
    with Suc.prems have "n div 10 < 10 ^ Suc k" by (simp add: div_less_iff_less_mult)
    from Suc.IH [OF this] False show ?thesis by (subst show_nat.simps) simp
  qed (subst show_nat.simps, simp)
qed

lemma pad_digits:
  assumes "0 \<le> v" "v < 10 ^ Suc k"
  shows "length (pad v (Suc k)) = Suc k" "list_all is_digit (pad v (Suc k))"
    "int (nat_of_digits (pad v (Suc k))) = v"
proof -
  from assms have "nat v < 10 ^ Suc k" by (simp add: nat_less_iff)
  then have "length (show_nat (nat v)) \<le> Suc k" by (rule length_show_nat)
  with assms show "length (pad v (Suc k)) = Suc k"
    by (simp add: pad_def show_int_def pad_start_def)
  show "list_all is_digit (pad v (Suc k))" "int (nat_of_digits (pad v (Suc k))) = v"
    using assms show_nat_digits [of "nat v"]
    by (auto simp: pad_def show_int_def pad_start_def nat_of_digits_zeros list_all_iff is_digit_def)
qed

lemma show_int_four:
  assumes "1000 \<le> v" "v \<le> 9999"
  shows "show_int v = pad v 4"
proof -
  have "4 \<le> length (show_nat (nat v))"
    using assms by (subst show_nat.simps, subst show_nat.simps, subst show_nat.simps, subst show_nat.simps) auto
  with assms show ?thesis by (simp add: pad_def show_int_def pad_start_def)
qed

section \<open>Formatting and parsing\<close>

text \<open>The broken-down time that \<open>formatKstDatetime\<close> writes and \<open>parseKstDatetime\<close> reads.\<close>

lemma date_utc_fields:
  assumes "1000 \<le> y" "y \<le> 9999" "0 \<le> n" "n < 365 + leap_day y" "0 \<le> ms" "ms < 86400000"
    and m: "m = month_from_day (leap_day y) n"
  shows "date_utc y m (n - month_start (leap_day y) m + 1) (ms div 3600000) (ms div 60000 mod 60)
      (ms div 1000 mod 60) (ms mod 1000) = (day_from_year y + n) * 86400000 + ms"
proof -
  have "leap_day y = 0 \<or> leap_day y = 1" by (simp add: leap_day_def)
  from month_day [OF assms(3,4) this] m have "0 \<le> m" "m < 12" by simp_all
  then have md: "make_day y m (n - month_start (leap_day y) m + 1) = day_from_year y + n"
    by (simp add: make_day_def Let_def)
  have "ms div 60000 = ms div 3600000 * 60 + ms div 60000 mod 60"
    "ms div 1000 = ms div 60000 * 60 + ms div 1000 mod 60" "ms = ms div 1000 * 1000 + ms mod 1000"
    using div_mult_mod_eq [of "ms div 60000" 60] div_mult_mod_eq [of "ms div 1000" 60]
    by (simp_all add: zdiv_zmult2_eq [symmetric])
  then have "ms div 3600000 * 3600000 + ms div 60000 mod 60 * 60000 + ms div 1000 mod 60 * 1000 + ms mod 1000 = ms"
    by linarith
  with assms(1,2) md show ?thesis by (simp add: date_utc_def Let_def)
qed

lemma trim_digits:
  assumes "list_all is_digit a" "a \<noteq> []" "list_all is_digit b" "b \<noteq> []"
  shows "js_trim (a @ s @ b) = a @ s @ b"
proof -
  from assms have "is_digit (hd a)" "is_digit (last b)" by (simp_all add: list_all_iff)
  then have "\<not> js_ws (hd (a @ s @ b))" "\<not> js_ws (last (a @ s @ b))"
    using assms(2,4) by (auto dest: digit_not_ws)
  then show ?thesis by (simp add: js_trim_eq)
qed

text \<open>What is written is read, with the space as with the \<open>T\<close>.\<close>

lemma parse_kst:
  assumes "1000 \<le> year_from_day ((value + KST_OFFSET_MS) div 86400000)"
    and "year_from_day ((value + KST_OFFSET_MS) div 86400000) \<le> 9999" and "c \<in> {CHR '' '', CHR ''T''}"
  shows "parseKstDatetime (kst_date value @ c # kst_time value) = Some value"
proof -
  define day ms where "day = (value + KST_OFFSET_MS) div 86400000" and "ms = (value + KST_OFFSET_MS) mod 86400000"
  define y where "y = year_from_day day"
  define n where "n = day - day_from_year y"
  define m where "m = month_from_day (leap_day y) n"
  define d where "d = n - month_start (leap_day y) m + 1"
  define h mi s f where "h = ms div 3600000" and "mi = ms div 60000 mod 60" and "s = ms div 1000 mod 60"
    and "f = ms mod 1000"
  have y: "1000 \<le> y" "y \<le> 9999" using assms by (simp_all add: y_def day_def)
  have n: "0 \<le> n" "n < 365 + leap_day y" using year_from_day [of day] by (simp_all add: n_def y_def)
  have ms: "0 \<le> ms" "ms < 86400000" by (simp_all add: ms_def)
  have "leap_day y = 0 \<or> leap_day y = 1" by (simp add: leap_day_def)
  from month_day [OF n this] have m: "0 \<le> m + 1" "m + 1 < 100" "0 \<le> d" "d < 100"
    by (simp_all add: m_def d_def)
  have h: "0 \<le> h" "h < 100" "0 \<le> mi" "mi < 100" "0 \<le> s" "s < 100" "0 \<le> f" "f < 1000"
    using ms zdiv_mono1 [of ms 86399999 3600000] pos_mod_bound [of 60 "ms div 60000"]
      pos_mod_bound [of 60 "ms div 1000"]
    by (simp_all add: h_def mi_def s_def f_def pos_imp_zdiv_nonneg_iff)
  let ?rest = "''-'' @ pad (m + 1) 2 @ ''-'' @ pad d 2 @ [c] @ pad h 2 @ '':'' @ pad mi 2 @ '':'' @ pad s 2 @ ''.''"
  have fmt: "kst_date value @ c # kst_time value = pad y 4 @ ?rest @ pad f 3"
    using show_int_four [OF y]
    by (simp add: kst_date_def kst_time_def Let_def day_def [symmetric] ms_def [symmetric]
        y_def [symmetric] n_def [symmetric] m_def [symmetric] d_def [symmetric] h_def [symmetric]
        mi_def [symmetric] s_def [symmetric] f_def [symmetric])
  have py: "length (pad y 4) = 4" "list_all is_digit (pad y 4)" "int (nat_of_digits (pad y 4)) = y"
    using pad_digits [of y 3] y by (simp_all add: eval_nat_numeral)
  have pf: "length (pad f 3) = 3" "list_all is_digit (pad f 3)" "int (nat_of_digits (pad f 3)) = f"
    using pad_digits [of f 2] h by (simp_all add: eval_nat_numeral)
  have trim: "js_trim (kst_date value @ c # kst_time value) = pad y 4 @ ?rest @ pad f 3"
    unfolding fmt by (rule trim_digits) (use py pf in auto)
  have two: "digits_n 2 (pad v 2 @ t) = Some (pad v 2, t) \<and> int (nat_of_digits (pad v 2)) = v"
    if "0 \<le> v" "v < 100" for v t
    using pad_digits [of v 1] that by (simp add: digits_n_def numeral_2_eq_2)
  have four: "digits_n 4 (pad y 4 @ t) = Some (pad y 4, t)" for t
    using py by (simp add: digits_n_def)
  have frac: "fraction_part (CHR ''.'' # pad f 3) = Some (pad f 3)"
    using pf by (simp add: fraction_part_def)
  have "parseKstDatetime (kst_date value @ c # kst_time value) = Some (date_utc y m d h mi s f - KST_OFFSET_MS)"
    unfolding parseKstDatetime_def trim
    using two [OF m(1,2)] two [OF m(3,4)] two [OF h(1,2)] two [OF h(3,4)] two [OF h(5,6)] four frac py pf
    assms(3) by (auto simp: one_of_def pad_end_def Let_def)
  also have "date_utc y m d h mi s f = day * 86400000 + ms"
    using date_utc_fields [OF y n ms m_def] by (simp add: d_def h_def mi_def s_def f_def n_def)
  also have "\<dots> = value + KST_OFFSET_MS" by (simp add: day_def ms_def)
  finally show ?thesis by simp
qed

text \<open>A \<open>Date\<close> written to a DATETIME column and read back is the same \<open>Date\<close>, to the
  millisecond, for every time whose year in Korea has four digits.\<close>

theorem kst_roundtrip:
  assumes "1000 \<le> year_from_day ((value + KST_OFFSET_MS) div 86400000)"
    and "year_from_day ((value + KST_OFFSET_MS) div 86400000) \<le> 9999"
  shows "parseKstDatetime (formatKstDatetime value) = Some value"
  using parse_kst [OF assms, of "CHR '' ''"] by (simp add: formatKst_parts)

lemma kst_roundtrip_witness:
  "parseKstDatetime (formatKstDatetime 1700000000123) = Some 1700000000123"
  by (rule kst_roundtrip) code_simp+

end
