(* ===== verification/Json.thy ===== *)
theory Json
  imports JS_Prelude
begin

text \<open>
  JSON values, the properties of an object in insertion order, and \<open>JSON.stringify\<close>. The model's
  numbers are the integers, which are all the program computes with; \<open>JSON.parse\<close>, whose texts are
  not restricted to these values, is a parameter (\<open>None\<close> where it throws) wherever the code calls it.
\<close>

datatype json =
  JNull | JBool bool | JNum int | JStr string | JArr "json list" | JObj "(string \<times> json) list"

type_synonym json_parser = "string \<Rightarrow> json option"

text \<open>
  What the recursion on parsed texts relies on: the text of a JSON string value is longer than the
  value, by its two quotes.
\<close>

definition parse_shrinks :: "json_parser \<Rightarrow> bool" where
  "parse_shrinks p \<longleftrightarrow> (\<forall>s t. p s = Some (JStr t) \<longrightarrow> length t < length s)"

definition json_truthy :: "json \<Rightarrow> bool" where
  "json_truthy v =
     (case v of JNull \<Rightarrow> False | JBool b \<Rightarrow> b | JNum n \<Rightarrow> n \<noteq> 0 | JStr s \<Rightarrow> s \<noteq> [] | _ \<Rightarrow> True)"

text \<open>\<open>record.k\<close> on a value of type object; an array or another value has no such property.\<close>

definition json_prop :: "json \<Rightarrow> string \<Rightarrow> json option" where
  "json_prop v k = (case v of JObj fields \<Rightarrow> map_of fields k | _ \<Rightarrow> None)"

text \<open>\<open>typeof record.k === 'string' ? record.k : undefined\<close>.\<close>

definition string_prop :: "json \<Rightarrow> string \<Rightarrow> string option" where
  "string_prop v k = (case json_prop v k of Some (JStr s) \<Rightarrow> Some s | _ \<Rightarrow> None)"

text \<open>\<open>{ ...a, ...b }\<close> and \<open>o[k] = v\<close>: a property that exists keeps its place.\<close>

definition obj_set :: "string \<Rightarrow> json \<Rightarrow> (string \<times> json) list \<Rightarrow> (string \<times> json) list" where
  "obj_set k v o1 = AList.update k v o1"

definition obj_merge :: "(string \<times> json) list \<Rightarrow> (string \<times> json) list \<Rightarrow> (string \<times> json) list" where
  "obj_merge a b = foldl (\<lambda>acc (k, v). obj_set k v acc) a b"

text \<open>\<open>...(v && { [k]: v })\<close> for an optional string.\<close>

definition opt_field :: "string \<Rightarrow> string option \<Rightarrow> (string \<times> json) list" where
  "opt_field k v = (case v of None \<Rightarrow> [] | Some s \<Rightarrow> if s = [] then [] else [(k, JStr s)])"

section \<open>JSON.stringify\<close>

definition hex_digit :: "nat \<Rightarrow> char" where
  "hex_digit d = (if d < 10 then char_of (48 + d) else char_of (87 + d))"

definition json_escape :: "char \<Rightarrow> string" where
  "json_escape c =
     (let n = code c in
      if n = 34 then [char_of (92::nat), c] else if n = 92 then [c, c]
      else if n = 8 then [char_of (92::nat), CHR ''b''] else if n = 9 then [char_of (92::nat), CHR ''t'']
      else if n = 10 then [char_of (92::nat), CHR ''n''] else if n = 12 then [char_of (92::nat), CHR ''f'']
      else if n = 13 then [char_of (92::nat), CHR ''r'']
      else if n < 32 then [char_of (92::nat), CHR ''u'', CHR ''0'', CHR ''0'', hex_digit (n div 16), hex_digit (n mod 16)]
      else [c])"

definition json_quote :: "string \<Rightarrow> string" where
  "json_quote s = char_of (34::nat) # concat (map json_escape s) @ [char_of (34::nat)]"

fun json_stringify :: "json \<Rightarrow> string" where
  "json_stringify JNull = ''null''"
| "json_stringify (JBool b) = (if b then ''true'' else ''false'')"
| "json_stringify (JNum n) = show_int n"
| "json_stringify (JStr s) = json_quote s"
| "json_stringify (JArr vs) = ''['' @ join '','' (map json_stringify vs) @ '']''"
| "json_stringify (JObj fields) =
     ''{'' @ join '','' (map (\<lambda>kv. json_quote (fst kv) @ '':'' @ json_stringify (snd kv)) fields) @ ''}''"

section \<open>Lemmas\<close>

lemma map_of_obj_set [simp]: "map_of (obj_set k v o1) = (map_of o1)(k \<mapsto> v)"
  by (simp add: obj_set_def js_map.get_put)

lemma map_of_obj_merge: "map_of (obj_merge a b) k = (case map_of (rev b) k of None \<Rightarrow> map_of a k | Some v \<Rightarrow> Some v)"
proof (induction b arbitrary: a)
  case (Cons kv b)
  then show ?case by (cases kv) (auto simp: obj_merge_def map_add_def split: option.splits)
qed (simp add: obj_merge_def)

lemma obj_merge_Nil [simp]: "obj_merge a [] = a"
  by (simp add: obj_merge_def)

lemma obj_merge_Cons [simp]: "obj_merge a (kv # b) = obj_merge (obj_set (fst kv) (snd kv) a) b"
  by (cases kv) (simp add: obj_merge_def)

lemma string_prop_simps [simp]:
  "string_prop (JObj fields) k = (case map_of fields k of Some (JStr s) \<Rightarrow> Some s | _ \<Rightarrow> None)"
  by (simp add: string_prop_def json_prop_def)

lemma json_prop_JObj [simp]: "json_prop (JObj fields) k = map_of fields k"
  by (simp add: json_prop_def)

end
