(* ===== verification/Gateway_Errors.thy ===== *)
theory Gateway_Errors
  imports Json
begin

text \<open>
  How the gateway turns a failure of a downstream server into the client's error: the circuit
  breaker (apps/gateway/src/circuit-breaker/circuit-breaker.service.ts), the exception filters
  (apps/gateway/src/common/filter/http-exception.filter.ts with
  libs/shared/src/common/filter/http-status-mapping.ts), with what the filters log.

  An \<open>AxiosError\<close> has a \<open>cause\<close> that may be an \<open>AxiosError\<close> again; any other cause is \<open>None\<close>, and
  the chain is finite. \<open>JSON.parse\<close> is the parameter \<open>parse\<close>.
\<close>

section \<open>Errors\<close>

record axios_response =
  axr_status :: int
  axr_data :: "json option"
  axr_url :: "string option"

datatype axios_error = AxiosError
  (ax_response: "axios_response option")
  (ax_status: "int option")
  (ax_code: "string option")
  (ax_url: "string option")
  (ax_message: string)
  (ax_cause: "axios_error option")

record graphql_error =
  ge_message :: string
  ge_extensions :: "(string \<times> json) list"

datatype http_response_body = RespText string | RespObject "string option"

datatype gw_exn =
  AxiosExn axios_error
| GraphQLExn graphql_error
| HttpExn int http_response_body string
| ErrorExn string
| OtherExn

section \<open>The search along the causes\<close>

text \<open>The loop \<open>while (isAxiosError(current))\<close> of \<open>findAxiosErrorWithResponse\<close>.\<close>

fun findAxiosErrorWithResponse :: "axios_error \<Rightarrow> axios_error" where
  "findAxiosErrorWithResponse (AxiosError r st cd u m cause) =
     (if r \<noteq> None then AxiosError r st cd u m cause
      else (case cause of
              None \<Rightarrow> AxiosError r st cd u m cause
            | Some c \<Rightarrow> findAxiosErrorWithResponse c))"

fun cause_chain :: "axios_error \<Rightarrow> axios_error list" where
  "cause_chain (AxiosError r st cd u m cause) =
     AxiosError r st cd u m cause # (case cause of None \<Rightarrow> [] | Some c \<Rightarrow> cause_chain c)"

lemma cause_chain_not_Nil [simp]: "cause_chain e \<noteq> []"
  by (cases e) simp

text \<open>The search along the causes finds the first error of the chain that carries a response,
  and the last error of the chain when none does.\<close>

theorem cause_search:
  "findAxiosErrorWithResponse e =
     (case find (\<lambda>x. ax_response x \<noteq> None) (cause_chain e) of
        Some x \<Rightarrow> x | None \<Rightarrow> last (cause_chain e))"
  by (induction e rule: cause_chain.induct) (auto split: option.splits)

section \<open>The body of a downstream error\<close>

record downstream_error =
  de_message :: "string option"
  de_errorCode :: "string option"
  de_rawMessage :: "string option"
  de_timestamp :: "string option"
  de_passwordChangeToken :: "string option"

definition no_error_data :: downstream_error where
  "no_error_data = \<lparr>de_message = None, de_errorCode = None, de_rawMessage = None,
     de_timestamp = None, de_passwordChangeToken = None\<rparr>"

definition error_record :: "json \<Rightarrow> downstream_error" where
  "error_record data =
     \<lparr>de_message = string_prop data ''message'',
      de_errorCode = nullish (string_prop data ''errorCode'') (string_prop data ''code''),
      de_rawMessage = None,
      de_timestamp = string_prop data ''timestamp'',
      de_passwordChangeToken = string_prop data ''passwordChangeToken''\<rparr>"

text \<open>
  \<open>parseDownstreamErrorData\<close> calls itself on the parsed text. The fuel bounds the nesting of
  texts in texts; every level is shorter, so the length of the text is enough (see below).
\<close>

fun parse_data_fuel :: "nat \<Rightarrow> json_parser \<Rightarrow> json option \<Rightarrow> downstream_error" where
  "parse_data_fuel fuel parse data =
     (case data of
        Some (JStr s) \<Rightarrow>
          (case parse s of
             None \<Rightarrow> no_error_data\<lparr>de_rawMessage := Some s\<rparr>
           | Some v \<Rightarrow> (case fuel of 0 \<Rightarrow> no_error_data | Suc n \<Rightarrow> parse_data_fuel n parse (Some v)))
      | Some (JObj ps) \<Rightarrow> error_record (JObj ps)
      | Some (JArr vs) \<Rightarrow> error_record (JArr vs)
      | _ \<Rightarrow> no_error_data)"

declare parse_data_fuel.simps [simp del]

definition text_length :: "json option \<Rightarrow> nat" where
  "text_length data = (case data of Some (JStr s) \<Rightarrow> length s | _ \<Rightarrow> 0)"

definition parseDownstreamErrorData :: "json_parser \<Rightarrow> json option \<Rightarrow> downstream_error" where
  "parseDownstreamErrorData parse data = parse_data_fuel (Suc (text_length data)) parse data"

lemma parse_data_other:
  "\<forall>t. v \<noteq> JStr t \<Longrightarrow> parse_data_fuel n parse (Some v) = parse_data_fuel m parse (Some v)"
  by (cases v) (simp_all add: parse_data_fuel.simps)

lemma parse_data_step:
  "parse s = Some v \<Longrightarrow> parse_data_fuel (Suc n) parse (Some (JStr s)) = parse_data_fuel n parse (Some v)"
  by (subst parse_data_fuel.simps) simp

lemma parse_data_stop:
  "parse s = None \<Longrightarrow> parse_data_fuel n parse (Some (JStr s)) = no_error_data\<lparr>de_rawMessage := Some s\<rparr>"
  by (subst parse_data_fuel.simps) simp

lemma parse_data_enough:
  assumes "parse_shrinks parse"
  shows "length s < n \<Longrightarrow> length s < m \<Longrightarrow>
    parse_data_fuel n parse (Some (JStr s)) = parse_data_fuel m parse (Some (JStr s))"
proof (induction n arbitrary: m s)
  case (Suc n)
  obtain k where m: "m = Suc k" using Suc.prems by (cases m) auto
  show ?case
  proof (cases "parse s")
    case (Some v)
    have "parse_data_fuel n parse (Some v) = parse_data_fuel k parse (Some v)"
    proof (cases "\<exists>t. v = JStr t")
      case True
      then obtain t where t: "v = JStr t" by blast
      with Some assms have "length t < length s" by (auto simp: parse_shrinks_def)
      with Suc.prems m t show ?thesis using Suc.IH [of t k] by simp
    next
      case False
      then show ?thesis by (intro parse_data_other) blast
    qed
    then show ?thesis unfolding m parse_data_step [where parse = parse, OF Some] .
  next
    case None
    show ?thesis unfolding parse_data_stop [where parse = parse, OF None] ..
  qed
qed simp

text \<open>With the fuel chosen the definition satisfies the recursion as it is written in the source.\<close>

lemma parseDownstreamErrorData_text:
  assumes "parse_shrinks parse"
  shows "parseDownstreamErrorData parse (Some (JStr s)) =
    (case parse s of
       None \<Rightarrow> no_error_data\<lparr>de_rawMessage := Some s\<rparr>
     | Some v \<Rightarrow> parseDownstreamErrorData parse (Some v))"
proof (cases "parse s")
  case (Some v)
  have "parse_data_fuel (length s) parse (Some v) = parse_data_fuel (Suc (text_length (Some v))) parse (Some v)"
  proof (cases "\<exists>t. v = JStr t")
    case True
    then obtain t where t: "v = JStr t" by blast
    with Some assms have "length t < length s" by (auto simp: parse_shrinks_def)
    then show ?thesis
      unfolding t by (intro parse_data_enough [OF assms]) (simp_all add: text_length_def)
  next
    case False
    then show ?thesis by (intro parse_data_other) blast
  qed
  moreover have "text_length (Some (JStr s)) = length s" by (simp add: text_length_def)
  ultimately show ?thesis
    unfolding parseDownstreamErrorData_def Some
    by (simp only: parse_data_step [where parse = parse, OF Some] option.case)
next
  case None
  then show ?thesis
    unfolding parseDownstreamErrorData_def by (simp only: parse_data_stop option.case)
qed

lemma parseDownstreamErrorData_object:
  "parseDownstreamErrorData parse (Some (JObj ps)) = error_record (JObj ps)"
  by (simp add: parseDownstreamErrorData_def parse_data_fuel.simps)

section \<open>The GraphQL error\<close>

definition HTTP_STATUS_TO_ERROR_CODE :: "(int \<times> string) list" where
  "HTTP_STATUS_TO_ERROR_CODE =
     [(400, ''BAD_REQUEST''), (401, ''UNAUTHENTICATED''), (403, ''FORBIDDEN''), (404, ''NOT_FOUND''),
      (408, ''GATEWAY_TIMEOUT''), (429, ''TOO_MANY_REQUESTS''), (502, ''BAD_GATEWAY''),
      (503, ''BAD_GATEWAY''), (504, ''GATEWAY_TIMEOUT'')]"

definition inferDownstreamService :: "string \<Rightarrow> string option" where
  "inferDownstreamService url =
     (if js_includes url ''/auth/'' then Some ''auth''
      else if js_includes url ''/api/logs'' \<or> js_includes url ''/api/containers'' \<or>
              js_includes url ''/api/stats'' then Some ''log-streamer''
      else None)"

definition toAxiosGraphQLError :: "json_parser \<Rightarrow> axios_error \<Rightarrow> graphql_error" where
  "toAxiosGraphQLError parse e =
     (let responseError = findAxiosErrorWithResponse e;
          response = ax_response responseError;
          status = nullish (map_option axr_status response) (ax_status responseError);
          errCode = nullish (ax_code e) (ax_code responseError);
          url = nullish_default (nullish (Option.bind response axr_url)
                  (nullish (ax_url responseError) (ax_url e))) ''unknown'';
          downstreamService = inferDownstreamService url;
          service = opt_field ''downstreamService'' downstreamService
      in if errCode = Some ''ECONNABORTED'' \<or> errCode = Some ''ETIMEDOUT'' then
           \<lparr>ge_message =
              (if downstreamService = Some ''auth'' then ''%uC778%uC99D %uC11C%uBC84 %uC751%uB2F5%uC774 %uC9C0%uC5F0%uB418%uACE0 %uC788%uC2B5%uB2C8%uB2E4.'' else ''Backend service timeout''),
            ge_extensions =
              obj_merge [(''code'', JStr ''GATEWAY_TIMEOUT''), (''statusCode'', JNum 504)] service\<rparr>
         else (case status of
           Some st \<Rightarrow>
             if st = 0 then
               \<lparr>ge_message =
                  (if downstreamService = Some ''auth'' then ''%uC778%uC99D %uC11C%uBC84%uC5D0 %uC5F0%uACB0%uD560 %uC218 %uC5C6%uC2B5%uB2C8%uB2E4.'' else ''Backend service unavailable''),
                ge_extensions =
                  obj_merge [(''code'', JStr ''BAD_GATEWAY''), (''statusCode'', JNum 502)] service\<rparr>
             else
               (let data = parseDownstreamErrorData parse (Option.bind response axr_data) in
                \<lparr>ge_message =
                   nullish_default (nullish (de_message data) (de_rawMessage data))
                     (''Backend service error ('' @ show_int st @ '')''),
                 ge_extensions =
                   obj_merge
                     [(''code'', JStr (nullish_default (map_of HTTP_STATUS_TO_ERROR_CODE st) ''BAD_GATEWAY'')),
                      (''statusCode'', JNum st)]
                     (opt_field ''errorCode'' (de_errorCode data) @
                      opt_field ''timestamp'' (de_timestamp data) @
                      opt_field ''passwordChangeToken'' (de_passwordChangeToken data) @ service)\<rparr>)
         | None \<Rightarrow>
             \<lparr>ge_message =
                (if downstreamService = Some ''auth'' then ''%uC778%uC99D %uC11C%uBC84%uC5D0 %uC5F0%uACB0%uD560 %uC218 %uC5C6%uC2B5%uB2C8%uB2E4.'' else ''Backend service unavailable''),
              ge_extensions =
                obj_merge [(''code'', JStr ''BAD_GATEWAY''), (''statusCode'', JNum 502)] service\<rparr>))"

text \<open>\<open>HttpExceptionFilter.catch\<close>, which catches everything, and \<open>AxiosExceptionFilter.catch\<close>.\<close>

definition http_exception_catch :: "json_parser \<Rightarrow> gw_exn \<Rightarrow> graphql_error" where
  "http_exception_catch parse ex =
     (case ex of
        AxiosExn e \<Rightarrow> toAxiosGraphQLError parse e
      | GraphQLExn g \<Rightarrow> g
      | HttpExn status response message \<Rightarrow>
          \<lparr>ge_message =
             (case response of RespText s \<Rightarrow> s | RespObject m \<Rightarrow> nullish_default m message),
           ge_extensions =
             [(''code'', JStr (nullish_default (map_of HTTP_STATUS_TO_ERROR_CODE status) ''INTERNAL_SERVER_ERROR'')),
              (''statusCode'', JNum status)]\<rparr>
      | _ \<Rightarrow>
          \<lparr>ge_message = ''Internal server error'',
           ge_extensions = [(''code'', JStr ''INTERNAL_SERVER_ERROR''), (''statusCode'', JNum 500)]\<rparr>)"

definition axios_exception_catch :: "json_parser \<Rightarrow> axios_error \<Rightarrow> graphql_error" where
  "axios_exception_catch parse e = toAxiosGraphQLError parse e"

text \<open>
  What \<open>HttpExceptionFilter\<close> logs of what it catches, the level and the text of each line: nothing of a GraphQL error.
\<close>

definition axios_url :: "axios_error \<Rightarrow> string" where
  "axios_url e =
     (let responseError = findAxiosErrorWithResponse e
      in nullish_default (nullish (Option.bind (ax_response responseError) axr_url)
           (nullish (ax_url responseError) (ax_url e))) ''unknown'')"

definition axios_line :: "axios_error \<Rightarrow> string" where
  "axios_line e =
     (let responseError = findAxiosErrorWithResponse e;
          status = nullish (map_option axr_status (ax_response responseError)) (ax_status responseError);
          errCode = nullish (ax_code e) (ax_code responseError)
      in if errCode = Some ''ECONNABORTED'' \<or> errCode = Some ''ETIMEDOUT'' then ''Backend timeout: '' @ axios_url e
         else (case status of
           None \<Rightarrow> ''Backend unreachable: '' @ axios_url e
         | Some st \<Rightarrow>
             if st = 0 then ''Backend unreachable: '' @ axios_url e
             else ''Backend error: '' @ axios_url e @ '' responded with '' @ show_int st))"

definition exception_lines :: "gw_exn \<Rightarrow> (string \<times> string) list" where
  "exception_lines ex =
     (case ex of
        AxiosExn e \<Rightarrow> [(''error'', axios_line e)]
      | GraphQLExn g \<Rightarrow> []
      | HttpExn status response message \<Rightarrow>
          [(''error'', ''HttpException ['' @ show_int status @ '']: '' @
             (case response of RespText s \<Rightarrow> s | RespObject m \<Rightarrow> nullish_default m message))]
      | ErrorExn m \<Rightarrow> [(''error'', ''Unexpected exception: '' @ m)]
      | OtherExn \<Rightarrow> [(''error'', ''Unexpected exception: Internal server error'')])"

lemma exception_lines_level: "list_all (\<lambda>l. fst l = ''error'') (exception_lines ex)"
  by (simp add: exception_lines_def split: gw_exn.split)

definition ext_string :: "graphql_error \<Rightarrow> string \<Rightarrow> string option" where
  "ext_string g k = string_prop (JObj (ge_extensions g)) k"

lemma opt_field_cases:
  "opt_field k None = []" "opt_field k (Some []) = []" "opt_field k (Some (c # s)) = [(k, JStr (c # s))]"
  by (simp_all add: opt_field_def)

lemma map_of_opt_field [simp]:
  "map_of (opt_field k v) j = (if k = j \<and> truthy v then map_option JStr v else None)"
  by (auto simp: opt_field_def truthy_def split: option.splits)

lemma map_of_rev_opt_field [simp]: "rev (opt_field k v) = opt_field k v"
  by (auto simp: opt_field_def split: option.splits)

lemma ext_merge:
  "map_of (obj_merge a (opt_field k1 v1 @ opt_field k2 v2 @ opt_field k3 v3 @ opt_field k4 v4)) j =
    (if j = k4 \<and> truthy v4 then map_option JStr v4
     else if j = k3 \<and> truthy v3 then map_option JStr v3
     else if j = k2 \<and> truthy v2 then map_option JStr v2
     else if j = k1 \<and> truthy v1 then map_option JStr v1 else map_of a j)"
  by (auto simp: map_of_obj_merge map_add_def truthy_def split: option.splits)

text \<open>C16: how a failure is classified, whatever was thrown. A GraphQL error is passed on as it is. Everything else
  becomes one with a code and a status: of a request to a server, a timeout is \<open>GATEWAY_TIMEOUT\<close>/504, a
  server that was not reached \<open>BAD_GATEWAY\<close>/502, and an answer keeps its own status with the mapped code or
  \<open>BAD_GATEWAY\<close>; an HTTP exception keeps its status and its message, with the mapped code or
  \<open>INTERNAL_SERVER_ERROR\<close>; anything else is \<open>INTERNAL_SERVER_ERROR\<close>/500 with a message that says nothing of it.\<close>

theorem axios_error_classified:
  defines "r \<equiv> \<lambda>e. findAxiosErrorWithResponse e"
  defines "status \<equiv> \<lambda>e. nullish (map_option axr_status (ax_response (r e))) (ax_status (r e))"
  defines "timeout \<equiv> \<lambda>e. nullish (ax_code e) (ax_code (r e)) \<in> {Some ''ECONNABORTED'', Some ''ETIMEDOUT''}"
  shows "(let g = http_exception_catch parse (AxiosExn e); x = map_of (ge_extensions g) in
      if timeout e then x ''code'' = Some (JStr ''GATEWAY_TIMEOUT'') \<and> x ''statusCode'' = Some (JNum 504)
      else if status e \<in> {None, Some 0} then
        x ''code'' = Some (JStr ''BAD_GATEWAY'') \<and> x ''statusCode'' = Some (JNum 502)
      else x ''statusCode'' = map_option JNum (status e) \<and>
        x ''code'' = Some (JStr (nullish_default (map_of HTTP_STATUS_TO_ERROR_CODE (the (status e))) ''BAD_GATEWAY''))) \<and>
    (\<forall>g. http_exception_catch parse (GraphQLExn g) = g) \<and>
    (\<forall>st response m. let g = http_exception_catch parse (HttpExn st response m); x = map_of (ge_extensions g) in
       ge_message g = (case response of RespText t \<Rightarrow> t | RespObject t \<Rightarrow> nullish_default t m) \<and>
       x ''statusCode'' = Some (JNum st) \<and>
       x ''code'' = Some (JStr (nullish_default (map_of HTTP_STATUS_TO_ERROR_CODE st) ''INTERNAL_SERVER_ERROR''))) \<and>
    list_all (\<lambda>ex. let g = http_exception_catch parse ex; x = map_of (ge_extensions g) in
       ge_message g = ''Internal server error'' \<and> x ''code'' = Some (JStr ''INTERNAL_SERVER_ERROR'') \<and>
       x ''statusCode'' = Some (JNum 500)) [ErrorExn text1, OtherExn]"
proof -
  have two: "map_of (obj_merge [(''code'', c), (''statusCode'', s)] (opt_field ''downstreamService'' v)) ''code'' = Some c"
    "map_of (obj_merge [(''code'', c), (''statusCode'', s)] (opt_field ''downstreamService'' v)) ''statusCode'' = Some s"
    for c s v by (auto simp: map_of_obj_merge split: option.splits)
  show ?thesis
    unfolding r_def status_def timeout_def http_exception_catch_def toAxiosGraphQLError_def Let_def
    by (auto simp: two ext_merge split: option.splits)
qed

section \<open>The circuit breaker\<close>

text \<open>
  \<open>opossum\<close> is a parameter: \<open>fire_breaker\<close> runs an action through the breaker with the given
  options. The service keeps one breaker for each domain.
\<close>

record breaker_options =
  br_name :: string
  br_timeout :: "int option"
  br_errorThresholdPercentage :: int
  br_resetTimeout :: int
  br_volumeThreshold :: int
  br_rollingCountTimeout :: int
  br_errorFilter :: "gw_exn \<Rightarrow> bool"

definition cb_findAxiosErrorWithResponse :: "gw_exn \<Rightarrow> axios_error option" where
  "cb_findAxiosErrorWithResponse error =
     (case error of AxiosExn e \<Rightarrow> Some (findAxiosErrorWithResponse e) | _ \<Rightarrow> None)"

definition cb_record :: "json \<Rightarrow> string option \<times> string option" where
  "cb_record data =
     (nullish (string_prop data ''errorCode'') (string_prop data ''code''), string_prop data ''message'')"

fun cb_parse_fuel :: "nat \<Rightarrow> json_parser \<Rightarrow> json option \<Rightarrow> string option \<times> string option" where
  "cb_parse_fuel fuel parse data =
     (case data of
        Some (JStr s) \<Rightarrow>
          (case parse s of
             None \<Rightarrow> (None, None)
           | Some v \<Rightarrow> (case fuel of 0 \<Rightarrow> (None, None) | Suc n \<Rightarrow> cb_parse_fuel n parse (Some v)))
      | Some (JObj ps) \<Rightarrow> cb_record (JObj ps)
      | Some (JArr vs) \<Rightarrow> cb_record (JArr vs)
      | _ \<Rightarrow> (None, None))"

declare cb_parse_fuel.simps [simp del]

definition cb_parseErrorData :: "json_parser \<Rightarrow> json option \<Rightarrow> string option \<times> string option" where
  "cb_parseErrorData parse data = cb_parse_fuel (Suc (text_length data)) parse data"

definition isStructuredDownstreamError :: "json_parser \<Rightarrow> gw_exn \<Rightarrow> bool" where
  "isStructuredDownstreamError parse error =
     (case cb_findAxiosErrorWithResponse error of
        None \<Rightarrow> False
      | Some axiosError \<Rightarrow>
          (let (cd, message) = cb_parseErrorData parse (Option.bind (ax_response axiosError) axr_data)
           in truthy cd \<and> truthy message))"

definition new_breaker :: "json_parser \<Rightarrow> string \<Rightarrow> breaker_options" where
  "new_breaker parse domain =
     \<lparr>br_name = domain, br_timeout = None, br_errorThresholdPercentage = 50, br_resetTimeout = 30000,
      br_volumeThreshold = 5, br_rollingCountTimeout = 10000,
      br_errorFilter = isStructuredDownstreamError parse\<rparr>"

type_synonym breakers = "(string \<times> breaker_options) list"

definition getBreaker :: "json_parser \<Rightarrow> string \<Rightarrow> breakers \<Rightarrow> breaker_options \<times> breakers" where
  "getBreaker parse domain brs =
     (case map_of brs domain of
        Some b \<Rightarrow> (b, brs)
      | None \<Rightarrow> (let b = new_breaker parse domain in (b, AList.update domain b brs)))"

definition exn_message :: "gw_exn \<Rightarrow> string option" where
  "exn_message ex =
     (case ex of
        AxiosExn e \<Rightarrow> Some (ax_message e)
      | GraphQLExn g \<Rightarrow> Some (ge_message g)
      | HttpExn _ _ m \<Rightarrow> Some m
      | ErrorExn m \<Rightarrow> Some m
      | OtherExn \<Rightarrow> None)"

definition http_exception :: "int \<Rightarrow> string \<Rightarrow> gw_exn" where
  "http_exception status message = HttpExn status (RespObject (Some message)) message"

definition cb_fire ::
  "json_parser \<Rightarrow> (breaker_options \<Rightarrow> (gw_exn, 's, 'a) eff \<Rightarrow> (gw_exn, 's, 'a) eff) \<Rightarrow>
   string \<Rightarrow> (gw_exn, 's, 'a) eff \<Rightarrow> (gw_exn, breakers \<times> 's, 'a) eff" where
  "cb_fire parse fire_breaker domain action = (\<lambda>(brs, s).
     let (b, brs') = getBreaker parse domain brs in
     (case fire_breaker b action s of
        (Inr x, s') \<Rightarrow> (Inr x, brs', s')
      | (Inl error, s') \<Rightarrow>
          (Inl (if exn_message error = Some ''Breaker is open''
                then http_exception 503 (''Circuit breaker is open for domain: '' @ domain)
                else error), brs', s')))"

text \<open>The two parsers of an error body read the same code and message.\<close>

lemma cb_parse_agrees:
  "cb_parse_fuel n parse data =
    (de_errorCode (parse_data_fuel n parse data), de_message (parse_data_fuel n parse data))"
proof (induction n parse data rule: cb_parse_fuel.induct)
  case (1 n parse data)
  show ?case
    by (subst cb_parse_fuel.simps, subst (1 2) parse_data_fuel.simps)
      (auto simp: 1 cb_record_def error_record_def no_error_data_def split: option.split json.split nat.split)
qed

lemma isStructured_iff:
  "isStructuredDownstreamError parse (AxiosExn e) \<longleftrightarrow>
    truthy (de_errorCode (parseDownstreamErrorData parse
       (Option.bind (ax_response (findAxiosErrorWithResponse e)) axr_data))) \<and>
    truthy (de_message (parseDownstreamErrorData parse
       (Option.bind (ax_response (findAxiosErrorWithResponse e)) axr_data)))"
  by (simp add: isStructuredDownstreamError_def cb_findAxiosErrorWithResponse_def
      cb_parseErrorData_def cb_parse_agrees parseDownstreamErrorData_def Let_def)

text \<open>The branch of \<open>toAxiosGraphQLError\<close> for a server that answered.\<close>

definition answered :: "axios_error \<Rightarrow> int \<Rightarrow> bool" where
  "answered e st \<longleftrightarrow>
     nullish (ax_code e) (ax_code (findAxiosErrorWithResponse e)) \<notin> {Some ''ECONNABORTED'', Some ''ETIMEDOUT''} \<and>
     nullish (map_option axr_status (ax_response (findAxiosErrorWithResponse e)))
       (ax_status (findAxiosErrorWithResponse e)) = Some st \<and> st \<noteq> 0"

lemma answered_error:
  assumes "answered e st"
    and "d = parseDownstreamErrorData parse (Option.bind (ax_response (findAxiosErrorWithResponse e)) axr_data)"
  shows "ge_message (toAxiosGraphQLError parse e) =
      nullish_default (nullish (de_message d) (de_rawMessage d)) (''Backend service error ('' @ show_int st @ '')'')"
    and "ext_string (toAxiosGraphQLError parse e) ''errorCode'' = (if truthy (de_errorCode d) then de_errorCode d else None)"
    and "ext_string (toAxiosGraphQLError parse e) ''passwordChangeToken'' =
      (if truthy (de_passwordChangeToken d) then de_passwordChangeToken d else None)"
    and "map_of (ge_extensions (toAxiosGraphQLError parse e)) ''statusCode'' = Some (JNum st)"
  using assms unfolding answered_def toAxiosGraphQLError_def Let_def ext_string_def
  by (auto simp: ext_merge truthy_def split: option.splits)

text \<open>C17: the circuit breaker does not count an answer that reaches the client as a structured
  error. For a server that answered, the breaker's error filter holds exactly when the GraphQL
  error made from the failure carries an error code and the server's own message.\<close>

theorem breaker_filter_matches_client_error:
  assumes "answered e st"
  shows "isStructuredDownstreamError parse (AxiosExn e) \<longleftrightarrow>
    ext_string (toAxiosGraphQLError parse e) ''errorCode'' \<noteq> None \<and>
    (\<exists>m. m \<noteq> [] \<and> ge_message (toAxiosGraphQLError parse e) = m \<and>
       de_message (parseDownstreamErrorData parse
         (Option.bind (ax_response (findAxiosErrorWithResponse e)) axr_data)) = Some m)"
  unfolding isStructured_iff answered_error(1,2) [OF assms refl]
  by (auto simp: truthy_iff)

definition demo_axios_error :: axios_error where
  "demo_axios_error =
     AxiosError None None (Some ''ERR_BAD_REQUEST'') (Some ''http://auth:4001/auth/login'') ''failed''
       (Some (AxiosError
         (Some \<lparr>axr_status = 403,
           axr_data = Some (JObj [(''code'', JStr ''11005''), (''message'', JStr ''locked'')]),
           axr_url = Some ''http://auth:4001/auth/login''\<rparr>) None None None ''failed'' None))"

lemma breaker_filter_matches_client_error_witness:
  "isStructuredDownstreamError (\<lambda>s. None) (AxiosExn demo_axios_error) \<and>
   ext_string (toAxiosGraphQLError (\<lambda>s. None) demo_axios_error) ''errorCode'' \<noteq> None"
proof -
  have "answered demo_axios_error 403" "isStructuredDownstreamError (\<lambda>s. None) (AxiosExn demo_axios_error)"
    by code_simp+
  with breaker_filter_matches_client_error [of demo_axios_error 403 "\<lambda>s. None"] show ?thesis by blast
qed

text \<open>One breaker for each domain, and an open breaker is a 503. Firing keeps the breakers that
  exist and adds at most the domain's own, configured for it; the value and the errors of the action
  pass through, except that the breaker's own refusal becomes a \<open>ServiceUnavailableException\<close> that
  the exception filter reports with status 503.\<close>

theorem circuit_breaker_fire:
  assumes "wf_map brs" and "cb_fire parse fire_breaker domain action (brs, s) = (r, brs', s')"
    and "\<And>b. map_of brs domain = Some b \<Longrightarrow> b = new_breaker parse domain"
  shows "wf_map brs' \<and> map_of brs' = (map_of brs)(domain \<mapsto> new_breaker parse domain) \<and>
    (let r0 = fst (fire_breaker (new_breaker parse domain) action s) in
      if (\<exists>e. r0 = Inl e \<and> exn_message e = Some ''Breaker is open'') then
        (\<exists>e. r = Inl e \<and> map_of (ge_extensions (http_exception_catch parse e)) ''statusCode'' = Some (JNum 503) \<and>
           map_of (ge_extensions (http_exception_catch parse e)) ''code'' = Some (JStr ''BAD_GATEWAY''))
      else r = r0)"
proof -
  have g: "fst (getBreaker parse domain brs) = new_breaker parse domain"
    "wf_map (snd (getBreaker parse domain brs))"
    "map_of (snd (getBreaker parse domain brs)) = (map_of brs)(domain \<mapsto> new_breaker parse domain)"
    using assms(1,3) by (auto simp: getBreaker_def Let_def js_map.wf_put js_map.get_put split: option.splits)
  then obtain gs where gb: "getBreaker parse domain brs = (new_breaker parse domain, gs)"
    by (metis prod.collapse)
  obtain q v where q: "fire_breaker (new_breaker parse domain) action s = (q, v)" by fastforce
  show ?thesis
    using assms(2) g q gb
    by (cases q)
      (auto simp: cb_fire_def Let_def http_exception_def http_exception_catch_def HTTP_STATUS_TO_ERROR_CODE_def)
qed

lemma circuit_breaker_fire_witness:
  "\<exists>e brs'. cb_fire (\<lambda>s. None) (\<lambda>b a s. (Inl (ErrorExn ''Breaker is open''), s)) ''auth-server''
      (ret (1::int)) ([], ()) = (Inl e, brs', ()) \<and>
    map_of (ge_extensions (http_exception_catch (\<lambda>s. None) e)) ''statusCode'' = Some (JNum 503)"
proof -
  let ?fb = "\<lambda>(b::breaker_options) (a::(gw_exn, unit, int) eff) s. (Inl (ErrorExn ''Breaker is open'') :: gw_exn + int, s)"
  let ?run = "cb_fire (\<lambda>s. None) ?fb ''auth-server'' (ret (1::int)) ([], ())"
  have run: "?run = (fst ?run, fst (snd ?run), ())" by (simp add: prod_eq_iff)
  have "wf_map ([]::breakers)" by (simp add: wf_map_def)
  from circuit_breaker_fire [OF this run]
  obtain e where "fst ?run = Inl e"
    "map_of (ge_extensions (http_exception_catch (\<lambda>s. None) e)) ''statusCode'' = Some (JNum 503)"
    by (auto simp: exn_message_def Let_def)
  with run show ?thesis by metis
qed

end
