(* ===== verification/Access_Channel.thy ===== *)
theory Access_Channel
  imports JS_Prelude
begin

text \<open>
  Where a request came from: \<open>resolveAccessChannelOrigin\<close>
  (libs/shared/src/common/http/access-channel.ts), used by the auth server for the login history.
  The headers are Node's \<open>IncomingHttpHeaders\<close>, an object whose values are a string or an array of
  strings; the \<open>URL\<close> parser of the platform is the parameter \<open>url_parse\<close>, \<open>None\<close> where it throws.
\<close>

datatype header_value = One string | Many "string list"

type_synonym headers = "(string \<times> header_value) list"

record url_parts =
  url_protocol :: string
  url_hostname :: string
  url_origin :: string

type_synonym url_parser = "string \<Rightarrow> url_parts option"

definition HTTP_PROTOCOLS :: "string list" where
  "HTTP_PROTOCOLS = [''http:'', ''https:'']"

definition rawHeaderValue :: "headers \<Rightarrow> string \<Rightarrow> header_value option" where
  "rawHeaderValue headers name =
     (case nullish (map_of headers name) (map_of headers (js_lower name)) of
        Some direct \<Rightarrow> Some direct
      | None \<Rightarrow> map_option snd (find (\<lambda>(key, _). js_lower key = js_lower name) headers))"

text \<open>\<open>value[0]\<close> of an array: \<open>undefined\<close> when it is empty.\<close>

definition first_value :: "header_value option \<Rightarrow> string option" where
  "first_value v =
     (case v of
        None \<Rightarrow> None
      | Some (One s) \<Rightarrow> Some s
      | Some (Many []) \<Rightarrow> None
      | Some (Many (s # _)) \<Rightarrow> Some s)"

definition headerValue :: "headers \<Rightarrow> string \<Rightarrow> string option" where
  "headerValue headers name =
     (case map_option js_trim (first_value (rawHeaderValue headers name)) of
        Some (c # s) \<Rightarrow> Some (c # s) | _ \<Rightarrow> None)"

definition firstCommaSeparatedHeader :: "headers \<Rightarrow> string \<Rightarrow> string option" where
  "firstCommaSeparatedHeader headers name =
     (case headerValue headers name of
        None \<Rightarrow> None
      | Some v \<Rightarrow>
          (case js_trim (hd (split_on (CHR '','') v)) of [] \<Rightarrow> None | c # s \<Rightarrow> Some (c # s)))"

definition inferProtocolFromHost :: "string \<Rightarrow> string" where
  "inferProtocolFromHost host =
     (let normalized = js_lower host in
      if starts_with ''localhost'' normalized \<or> starts_with ''127.0.0.1'' normalized \<or>
         starts_with ''[::1]'' normalized \<or> normalized = ''::1''
      then ''http'' else ''https'')"

definition normalizeProtocol :: "string option \<Rightarrow> string option" where
  "normalizeProtocol value =
     (case map_option (\<lambda>v. js_lower (js_trim v)) value of
        None \<Rightarrow> None
      | Some normalized \<Rightarrow>
          if normalized = ''http'' \<or> normalized = ''http:'' then Some ''http''
          else if normalized = ''https'' \<or> normalized = ''https:'' then Some ''https''
          else None)"

definition normalizeOrigin :: "url_parser \<Rightarrow> string \<Rightarrow> string option" where
  "normalizeOrigin url_parse value =
     (case url_parse (js_trim value) of
        None \<Rightarrow> None
      | Some url \<Rightarrow>
          if url_protocol url \<notin> set HTTP_PROTOCOLS \<or> url_hostname url = [] then None
          else Some (url_origin url))"

text \<open>\<open>/^https?:\/\//i.test(host)\<close>.\<close>

definition has_http_scheme :: "string \<Rightarrow> bool" where
  "has_http_scheme host =
     (starts_with ''http://'' (js_lower host) \<or> starts_with ''https://'' (js_lower host))"

definition originFromHost :: "url_parser \<Rightarrow> string \<Rightarrow> string \<Rightarrow> string option" where
  "originFromHost url_parse host protocol =
     (if has_http_scheme host then normalizeOrigin url_parse host
      else normalizeOrigin url_parse (protocol @ ''://'' @ host))"

definition originFromHeader :: "url_parser \<Rightarrow> headers \<Rightarrow> string \<Rightarrow> string option" where
  "originFromHeader url_parse headers name =
     (case headerValue headers name of None \<Rightarrow> None | Some value \<Rightarrow> normalizeOrigin url_parse value)"

definition originFromForwarded :: "url_parser \<Rightarrow> headers \<Rightarrow> string option" where
  "originFromForwarded url_parse headers =
     (case firstCommaSeparatedHeader headers ''x-forwarded-host'' of
        None \<Rightarrow> None
      | Some forwardedHost \<Rightarrow>
          originFromHost url_parse forwardedHost
            (nullish_default
               (normalizeProtocol (firstCommaSeparatedHeader headers ''x-forwarded-proto''))
               (inferProtocolFromHost forwardedHost)))"

definition resolveAccessChannelOrigin :: "url_parser \<Rightarrow> headers \<Rightarrow> string option" where
  "resolveAccessChannelOrigin url_parse headers =
     nullish (originFromForwarded url_parse headers)
    (nullish (originFromHeader url_parse headers ''origin'')
    (nullish (originFromHeader url_parse headers ''referer'')
             (originFromHeader url_parse headers ''x-access-channel'')))"

section \<open>Looking up a header\<close>

lemma headerValue_nonempty: "headerValue headers name = Some v \<Longrightarrow> v \<noteq> []"
  by (auto simp: headerValue_def split: option.splits list.splits)

lemma find_unique:
  assumes "x \<in> set xs" and "P x" and "\<forall>y \<in> set xs. P y \<longrightarrow> y = x"
  shows "find P xs = Some x"
  using assms
proof (induction xs)
  case (Cons y ys)
  show ?case
  proof (cases "P y")
    case True
    with Cons.prems(3) have "y = x" by simp
    with True show ?thesis by simp
  next
    case False
    with Cons.prems(1,2) have "x \<in> set ys" by auto
    from Cons.IH [OF this Cons.prems(2)] Cons.prems(3) False show ?thesis by simp
  qed
qed simp

text \<open>Header names are matched without case. When exactly one header of the request is spelled
  like the name, up to case, the lookup finds its value, whatever other headers there are.\<close>

theorem header_lookup_ignores_case:
  assumes "(key, v) \<in> set hs" and "js_lower key = js_lower name"
    and "\<forall>kv \<in> set hs. js_lower (fst kv) = js_lower name \<longrightarrow> kv = (key, v)"
  shows "rawHeaderValue hs name = Some v"
proof -
  have direct: "map_of hs n = Some v \<or> map_of hs n = None" if "js_lower n = js_lower name" for n
  proof (cases "map_of hs n")
    case (Some u)
    then have "(n, u) \<in> set hs" by (rule map_of_SomeD)
    from assms(3) [rule_format, OF this] that Some show ?thesis by simp
  qed simp
  have "find (\<lambda>(k, _). js_lower k = js_lower name) hs = Some (key, v)"
    by (rule find_unique [OF assms(1)]) (use assms(2,3) in \<open>simp_all add: split_def\<close>)
  moreover have "nullish (map_of hs name) (map_of hs (js_lower name)) = Some v \<or>
      nullish (map_of hs name) (map_of hs (js_lower name)) = None"
    using direct [OF refl] direct [OF js_lower_idem] by (elim disjE) simp_all
  ultimately show ?thesis
    unfolding rawHeaderValue_def by (elim disjE) simp_all
qed

lemma header_lookup_ignores_case_witness:
  "rawHeaderValue [(''host'', One ''h''), (''X-Forwarded-Host'', One ''shop'')] ''x-forwarded-host'' =
     Some (One ''shop'')"
  by (rule header_lookup_ignores_case [of "''X-Forwarded-Host''"]) code_simp+

section \<open>The resolved origin\<close>

lemma normalizeOrigin_Some:
  "normalizeOrigin url_parse v = Some origin \<Longrightarrow>
   \<exists>u. url_parse (js_trim v) = Some u \<and> url_protocol u \<in> {''http:'', ''https:''} \<and>
     url_hostname u \<noteq> [] \<and> origin = url_origin u"
  by (auto simp: normalizeOrigin_def HTTP_PROTOCOLS_def split: option.splits if_splits)

lemma originFromHost_value:
  "originFromHost url_parse host p =
     normalizeOrigin url_parse (if has_http_scheme host then host else p @ ''://'' @ host)"
  by (simp add: originFromHost_def)

lemma forwarded_protocol:
  "nullish_default (normalizeProtocol v) (inferProtocolFromHost h) \<in> {''http'', ''https''}"
  by (auto simp: normalizeProtocol_def inferProtocolFromHost_def Let_def split: option.split)

text \<open>The access channel is an HTTP origin, and the proxy's word comes first. A resolved
  channel is the origin of a URL with protocol http or https and a host; with a usable
  \<open>X-Forwarded-Host\<close> it depends on the forwarding headers alone, and the URL parsed is this first
  host, with its own scheme or with \<open>http\<close> or \<open>https\<close> put before it; without one, the sender's
  own headers count.\<close>

theorem access_channel_origin:
  assumes "resolveAccessChannelOrigin url_parse hs = Some origin"
  shows "(\<exists>text u. url_parse text = Some u \<and> url_protocol u \<in> {''http:'', ''https:''} \<and>
      url_hostname u \<noteq> [] \<and> origin = url_origin u \<and>
      (originFromForwarded url_parse hs \<noteq> None \<longrightarrow>
        (\<exists>h p. firstCommaSeparatedHeader hs ''x-forwarded-host'' = Some h \<and> p \<in> {''http'', ''https''} \<and>
           text = js_trim (if has_http_scheme h then h else p @ ''://'' @ h))) \<and>
      (originFromForwarded url_parse hs = None \<longrightarrow>
        (\<exists>name \<in> {''origin'', ''referer'', ''x-access-channel''}.
           map_option js_trim (headerValue hs name) = Some text)))"
proof (cases "originFromForwarded url_parse hs")
  case (Some o')
  then obtain h where h: "firstCommaSeparatedHeader hs ''x-forwarded-host'' = Some h"
    by (auto simp: originFromForwarded_def split: option.splits)
  define p where "p = nullish_default
    (normalizeProtocol (firstCommaSeparatedHeader hs ''x-forwarded-proto'')) (inferProtocolFromHost h)"
  from Some assms h have "normalizeOrigin url_parse (if has_http_scheme h then h else p @ ''://'' @ h) = Some origin"
    unfolding resolveAccessChannelOrigin_def originFromForwarded_def originFromHost_value p_def
    by (simp only: option.case nullish_simps)
  from normalizeOrigin_Some [OF this] obtain u where
    u: "url_parse (js_trim (if has_http_scheme h then h else p @ ''://'' @ h)) = Some u"
    "url_protocol u \<in> {''http:'', ''https:''}" "url_hostname u \<noteq> []" "origin = url_origin u" by blast
  have "p \<in> {''http'', ''https''}" unfolding p_def by (rule forwarded_protocol)
  with u Some h show ?thesis
    by (intro exI [of _ "js_trim (if has_http_scheme h then h else p @ ''://'' @ h)"] exI [of _ u])
      (simp only: option.distinct simp_thms not_False_eq_True, blast)
next
  case None
  with assms obtain name v where "name \<in> {''origin'', ''referer'', ''x-access-channel''}"
    "headerValue hs name = Some v" "normalizeOrigin url_parse v = Some origin"
    by (auto simp: resolveAccessChannelOrigin_def originFromHeader_def nullish_def split: option.splits)
  with None normalizeOrigin_Some [OF this(3)] show ?thesis by fastforce
qed

text \<open>A parser for the witness: a URL is a scheme and a host.\<close>

definition demo_url_parse :: url_parser where
  "demo_url_parse s =
     (case index_of s ''://'' 0 of
        None \<Rightarrow> None
      | Some i \<Rightarrow> Some \<lparr>url_protocol = take (i + 1) s, url_hostname = drop (i + 3) s, url_origin = s\<rparr>)"

lemma access_channel_origin_witness:
  "\<exists>text u. demo_url_parse text = Some u \<and> url_protocol u \<in> {''http:'', ''https:''} \<and>
     url_hostname u \<noteq> [] \<and> ''https://shop'' = url_origin u"
proof -
  have "resolveAccessChannelOrigin demo_url_parse
      [(''x-forwarded-host'', One ''shop, proxy''), (''origin'', One ''http://evil'')] = Some ''https://shop''"
    by code_simp
  from access_channel_origin [OF this] show ?thesis by blast
qed

end
