(* ===== verification/Auth_Http.thy ===== *)
theory Auth_Http
  imports Auth_Example Access_Channel Json
begin

text \<open>
  The HTTP face of the auth server: the request schemas (apps/auth/src/auth/dto/auth.dto.ts), the
  validation pipe (zod-validation.pipe.ts), the controller (auth.controller.ts) and the exception
  filter (filters/auth-error.filter.ts). \<open>zod\<close> is a parameter: the schemas are its input, and
  \<open>safe_parse\<close> its answer.
\<close>

section \<open>Schemas\<close>

datatype zod_check = ZMin nat | ZMax nat | ZLength nat | ZRegex "string \<Rightarrow> bool"

type_synonym zod_schema = "(string \<times> zod_check list) list"

record zod_issue =
  zi_path :: "string list"
  zi_message :: string

type_synonym zod_parser = "zod_schema \<Rightarrow> json \<Rightarrow> zod_issue list + (string \<times> string) list"

text \<open>
  \<open>(?=.*X)\<close> for a class \<open>X\<close>: the dot stops at a line terminator, the class may match it.
\<close>

definition line_terminator :: "char \<Rightarrow> bool" where
  "line_terminator c = (code c = 10 \<or> code c = 13)"

definition lookahead :: "(char \<Rightarrow> bool) \<Rightarrow> string \<Rightarrow> bool" where
  "lookahead cls s =
     (case dropWhile (\<lambda>c. \<not> cls c \<and> \<not> line_terminator c) s of [] \<Rightarrow> False | c # _ \<Rightarrow> cls c)"

definition is_special :: "char \<Rightarrow> bool" where
  "is_special c = (\<not> is_word c \<or> code c = 95)"

definition PASSWORD_POLICY_REGEX :: "string \<Rightarrow> bool" where
  "PASSWORD_POLICY_REGEX s =
     (lookahead is_letter s \<and> lookahead is_digit s \<and> lookahead is_special s \<and>
        list_all (\<lambda>c. is_letter c \<or> is_digit c \<or> is_special c) s \<and> 8 \<le> length s \<or>
      (lookahead is_letter s \<and> lookahead is_digit s \<or> lookahead is_digit s \<and> lookahead is_special s \<or>
       lookahead is_special s \<and> lookahead is_letter s) \<and>
        list_all (\<lambda>c. is_letter c \<or> is_digit c \<or> is_special c) s \<and> 10 \<le> length s)"

definition LoginSchema :: zod_schema where
  "LoginSchema = [(''loginId'', [ZMin 1, ZMax 255]), (''password'', [ZMin 1, ZMax 255])]"

definition TotpVerifySchema :: zod_schema where
  "TotpVerifySchema = [(''totpCode'', [ZLength 6, ZRegex (\<lambda>s. s \<noteq> [] \<and> list_all is_digit s)])]"

definition RefreshTokenSchema :: zod_schema where
  "RefreshTokenSchema = [(''refreshToken'', [ZMin 1])]"

definition ChangePasswordSchema :: zod_schema where
  "ChangePasswordSchema =
     [(''currentPassword'', [ZMin 1]),
      (''newPassword'', [ZMin 8, ZMax 255, ZRegex PASSWORD_POLICY_REGEX])]"

text \<open>\<open>ZodValidationPipe.transform\<close>.\<close>

definition zod_transform :: "zod_parser \<Rightarrow> zod_schema \<Rightarrow> json \<Rightarrow> (string \<times> string) list auth_op" where
  "zod_transform safe_parse schema value =
     (case safe_parse schema value of
        Inl issues \<Rightarrow>
          throw (BadRequest (join '', '' (map (\<lambda>e. join ''.'' (zi_path e) @ '': '' @ zi_message e) issues)))
      | Inr data \<Rightarrow> ret data)"

definition dto_field :: "(string \<times> string) list \<Rightarrow> string \<Rightarrow> string" where
  "dto_field dto k = nullish_default (map_of dto k) []"

section \<open>The controller\<close>

record http_request =
  hr_headers :: headers
  hr_ip :: "string option"
  hr_body :: json

definition ctl_headerValue :: "http_request \<Rightarrow> string \<Rightarrow> string option" where
  "ctl_headerValue req name = first_value (map_of (hr_headers req) name)"

definition clientIp :: "http_request \<Rightarrow> string" where
  "clientIp req =
     (let forwardedFor =
            map_option (\<lambda>v. js_trim (hd (split_on (CHR '','') v))) (ctl_headerValue req ''x-forwarded-for'');
          realIp = map_option js_trim (ctl_headerValue req ''x-real-ip'')
      in or_default (js_or forwardedFor (js_or realIp (hr_ip req))) ''unknown'')"

definition loginRequestMeta :: "url_parser \<Rightarrow> http_request \<Rightarrow> login_meta" where
  "loginRequestMeta url_parse req =
     \<lparr>lm_clientIp = clientIp req,
      lm_accessChannel = resolveAccessChannelOrigin url_parse (hr_headers req)\<rparr>"

text \<open>\<open>s.split(/\s+/, 2)\<close>: the first two pieces between runs of white space.\<close>

definition split_ws_2 :: "string \<Rightarrow> string list" where
  "split_ws_2 s =
     (let scheme = takeWhile (\<lambda>c. \<not> js_ws c) s; rest = dropWhile (\<lambda>c. \<not> js_ws c) s in
      if rest = [] then [scheme] else [scheme, takeWhile (\<lambda>c. \<not> js_ws c) (dropWhile js_ws rest)])"

definition bearerToken :: "http_request \<Rightarrow> string option" where
  "bearerToken req =
     (case map_option js_trim (ctl_headerValue req ''authorization'') of
        None \<Rightarrow> None
      | Some authorization \<Rightarrow>
          (case split_ws_2 authorization of
             [scheme, token] \<Rightarrow> if js_lower scheme = ''bearer'' \<and> token \<noteq> [] then Some token else None
           | _ \<Rightarrow> None))"

definition post_login ::
  "auth_env \<Rightarrow> url_parser \<Rightarrow> zod_parser \<Rightarrow> http_request \<Rightarrow> auth_response auth_op" where
  "post_login env url_parse safe_parse req =
     and_then (zod_transform safe_parse LoginSchema (hr_body req)) (\<lambda>body.
       login env (dto_field body ''loginId'') (dto_field body ''password'')
         (nullish_default (ctl_headerValue req ''x-user-type'') []) (loginRequestMeta url_parse req))"

definition post_verifyTwoFactor ::
  "auth_env \<Rightarrow> url_parser \<Rightarrow> zod_parser \<Rightarrow> http_request \<Rightarrow> auth_tokens auth_op" where
  "post_verifyTwoFactor env url_parse safe_parse req =
     and_then (zod_transform safe_parse TotpVerifySchema (hr_body req)) (\<lambda>body.
       verifyTwoFactor env (nullish_default (ctl_headerValue req ''x-2fa-token'') [])
         (dto_field body ''totpCode'') (loginRequestMeta url_parse req))"

definition post_refresh :: "auth_env \<Rightarrow> zod_parser \<Rightarrow> http_request \<Rightarrow> auth_tokens auth_op" where
  "post_refresh env safe_parse req =
     and_then (zod_transform safe_parse RefreshTokenSchema (hr_body req)) (\<lambda>body.
       refreshTokens env (dto_field body ''refreshToken''))"

definition post_changePassword :: "auth_env \<Rightarrow> zod_parser \<Rightarrow> http_request \<Rightarrow> bool auth_op" where
  "post_changePassword env safe_parse req =
     and_then (zod_transform safe_parse ChangePasswordSchema (hr_body req)) (\<lambda>body.
       changePassword env
         \<lparr>cp_accessToken = bearerToken req,
          cp_passwordChangeToken = ctl_headerValue req ''x-password-change-token''\<rparr>
         (dto_field body ''currentPassword'') (dto_field body ''newPassword''))"

section \<open>The exception filter\<close>

text \<open>The fields of a \<open>Date\<close> in the server's time zone, which \<open>formatTimestamp\<close> prints.\<close>

record local_fields =
  lt_year :: int
  lt_month :: int
  lt_date :: int
  lt_hours :: int
  lt_minutes :: int
  lt_seconds :: int

definition formatTimestamp :: "local_fields \<Rightarrow> string" where
  "formatTimestamp d =
     (let pad = (\<lambda>n. pad_start 2 (CHR ''0'') (show_int n)) in
      show_int (lt_year d) @ ''-'' @ pad (lt_month d + 1) @ ''-'' @ pad (lt_date d) @ '' '' @
      pad (lt_hours d) @ '':'' @ pad (lt_minutes d) @ '':'' @ pad (lt_seconds d))"

record http_reply =
  rp_status :: int
  rp_body :: json

definition auth_error_catch :: "local_fields \<Rightarrow> auth_error_exception \<Rightarrow> http_reply" where
  "auth_error_catch now ex =
     \<lparr>rp_status = ex_statusCode ex,
      rp_body = JObj (obj_set ''timestamp'' (JStr (formatTimestamp now))
        (obj_merge [(''code'', JStr (ex_errorCode ex)), (''message'', JStr (ex_errorMessage ex))]
          (map (\<lambda>(k, v). (k, JStr v)) (ex_extensions ex))))\<rparr>"

section \<open>The password policy\<close>

lemma lookahead_plain:
  assumes "\<forall>c \<in> set s. \<not> line_terminator c"
  shows "lookahead cls s \<longleftrightarrow> (\<exists>c \<in> set s. cls c)"
  using assms by (induction s) (auto simp: lookahead_def)

lemma every_class: "is_letter c \<or> is_digit c \<or> is_special c"
  by (auto simp: is_special_def is_word_def)

lemma list_all_classes [simp]: "list_all (\<lambda>c. is_letter c \<or> is_digit c \<or> is_special c) s"
  by (simp add: list_all_iff every_class)

text \<open>The kinds of characters a text contains: letters, digits, others.\<close>

definition kinds_of :: "string \<Rightarrow> nat" where
  "kinds_of s =
     length (filter (\<lambda>cls. list_ex cls s) [is_letter, is_digit, is_special])"

text \<open>The regular expression of \<open>ChangePasswordSchema\<close> is the documented password policy. On a
  text of one line it accepts exactly the passwords of at least eight characters with letters,
  digits and other characters, and those of at least ten with two of the three kinds.\<close>

theorem password_policy:
  assumes "\<forall>c \<in> set s. \<not> line_terminator c"
  shows "PASSWORD_POLICY_REGEX s \<longleftrightarrow>
    8 \<le> length s \<and> kinds_of s = 3 \<or> 10 \<le> length s \<and> 2 \<le> kinds_of s"
  unfolding PASSWORD_POLICY_REGEX_def kinds_of_def lookahead_plain [OF assms]
  by (simp add: list_ex_iff split: if_split)

lemma password_policy_witness:
  "PASSWORD_POLICY_REGEX ''pass1234!'' \<and> \<not> PASSWORD_POLICY_REGEX ''password1'' \<and>
   PASSWORD_POLICY_REGEX ''password12''"
proof -
  have "\<forall>c \<in> set ''pass1234!''. \<not> line_terminator c" "\<forall>c \<in> set ''password1''. \<not> line_terminator c"
    "\<forall>c \<in> set ''password12''. \<not> line_terminator c" by code_simp+
  from password_policy [OF this(1)] password_policy [OF this(2)] password_policy [OF this(3)]
  show ?thesis by (simp only:) code_simp
qed

section \<open>Validation\<close>

fun zod_check_ok :: "zod_check \<Rightarrow> string \<Rightarrow> bool" where
  "zod_check_ok (ZMin n) s = (n \<le> length s)"
| "zod_check_ok (ZMax n) s = (length s \<le> n)"
| "zod_check_ok (ZLength n) s = (length s = n)"
| "zod_check_ok (ZRegex f) s = f s"

text \<open>
  What the pipe relies on of \<open>zod\<close>: an object schema accepts the objects whose listed properties are
  strings that pass the checks, and then gives these strings.
\<close>

definition zod_accepts :: "zod_schema \<Rightarrow> json \<Rightarrow> bool" where
  "zod_accepts schema value =
     list_all (\<lambda>(k, checks).
       case string_prop value k of None \<Rightarrow> False | Some s \<Rightarrow> list_all (\<lambda>c. zod_check_ok c s) checks) schema"

definition zod_contract :: "zod_parser \<Rightarrow> bool" where
  "zod_contract safe_parse \<longleftrightarrow>
     (\<forall>schema value. case safe_parse schema value of
        Inl issues \<Rightarrow> \<not> zod_accepts schema value
      | Inr data \<Rightarrow> zod_accepts schema value \<and>
          (\<forall>(k, checks) \<in> set schema. map_of data k = string_prop value k))"

definition demo_zod :: zod_parser where
  "demo_zod schema value =
     (if zod_accepts schema value
      then Inr (map (\<lambda>(k, checks). (k, nullish_default (string_prop value k) [])) schema)
      else Inl [\<lparr>zi_path = [], zi_message = ''Invalid''\<rparr>])"

lemma demo_zod_contract: "zod_contract demo_zod"
proof -
  have "(\<forall>(k, checks) \<in> set schema. string_prop v k \<noteq> None) \<Longrightarrow>
    (\<forall>(k, checks) \<in> set schema.
      map_of (map (\<lambda>(k, checks). (k, nullish_default (string_prop v k) [])) schema) k = string_prop v k)"
    for schema :: zod_schema and v
    by (induction schema) (fastforce split: prod.splits if_splits)+
  moreover have "zod_accepts schema v \<Longrightarrow> \<forall>(k, checks) \<in> set schema. string_prop v k \<noteq> None"
    for schema v by (auto simp: zod_accepts_def list_all_iff split: option.splits)
  ultimately show ?thesis by (auto simp: zod_contract_def demo_zod_def)
qed

lemma zod_transform_cases:
  assumes "zod_contract safe_parse"
  shows "(if zod_accepts schema v
    then \<exists>data. zod_transform safe_parse schema v w = (Inr data, w) \<and>
      (\<forall>(k, checks) \<in> set schema. map_of data k = string_prop v k)
    else \<exists>msg. zod_transform safe_parse schema v w = (Inl (BadRequest msg), w))"
proof (cases "safe_parse schema v")
  case (Inl issues)
  with assms have "\<not> zod_accepts schema v"
    unfolding zod_contract_def by (metis (no_types, lifting) sum.simps(5))
  with Inl show ?thesis by (simp add: zod_transform_def)
next
  case (Inr data)
  with assms [unfolded zod_contract_def, rule_format, of schema v]
  show ?thesis by (simp add: zod_transform_def)
qed

text \<open>C38: no request reaches the service unvalidated. A request whose body does not satisfy its schema
  is answered with \<open>BadRequest\<close> and changes nothing; a login that satisfies it is \<open>AuthService.login\<close>
  with the body's credentials and the request's own user type, address and access channel.\<close>

theorem validated_requests:
  assumes "zod_contract safe_parse"
  shows "(\<not> zod_accepts LoginSchema (hr_body req) \<longrightarrow>
      (\<exists>m. post_login env up safe_parse req w = (Inl (BadRequest m), w))) \<and>
    (\<not> zod_accepts TotpVerifySchema (hr_body req) \<longrightarrow>
      (\<exists>m. post_verifyTwoFactor env up safe_parse req w = (Inl (BadRequest m), w))) \<and>
    (\<not> zod_accepts RefreshTokenSchema (hr_body req) \<longrightarrow>
      (\<exists>m. post_refresh env safe_parse req w = (Inl (BadRequest m), w))) \<and>
    (\<not> zod_accepts ChangePasswordSchema (hr_body req) \<longrightarrow>
      (\<exists>m. post_changePassword env safe_parse req w = (Inl (BadRequest m), w))) \<and>
    (zod_accepts LoginSchema (hr_body req) \<longrightarrow>
      (\<exists>l p. string_prop (hr_body req) ''loginId'' = Some l \<and> string_prop (hr_body req) ''password'' = Some p \<and>
        1 \<le> length l \<and> length l \<le> 255 \<and> 1 \<le> length p \<and> length p \<le> 255 \<and>
        post_login env up safe_parse req w =
          login env l p (nullish_default (ctl_headerValue req ''x-user-type'') [])
            (loginRequestMeta up req) w))"
proof (intro conjI impI)
  note tr = zod_transform_cases [OF assms]
  show "\<exists>m. post_login env up safe_parse req w = (Inl (BadRequest m), w)"
    if "\<not> zod_accepts LoginSchema (hr_body req)"
    using tr [of LoginSchema "hr_body req" w] that by (auto simp: post_login_def and_then_def)
  show "\<exists>m. post_verifyTwoFactor env up safe_parse req w = (Inl (BadRequest m), w)"
    if "\<not> zod_accepts TotpVerifySchema (hr_body req)"
    using tr [of TotpVerifySchema "hr_body req" w] that by (auto simp: post_verifyTwoFactor_def and_then_def)
  show "\<exists>m. post_refresh env safe_parse req w = (Inl (BadRequest m), w)"
    if "\<not> zod_accepts RefreshTokenSchema (hr_body req)"
    using tr [of RefreshTokenSchema "hr_body req" w] that by (auto simp: post_refresh_def and_then_def)
  show "\<exists>m. post_changePassword env safe_parse req w = (Inl (BadRequest m), w)"
    if "\<not> zod_accepts ChangePasswordSchema (hr_body req)"
    using tr [of ChangePasswordSchema "hr_body req" w] that by (auto simp: post_changePassword_def and_then_def)
  assume acc: "zod_accepts LoginSchema (hr_body req)"
  then obtain l p where lp: "string_prop (hr_body req) ''loginId'' = Some l"
    "string_prop (hr_body req) ''password'' = Some p" "1 \<le> length l" "length l \<le> 255" "1 \<le> length p" "length p \<le> 255"
    by (auto simp: zod_accepts_def LoginSchema_def split: option.splits)
  from tr [of LoginSchema "hr_body req" w] acc obtain data where
    d: "zod_transform safe_parse LoginSchema (hr_body req) w = (Inr data, w)"
    "map_of data ''loginId'' = Some l" "map_of data ''password'' = Some p"
    using lp by (auto simp: LoginSchema_def)
  with lp show "\<exists>l p. string_prop (hr_body req) ''loginId'' = Some l \<and> string_prop (hr_body req) ''password'' = Some p \<and>
        1 \<le> length l \<and> length l \<le> 255 \<and> 1 \<le> length p \<and> length p \<le> 255 \<and>
        post_login env up safe_parse req w =
          login env l p (nullish_default (ctl_headerValue req ''x-user-type'') [])
            (loginRequestMeta up req) w"
    by (auto simp: post_login_def and_then_def dto_field_def)
qed

lemma validated_requests_witness:
  "\<exists>m. post_changePassword demo_env demo_zod
      \<lparr>hr_headers = [], hr_ip = None,
       hr_body = JObj [(''currentPassword'', JStr ''pw''), (''newPassword'', JStr ''password'')]\<rparr> (demo_world []) =
    (Inl (BadRequest m), demo_world [])"
proof -
  let ?req = "\<lparr>hr_headers = [], hr_ip = None,
       hr_body = JObj [(''currentPassword'', JStr ''pw''), (''newPassword'', JStr ''password'')]\<rparr>"
  have "\<not> zod_accepts ChangePasswordSchema (hr_body ?req)" by code_simp
  with validated_requests [OF demo_zod_contract, of ?req demo_env] show ?thesis by blast
qed

section \<open>The client's address\<close>

text \<open>The address in the login history is never blank, and the proxy's word comes first: with
  an \<open>X-Forwarded-For\<close> header whose first element is not blank, this element, trimmed, is the
  address of the history row; the default \<open>unknown\<close> stands where nothing is known.\<close>

theorem client_ip:
  "normalizeClientIp (Some (clientIp req)) \<noteq> [] \<and>
   (\<forall>v. ctl_headerValue req ''x-forwarded-for'' = Some v \<and> js_trim (hd (split_on (CHR '','') v)) \<noteq> [] \<longrightarrow>
      clientIp req = js_trim (takeWhile (\<lambda>c. c \<noteq> CHR '','') v)) \<and>
   (ctl_headerValue req ''x-forwarded-for'' = None \<and> ctl_headerValue req ''x-real-ip'' = None \<and>
    \<not> truthy (hr_ip req) \<longrightarrow> clientIp req = ''unknown'')"
  by (auto simp: clientIp_def Let_def hd_split_on truthy_def or_default_def js_or_def
      split: option.splits list.splits)

lemma client_ip_witness:
  "clientIp \<lparr>hr_headers = [(''x-forwarded-for'', One '' 1.2.3.4 , 10.0.0.1'')], hr_ip = None, hr_body = JNull\<rparr> =
     ''1.2.3.4''"
proof -
  let ?req = "\<lparr>hr_headers = [(''x-forwarded-for'', One '' 1.2.3.4 , 10.0.0.1'')], hr_ip = None, hr_body = JNull\<rparr>"
  have "ctl_headerValue ?req ''x-forwarded-for'' = Some '' 1.2.3.4 , 10.0.0.1''"
    "js_trim (hd (split_on (CHR '','') '' 1.2.3.4 , 10.0.0.1'')) \<noteq> []"
    "js_trim (takeWhile (\<lambda>c. c \<noteq> CHR '','') '' 1.2.3.4 , 10.0.0.1'') = ''1.2.3.4''" by code_simp+
  with client_ip [of ?req] show ?thesis by metis
qed

end
