(* ===== verification/Request_Context.thy ===== *)
theory Request_Context
  imports Access_Channel Json
begin

text \<open>
  What surrounds every request in both services (libs/shared/src/common): the middlewares of the
  correlation id and of the request context, the access log, the masking of the logging interceptor,
  and the formats of the Winston logger. A log entry is a list of fields in the order JavaScript
  enumerates them; an undefined value is \<open>None\<close>.
\<close>

section \<open>Correlation id and request context\<close>

record request_store =
  rs_authToken :: "string option"
  rs_correlationId :: "string option"
  rs_acceptLanguage :: "string option"

definition CORRELATION_HEADER :: string where
  "CORRELATION_HEADER = ''x-correlation-id''"

text \<open>\<open>req.headers[name] as string\<close>: Node gives the headers read here as one string.\<close>

definition string_header :: "headers \<Rightarrow> string \<Rightarrow> string option" where
  "string_header hs name = (case map_of hs name of Some (One s) \<Rightarrow> Some s | _ \<Rightarrow> None)"

text \<open>The middleware changes the headers of the request and of the response; \<open>uuid\<close> is \<open>randomUUID()\<close>.\<close>

definition correlation_use ::
  "string \<Rightarrow> headers \<times> (string \<times> string) list \<Rightarrow> headers \<times> (string \<times> string) list" where
  "correlation_use uuid hs =
     (let (req, res) = hs;
          correlationId = or_default (string_header req CORRELATION_HEADER) uuid
      in (AList.update CORRELATION_HEADER (One correlationId) req,
          AList.update CORRELATION_HEADER correlationId res))"

definition request_context_use :: "headers \<Rightarrow> request_store" where
  "request_context_use hs =
     \<lparr>rs_authToken = string_header hs ''authorization'',
      rs_correlationId = string_header hs CORRELATION_HEADER,
      rs_acceptLanguage = string_header hs ''accept-language''\<rparr>"

section \<open>The logger\<close>

type_synonym fields = "(string \<times> json option) list"

record log_entry =
  le_level :: string
  le_message :: string
  le_fields :: fields

definition opt_str :: "string option \<Rightarrow> json option" where
  "opt_str v = map_option JStr v"

text \<open>\<open>{ ...a, ...b }\<close> on fields.\<close>

definition spread :: "fields \<Rightarrow> fields \<Rightarrow> fields" where
  "spread a b = foldl (\<lambda>acc (k, v). AList.update k v acc) a b"

definition getRequestMeta :: "request_store option \<Rightarrow> fields" where
  "getRequestMeta store =
     (case store of
        None \<Rightarrow> []
      | Some st \<Rightarrow> if truthy (rs_correlationId st) then [(''correlationId'', opt_str (rs_correlationId st))] else [])"

definition field :: "fields \<Rightarrow> string \<Rightarrow> json option" where
  "field fs k = (case map_of fs k of None \<Rightarrow> None | Some v \<Rightarrow> v)"

text \<open>
  What Winston makes of \<open>logger.log(level, message, meta)\<close>, and of \<open>logger.info(message, meta)\<close> and the like, with
  an object \<open>meta\<close>: the properties of \<open>meta\<close> become those of the entry, under its level and its message, and a
  message of \<open>meta\<close> is appended to the other one. But a message that holds a placeholder of \<open>util.format\<close>, which
  a format could fill from \<open>meta\<close>, is left alone, and the entry has nothing of \<open>meta\<close>; the formats of the
  service fill none.
\<close>

fun has_placeholder :: "string \<Rightarrow> bool" where
  "has_placeholder (a # b # s) \<longleftrightarrow> a = CHR ''%'' \<and> b \<in> set ''scdjifoO%'' \<or> has_placeholder (b # s)"
| "has_placeholder _ \<longleftrightarrow> False"

text \<open>\<open>String(v)\<close>; an element of an array that is \<open>null\<close> gives no text.\<close>

fun json_text :: "json \<Rightarrow> string" where
  "json_text JNull = ''null''"
| "json_text (JBool b) = (if b then ''true'' else ''false'')"
| "json_text (JNum n) = show_int n"
| "json_text (JStr s) = s"
| "json_text (JArr vs) = join '','' (map (\<lambda>v. if v = JNull then [] else json_text v) vs)"
| "json_text (JObj fs) = ''[object Object]''"

definition winston_entry :: "string \<Rightarrow> string \<Rightarrow> fields \<Rightarrow> log_entry" where
  "winston_entry level message meta =
     (if has_placeholder message then \<lparr>le_level = level, le_message = message, le_fields = []\<rparr>
      else \<lparr>le_level = level,
            le_message = (case field meta ''message'' of
                            Some v \<Rightarrow> if json_truthy v then message @ '' '' @ json_text v else message
                          | None \<Rightarrow> message),
            le_fields = meta\<rparr>)"

lemma winston_entry_simps [simp]:
  "le_level (winston_entry level message meta) = level"
  "le_fields (winston_entry level message meta) = (if has_placeholder message then [] else meta)"
  "has_placeholder message \<or> field meta ''message'' = None \<Longrightarrow> le_message (winston_entry level message meta) = message"
  by (auto simp: winston_entry_def)

text \<open>\<open>log\<close>, \<open>warn\<close>, \<open>debug\<close> and \<open>verbose\<close> differ in the level only; \<open>own\<close> is \<open>this.context\<close>.\<close>

definition log_plain ::
  "string \<Rightarrow> string option \<Rightarrow> request_store option \<Rightarrow> string \<Rightarrow> string option \<Rightarrow> log_entry" where
  "log_plain level own store message context =
     winston_entry level message (spread [(''context'', opt_str (js_or context own))] (getRequestMeta store))"

definition log_error ::
  "string option \<Rightarrow> request_store option \<Rightarrow> string \<Rightarrow> string option \<Rightarrow> string option \<Rightarrow> log_entry" where
  "log_error own store message trace context =
     winston_entry ''error'' message
       (spread [(''context'', opt_str (js_or context own)), (''trace'', opt_str trace)] (getRequestMeta store))"

definition logWithMeta ::
  "string option \<Rightarrow> request_store option \<Rightarrow> string \<Rightarrow> string \<Rightarrow> fields \<Rightarrow> string option \<Rightarrow> log_entry" where
  "logWithMeta own store level message meta context =
     winston_entry level message
       (spread (spread [(''context'', opt_str (js_or context own))] (getRequestMeta store)) meta)"

section \<open>The formats\<close>

definition INTERNAL_KEYS :: "string list" where
  "INTERNAL_KEYS = [''level'', ''message'', ''splat'', ''context'', ''trace'']"

definition getDateTimePart :: "(string \<times> string) list \<Rightarrow> string \<Rightarrow> string" where
  "getDateTimePart parts ty = (case find (\<lambda>p. fst p = ty) parts of None \<Rightarrow> [] | Some p \<Rightarrow> snd p)"

text \<open>\<open>parts\<close> are the parts the formatter of the time zone Asia/Seoul gives for the date.\<close>

definition getKoreaIsoTimestamp :: "(string \<times> string) list \<Rightarrow> string" where
  "getKoreaIsoTimestamp parts =
     getDateTimePart parts ''year'' @ ''-'' @ getDateTimePart parts ''month'' @ ''-'' @
     getDateTimePart parts ''day'' @ ''T'' @ getDateTimePart parts ''hour'' @ '':'' @
     getDateTimePart parts ''minute'' @ '':'' @ getDateTimePart parts ''second'' @ ''.'' @
     getDateTimePart parts ''fractionalSecond'' @ ''+09:00''"

record log_clock =
  lc_iso :: string
  lc_parts :: "(string \<times> string) list"
  lc_pid :: int
  lc_SERVICE_NAME :: "string option"

definition getAppName :: "log_clock \<Rightarrow> string" where
  "getAppName c = or_default (lc_SERVICE_NAME c) ''app''"

definition getLogLevel :: "string option \<Rightarrow> string" where
  "getLogLevel NODE_ENV = (if NODE_ENV = Some ''production'' then ''info'' else ''debug'')"

definition opt_truthy :: "json option \<Rightarrow> bool" where
  "opt_truthy v = (case v of None \<Rightarrow> False | Some j \<Rightarrow> json_truthy j)"

definition set_field :: "string \<Rightarrow> json option \<Rightarrow> (string \<times> json) list \<Rightarrow> (string \<times> json) list" where
  "set_field k v ecs = (case v of None \<Rightarrow> ecs | Some j \<Rightarrow> obj_set k j ecs)"

definition ecs_record :: "log_clock \<Rightarrow> log_entry \<Rightarrow> (string \<times> json) list" where
  "ecs_record now e =
     (let context = field (le_fields e) ''context'';
          trace = field (le_fields e) ''trace'';
          rest = filter (\<lambda>(k, _). k \<notin> {''level'', ''message'', ''context'', ''trace''}) (le_fields e);
          ecs = [(''@timestamp'', JStr (lc_iso now)),
                 (''event.created_kst'', JStr (getKoreaIsoTimestamp (lc_parts now))),
                 (''event.timezone'', JStr ''Asia/Seoul''), (''log.level'', JStr (le_level e)),
                 (''message'', JStr (le_message e)), (''ecs.version'', JStr ''8.11.0''),
                 (''process.pid'', JNum (lc_pid now)), (''service.name'', JStr (getAppName now))];
          ecs1 = (if opt_truthy context then set_field ''log.logger'' context ecs else ecs);
          ecs2 = (if opt_truthy trace then set_field ''error.stack_trace'' trace ecs1 else ecs1)
      in foldl (\<lambda>ecs (key, value). if key \<notin> set INTERNAL_KEYS then set_field key value ecs else ecs) ecs2 rest)"

definition ecsJsonFormat :: "log_clock \<Rightarrow> log_entry \<Rightarrow> string" where
  "ecsJsonFormat now e = json_stringify (JObj (ecs_record now e))"

definition levelColors :: "(string \<times> string) list" where
  "levelColors = [(''error'', CHR 0x1B # ''[31m''), (''warn'', CHR 0x1B # ''[33m''), (''info'', CHR 0x1B # ''[32m''),
     (''debug'', CHR 0x1B # ''[34m''), (''verbose'', CHR 0x1B # ''[36m'')]"

definition resetColor :: string where
  "resetColor = CHR 0x1B # ''[0m''"

text \<open>The console line; \<open>timestamp\<close> has been added to the entry, and \<open>JSON.stringify\<close> drops undefined fields.\<close>

definition nestLikeConsoleFormat :: "int \<Rightarrow> log_entry \<Rightarrow> string" where
  "nestLikeConsoleFormat pid e =
     (let level = le_level e;
          meta = filter (\<lambda>(k, _). k \<notin> {''level'', ''message'', ''timestamp'', ''context''}) (le_fields e);
          color = nullish_default (map_of levelColors level) [];
          formattedLevel = color @ pad_end 7 (CHR '' '') (js_upper level) @ resetColor;
          ctxLabel = (case field (le_fields e) ''context'' of Some (JStr s) \<Rightarrow> s | _ \<Rightarrow> []);
          contextStr = (if ctxLabel \<noteq> [] then (CHR 0x1B # ''[33m['') @ ctxLabel @ '']'' @ resetColor @ '' '' else []);
          metaStr = (if meta \<noteq> []
                     then '' '' @ json_stringify (JObj (concat (map (\<lambda>(k, v). case v of None \<Rightarrow> [] | Some j \<Rightarrow> [(k, j)]) meta)))
                     else []);
          ts = (case field (le_fields e) ''timestamp'' of Some (JStr s) \<Rightarrow> s | _ \<Rightarrow> [])
      in ''[Nest] '' @ show_int pid @ '' - '' @ ts @ '' '' @ formattedLevel @ '' '' @ contextStr @ le_message e @ metaStr)"

section \<open>The access log\<close>

text \<open>\<open>LoggerMiddleware\<close>, when the response has finished.\<close>

record finished_request =
  fr_method :: "string option"
  fr_url :: "string option"
  fr_headers :: headers
  fr_remoteAddress :: "string option"
  fr_statusCode :: int
  fr_duration :: int

definition access_log_ip :: "finished_request \<Rightarrow> string" where
  "access_log_ip r =
     or_default (js_or (map_option (\<lambda>v. js_trim (hd (split_on (CHR '','') v))) (string_header (fr_headers r) ''x-forwarded-for''))
       (fr_remoteAddress r)) []"

definition access_log :: "url_parser \<Rightarrow> request_store option \<Rightarrow> finished_request \<Rightarrow> log_entry" where
  "access_log url_parse store r =
     (let method = nullish_default (fr_method r) [];
          url = nullish_default (fr_url r) [];
          userAgent = or_default (string_header (fr_headers r) ''user-agent'') [];
          correlationId = or_default (string_header (fr_headers r) CORRELATION_HEADER) [];
          accessChannel = resolveAccessChannelOrigin url_parse (fr_headers r);
          ip = access_log_ip r;
          logMessage = method @ '' '' @ url @ '' '' @ show_int (fr_statusCode r) @ '' - '' @ ip @ '' '' @
            nullish_default accessChannel ''-'' @ '' '' @ userAgent @ '' +'' @ show_int (fr_duration r) @ ''ms'';
          meta = [(''correlationId'', Some (JStr correlationId)), (''method'', Some (JStr method)),
                  (''url'', Some (JStr url)), (''statusCode'', Some (JNum (fr_statusCode r))),
                  (''ip'', Some (JStr ip)),
                  (''accessChannel'', Some (case accessChannel of None \<Rightarrow> JNull | Some o1 \<Rightarrow> JStr o1)),
                  (''userAgent'', Some (JStr userAgent)), (''duration'', Some (JNum (fr_duration r)))]
      in logWithMeta (Some ''HTTP'') store (if 400 \<le> fr_statusCode r then ''error'' else ''info'') logMessage meta None)"

section \<open>The logging interceptor\<close>

definition sensitiveFields :: "string list" where
  "sensitiveFields = [''password'', ''accessToken'', ''refreshToken'', ''twoFactorToken'', ''totpCode'']"

text \<open>\<open>{ ...data }\<close>: an array becomes an object with its indices as keys.\<close>

definition object_entries :: "json \<Rightarrow> (string \<times> json) list" where
  "object_entries data =
     (case data of JObj fs \<Rightarrow> fs | JArr xs \<Rightarrow> zip (map show_nat [0..<length xs]) xs | _ \<Rightarrow> [])"

definition mask_field :: "string \<Rightarrow> (string \<times> json) list \<Rightarrow> (string \<times> json) list" where
  "mask_field f sanitized =
     (if opt_truthy (map_of sanitized f) then obj_set f (JStr ''***'') sanitized else sanitized)"

definition sanitizeData :: "json \<Rightarrow> json" where
  "sanitizeData data =
     (case data of
        JObj _ \<Rightarrow> JObj (fold mask_field sensitiveFields (object_entries data))
      | JArr _ \<Rightarrow> JObj (fold mask_field sensitiveFields (object_entries data))
      | _ \<Rightarrow> data)"

datatype call_context =
  GraphqlCall string string | HttpCall string string | RpcCall string json | OtherCall string

definition log_prefix :: "call_context \<Rightarrow> string \<times> string" where
  "log_prefix c =
     (case c of
        GraphqlCall operationName fieldName \<Rightarrow> (''GraphQL '' @ operationName @ '' ['' @ fieldName @ '']'', [])
      | HttpCall method url \<Rightarrow> (''HTTP '' @ method @ '' '' @ url, [])
      | RpcCall pattern data \<Rightarrow> (''TCP '' @ pattern, json_stringify (sanitizeData data))
      | OtherCall ty \<Rightarrow> (js_upper ty, []))"

text \<open>
  \<open>intercept\<close>: the handler's result passes through unchanged; the two lines it logs are the second
  part of the result. The arrows and the cross are \<open>%u2192\<close>, \<open>%u2190\<close> and \<open>%u2715\<close>.
\<close>

definition intercept :: "call_context \<Rightarrow> int \<Rightarrow> (string + 'a) \<Rightarrow> (string + 'a) \<times> (string \<times> string) list" where
  "intercept c duration result =
     (let (prefix, data) = log_prefix c in
      (result,
       [(''log'', ''%u2192 '' @ prefix @ (if data \<noteq> [] then '' | '' @ data else [])),
        (case result of
           Inr _ \<Rightarrow> (''log'', ''%u2190 '' @ prefix @ '' | '' @ show_int duration @ ''ms'')
         | Inl message \<Rightarrow> (''error'', ''%u2715 '' @ prefix @ '' | '' @ show_int duration @ ''ms | '' @ message))]))"

end
