(* ===== verification/Gateway_Proxy.thy ===== *)
theory Gateway_Proxy
  imports Gateway_Errors Auth_Http Request_Context
begin

text \<open>
  The gateway's way to the auth server and the kiosk-admin server: the resolvers and services of
  apps/gateway/src/auth-proxy and apps/gateway/src/kiosk-admin-proxy, the request interceptor of
  http/global-http.module.ts, the guards of auth/, the retry strategy of pubsub/pubsub.provider.ts,
  common/discover-log-streamers.ts, and the fallback route of main.ts. The HTTP client is the
  parameter \<open>http\<close>: it sends a request and answers with the response's data (\<open>None\<close> where it is
  undefined) or throws; the circuit breaker library is \<open>fire_breaker\<close>.
\<close>

section \<open>Outgoing requests\<close>

type_synonym out_headers = "(string \<times> string) list"

record out_request =
  or_method :: string
  or_url :: string
  or_data :: "json option"
  or_headers :: out_headers

definition set_truthy :: "string \<Rightarrow> string option \<Rightarrow> out_headers \<Rightarrow> out_headers" where
  "set_truthy k v hs = (case v of Some (c # s) \<Rightarrow> AList.update k (c # s) hs | _ \<Rightarrow> hs)"

text \<open>The request interceptor: what the current request's context adds to every outgoing one.\<close>

definition request_interceptor :: "request_store option \<Rightarrow> out_request \<Rightarrow> out_request" where
  "request_interceptor store rq =
     (case store of
        None \<Rightarrow> rq
      | Some st \<Rightarrow>
          rq\<lparr>or_headers :=
            set_truthy ''accept-language'' (rs_acceptLanguage st)
              (set_truthy CORRELATION_HEADER (rs_correlationId st)
                (set_truthy ''Authorization'' (rs_authToken st) (or_headers rq)))\<rparr>)"

type_synonym 's http_client = "out_request \<Rightarrow> (gw_exn, 's, json option) eff"

type_synonym 's breaker_lib =
  "breaker_options \<Rightarrow> (gw_exn, 's, json) eff \<Rightarrow> (gw_exn, 's, json) eff"

record 's gateway =
  gw_parse :: json_parser
  gw_url_parse :: url_parser
  gw_http :: "'s http_client"
  gw_fire :: "'s breaker_lib"
  gw_store :: "request_store option"
  gw_authBaseUrl :: string
  gw_kioskAdminUrl :: string

definition send :: "'s gateway \<Rightarrow> out_request \<Rightarrow> (gw_exn, 's, json option) eff" where
  "send gw rq = gw_http gw (request_interceptor (gw_store gw) rq)"

definition require_data :: "string \<Rightarrow> json option \<Rightarrow> (gw_exn, 's, json) eff" where
  "require_data message data =
     (case data of None \<Rightarrow> throw (http_exception 502 message) | Some d \<Rightarrow> ret d)"

section \<open>AuthProxyService\<close>

definition proxy_post ::
  "'s gateway \<Rightarrow> string \<Rightarrow> json \<Rightarrow> out_headers \<Rightarrow> (gw_exn, breakers \<times> 's, json) eff" where
  "proxy_post gw path data hs =
     cb_fire (gw_parse gw) (gw_fire gw) ''auth-server''
       (and_then
          (send gw \<lparr>or_method = ''post'', or_url = gw_authBaseUrl gw @ path, or_data = Some data,
             or_headers = hs\<rparr>)
          (require_data ''%uC778%uC99D %uC11C%uBC84 %uC751%uB2F5%uC774 %uC62C%uBC14%uB974%uC9C0 %uC54A%uC2B5%uB2C8%uB2E4.''))"

definition proxy_login ::
  "'s gateway \<Rightarrow> string \<Rightarrow> string \<Rightarrow> string \<Rightarrow> out_headers \<Rightarrow> (gw_exn, breakers \<times> 's, json) eff" where
  "proxy_login gw loginId password userType metaHeaders =
     proxy_post gw ''/auth/login'' (JObj [(''loginId'', JStr loginId), (''password'', JStr password)])
       (AList.update ''X-User-Type'' userType metaHeaders)"

definition proxy_verifyTwoFactor ::
  "'s gateway \<Rightarrow> string \<Rightarrow> string \<Rightarrow> out_headers \<Rightarrow> (gw_exn, breakers \<times> 's, json) eff" where
  "proxy_verifyTwoFactor gw twoFactorToken totpCode metaHeaders =
     proxy_post gw ''/auth/2fa/verify'' (JObj [(''totpCode'', JStr totpCode)])
       (AList.update ''X-2FA-Token'' twoFactorToken metaHeaders)"

definition proxy_refreshToken :: "'s gateway \<Rightarrow> string \<Rightarrow> (gw_exn, breakers \<times> 's, json) eff" where
  "proxy_refreshToken gw refreshToken =
     proxy_post gw ''/auth/refresh'' (JObj [(''refreshToken'', JStr refreshToken)]) []"

definition proxy_changePassword ::
  "'s gateway \<Rightarrow> string \<Rightarrow> string \<Rightarrow> out_headers \<Rightarrow> (gw_exn, breakers \<times> 's, json) eff" where
  "proxy_changePassword gw currentPassword newPassword authHeaders =
     proxy_post gw ''/auth/password''
       (JObj [(''currentPassword'', JStr currentPassword), (''newPassword'', JStr newPassword)]) authHeaders"

section \<open>AuthProxyResolver\<close>

text \<open>The incoming request as the resolver sees it.\<close>

record gql_request =
  gr_headers :: headers
  gr_ip :: "string option"

definition res_headerValue :: "gql_request \<Rightarrow> string \<Rightarrow> string option" where
  "res_headerValue req name = first_value (map_of (gr_headers req) name)"

definition authMetaHeaders :: "url_parser \<Rightarrow> gql_request \<Rightarrow> out_headers" where
  "authMetaHeaders url_parse req =
     (let forwardedFor = res_headerValue req ''x-forwarded-for'';
          forwardedHost = res_headerValue req ''x-forwarded-host'';
          forwardedProto = res_headerValue req ''x-forwarded-proto'';
          realIp = res_headerValue req ''x-real-ip'';
          accessChannel = resolveAccessChannelOrigin url_parse (gr_headers req)
      in set_truthy ''X-Access-Channel'' accessChannel
           (set_truthy ''X-Real-IP'' realIp
             (set_truthy ''X-Forwarded-Proto'' forwardedProto
               (set_truthy ''X-Forwarded-Host'' forwardedHost
                 (if truthy forwardedFor then set_truthy ''X-Forwarded-For'' forwardedFor []
                  else set_truthy ''X-Forwarded-For'' (gr_ip req) [])))))"

definition authPasswordHeaders :: "gql_request \<Rightarrow> out_headers" where
  "authPasswordHeaders req =
     set_truthy ''X-Password-Change-Token'' (res_headerValue req ''x-password-change-token'')
       (set_truthy ''Authorization'' (res_headerValue req ''authorization'') [])"

definition resolver_login ::
  "'s gateway \<Rightarrow> gql_request \<Rightarrow> string \<Rightarrow> string \<Rightarrow> (gw_exn, breakers \<times> 's, json) eff" where
  "resolver_login gw req loginId password =
     proxy_login gw loginId password (nullish_default (res_headerValue req ''x-user-type'') [])
       (authMetaHeaders (gw_url_parse gw) req)"

definition resolver_verifyTwoFactor ::
  "'s gateway \<Rightarrow> gql_request \<Rightarrow> string \<Rightarrow> (gw_exn, breakers \<times> 's, json) eff" where
  "resolver_verifyTwoFactor gw req totpCode =
     proxy_verifyTwoFactor gw (nullish_default (res_headerValue req ''x-2fa-token'') []) totpCode
       (authMetaHeaders (gw_url_parse gw) req)"

definition resolver_refreshToken :: "'s gateway \<Rightarrow> string \<Rightarrow> (gw_exn, breakers \<times> 's, json) eff" where
  "resolver_refreshToken gw refreshToken = proxy_refreshToken gw refreshToken"

text \<open>The answer is the property \<open>success\<close> of the result (\<open>None\<close> where it is absent).\<close>

definition resolver_changePassword ::
  "'s gateway \<Rightarrow> gql_request \<Rightarrow> string \<Rightarrow> string \<Rightarrow> (gw_exn, breakers \<times> 's, json option) eff" where
  "resolver_changePassword gw req currentPassword newPassword =
     and_then (proxy_changePassword gw currentPassword newPassword (authPasswordHeaders req)) (\<lambda>result.
       ret (json_prop result ''success''))"

section \<open>KioskAdminProxyService\<close>

definition getReleaseCurrencyTerminals ::
  "'s gateway \<Rightarrow> string \<Rightarrow> (gw_exn, breakers \<times> 's, json) eff" where
  "getReleaseCurrencyTerminals gw currencyCode =
     cb_fire (gw_parse gw) (gw_fire gw) ''kiosk-admin''
       (and_then
          (send gw \<lparr>or_method = ''get'',
             or_url = gw_kioskAdminUrl gw @ ''/admin-api/terminal/release-currency/'' @ currencyCode @ ''/terminals'',
             or_data = None, or_headers = []\<rparr>)
          (require_data ''%uD0A4%uC624%uC2A4%uD06C %uAD00%uB9AC%uC790 %uC11C%uBC84 %uC751%uB2F5%uC774 %uC62C%uBC14%uB974%uC9C0 %uC54A%uC2B5%uB2C8%uB2E4.''))"

section \<open>Guards\<close>

datatype guard_result = Allowed | Rejected graphql_error

definition unauthenticated :: "string \<Rightarrow> graphql_error" where
  "unauthenticated message =
     \<lparr>ge_message = message,
      ge_extensions = [(''code'', JStr ''UNAUTHENTICATED''), (''statusCode'', JNum 401)]\<rparr>"

definition valid_api_keys :: "string \<Rightarrow> string list" where
  "valid_api_keys api_keys = set_of_list (split_on (CHR '','') api_keys)"

definition api_key_canActivate :: "string list \<Rightarrow> bool \<Rightarrow> headers \<Rightarrow> guard_result" where
  "api_key_canActivate validApiKeys isPublic hs =
     (if isPublic then Allowed
      else (case map_of hs ''x-api-key'' of
              None \<Rightarrow> Rejected (unauthenticated ''API key is missing'')
            | Some (One k) \<Rightarrow>
                if k = [] then Rejected (unauthenticated ''API key is missing'')
                else if k \<notin> set validApiKeys then Rejected (unauthenticated ''Invalid API key'')
                else Allowed
            | Some (Many _) \<Rightarrow> Rejected (unauthenticated ''Invalid API key'')))"

text \<open>
  \<open>GqlThrottlerGuard.handleRequest\<close>: the storage's answer decides; the headers it sets are the
  result's list. \<open>setsHeaders\<close> is \<open>setHeaders && res && typeof res.header === 'function'\<close>.
\<close>

record throttle_hit =
  th_totalHits :: int
  th_timeToExpire :: int
  th_isBlocked :: bool
  th_timeToBlockExpire :: int

definition throttler_suffix :: "string \<Rightarrow> string" where
  "throttler_suffix name = (if name = ''default'' then [] else ''-'' @ name)"

definition user_agent_ignored ::
  "(string \<Rightarrow> bool) list option \<Rightarrow> (string \<Rightarrow> bool) list option \<Rightarrow> string option \<Rightarrow> bool" where
  "user_agent_ignored own common userAgent =
     (case nullish own common of
        None \<Rightarrow> False
      | Some patterns \<Rightarrow> list_ex (\<lambda>pat. pat (nullish_default userAgent [])) patterns)"

definition handleRequest ::
  "(string \<Rightarrow> bool) list option \<Rightarrow> (string \<Rightarrow> bool) list option \<Rightarrow> string option \<Rightarrow> string option \<Rightarrow>
   bool \<Rightarrow> string \<Rightarrow> int \<Rightarrow> (string \<Rightarrow> 's \<Rightarrow> throttle_hit \<times> 's) \<Rightarrow> 's \<Rightarrow> bool \<times> out_headers \<times> 's" where
  "handleRequest own common userAgent name setsHeaders headerPrefix limit increment s =
     (if user_agent_ignored own common userAgent then (True, [], s)
      else
        (let throttlerName = nullish_default name ''default'';
             suffix = throttler_suffix throttlerName;
             (hit, s') = increment throttlerName s
         in if th_isBlocked hit then
              (False,
               if setsHeaders then [(''Retry-After'' @ suffix, show_int (th_timeToBlockExpire hit))] else [],
               s')
            else
              (True,
               if setsHeaders then
                 [(headerPrefix @ ''-Limit'' @ suffix, show_int limit),
                  (headerPrefix @ ''-Remaining'' @ suffix, show_int (max 0 (limit - th_totalHits hit))),
                  (headerPrefix @ ''-Reset'' @ suffix, show_int (th_timeToExpire hit))]
               else [],
               s')))"

definition getTracker :: "string option \<Rightarrow> string list option \<Rightarrow> string" where
  "getTracker ip ips =
     nullish_default (nullish ip (case ips of Some (a # _) \<Rightarrow> Some a | _ \<Rightarrow> None)) ''unknown''"

section \<open>Small pieces of the platform code\<close>

definition MAX_RETRIES :: int where "MAX_RETRIES = 10"

definition retryStrategy :: "int \<Rightarrow> int option" where
  "retryStrategy attempt =
     (if attempt > MAX_RETRIES then None else Some (min (attempt * 500) 5000))"

definition discoverLogStreamers :: "string list option \<Rightarrow> url_parser \<Rightarrow> string \<Rightarrow> (exn + string list)" where
  "discoverLogStreamers dns url_parse fallbackUrl =
     (case dns of
        Some addresses \<Rightarrow> Inr addresses
      | None \<Rightarrow> (case url_parse fallbackUrl of None \<Rightarrow> Inl TypeErr | Some url \<Rightarrow> Inr [url_hostname url]))"

text \<open>\<open>/\.\w+$/.test(s)\<close>.\<close>

definition has_extension :: "string \<Rightarrow> bool" where
  "has_extension s =
     (let w = takeWhile is_word (rev s); rest = dropWhile is_word (rev s) in
      w \<noteq> [] \<and> rest \<noteq> [] \<and> hd rest = CHR ''.'')"

datatype spa_reply = SpaNotFound | SpaIndex

definition spa_fallback :: "string \<Rightarrow> spa_reply" where
  "spa_fallback url =
     (let urlPath = hd (split_on (CHR ''?'') url) in
      if starts_with ''/graphql'' urlPath \<or> has_extension urlPath then SpaNotFound else SpaIndex)"

section \<open>What the auth server receives\<close>

text \<open>Node delivers header names in lower case.\<close>

definition wire :: "out_headers \<Rightarrow> headers" where
  "wire hs = map (\<lambda>(k, v). (js_lower k, One v)) hs"

lemma map_of_set_truthy:
  "map_of (set_truthy k v hs) j = (if j = k \<and> truthy v then v else map_of hs j)"
  by (auto simp: set_truthy_def truthy_def js_map.get_put split: option.splits list.splits)

lemma keys_set_truthy: "fst ` set hs \<subseteq> K \<Longrightarrow> k \<in> K \<Longrightarrow> fst ` set (set_truthy k v hs) \<subseteq> K"
proof -
  assume *: "fst ` set hs \<subseteq> K" "k \<in> K"
  have "set (map fst (AList.update k x hs)) \<subseteq> K" for x
    using * by (auto simp: map_fst_update)
  with * show ?thesis by (auto simp: set_truthy_def split: option.splits list.splits)
qed

lemma keys_update: "fst ` set hs \<subseteq> K \<Longrightarrow> k \<in> K \<Longrightarrow> fst ` set (AList.update k v hs) \<subseteq> K"
proof -
  assume *: "fst ` set hs \<subseteq> K" "k \<in> K"
  have "set (map fst (AList.update k v hs)) \<subseteq> K" using * by (auto simp: map_fst_update)
  then show ?thesis by simp
qed

lemma map_of_wire:
  assumes "inj_on js_lower K" "fst ` set hs \<subseteq> K" "k \<in> K"
  shows "map_of (wire hs) (js_lower k) = map_option One (map_of hs k)"
  using assms(2)
proof (induction hs)
  case (Cons kv hs)
  obtain a b where kv: "kv = (a, b)" by (cases kv)
  with Cons.prems have "a \<in> K" "fst ` set hs \<subseteq> K" by auto
  with inj_onD [OF assms(1), of a k] assms(3) Cons.IH kv show ?case
    by (auto simp: wire_def)
qed (simp add: wire_def)

definition proxy_header_names :: "string list" where
  "proxy_header_names =
     [''X-Access-Channel'', ''X-Real-IP'', ''X-Forwarded-Proto'', ''X-Forwarded-Host'', ''X-Forwarded-For'',
      ''X-User-Type'', ''X-2FA-Token'', ''Authorization'', ''x-correlation-id'', ''accept-language'']"

lemma inj_proxy_names: "inj_on js_lower (set proxy_header_names)"
proof -
  have "distinct (map js_lower proxy_header_names)" by code_simp
  then show ?thesis by (simp add: distinct_map)
qed

lemma proxy_names_mem:
  "''X-Access-Channel'' \<in> set proxy_header_names" "''X-Real-IP'' \<in> set proxy_header_names"
  "''X-Forwarded-Proto'' \<in> set proxy_header_names" "''X-Forwarded-Host'' \<in> set proxy_header_names"
  "''X-Forwarded-For'' \<in> set proxy_header_names" "''X-User-Type'' \<in> set proxy_header_names"
  "''X-2FA-Token'' \<in> set proxy_header_names" "''Authorization'' \<in> set proxy_header_names"
  "CORRELATION_HEADER \<in> set proxy_header_names" "''accept-language'' \<in> set proxy_header_names"
  by (simp_all add: proxy_header_names_def CORRELATION_HEADER_def)

lemma keys_authMetaHeaders: "fst ` set (authMetaHeaders up req) \<subseteq> set proxy_header_names"
proof -
  have "fst ` set ([] :: out_headers) \<subseteq> set proxy_header_names" by simp
  then show ?thesis
    unfolding authMetaHeaders_def Let_def
    by (cases "truthy (res_headerValue req ''x-forwarded-for'')")
      (simp_all only: if_True if_False keys_set_truthy proxy_names_mem)
qed

text \<open>The headers of the request that \<open>resolver_login\<close> sends.\<close>

definition login_headers :: "'s gateway \<Rightarrow> gql_request \<Rightarrow> out_headers" where
  "login_headers gw req =
     or_headers (request_interceptor (gw_store gw)
       \<lparr>or_method = ''post'', or_url = [], or_data = None,
        or_headers = AList.update ''X-User-Type''
          (nullish_default (res_headerValue req ''x-user-type'') []) (authMetaHeaders (gw_url_parse gw) req)\<rparr>)"

lemma keys_login_headers: "fst ` set (login_headers gw req) \<subseteq> set proxy_header_names"
proof -
  have *: "fst ` set (AList.update ''X-User-Type'' v (authMetaHeaders up req)) \<subseteq> set proxy_header_names" for v up
    by (rule keys_update [OF keys_authMetaHeaders]) (rule proxy_names_mem)
  show ?thesis
    unfolding login_headers_def request_interceptor_def
    using * by (cases "gw_store gw") (simp_all add: keys_set_truthy proxy_names_mem)
qed

lemma map_of_authMetaHeaders:
  "map_of (authMetaHeaders up req) ''X-Access-Channel'' =
     (let c = resolveAccessChannelOrigin up (gr_headers req) in if truthy c then c else None)"
  "map_of (authMetaHeaders up req) ''X-Forwarded-Host'' =
     (let c = res_headerValue req ''x-forwarded-host'' in if truthy c then c else None)"
  "map_of (authMetaHeaders up req) ''X-Forwarded-Proto'' =
     (let c = res_headerValue req ''x-forwarded-proto'' in if truthy c then c else None)"
  "map_of (authMetaHeaders up req) ''X-Real-IP'' =
     (let c = res_headerValue req ''x-real-ip'' in if truthy c then c else None)"
  "map_of (authMetaHeaders up req) ''X-Forwarded-For'' =
     (let c = js_or (res_headerValue req ''x-forwarded-for'') (gr_ip req) in if truthy c then c else None)"
  unfolding authMetaHeaders_def Let_def
  by (auto simp: map_of_set_truthy js_or_def)

lemma map_of_login_headers:
  assumes "k \<in> {''X-Access-Channel'', ''X-Forwarded-Host'', ''X-Forwarded-Proto'', ''X-Real-IP'', ''X-Forwarded-For''}"
  shows "map_of (login_headers gw req) k = map_of (authMetaHeaders (gw_url_parse gw) req) k"
  using assms unfolding login_headers_def request_interceptor_def CORRELATION_HEADER_def
  by (auto simp: map_of_set_truthy js_map.get_put split: option.split)

lemma user_type_login_headers:
  "map_of (login_headers gw req) ''X-User-Type'' = Some (nullish_default (res_headerValue req ''x-user-type'') [])"
  unfolding login_headers_def request_interceptor_def CORRELATION_HEADER_def
  by (auto simp: map_of_set_truthy js_map.get_put split: option.split)

lemma wire_lookup:
  assumes "k \<in> set proxy_header_names"
  shows "map_of (wire (login_headers gw req)) (js_lower k) = map_option One (map_of (login_headers gw req) k)"
  by (rule map_of_wire [OF inj_proxy_names keys_login_headers assms])

lemma lower_names:
  "js_lower ''X-Access-Channel'' = ''x-access-channel''" "js_lower ''X-Real-IP'' = ''x-real-ip''"
  "js_lower ''X-Forwarded-Proto'' = ''x-forwarded-proto''" "js_lower ''X-Forwarded-Host'' = ''x-forwarded-host''"
  "js_lower ''X-Forwarded-For'' = ''x-forwarded-for''" "js_lower ''X-User-Type'' = ''x-user-type''"
  by code_simp+

lemmas wire_names = wire_lookup [OF proxy_names_mem(1), unfolded lower_names]
  wire_lookup [OF proxy_names_mem(2), unfolded lower_names]
  wire_lookup [OF proxy_names_mem(3), unfolded lower_names]
  wire_lookup [OF proxy_names_mem(4), unfolded lower_names]
  wire_lookup [OF proxy_names_mem(5), unfolded lower_names]
  wire_lookup [OF proxy_names_mem(6), unfolded lower_names]

text \<open>What the login's history row says of the client after the hop through the gateway. The
  user type is the client's header, exactly. A non-blank \<open>X-Forwarded-For\<close> keeps naming the client;
  without that header the address is the gateway's peer, even where \<open>X-Real-IP\<close> names another
  client: the gateway sends both and the auth server prefers the first.\<close>

theorem login_reaches_auth:
  assumes "areq = \<lparr>hr_headers = wire (login_headers gw req), hr_ip = ip, hr_body = body\<rparr>"
  shows "ctl_headerValue areq ''x-user-type'' = Some (nullish_default (res_headerValue req ''x-user-type'') []) \<and>
    (\<forall>v. res_headerValue req ''x-forwarded-for'' = Some v \<and> js_trim (hd (split_on (CHR '','') v)) \<noteq> [] \<longrightarrow>
       clientIp areq = js_trim (hd (split_on (CHR '','') v))) \<and>
    (\<forall>peer. res_headerValue req ''x-forwarded-for'' = None \<and> gr_ip req = Some peer \<and>
       js_trim (hd (split_on (CHR '','') peer)) \<noteq> [] \<longrightarrow>
       clientIp areq = js_trim (hd (split_on (CHR '','') peer)))"
proof -
  have ut: "ctl_headerValue areq ''x-user-type'' = Some (nullish_default (res_headerValue req ''x-user-type'') [])"
    using assms by (simp add: ctl_headerValue_def wire_names user_type_login_headers first_value_def)
  have ff: "ctl_headerValue areq ''x-forwarded-for'' =
      (let c = js_or (res_headerValue req ''x-forwarded-for'') (gr_ip req) in if truthy c then c else None)"
    using assms by (auto simp: ctl_headerValue_def wire_names map_of_login_headers map_of_authMetaHeaders
        first_value_def Let_def split: option.split)
  have nonblank: "v \<noteq> []" if "js_trim (hd (split_on (CHR '','') v)) \<noteq> []" for v
    using that by auto
  have ci: "clientIp areq = js_trim (hd (split_on (CHR '','') v))"
    if "ctl_headerValue areq ''x-forwarded-for'' = Some v" "js_trim (hd (split_on (CHR '','') v)) \<noteq> []" for v
    using that by (auto simp: clientIp_def Let_def js_or_def truthy_def or_default_def split: list.split)
  show ?thesis
    using ut ff ci nonblank by (auto simp: js_or_def truthy_def Let_def)
qed

lemma login_reaches_auth_witness:
  "clientIp \<lparr>hr_headers = wire (login_headers \<lparr>gw_parse = (\<lambda>s. None), gw_url_parse = demo_url_parse,
       gw_http = (\<lambda>rq. ret (None :: json option)), gw_fire = (\<lambda>b a. a), gw_store = None,
       gw_authBaseUrl = ''http://auth'', gw_kioskAdminUrl = []\<rparr>
       \<lparr>gr_headers = [(''x-real-ip'', One ''9.9.9.9'')], gr_ip = Some ''10.0.0.2''\<rparr>),
     hr_ip = None, hr_body = JNull\<rparr> = ''10.0.0.2''"
proof -
  let ?req = "\<lparr>gr_headers = [(''x-real-ip'', One ''9.9.9.9'')], gr_ip = Some ''10.0.0.2''\<rparr>"
  have "res_headerValue ?req ''x-forwarded-for'' = None" "gr_ip ?req = Some ''10.0.0.2''"
    "js_trim (hd (split_on (CHR '','') ''10.0.0.2'')) \<noteq> []"
    "js_trim (hd (split_on (CHR '','') ''10.0.0.2'')) = ''10.0.0.2''" by code_simp+
  with login_reaches_auth [OF refl, of _ ?req] show ?thesis by metis
qed

lemma raw_lower:
  assumes "\<forall>kv \<in> set hs. js_lower (fst kv) = fst kv" and "js_lower name = name"
  shows "rawHeaderValue hs name = map_of hs name"
proof -
  have "map_option snd (find (\<lambda>(key, _). js_lower key = name) hs) = map_of hs name"
    using assms(1) by (induction hs) auto
  then show ?thesis
    using assms(2) by (simp add: rawHeaderValue_def nullish_def split: option.split)
qed

lemma wire_lower: "\<forall>kv \<in> set (wire hs). js_lower (fst kv) = fst kv"
  by (auto simp: wire_def)

lemma wire_absent:
  assumes "name \<notin> js_lower ` set proxy_header_names"
  shows "map_of (wire (login_headers gw req)) name = None"
proof -
  have "fst ` set (wire hs) = js_lower ` fst ` set hs" for hs
    by (force simp: wire_def image_iff)
  with keys_login_headers [of gw req] assms show ?thesis
    by (auto simp: map_of_eq_None_iff)
qed

text \<open>
  What is relied on of the \<open>URL\<close> parser: an origin it gives is a non-empty text without white space
  at its ends and has itself as origin.
\<close>

definition stable_origins :: "url_parser \<Rightarrow> bool" where
  "stable_origins up \<longleftrightarrow>
     (\<forall>t c. normalizeOrigin up t = Some c \<longrightarrow> c \<noteq> [] \<and> js_trim c = c \<and> normalizeOrigin up c = Some c)"

lemma resolve_normalized:
  "resolveAccessChannelOrigin up hs = Some c \<Longrightarrow> \<exists>t. normalizeOrigin up t = Some c"
  by (auto simp: resolveAccessChannelOrigin_def originFromForwarded_def originFromHost_value
      originFromHeader_def nullish_def split: option.splits)

lemma headerValue_of_raw:
  "rawHeaderValue hs n = rawHeaderValue hs' n' \<Longrightarrow> headerValue hs n = headerValue hs' n'"
  by (simp add: headerValue_def)

text \<open>The access channel of a login survives the hop through the gateway: the auth server
  resolves the same origin from the gateway's request as the gateway resolves from the client's.\<close>

theorem access_channel_survives_proxy:
  assumes low: "\<forall>kv \<in> set (gr_headers req). js_lower (fst kv) = fst kv"
    and stable: "stable_origins (gw_url_parse gw)"
  shows "resolveAccessChannelOrigin (gw_url_parse gw) (wire (login_headers gw req)) =
    resolveAccessChannelOrigin (gw_url_parse gw) (gr_headers req)"
proof -
  let ?up = "gw_url_parse gw" and ?W = "wire (login_headers gw req)" and ?G = "gr_headers req"
  note rawW = raw_lower [OF wire_lower] and rawG = raw_lower [OF low]
  have same: "headerValue ?W n = headerValue ?G n"
    if n: "n = ''x-forwarded-host'' \<or> n = ''x-forwarded-proto''" for n
  proof -
    have ln: "js_lower n = n" using n by (elim disjE; simp only:; code_simp)
    have "map_of ?W n = map_option One (let c = res_headerValue req n in if truthy c then c else None)"
      using n by (elim disjE) (simp_all only: wire_names map_of_login_headers map_of_authMetaHeaders insertI1 insertI2)
    then show ?thesis
      by (auto simp: headerValue_def rawW ln rawG res_headerValue_def first_value_def Let_def truthy_def
          split: option.splits header_value.splits list.splits)
  qed
  have fwd: "originFromForwarded ?up ?W = originFromForwarded ?up ?G"
  proof -
    have "firstCommaSeparatedHeader ?W n = firstCommaSeparatedHeader ?G n"
      if "n = ''x-forwarded-host'' \<or> n = ''x-forwarded-proto''" for n
      unfolding firstCommaSeparatedHeader_def same [OF that] ..
    from this [of "''x-forwarded-host''"] this [of "''x-forwarded-proto''"]
    show ?thesis by (simp only: originFromForwarded_def simp_thms)
  qed
  have none: "originFromHeader ?up ?W n = None" if "n = ''origin'' \<or> n = ''referer''" for n
  proof -
    have "n \<notin> js_lower ` set proxy_header_names \<and> js_lower n = n"
      using that by (elim disjE; simp only:; code_simp)
    then show ?thesis
      by (simp add: originFromHeader_def headerValue_def rawW wire_absent first_value_def)
  qed
  let ?c = "resolveAccessChannelOrigin ?up ?G"
  have "map_of ?W ''x-access-channel'' = map_option One (let c = ?c in if truthy c then c else None)"
    by (simp only: wire_names map_of_login_headers map_of_authMetaHeaders insertI1)
  moreover have "js_lower ''x-access-channel'' = ''x-access-channel''" by code_simp
  ultimately have ch: "originFromHeader ?up ?W ''x-access-channel'' = ?c"
  proof (cases ?c)
    case (Some c)
    with resolve_normalized stable have "c \<noteq> []" "js_trim c = c" "normalizeOrigin ?up c = Some c"
      unfolding stable_origins_def by blast+
    moreover assume "map_of ?W ''x-access-channel'' = map_option One (let c = ?c in if truthy c then c else None)"
      "js_lower ''x-access-channel'' = ''x-access-channel''"
    ultimately show ?thesis
      using Some by (cases c) (auto simp: originFromHeader_def headerValue_def rawW first_value_def)
  qed (simp add: originFromHeader_def headerValue_def rawW first_value_def)
  show ?thesis
  proof (cases "originFromForwarded ?up ?G")
    case None
    then show ?thesis
      unfolding resolveAccessChannelOrigin_def [of ?up ?W] fwd using none ch by simp
  next
    case (Some c)
    then show ?thesis
      unfolding resolveAccessChannelOrigin_def fwd by simp
  qed
qed

lemma access_channel_survives_proxy_witness:
  "resolveAccessChannelOrigin (\<lambda>s. if s = ''https://shop'' then
        Some \<lparr>url_protocol = ''https:'', url_hostname = ''shop'', url_origin = ''https://shop''\<rparr> else None)
     (wire (login_headers \<lparr>gw_parse = (\<lambda>s. None), gw_url_parse = (\<lambda>s. if s = ''https://shop'' then
        Some \<lparr>url_protocol = ''https:'', url_hostname = ''shop'', url_origin = ''https://shop''\<rparr> else None),
       gw_http = (\<lambda>rq. ret (None :: json option)), gw_fire = (\<lambda>b a. a), gw_store = None,
       gw_authBaseUrl = ''http://auth'', gw_kioskAdminUrl = []\<rparr>
       \<lparr>gr_headers = [(''origin'', One ''https://shop'')], gr_ip = None\<rparr>)) = Some ''https://shop''"
proof -
  let ?up = "\<lambda>s. if s = ''https://shop'' then
    Some \<lparr>url_protocol = ''https:'', url_hostname = ''shop'', url_origin = ''https://shop''\<rparr> else None"
  let ?gw = "\<lparr>gw_parse = (\<lambda>s. None), gw_url_parse = ?up,
       gw_http = (\<lambda>rq. ret (None :: json option)), gw_fire = (\<lambda>b a. a), gw_store = None,
       gw_authBaseUrl = ''http://auth'', gw_kioskAdminUrl = []\<rparr>"
  let ?req = "\<lparr>gr_headers = [(''origin'', One ''https://shop'')], gr_ip = None\<rparr>"
  have "stable_origins ?up"
    unfolding stable_origins_def normalizeOrigin_def
    by (auto simp: js_trim_eq js_ws_def HTTP_PROTOCOLS_def split: option.splits if_splits)
  moreover have "\<forall>kv \<in> set (gr_headers ?req). js_lower (fst kv) = fst kv"
    "resolveAccessChannelOrigin ?up (gr_headers ?req) = Some ''https://shop''" by code_simp+
  ultimately show ?thesis
    using access_channel_survives_proxy [of ?req ?gw] by simp
qed

section \<open>The guards and the platform code\<close>

text \<open>The API key guard lets a request through exactly when its endpoint is public or its
  \<open>X-API-Key\<close> header is one of the configured keys; every other request is answered with
  \<open>UNAUTHENTICATED\<close>/401. An empty key never passes, even with an empty list of keys.\<close>

theorem api_key_guard:
  "(api_key_canActivate (valid_api_keys keys) isPublic hs = Allowed \<longleftrightarrow>
     isPublic \<or> (\<exists>k. map_of hs ''x-api-key'' = Some (One k) \<and> k \<noteq> [] \<and> k \<in> set (split_on (CHR '','') keys))) \<and>
   (api_key_canActivate (valid_api_keys keys) isPublic hs = Allowed \<or>
     (\<exists>g. api_key_canActivate (valid_api_keys keys) isPublic hs = Rejected g \<and>
        map_of (ge_extensions g) ''code'' = Some (JStr ''UNAUTHENTICATED'') \<and>
        map_of (ge_extensions g) ''statusCode'' = Some (JNum 401)))"
  by (auto simp: api_key_canActivate_def valid_api_keys_def unauthenticated_def
      split: option.splits header_value.splits)

text \<open>The throttler refuses exactly the requests that the storage reports as blocked and whose
  user agent is not ignored, and an ignored one is not counted; what it tells a client it lets
  through is a remaining number between zero and the limit.\<close>

theorem throttler_decision:
  assumes "handleRequest own common ua name setsHeaders prefix limit increment s = (ok, hs, s')"
    and "0 \<le> limit" and "0 \<le> th_totalHits (fst (increment (nullish_default name ''default'') s))"
  shows "(ok \<longleftrightarrow> user_agent_ignored own common ua \<or>
      \<not> th_isBlocked (fst (increment (nullish_default name ''default'') s))) \<and>
    (if user_agent_ignored own common ua then s' = s \<and> hs = []
     else s' = snd (increment (nullish_default name ''default'') s)) \<and>
    (ok \<and> setsHeaders \<and> \<not> user_agent_ignored own common ua \<longrightarrow>
      (\<exists>n. 0 \<le> n \<and> n \<le> limit \<and>
         map_of hs (prefix @ ''-Remaining'' @ throttler_suffix (nullish_default name ''default'')) =
           Some (show_int n)))"
proof -
  let ?inc = "increment (nullish_default name ''default'') s"
  have "prefix @ ''-Limit'' @ x \<noteq> prefix @ ''-Remaining'' @ x" for x :: string by simp
  with assms show ?thesis
    by (cases ?inc) (auto simp: handleRequest_def Let_def split: if_splits
        intro!: exI [of _ "max 0 (limit - th_totalHits (fst ?inc))"])
qed

lemma throttler_decision_witness:
  "fst (handleRequest None None None None True ''X-RateLimit'' 100
      (\<lambda>_ s. (\<lparr>th_totalHits = s, th_timeToExpire = 60, th_isBlocked = False, th_timeToBlockExpire = 0\<rparr>, s + 1))
      (3::int))"
proof -
  let ?inc = "\<lambda>_ s. (\<lparr>th_totalHits = s, th_timeToExpire = 60, th_isBlocked = False, th_timeToBlockExpire = 0\<rparr>, s + (1::int))"
  let ?run = "handleRequest None None None None True ''X-RateLimit'' 100 ?inc 3"
  have run: "?run = (fst ?run, fst (snd ?run), snd (snd ?run))" by simp
  from throttler_decision [OF run] show ?thesis by (simp add: user_agent_ignored_def)
qed

text \<open>The reconnection to Redis waits half a second longer each time, between half a second and
  five seconds, and gives up after the tenth attempt, so the sum of all waits is bounded.\<close>

theorem redis_retry_bounded:
  assumes "1 \<le> attempt"
  shows "(attempt \<le> 10 \<longrightarrow> (\<exists>d. retryStrategy attempt = Some d \<and> 500 \<le> d \<and> d \<le> 5000 \<and>
      (\<forall>d'. retryStrategy (attempt + 1) = Some d' \<longrightarrow> d' = d + 500 \<and> d' \<le> 5000))) \<and>
    (10 < attempt \<longrightarrow> retryStrategy attempt = None)"
  using assms by (auto simp: retryStrategy_def MAX_RETRIES_def)

lemma redis_retry_bounded_witness: "retryStrategy 11 = None"
  using redis_retry_bounded [of 11] by simp

end
