(* ===== verification/Log_Streamer.thy ===== *)
theory Log_Streamer
  imports Json
begin

text \<open>
  \<open>LogStreamerProxyService\<close>
  (apps/gateway/src/log-streamer-proxy/log-streamer-proxy.service.ts): the WebSocket connections to
  the log-streamer instances, the reference counts of the subscriptions, and the routing of
  messages to the topics of Redis.

  A connection object lives on after it is removed from the map, because its socket and its timer
  refer to it; the objects, the sockets and the timers are therefore kept in lists and named by
  their index. The service is a machine: each method call, timer and callback of a socket is an
  event. The two halves of \<open>reconcileConnections\<close>, before and after its \<open>await\<close>, are two events.
  The constructor of \<open>WebSocket\<close> throws where \<open>ws_ok\<close> does not hold of the URL.
\<close>

section \<open>State\<close>

datatype socket_state = CONNECTING | OPEN | CLOSING | CLOSED

record socket =
  sk_conn :: nat
  sk_state :: socket_state
  sk_sent :: "string list"

record timer =
  tm_conn :: nat
  tm_delay :: int
  tm_live :: bool

record LogStreamerConnection =
  cn_host :: string
  cn_httpUrl :: string
  cn_wsUrl :: string
  cn_ws :: "nat option"
  cn_reconnectTimeout :: "nat option"
  cn_reconnectAttempts :: nat

record streamer =
  ls_port :: int
  ls_objs :: "LogStreamerConnection list"
  ls_connections :: "(string \<times> nat) list"
  ls_sockets :: "socket list"
  ls_timers :: "timer list"
  ls_dnsRefreshInterval :: bool
  ls_pendingDns :: nat
  ls_isShuttingDown :: bool
  ls_activeSubscriptions :: "(string \<times> nat) list"
  ls_activeServiceSubscriptions :: "(string \<times> nat) list"
  ls_preSubs :: "(nat \<times> string) list"
  ls_nextSubId :: nat
  ls_published :: "(string \<times> json) list"
  ls_uncaught :: bool

definition init_streamer :: "int \<Rightarrow> streamer" where
  "init_streamer port =
     \<lparr>ls_port = port, ls_objs = [], ls_connections = [], ls_sockets = [], ls_timers = [],
      ls_dnsRefreshInterval = False, ls_pendingDns = 0, ls_isShuttingDown = False,
      ls_activeSubscriptions = [], ls_activeServiceSubscriptions = [], ls_preSubs = [],
      ls_nextSubId = 0, ls_published = [], ls_uncaught = False\<rparr>"

definition BASE_RECONNECT_MS :: int where "BASE_RECONNECT_MS = 1000"

definition MAX_RECONNECT_MS :: int where "MAX_RECONNECT_MS = 30000"

definition DNS_REFRESH_MS :: int where "DNS_REFRESH_MS = 30000"

definition new_connection :: "string \<Rightarrow> int \<Rightarrow> LogStreamerConnection" where
  "new_connection host port =
     \<lparr>cn_host = host, cn_httpUrl = ''http://'' @ host @ '':'' @ show_int port,
      cn_wsUrl = ''ws://'' @ host @ '':'' @ show_int port @ ''/ws/logs'',
      cn_ws = None, cn_reconnectTimeout = None, cn_reconnectAttempts = 0\<rparr>"

definition set_obj :: "nat \<Rightarrow> (LogStreamerConnection \<Rightarrow> LogStreamerConnection) \<Rightarrow> streamer \<Rightarrow> streamer" where
  "set_obj i f s =
     (if i < length (ls_objs s) then s\<lparr>ls_objs := (ls_objs s)[i := f (ls_objs s ! i)]\<rparr> else s)"

definition set_socket :: "nat \<Rightarrow> (socket \<Rightarrow> socket) \<Rightarrow> streamer \<Rightarrow> streamer" where
  "set_socket k f s =
     (if k < length (ls_sockets s) then s\<lparr>ls_sockets := (ls_sockets s)[k := f (ls_sockets s ! k)]\<rparr> else s)"

section \<open>Connecting and reconnecting\<close>

definition reconnect_delay :: "nat \<Rightarrow> int" where
  "reconnect_delay attempts = min (BASE_RECONNECT_MS * 2 ^ (attempts - 1)) MAX_RECONNECT_MS"

definition scheduleReconnect :: "nat \<Rightarrow> streamer \<Rightarrow> streamer" where
  "scheduleReconnect i s =
     (let conn = ls_objs s ! i in
      if ls_isShuttingDown s then s
      else if map_of (ls_connections s) (cn_host conn) = None then s
      else
        (let attempts = cn_reconnectAttempts conn + 1;
             t = length (ls_timers s)
         in (set_obj i (\<lambda>c. c\<lparr>cn_reconnectAttempts := attempts, cn_reconnectTimeout := Some t\<rparr>) s)
              \<lparr>ls_timers := ls_timers s @
                 [\<lparr>tm_conn = i, tm_delay = reconnect_delay attempts, tm_live = True\<rparr>]\<rparr>))"

definition connectWebSocket :: "(string \<Rightarrow> bool) \<Rightarrow> nat \<Rightarrow> streamer \<Rightarrow> streamer" where
  "connectWebSocket ws_ok i s =
     (if ls_isShuttingDown s then s
      else if ws_ok (cn_wsUrl (ls_objs s ! i)) then
        (let k = length (ls_sockets s) in
         (set_obj i (\<lambda>c. c\<lparr>cn_ws := Some k\<rparr>) s)
           \<lparr>ls_sockets := ls_sockets s @ [\<lparr>sk_conn = i, sk_state = CONNECTING, sk_sent = []\<rparr>]\<rparr>)
      else scheduleReconnect i s)"

text \<open>\<open>ws.close()\<close> on a socket that is not closed yet.\<close>

definition close_socket :: "nat \<Rightarrow> streamer \<Rightarrow> streamer" where
  "close_socket k s =
     set_socket k (\<lambda>w. if sk_state w = CLOSED then w else w\<lparr>sk_state := CLOSING\<rparr>) s"

definition clear_timer :: "nat \<Rightarrow> streamer \<Rightarrow> streamer" where
  "clear_timer t s =
     (if t < length (ls_timers s)
      then s\<lparr>ls_timers := (ls_timers s)[t := (ls_timers s ! t)\<lparr>tm_live := False\<rparr>]\<rparr> else s)"

definition closeConnection :: "nat \<Rightarrow> streamer \<Rightarrow> streamer" where
  "closeConnection i s =
     (let s1 = (case cn_reconnectTimeout (ls_objs s ! i) of
                  None \<Rightarrow> s
                | Some t \<Rightarrow> set_obj i (\<lambda>c. c\<lparr>cn_reconnectTimeout := None\<rparr>) (clear_timer t s))
      in (case cn_ws (ls_objs s1 ! i) of
            None \<Rightarrow> s1
          | Some k \<Rightarrow> set_obj i (\<lambda>c. c\<lparr>cn_ws := None\<rparr>) (close_socket k s1)))"

section \<open>Reconciling with DNS\<close>

definition remove_host :: "string \<Rightarrow> streamer \<Rightarrow> streamer" where
  "remove_host host s =
     (case map_of (ls_connections s) host of
        None \<Rightarrow> s
      | Some i \<Rightarrow>
          (let s1 = closeConnection i s in s1\<lparr>ls_connections := AList.delete host (ls_connections s1)\<rparr>))"

definition add_host :: "(string \<Rightarrow> bool) \<Rightarrow> string \<Rightarrow> streamer \<Rightarrow> streamer" where
  "add_host ws_ok host s =
     (let i = length (ls_objs s);
          s1 = s\<lparr>ls_objs := ls_objs s @ [new_connection host (ls_port s)],
                 ls_connections := AList.update host i (ls_connections s)\<rparr>
      in connectWebSocket ws_ok i s1)"

text \<open>The half of \<open>reconcileConnections\<close> after the \<open>await\<close>; it does not look at \<open>isShuttingDown\<close> again.\<close>

definition reconcile_resume :: "(string \<Rightarrow> bool) \<Rightarrow> string list \<Rightarrow> streamer \<Rightarrow> streamer" where
  "reconcile_resume ws_ok hosts s =
     (let currentHosts = map_keys (ls_connections s);
          discoveredHosts = set_of_list hosts;
          s1 = fold (\<lambda>host s. if host \<in> set discoveredHosts then s else remove_host host s) currentHosts s
      in fold (\<lambda>host s. if host \<in> set currentHosts then s else add_host ws_ok host s) discoveredHosts s1)"

definition reconcile_start :: "streamer \<Rightarrow> streamer" where
  "reconcile_start s = (if ls_isShuttingDown s then s else s\<lparr>ls_pendingDns := ls_pendingDns s + 1\<rparr>)"

text \<open>\<open>onModuleInit\<close> after its \<open>await\<close>: the interval starts when the first reconciliation is done.\<close>

definition onModuleInit_resume :: "(string \<Rightarrow> bool) \<Rightarrow> string list \<Rightarrow> streamer \<Rightarrow> streamer" where
  "onModuleInit_resume ws_ok hosts s = (reconcile_resume ws_ok hosts s)\<lparr>ls_dnsRefreshInterval := True\<rparr>"

definition onModuleDestroy :: "streamer \<Rightarrow> streamer" where
  "onModuleDestroy s =
     (let s1 = s\<lparr>ls_isShuttingDown := True, ls_dnsRefreshInterval := False\<rparr>;
          s2 = fold (\<lambda>(_, i) s. closeConnection i s) (ls_connections s1) s1
      in s2\<lparr>ls_connections := []\<rparr>)"

section \<open>Subscriptions\<close>

definition retainSubscription :: "(string \<times> nat) list \<Rightarrow> string \<Rightarrow> bool \<times> (string \<times> nat) list" where
  "retainSubscription subs key =
     (let nextCount = nullish_default (map_of subs key) 0 + 1 in
      (nextCount = 1, AList.update key nextCount subs))"

definition releaseSubscription :: "(string \<times> nat) list \<Rightarrow> string \<Rightarrow> bool \<times> (string \<times> nat) list" where
  "releaseSubscription subs key =
     (case map_of subs key of
        None \<Rightarrow> (False, subs)
      | Some currentCount \<Rightarrow>
          if currentCount = 0 then (False, subs)
          else if currentCount = 1 then (True, AList.delete key subs)
          else (False, AList.update key (currentCount - 1) subs))"

definition ws_message :: "string \<Rightarrow> string \<Rightarrow> string \<Rightarrow> string" where
  "ws_message ty k v = json_stringify (JObj [(''type'', JStr ty), (k, JStr v)])"

definition broadcastToAll :: "string \<Rightarrow> streamer \<Rightarrow> streamer" where
  "broadcastToAll message s =
     fold (\<lambda>(_, i) s.
       case cn_ws (ls_objs s ! i) of
         None \<Rightarrow> s
       | Some k \<Rightarrow>
           set_socket k (\<lambda>w. if sk_state w = OPEN then w\<lparr>sk_sent := sk_sent w @ [message]\<rparr> else w) s)
       (ls_connections s) s"

text \<open>
  \<open>subscribeToLogs\<close> after the subscription to Redis has completed; the wrapper it returns holds the
  container id and the id of this subscription.
\<close>

definition subscribeToLogs :: "string \<Rightarrow> streamer \<Rightarrow> (string \<times> nat) \<times> streamer" where
  "subscribeToLogs containerId s =
     (let preSubId = ls_nextSubId s;
          (shouldSubscribeUpstream, subs) = retainSubscription (ls_activeSubscriptions s) containerId;
          s1 = s\<lparr>ls_preSubs := ls_preSubs s @ [(preSubId, ''CONTAINER_LOG.'' @ containerId)],
                 ls_nextSubId := preSubId + 1, ls_activeSubscriptions := subs\<rparr>
      in ((containerId, preSubId),
          if shouldSubscribeUpstream
          then broadcastToAll (ws_message ''subscribe'' ''containerId'' containerId) s1 else s1))"

definition subscribeToServiceLogs :: "string \<Rightarrow> streamer \<Rightarrow> (string \<times> nat) \<times> streamer" where
  "subscribeToServiceLogs serviceName s =
     (let preSubId = ls_nextSubId s;
          (shouldSubscribeUpstream, subs) = retainSubscription (ls_activeServiceSubscriptions s) serviceName;
          s1 = s\<lparr>ls_preSubs := ls_preSubs s @ [(preSubId, ''SERVICE_LOG.'' @ serviceName)],
                 ls_nextSubId := preSubId + 1, ls_activeServiceSubscriptions := subs\<rparr>
      in ((serviceName, preSubId),
          if shouldSubscribeUpstream
          then broadcastToAll (ws_message ''subscribe_service'' ''serviceName'' serviceName) s1 else s1))"

definition unsubscribeFromLogs :: "string \<Rightarrow> streamer \<Rightarrow> streamer" where
  "unsubscribeFromLogs containerId s = broadcastToAll (ws_message ''unsubscribe'' ''containerId'' containerId) s"

definition unsubscribeFromServiceLogs :: "string \<Rightarrow> streamer \<Rightarrow> streamer" where
  "unsubscribeFromServiceLogs serviceName s =
     broadcastToAll (ws_message ''unsubscribe_service'' ''serviceName'' serviceName) s"

text \<open>\<open>return()\<close> of the wrappers.\<close>

definition return_logs :: "string \<times> nat \<Rightarrow> streamer \<Rightarrow> streamer" where
  "return_logs wrapper s =
     (let (containerId, preSubId) = wrapper;
          (shouldUnsubscribeUpstream, subs) = releaseSubscription (ls_activeSubscriptions s) containerId;
          s1 = s\<lparr>ls_activeSubscriptions := subs\<rparr>;
          s2 = if shouldUnsubscribeUpstream then unsubscribeFromLogs containerId s1 else s1
      in s2\<lparr>ls_preSubs := AList.delete preSubId (ls_preSubs s2)\<rparr>)"

definition return_service_logs :: "string \<times> nat \<Rightarrow> streamer \<Rightarrow> streamer" where
  "return_service_logs wrapper s =
     (let (serviceName, preSubId) = wrapper;
          (shouldUnsubscribeUpstream, subs) = releaseSubscription (ls_activeServiceSubscriptions s) serviceName;
          s1 = s\<lparr>ls_activeServiceSubscriptions := subs\<rparr>;
          s2 = if shouldUnsubscribeUpstream then unsubscribeFromServiceLogs serviceName s1 else s1
      in s2\<lparr>ls_preSubs := AList.delete preSubId (ls_preSubs s2)\<rparr>)"

section \<open>The callbacks of a socket\<close>

definition resubscribe_messages :: "streamer \<Rightarrow> string list" where
  "resubscribe_messages s =
     map (\<lambda>c. ws_message ''subscribe'' ''containerId'' c) (map_keys (ls_activeSubscriptions s)) @
     map (\<lambda>v. ws_message ''subscribe_service'' ''serviceName'' v) (map_keys (ls_activeServiceSubscriptions s))"

text \<open>
  The callback of \<open>open\<close> sends on \<open>conn.ws\<close>, whatever socket that is now: sending on \<open>null\<close> or on a
  socket that is still connecting throws, on a closing one it does nothing.
\<close>

definition on_open :: "nat \<Rightarrow> streamer \<Rightarrow> streamer" where
  "on_open k s =
     (let i = sk_conn (ls_sockets s ! k);
          s1 = set_obj i (\<lambda>c. c\<lparr>cn_reconnectAttempts := 0\<rparr>)
                 (set_socket k (\<lambda>w. w\<lparr>sk_state := OPEN\<rparr>) s);
          msgs = resubscribe_messages s1
      in if msgs = [] then s1
         else (case cn_ws (ls_objs s1 ! i) of
                 None \<Rightarrow> s1\<lparr>ls_uncaught := True\<rparr>
               | Some j \<Rightarrow>
                   (case sk_state (ls_sockets s1 ! j) of
                      OPEN \<Rightarrow> set_socket j (\<lambda>w. w\<lparr>sk_sent := sk_sent w @ msgs\<rparr>) s1
                    | CONNECTING \<Rightarrow> s1\<lparr>ls_uncaught := True\<rparr>
                    | _ \<Rightarrow> s1)))"

definition opt_entry :: "string \<Rightarrow> string option \<Rightarrow> (string \<times> json) list" where
  "opt_entry k v = (case v of None \<Rightarrow> [] | Some t \<Rightarrow> [(k, JStr t)])"

definition publish :: "string \<Rightarrow> json \<Rightarrow> streamer \<Rightarrow> streamer" where
  "publish topic payload s = s\<lparr>ls_published := ls_published s @ [(topic, payload)]\<rparr>"

text \<open>
  The callback of \<open>message\<close>. The fields of a message are strings, as its interface declares; a field
  of another type reads as absent, and a text that does not parse changes nothing. An absent field
  is left out of the published payload, as its transport leaves it out.
\<close>

definition container_payload :: "string \<Rightarrow> json \<Rightarrow> json" where
  "container_payload cid m =
     JObj [(''containerLog'', JObj ([(''containerId'', JStr cid)] @
       opt_entry ''timestamp'' (string_prop m ''timestamp'') @
       opt_entry ''message'' (string_prop m ''message'') @
       opt_entry ''stream'' (string_prop m ''stream'')))]"

definition service_payload :: "string \<Rightarrow> string \<Rightarrow> json \<Rightarrow> string option \<Rightarrow> json \<Rightarrow> json" where
  "service_payload cid svc m strm ev =
     JObj [(''serviceLog'', JObj ([(''containerId'', JStr cid), (''serviceName'', JStr svc)] @
       opt_entry ''timestamp'' (string_prop m ''timestamp'') @
       opt_entry ''message'' (string_prop m ''message'') @
       opt_entry ''stream'' strm @ [(''event'', ev)]))]"

definition on_message :: "json_parser \<Rightarrow> string \<Rightarrow> streamer \<Rightarrow> streamer" where
  "on_message parse data s =
     (case parse data of
        None \<Rightarrow> s
      | Some m \<Rightarrow>
          (let ty = string_prop m ''type'';
               containerId = string_prop m ''containerId'';
               serviceName = string_prop m ''serviceName''
           in if ty = Some ''log'' \<and> truthy containerId then
                (let cid = nullish_default containerId [];
                     s1 = publish (''CONTAINER_LOG.'' @ cid) (container_payload cid m) s
                 in if truthy serviceName then
                      (let svc = nullish_default serviceName [] in
                       publish (''SERVICE_LOG.'' @ svc)
                         (service_payload cid svc m (string_prop m ''stream'') JNull) s1)
                    else s1)
              else if ty = Some ''service_event'' \<and> truthy serviceName then
                (let svc = nullish_default serviceName [] in
                 publish (''SERVICE_LOG.'' @ svc)
                   (service_payload (nullish_default containerId []) svc m (Some ''event'')
                      (case string_prop m ''event'' of None \<Rightarrow> JNull | Some e \<Rightarrow> JStr e)) s)
              else s))"

definition on_close :: "nat \<Rightarrow> streamer \<Rightarrow> streamer" where
  "on_close k s =
     scheduleReconnect (sk_conn (ls_sockets s ! k)) (set_socket k (\<lambda>w. w\<lparr>sk_state := CLOSED\<rparr>) s)"

definition on_timer :: "(string \<Rightarrow> bool) \<Rightarrow> nat \<Rightarrow> streamer \<Rightarrow> streamer" where
  "on_timer ws_ok t s = connectWebSocket ws_ok (tm_conn (ls_timers s ! t)) (clear_timer t s)"

section \<open>Queries to every log-streamer\<close>

text \<open>
  \<open>listContainers\<close> and \<open>getContainerStats\<close>. The discovery of the hosts may throw; the request to a
  host, through the circuit breaker, is the parameter \<open>fetch\<close>: it gives the data of the response or
  the exception, which \<open>Promise.allSettled\<close> turns into a rejected result.
\<close>

record 'n ContainerStats =
  st_id :: string
  st_name :: string
  st_cpuPercent :: 'n
  st_memUsage :: 'n
  st_memLimit :: 'n

definition listContainers ::
  "('e + string list) \<Rightarrow> int \<Rightarrow> (string \<Rightarrow> 'e + 'c list) \<Rightarrow> 'e + 'c list" where
  "listContainers discovered port fetch =
     (case discovered of
        Inl e \<Rightarrow> Inl e
      | Inr hosts \<Rightarrow>
          (let results = map (\<lambda>host. fetch (''http://'' @ host @ '':'' @ show_int port @ ''/api/containers'')) hosts
           in Inr (foldl (\<lambda>containers value. containers @ value) [] (fulfilled results))))"

definition add_unseen ::
  "string list \<times> 'n ContainerStats list \<Rightarrow> 'n ContainerStats \<Rightarrow> string list \<times> 'n ContainerStats list" where
  "add_unseen acc s =
     (let (seen, stats) = acc in
      if st_id s \<in> set seen then (seen, stats) else (set_add (st_id s) seen, stats @ [s]))"

definition getContainerStats ::
  "('e + string list) \<Rightarrow> int \<Rightarrow> (string \<Rightarrow> 'e + 'n ContainerStats list) \<Rightarrow> string list \<Rightarrow>
   'e + 'n ContainerStats list" where
  "getContainerStats discovered port fetch containerIds =
     (if containerIds = [] then Inr []
      else
        (let idsParam = join '','' containerIds in
         case discovered of
           Inl e \<Rightarrow> Inl e
         | Inr hosts \<Rightarrow>
             (let results = map (\<lambda>host. fetch (''http://'' @ host @ '':'' @ show_int port @
                                           ''/api/stats?ids='' @ idsParam)) hosts
              in Inr (snd (foldl (\<lambda>acc value. foldl add_unseen acc value) ([], []) (fulfilled results))))))"

section \<open>The machine\<close>

datatype ls_event =
  ReconcileStart
| InitDnsResult "string list"
| DnsResult "string list"
| Destroy
| SocketOpen nat
| SocketMessage string
| SocketClose nat
| TimerFires nat
| Subscribe string
| SubscribeService string
| ReturnLogs "string \<times> nat"
| ReturnServiceLogs "string \<times> nat"

text \<open>An event the platform cannot deliver in the state (a dead timer, a closed socket) is ignored.\<close>

fun ls_step :: "(string \<Rightarrow> bool) \<Rightarrow> json_parser \<Rightarrow> ls_event \<Rightarrow> streamer \<Rightarrow> streamer" where
  "ls_step ws_ok parse ReconcileStart s = reconcile_start s"
| "ls_step ws_ok parse (InitDnsResult hosts) s =
     (if ls_pendingDns s = 0 then s
      else onModuleInit_resume ws_ok hosts (s\<lparr>ls_pendingDns := ls_pendingDns s - 1\<rparr>))"
| "ls_step ws_ok parse (DnsResult hosts) s =
     (if ls_pendingDns s = 0 then s
      else reconcile_resume ws_ok hosts (s\<lparr>ls_pendingDns := ls_pendingDns s - 1\<rparr>))"
| "ls_step ws_ok parse Destroy s = onModuleDestroy s"
| "ls_step ws_ok parse (SocketOpen k) s =
     (if k < length (ls_sockets s) \<and> sk_state (ls_sockets s ! k) = CONNECTING then on_open k s else s)"
| "ls_step ws_ok parse (SocketMessage data) s = on_message parse data s"
| "ls_step ws_ok parse (SocketClose k) s =
     (if k < length (ls_sockets s) \<and> sk_state (ls_sockets s ! k) \<noteq> CLOSED then on_close k s else s)"
| "ls_step ws_ok parse (TimerFires t) s =
     (if t < length (ls_timers s) \<and> tm_live (ls_timers s ! t) then on_timer ws_ok t s else s)"
| "ls_step ws_ok parse (Subscribe c) s = snd (subscribeToLogs c s)"
| "ls_step ws_ok parse (SubscribeService v) s = snd (subscribeToServiceLogs v s)"
| "ls_step ws_ok parse (ReturnLogs w) s = return_logs w s"
| "ls_step ws_ok parse (ReturnServiceLogs w) s = return_service_logs w s"

end
