(* ===== verification/Text_Order.thy ===== *)
theory Text_Order
  imports JS_Prelude
begin

text \<open>
  Comparing texts: the code-unit order of \<open>sort()\<close> without a comparison function, and sorting by a
  key. \<open>localeCompare\<close> depends on the locale of the process and is a parameter wherever the code
  calls it; what the code relies on is that it is a consistent comparison (\<open>comparator\<close>).
\<close>

fun js_compare :: "string \<Rightarrow> string \<Rightarrow> int" where
  "js_compare [] [] = 0"
| "js_compare [] (y # ys) = - 1"
| "js_compare (x # xs) [] = 1"
| "js_compare (x # xs) (y # ys) =
     (if code x < code y then - 1 else if code y < code x then 1 else js_compare xs ys)"

lemma js_compare_refl: "js_compare s s = 0"
  by (induction s) auto

lemma js_compare_antisym: "js_compare s t = - js_compare t s"
  by (induction s t rule: js_compare.induct) auto

lemma js_compare_trans: "js_compare s t \<le> 0 \<Longrightarrow> js_compare t u \<le> 0 \<Longrightarrow> js_compare s u \<le> 0"
proof (induction s t arbitrary: u rule: js_compare.induct)
  case (1 u)
  then show ?case by simp
next
  case (2 y ys u)
  then show ?case by (cases u) auto
next
  case (3 x xs u)
  then show ?case by simp
next
  case (4 x xs y ys u)
  show ?case
  proof (cases u)
    case Nil
    with 4 show ?thesis by simp
  next
    case (Cons z zs)
    consider "code x < code y" | "code y < code x" | "code x = code y" by linarith
    then show ?thesis
    proof cases
      case 3
      then have ih: "js_compare xs ys \<le> 0 \<Longrightarrow> js_compare ys zs \<le> 0 \<Longrightarrow> js_compare xs zs \<le> 0"
        using 4(1) by simp
      from 3 4(2,3) Cons ih show ?thesis by (auto split: if_split_asm)
    qed (use 4(2,3) Cons in \<open>auto split: if_split_asm\<close>)
  qed
qed

lemma js_compare_eq: "js_compare s t = 0 \<Longrightarrow> s = t"
  by (induction s t rule: js_compare.induct) (auto split: if_splits)

text \<open>
  A comparison that tells all values apart: sorting then has one result only, whatever the order of its
  input. Comparing the other way round is a comparison again.
\<close>

locale linear_comparator = comparator +
  assumes cmp_antisym: "cmp x y \<le> 0 \<Longrightarrow> cmp y x \<le> 0 \<Longrightarrow> x = y"
begin

lemma sorted_unique: "sorted_by xs \<Longrightarrow> sorted_by ys \<Longrightarrow> mset xs = mset ys \<Longrightarrow> xs = ys"
proof (induction xs arbitrary: ys)
  case (Cons x xs)
  then obtain y ys' where ys: "ys = y # ys'" by (cases ys) auto
  have "y \<in> set (x # xs)" "x \<in> set ys" using Cons.prems(3) ys by (metis list.set_intros(1) set_mset_mset)+
  then have "cmp x y \<le> 0" "cmp y x \<le> 0" using Cons.prems(1,2) ys cmp_refl by auto
  then have "x = y" by (rule cmp_antisym)
  with Cons ys show ?case by simp
qed simp

lemma js_sort_mset: "mset xs = mset ys \<Longrightarrow> js_sort cmp xs = js_sort cmp ys"
  by (rule sorted_unique) (simp_all add: sorted_js_sort)

lemma js_sort_set: "distinct xs \<Longrightarrow> distinct ys \<Longrightarrow> set xs = set ys \<Longrightarrow> js_sort cmp xs = js_sort cmp ys"
  by (rule js_sort_mset) (simp add: set_eq_iff_mset_eq_distinct)

end

sublocale linear_comparator \<subseteq> reversed: comparator "\<lambda>x y. cmp y x"
  by unfold_locales (use cmp_refl cmp_total in blast, use cmp_total in blast, use cmp_trans in blast)

interpretation text_order: linear_comparator js_compare
proof
  show "js_compare x x \<le> 0" for x by (simp add: js_compare_refl)
  show "js_compare x y \<le> 0 \<or> js_compare y x \<le> 0" for x y using js_compare_antisym [of x y] by linarith
  show "js_compare x y \<le> 0 \<Longrightarrow> js_compare y z \<le> 0 \<Longrightarrow> js_compare x z \<le> 0" for x y z by (rule js_compare_trans)
  show "js_compare x y \<le> 0 \<Longrightarrow> js_compare y x \<le> 0 \<Longrightarrow> x = y" for x y
    using js_compare_antisym [of x y] js_compare_eq [of x y] by linarith
qed

text \<open>Comparing the keys of two values compares the values.\<close>

lemma comparator_key: "comparator cmp \<Longrightarrow> comparator (\<lambda>x y. cmp (key x) (key y))"
  unfolding comparator_def by blast

lemma sorted_by_key:
  "comparator cmp \<Longrightarrow>
     sorted_wrt (\<lambda>x y. cmp (key x) (key y) \<le> 0) (js_sort (\<lambda>x y. cmp (key x) (key y)) xs)"
  by (rule comparator.sorted_js_sort [OF comparator_key])

text \<open>Descending numbers, \<open>(a, b) => b.count - a.count\<close>.\<close>

definition descending :: "('a \<Rightarrow> int) \<Rightarrow> 'a \<Rightarrow> 'a \<Rightarrow> int" where
  "descending f a b = f b - f a"

interpretation descending: comparator "descending f" for f
  by unfold_locales (auto simp: descending_def)

text \<open>\<open>xs.slice(0, n)\<close>: a negative end counts from the end.\<close>

definition slice_to :: "int \<Rightarrow> 'a list \<Rightarrow> 'a list" where
  "slice_to n xs = (if 0 \<le> n then take (nat n) xs else take (length xs - nat (- n)) xs)"

text \<open>What a prefix of a sorted list leaves out compares at least as high as what it keeps.\<close>

lemma sorted_take_drop:
  assumes "sorted_wrt R xs" "x \<in> set (take n xs)" "y \<in> set (drop n xs)"
  shows "R x y"
proof -
  have "sorted_wrt R (take n xs @ drop n xs)" using assms(1) by simp
  then have "\<forall>x \<in> set (take n xs). \<forall>y \<in> set (drop n xs). R x y" unfolding sorted_wrt_append by blast
  with assms(2,3) show ?thesis by blast
qed

end
