(* ===== verification/Log_History_Search.thy ===== *)
theory Log_History_Search
  imports Text_Order Json
begin

text \<open>
  \<open>LogHistoryService\<close> (apps/gateway/src/log-history/log-history.service.ts): the same query sent to
  every log-streamer, and the answers merged into one. The discovery of the hosts may throw
  (\<open>discovered\<close>); a request through the circuit breaker is a parameter that gives the data of the
  response or the exception, which \<open>Promise.allSettled\<close> turns into a rejected result.
\<close>

section \<open>Data\<close>

record LogLine =
  ll_timestamp :: "string option"
  ll_level :: "string option"
  ll_source :: "string option"
  ll_message :: string
  ll_metadata :: "string option"
  ll_node :: string
  ll_file :: string
  ll_lineNo :: int

record LogApp =
  la_name :: string
  la_node :: string

record LogSummary =
  sm_totalLines :: int
  sm_errorCount :: int
  sm_warnCount :: int
  sm_infoCount :: int
  sm_fileCount :: int

record LogSearchResult =
  sr_lines :: "LogLine list"
  sr_hasMore :: bool
  sr_summary :: LogSummary

record LogSearchInput =
  si_app :: string
  si_from :: string
  si_fromTime :: "string option"
  si_to :: string
  si_toTime :: "string option"
  si_level :: "string option"
  si_keyword :: "string option"
  si_node :: "string option"
  si_after :: "string option"
  si_limit :: "int option"

record LogAppsResponse =
  ar_apps :: "string list option"
  ar_node :: string

record LogSearchResponse =
  lr_lines :: "LogLine list option"
  lr_node :: string
  lr_hasMore :: bool

record LogStatsResponse =
  so_node :: string
  so_totalLines :: int
  so_errorCount :: int
  so_warnCount :: int
  so_infoCount :: int
  so_fileCount :: int

type_synonym query_params = "(string \<times> json option) list"

section \<open>Operations\<close>

definition discoverLogStreamerUrls :: "('e + string list) \<Rightarrow> int \<Rightarrow> 'e + string list" where
  "discoverLogStreamerUrls discovered port =
     map_sum id (map (\<lambda>ip. ''http://'' @ ip @ '':'' @ show_int port)) discovered"

definition add_app :: "string \<Rightarrow> string \<Rightarrow> (string \<times> LogApp) list \<Rightarrow> (string \<times> LogApp) list" where
  "add_app node name appMap =
     (let key = name @ ''@'' @ node in
      if map_of appMap key = None then AList.update key \<lparr>la_name = name, la_node = node\<rparr> appMap else appMap)"

definition listApps ::
  "(string \<Rightarrow> string \<Rightarrow> int) \<Rightarrow> ('e + string list) \<Rightarrow> int \<Rightarrow> (string \<Rightarrow> 'e + LogAppsResponse) \<Rightarrow>
   'e + LogApp list" where
  "listApps localeCompare discovered port fetch =
     (case discoverLogStreamerUrls discovered port of
        Inl e \<Rightarrow> Inl e
      | Inr hosts \<Rightarrow>
          (let results = map (\<lambda>host. fetch (host @ ''/api/logs/apps'')) hosts;
               appMap = fold (\<lambda>data appMap. fold (add_app (ar_node data)) (nullish_default (ar_apps data) []) appMap)
                          (fulfilled results) []
           in Inr (js_sort (\<lambda>a b. localeCompare (la_name a) (la_name b)) (map snd appMap))))"

definition search_params :: "LogSearchInput \<Rightarrow> query_params" where
  "search_params i =
     [(''app'', Some (JStr (si_app i))), (''from'', Some (JStr (si_from i))), (''to'', Some (JStr (si_to i))),
      (''level'', map_option JStr (si_level i)), (''keyword'', map_option JStr (si_keyword i)),
      (''after'', map_option JStr (si_after i)), (''limit'', Some (JNum (nullish_default (si_limit i) 100)))] @
     (if truthy (si_fromTime i) then [(''fromTime'', map_option JStr (si_fromTime i))] else []) @
     (if truthy (si_toTime i) then [(''toTime'', map_option JStr (si_toTime i))] else [])"

definition stats_params :: "LogSearchInput \<Rightarrow> query_params" where
  "stats_params i =
     [(''app'', Some (JStr (si_app i))), (''from'', Some (JStr (si_from i))), (''to'', Some (JStr (si_to i)))] @
     (if truthy (si_fromTime i) then [(''fromTime'', map_option JStr (si_fromTime i))] else []) @
     (if truthy (si_toTime i) then [(''toTime'', map_option JStr (si_toTime i))] else [])"

text \<open>\<open>if (nodeFilter && data.node !== nodeFilter) continue\<close>.\<close>

definition node_skipped :: "string option \<Rightarrow> string \<Rightarrow> bool" where
  "node_skipped nodeFilter node \<longleftrightarrow> truthy nodeFilter \<and> nodeFilter \<noteq> Some node"

definition add_stats :: "LogStatsResponse \<Rightarrow> LogSummary \<Rightarrow> LogSummary" where
  "add_stats data s =
     \<lparr>sm_totalLines = sm_totalLines s + so_totalLines data, sm_errorCount = sm_errorCount s + so_errorCount data,
      sm_warnCount = sm_warnCount s + so_warnCount data, sm_infoCount = sm_infoCount s + so_infoCount data,
      sm_fileCount = sm_fileCount s + so_fileCount data\<rparr>"

definition mergeStats :: "('e + LogStatsResponse) list \<Rightarrow> string option \<Rightarrow> LogSummary" where
  "mergeStats results nodeFilter =
     fold (\<lambda>data summary. if node_skipped nodeFilter (so_node data) then summary else add_stats data summary)
       (fulfilled results)
       \<lparr>sm_totalLines = 0, sm_errorCount = 0, sm_warnCount = 0, sm_infoCount = 0, sm_fileCount = 0\<rparr>"

text \<open>One turn of the loop over the results: the lines so far and whether there is more.\<close>

definition add_lines :: "string option \<Rightarrow> LogSearchResponse \<Rightarrow> LogLine list \<times> bool \<Rightarrow> LogLine list \<times> bool" where
  "add_lines nodeFilter data acc =
     (let (allLines, hasMore) = acc in
      if node_skipped nodeFilter (lr_node data) then acc
      else (allLines @ map (\<lambda>line. line\<lparr>ll_node := lr_node data\<rparr>) (nullish_default (lr_lines data) []),
            if lr_hasMore data then True else hasMore))"

definition search ::
  "(string \<Rightarrow> string \<Rightarrow> int) \<Rightarrow> ('e + string list) \<Rightarrow> int \<Rightarrow>
   (string \<Rightarrow> query_params \<Rightarrow> 'e + LogSearchResponse) \<Rightarrow> (string \<Rightarrow> query_params \<Rightarrow> 'e + LogStatsResponse) \<Rightarrow>
   LogSearchInput \<Rightarrow> 'e + LogSearchResult" where
  "search localeCompare discovered port fetchLines fetchStats inp =
     (case discoverLogStreamerUrls discovered port of
        Inl e \<Rightarrow> Inl e
      | Inr hosts \<Rightarrow>
          (let searchResults = map (\<lambda>host. fetchLines (host @ ''/api/logs/search'') (search_params inp)) hosts;
               statsResults = map (\<lambda>host. fetchStats (host @ ''/api/logs/stats'') (stats_params inp)) hosts;
               (lines, more) = fold (add_lines (si_node inp)) (fulfilled searchResults) ([], False);
               allLines = js_sort (\<lambda>a b. localeCompare (nullish_default (ll_timestamp a) [])
                                           (nullish_default (ll_timestamp b) [])) lines;
               limit = nullish_default (si_limit inp) 100;
               summary = mergeStats statsResults (si_node inp)
           in Inr (if limit < int (length allLines)
                   then \<lparr>sr_lines = slice_to limit allLines, sr_hasMore = True, sr_summary = summary\<rparr>
                   else \<lparr>sr_lines = allLines, sr_hasMore = more, sr_summary = summary\<rparr>)))"

end
