(* ===== verification/Gateway_App.thy ===== *)
theory Gateway_App
  imports Gateway_Proxy Log_Streamer Log_History_Search
begin

text \<open>
  The gateway as its client meets it: the variables it starts with (env.schema.ts), the fields of its
  GraphQL schema with what their decorators say (the resolvers of auth-proxy, log-streamer-proxy,
  log-history and kiosk-admin-proxy), and the way of a request through the middlewares, the guards, the
  interceptor, the resolver and the exception filter in the order app.module.ts registers them.
  The storage of the throttler, the answers of the log-streamers and the HTTP client are parameters.
\<close>

section \<open>The variables of the environment\<close>

text \<open>
  A schema says for each variable what zod makes of its text: a text as it is, a text that has to be a
  URL, or a number; the default stands for a variable that is not set. A required text has no default.
\<close>

datatype env_check = EnvString string | EnvUrl string | EnvNumber int | EnvRequired string

datatype env_value = EnvText string | EnvInt int

type_synonym env_schema = "(string \<times> env_check) list"

definition envSchema :: env_schema where
  "envSchema =
     [(''NODE_ENV'', EnvString ''development''), (''PORT'', EnvNumber 4000),
      (''API_KEYS'', EnvString ''test-api-key-1,test-api-key-2''),
      (''AUTH_SERVICE_URL'', EnvUrl ''http://localhost:4001''), (''KIOSK_ADMIN_URL'', EnvUrl ''http://localhost:4004''),
      (''GW_URL'', EnvUrl ''http://localhost:4000''), (''REDIS_HOST'', EnvString ''localhost''),
      (''REDIS_PORT'', EnvNumber 6379), (''LOG_STREAMER_URL'', EnvUrl ''http://localhost:4003''),
      (''LOG_STREAMER_WS_URL'', EnvUrl ''ws://localhost:4003/ws/logs''), (''LOG_STREAMER_PORT'', EnvNumber 4003)]"

definition auth_envSchema :: env_schema where
  "auth_envSchema =
     [(''NODE_ENV'', EnvString ''development''), (''AUTH_HTTP_PORT'', EnvNumber 4001),
      (''DB_HOST'', EnvRequired ''DB_HOST is required''), (''DB_PORT'', EnvNumber 3306),
      (''DB_USERNAME'', EnvRequired ''DB_USERNAME is required''), (''DB_PASSWORD'', EnvRequired ''DB_PASSWORD is required''),
      (''DB_DATABASE'', EnvRequired ''DB_DATABASE is required''),
      (''JWT_PUBLIC_KEY_PATH'', EnvRequired ''JWT_PUBLIC_KEY_PATH is required''),
      (''JWT_PRIVATE_KEY_PATH'', EnvRequired ''JWT_PRIVATE_KEY_PATH is required'')]"

text \<open>
  What is relied on of zod, whose \<open>parse\<close> is a parameter: a value for each variable of the schema, or the
  variables refused. \<open>url_ok\<close> is its check for URLs, \<open>to_number\<close> is \<open>Number\<close> with \<open>None\<close> for \<open>NaN\<close>.
\<close>

type_synonym env_parser = "env_schema \<Rightarrow> (string \<rightharpoonup> string) \<Rightarrow> string list + (string \<times> env_value) list"

definition env_read ::
  "(string \<Rightarrow> bool) \<Rightarrow> (string \<Rightarrow> int option) \<Rightarrow> env_check \<Rightarrow> string option \<Rightarrow> env_value option" where
  "env_read url_ok to_number c v =
     (case c of
        EnvString d \<Rightarrow> Some (EnvText (nullish_default v d))
      | EnvUrl d \<Rightarrow> (case v of None \<Rightarrow> Some (EnvText d) | Some t \<Rightarrow> if url_ok t then Some (EnvText t) else None)
      | EnvNumber d \<Rightarrow> (case v of None \<Rightarrow> Some (EnvInt d) | Some t \<Rightarrow> map_option EnvInt (to_number t))
      | EnvRequired message \<Rightarrow> (case v of Some (c # t) \<Rightarrow> Some (EnvText (c # t)) | _ \<Rightarrow> None))"

definition env_parse ::
  "(string \<Rightarrow> bool) \<Rightarrow> (string \<Rightarrow> int option) \<Rightarrow> env_schema \<Rightarrow> (string \<rightharpoonup> string) \<Rightarrow>
   string list + (string \<times> env_value) list" where
  "env_parse url_ok to_number schema vars =
     (let refused = map fst (filter (\<lambda>(k, c). env_read url_ok to_number c (vars k) = None) schema) in
      if refused \<noteq> [] then Inl refused
      else Inr (map (\<lambda>(k, c). (k, the (env_read url_ok to_number c (vars k)))) schema))"

definition env_contract :: "(string \<Rightarrow> bool) \<Rightarrow> (string \<Rightarrow> int option) \<Rightarrow> env_parser \<Rightarrow> bool" where
  "env_contract url_ok to_number parse \<longleftrightarrow> (\<forall>schema vars. parse schema vars = env_parse url_ok to_number schema vars)"

text \<open>\<open>ConfigModule\<close>'s \<open>validate\<close> in both services: a variable that is refused stops the start.\<close>

definition validate :: "env_parser \<Rightarrow> env_schema \<Rightarrow> (string \<rightharpoonup> string) \<Rightarrow> string list + (string \<times> env_value) list" where
  "validate parse schema vars = parse schema vars"

definition env_text :: "(string \<times> env_value) list \<Rightarrow> string \<Rightarrow> string option" where
  "env_text config k = (case map_of config k of Some (EnvText t) \<Rightarrow> Some t | _ \<Rightarrow> None)"

text \<open>The port the auth server listens on is read from the process, not from what the schema made of it.\<close>

definition auth_port :: "(string \<rightharpoonup> string) \<Rightarrow> string" where
  "auth_port vars = nullish_default (nullish (vars ''AUTH_HTTP_PORT'') (vars ''AUTH_PORT'')) ''4001''"

text \<open>\<open>ApiKeyGuard\<close>'s constructor: \<open>getOrThrow('API_KEYS')\<close> and the split.\<close>

definition configured_keys :: "(string \<times> env_value) list \<Rightarrow> string list option" where
  "configured_keys config = map_option valid_api_keys (env_text config ''API_KEYS'')"

section \<open>The fields of the schema\<close>

datatype CurrencyCode =
  CNY | JPY | USD | TWD | VND | EUR | HKD | PHP | SGD | THB | CAD | GBP | MYR | IDR | AUD | KRW

fun currency_value :: "CurrencyCode \<Rightarrow> string" where
  "currency_value CNY = ''CNY''" | "currency_value JPY = ''JPY''" | "currency_value USD = ''USD''"
| "currency_value TWD = ''TWD''" | "currency_value VND = ''VND''" | "currency_value EUR = ''EUR''"
| "currency_value HKD = ''HKD''" | "currency_value PHP = ''PHP''" | "currency_value SGD = ''SGD''"
| "currency_value THB = ''THB''" | "currency_value CAD = ''CAD''" | "currency_value GBP = ''GBP''"
| "currency_value MYR = ''MYR''" | "currency_value IDR = ''IDR''" | "currency_value AUD = ''AUD''"
| "currency_value KRW = ''KRW''"

datatype gql_field =
  LoginField string string | VerifyTwoFactorField string | RefreshTokenField string
| ChangePasswordField string string
| ContainersField | ContainerStatsField "string list" | ContainerLogField string | ServiceLogField string
| LogAppsField | LogSearchField LogSearchInput
| ReleaseCurrencyTerminalsField CurrencyCode

text \<open>Type and name of a field, and whether its resolver has \<open>@Public()\<close>.\<close>

fun field_name :: "gql_field \<Rightarrow> string \<times> string" where
  "field_name (LoginField l p) = (''Mutation'', ''login'')"
| "field_name (VerifyTwoFactorField c) = (''Mutation'', ''verifyTwoFactor'')"
| "field_name (RefreshTokenField t) = (''Mutation'', ''refreshToken'')"
| "field_name (ChangePasswordField c n) = (''Mutation'', ''changePassword'')"
| "field_name ContainersField = (''Query'', ''containers'')"
| "field_name (ContainerStatsField ids) = (''Query'', ''containerStats'')"
| "field_name (ContainerLogField i) = (''Subscription'', ''containerLog'')"
| "field_name (ServiceLogField n) = (''Subscription'', ''serviceLog'')"
| "field_name LogAppsField = (''Query'', ''logApps'')"
| "field_name (LogSearchField i) = (''Query'', ''logSearch'')"
| "field_name (ReleaseCurrencyTerminalsField c) = (''Query'', ''getReleaseCurrencyTerminals'')"

fun is_public :: "gql_field \<Rightarrow> bool" where
  "is_public (LoginField l p) = True"
| "is_public (VerifyTwoFactorField c) = True"
| "is_public (RefreshTokenField t) = True"
| "is_public (ChangePasswordField c n) = True"
| "is_public (ContainerLogField i) = True"
| "is_public (ServiceLogField n) = True"
| "is_public _ = False"

text \<open>What a field gives: an iterator is the name of its topic with the number of its subscription.\<close>

datatype ('c, 'n) gql_data =
  AuthData json | SuccessData "json option" | ContainersData "'c list" | StatsData "'n ContainerStats list"
| IteratorData "string \<times> nat" | AppsData "LogApp list" | SearchData LogSearchResult | TerminalsData json

section \<open>The application\<close>

text \<open>
  \<open>ga_increment\<close> is the storage of the throttler: it counts a hit of a tracker on a handler, with the
  window and the limit, under a throttler's name. \<open>ga_throttled\<close> is the exception of a refusal.
\<close>

record ('s, 'c, 'n, 't) gateway_app =
  ga_gateway :: "'s gateway"
  ga_keys :: "string list"
  ga_increment :: "string \<times> string \<Rightarrow> string \<Rightarrow> int \<Rightarrow> int \<Rightarrow> string \<Rightarrow> 't \<Rightarrow> throttle_hit \<times> 't"
  ga_throttled :: gw_exn
  ga_headerPrefix :: string
  ga_port :: int
  ga_discovered :: "gw_exn + string list"
  ga_containers :: "string \<Rightarrow> gw_exn + 'c list"
  ga_stats :: "string \<Rightarrow> gw_exn + 'n ContainerStats list"
  ga_apps :: "string \<Rightarrow> gw_exn + LogAppsResponse"
  ga_lines :: "string \<Rightarrow> query_params \<Rightarrow> gw_exn + LogSearchResponse"
  ga_logStats :: "string \<Rightarrow> query_params \<Rightarrow> gw_exn + LogStatsResponse"
  ga_localeCompare :: "string \<Rightarrow> string \<Rightarrow> int"

text \<open>
  \<open>gs_log\<close> has the lines of the logging interceptor and of the exception filter, each with its level. The HTTP
  client (\<open>response_line\<close> and \<open>failure_line\<close> below) and the access log write with loggers of their own.
\<close>

record ('s, 't) gateway_state =
  gs_throttle :: 't
  gs_breakers :: breakers
  gs_upstream :: 's
  gs_streamer :: streamer
  gs_log :: "(string \<times> string) list"

text \<open>Operations of the proxies, of the subscriptions, and of the queries to the hosts, on this state.\<close>

definition on_upstream ::
  "('a \<Rightarrow> ('c, 'n) gql_data) \<Rightarrow> (gw_exn, breakers \<times> 's, 'a) eff \<Rightarrow> (gw_exn, ('s, 't) gateway_state, ('c, 'n) gql_data) eff" where
  "on_upstream f m = (\<lambda>s. case m (gs_breakers s, gs_upstream s) of
     (r, brs, u) \<Rightarrow> (map_sum id f r, s\<lparr>gs_breakers := brs, gs_upstream := u\<rparr>))"

definition on_streamer ::
  "(streamer \<Rightarrow> (string \<times> nat) \<times> streamer) \<Rightarrow> (gw_exn, ('s, 't) gateway_state, ('c, 'n) gql_data) eff" where
  "on_streamer f = (\<lambda>s. case f (gs_streamer s) of (it, st) \<Rightarrow> (Inr (IteratorData it), s\<lparr>gs_streamer := st\<rparr>))"

text \<open>
  The queries to the hosts go through the breaker of a domain. What firing it for one host settles with is a
  parameter; which breakers there are afterwards is not: the first host makes that of the domain, if there
  was none.
\<close>

definition fire_each :: "json_parser \<Rightarrow> string \<Rightarrow> gw_exn + string list \<Rightarrow> breakers \<Rightarrow> breakers" where
  "fire_each parse domain discovered brs =
     (case discovered of
        Inl e \<Rightarrow> brs
      | Inr hosts \<Rightarrow> fold (\<lambda>host brs. snd (getBreaker parse domain brs)) hosts brs)"

definition from_hosts ::
  "('s, 'c, 'n, 't) gateway_app \<Rightarrow> string \<Rightarrow> ('a \<Rightarrow> ('c, 'n) gql_data) \<Rightarrow> gw_exn + 'a \<Rightarrow>
   (gw_exn, ('s, 't) gateway_state, ('c, 'n) gql_data) eff" where
  "from_hosts app domain f r = (\<lambda>s.
     (map_sum id f r, s\<lparr>gs_breakers := fire_each (gw_parse (ga_gateway app)) domain (ga_discovered app) (gs_breakers s)\<rparr>))"

text \<open>The resolvers of the log-streamers, of the log history and of the kiosk data; those of the auth proxy are in Gateway_Proxy.\<close>

definition resolver_containers ::
  "('s, 'c, 'n, 't) gateway_app \<Rightarrow> (gw_exn, ('s, 't) gateway_state, ('c, 'n) gql_data) eff" where
  "resolver_containers app =
     from_hosts app ''log-streamer'' ContainersData (listContainers (ga_discovered app) (ga_port app) (ga_containers app))"

definition resolver_containerStats ::
  "('s, 'c, 'n, 't) gateway_app \<Rightarrow> string list \<Rightarrow> (gw_exn, ('s, 't) gateway_state, ('c, 'n) gql_data) eff" where
  "resolver_containerStats app containerIds =
     (if containerIds = [] then ret (StatsData [])
      else from_hosts app ''log-streamer'' StatsData (getContainerStats (ga_discovered app) (ga_port app) (ga_stats app) containerIds))"

definition resolver_containerLog :: "string \<Rightarrow> (gw_exn, ('s, 't) gateway_state, ('c, 'n) gql_data) eff" where
  "resolver_containerLog containerId = on_streamer (subscribeToLogs containerId)"

definition resolver_serviceLog :: "string \<Rightarrow> (gw_exn, ('s, 't) gateway_state, ('c, 'n) gql_data) eff" where
  "resolver_serviceLog serviceName = on_streamer (subscribeToServiceLogs serviceName)"

definition resolver_logApps ::
  "('s, 'c, 'n, 't) gateway_app \<Rightarrow> (gw_exn, ('s, 't) gateway_state, ('c, 'n) gql_data) eff" where
  "resolver_logApps app =
     from_hosts app ''log-history'' AppsData (listApps (ga_localeCompare app) (ga_discovered app) (ga_port app) (ga_apps app))"

definition resolver_logSearch ::
  "('s, 'c, 'n, 't) gateway_app \<Rightarrow> LogSearchInput \<Rightarrow> (gw_exn, ('s, 't) gateway_state, ('c, 'n) gql_data) eff" where
  "resolver_logSearch app input =
     from_hosts app ''log-history'' SearchData
       (search (ga_localeCompare app) (ga_discovered app) (ga_port app) (ga_lines app) (ga_logStats app) input)"

definition resolver_getReleaseCurrencyTerminals ::
  "('s, 'c, 'n, 't) gateway_app \<Rightarrow> CurrencyCode \<Rightarrow> (gw_exn, ('s, 't) gateway_state, ('c, 'n) gql_data) eff" where
  "resolver_getReleaseCurrencyTerminals app currencyCode =
     on_upstream TerminalsData (getReleaseCurrencyTerminals (ga_gateway app) (currency_value currencyCode))"

fun resolve ::
  "('s, 'c, 'n, 't) gateway_app \<Rightarrow> gql_request \<Rightarrow> gql_field \<Rightarrow>
   (gw_exn, ('s, 't) gateway_state, ('c, 'n) gql_data) eff" where
  "resolve app req (LoginField l p) = on_upstream AuthData (resolver_login (ga_gateway app) req l p)"
| "resolve app req (VerifyTwoFactorField c) = on_upstream AuthData (resolver_verifyTwoFactor (ga_gateway app) req c)"
| "resolve app req (RefreshTokenField t) = on_upstream AuthData (resolver_refreshToken (ga_gateway app) t)"
| "resolve app req (ChangePasswordField c n) = on_upstream SuccessData (resolver_changePassword (ga_gateway app) req c n)"
| "resolve app req ContainersField = resolver_containers app"
| "resolve app req (ContainerStatsField ids) = resolver_containerStats app ids"
| "resolve app req (ContainerLogField i) = resolver_containerLog i"
| "resolve app req (ServiceLogField n) = resolver_serviceLog n"
| "resolve app req LogAppsField = resolver_logApps app"
| "resolve app req (LogSearchField i) = resolver_logSearch app i"
| "resolve app req (ReleaseCurrencyTerminalsField c) = resolver_getReleaseCurrencyTerminals app c"

lemmas resolver_defs =
  resolver_containers_def resolver_containerStats_def resolver_containerLog_def resolver_serviceLog_def
  resolver_logApps_def resolver_logSearch_def resolver_getReleaseCurrencyTerminals_def

text \<open>
  The context a resolver and the guards see: the factory of \<open>GraphQLModule\<close>. A subscription's connection
  has no reply.
\<close>

record gql_context =
  gc_req :: gql_request
  gc_reply :: bool

definition graphql_context :: "gql_request option \<Rightarrow> gql_request \<Rightarrow> gql_context" where
  "graphql_context connection request =
     (case connection of
        Some c \<Rightarrow> \<lparr>gc_req = c, gc_reply = False\<rparr>
      | None \<Rightarrow> \<lparr>gc_req = request, gc_reply = True\<rparr>)"

definition THROTTLE_TTL :: int where "THROTTLE_TTL = 60000"
definition THROTTLE_LIMIT :: int where "THROTTLE_LIMIT = 100"

text \<open>The first guard: its answer, the headers it sets, and the storage afterwards.\<close>

definition throttle_guard ::
  "('s, 'c, 'n, 't) gateway_app \<Rightarrow> gql_context \<Rightarrow> gql_field \<Rightarrow> 't \<Rightarrow> bool \<times> out_headers \<times> 't" where
  "throttle_guard app ctx fld storage =
     handleRequest None None (first_value (map_of (gr_headers (gc_req ctx)) ''user-agent'')) (Some ''default'')
       (gc_reply ctx) (ga_headerPrefix app) THROTTLE_LIMIT
       (ga_increment app (field_name fld) (getTracker (gr_ip (gc_req ctx)) None) THROTTLE_TTL THROTTLE_LIMIT) storage"

text \<open>
  A field of a request: both guards in the order of their registration, the interceptor around the
  resolver, and \<open>HttpExceptionFilter\<close>, which catches everything, around all of it.
\<close>

definition handle_field ::
  "('s, 'c, 'n, 't) gateway_app \<Rightarrow> gql_context \<Rightarrow> int \<Rightarrow> gql_field \<Rightarrow> ('s, 't) gateway_state \<Rightarrow>
   (graphql_error + ('c, 'n) gql_data) \<times> out_headers \<times> ('s, 't) gateway_state" where
  "handle_field app ctx duration fld s =
     (let filtered = http_exception_catch (gw_parse (ga_gateway app));
          (ok, hs, storage) = throttle_guard app ctx fld (gs_throttle s);
          s1 = s\<lparr>gs_throttle := storage\<rparr>
      in if \<not> ok then (Inl (filtered (ga_throttled app)), hs, s1\<lparr>gs_log := gs_log s1 @ exception_lines (ga_throttled app)\<rparr>)
         else (case api_key_canActivate (ga_keys app) (is_public fld) (gr_headers (gc_req ctx)) of
             Rejected g \<Rightarrow> (Inl (filtered (GraphQLExn g)), hs, s1\<lparr>gs_log := gs_log s1 @ exception_lines (GraphQLExn g)\<rparr>)
           | Allowed \<Rightarrow>
               (let (r, s2) = resolve app (gc_req ctx) fld s1;
                    lines = snd (intercept (GraphqlCall (fst (field_name fld)) (snd (field_name fld))) duration
                              (map_sum (\<lambda>e. nullish_default (exn_message e) ''undefined'') id r));
                    failed = (case r of Inl e \<Rightarrow> exception_lines e | Inr _ \<Rightarrow> [])
                in (map_sum filtered id r, hs, s2\<lparr>gs_log := gs_log s2 @ lines @ failed\<rparr>))))"

text \<open>
  A request over HTTP: the middlewares come first, in the order of \<open>configure\<close>, and the context of the
  request they open is what the HTTP client's interceptor reads. The result has the response headers.
\<close>

definition serve ::
  "('s, 'c, 'n, 't) gateway_app \<Rightarrow> string \<Rightarrow> gql_request \<Rightarrow> int \<Rightarrow> gql_field \<Rightarrow> ('s, 't) gateway_state \<Rightarrow>
   (graphql_error + ('c, 'n) gql_data) \<times> out_headers \<times> ('s, 't) gateway_state" where
  "serve app newId request duration fld s =
     (let (hs, response) = correlation_use newId (gr_headers request, []);
          store = request_context_use hs;
          app' = app\<lparr>ga_gateway := (ga_gateway app)\<lparr>gw_store := Some store\<rparr>\<rparr>;
          (r, throttle_headers, s') =
            handle_field app' (graphql_context None (request\<lparr>gr_headers := hs\<rparr>)) duration fld s
      in (r, response @ throttle_headers, s'))"

text \<open>What the HTTP client logs of a response and of a failure (\<open>onModuleInit\<close> of global-http.module.ts).\<close>

definition response_line :: "int \<Rightarrow> string \<Rightarrow> string" where
  "response_line status url = ''%u2190 '' @ show_int status @ '' '' @ url"

definition failure_line :: "axios_error \<Rightarrow> string" where
  "failure_line error =
     (let responseError = findAxiosErrorWithResponse error;
          status = (case ax_response responseError of None \<Rightarrow> ''ERR'' | Some r \<Rightarrow> show_int (axr_status r));
          url = nullish_default (nullish (Option.bind (ax_response responseError) axr_url)
                  (nullish (ax_url responseError) (ax_url error))) ''unknown''
      in ''%u2190 '' @ status @ '' '' @ url)"

end
