(* ===== verification/Gateway_App_Properties.thy ===== *)
theory Gateway_App_Properties
  imports Gateway_App
begin

text \<open>
  What the gateway lets through and what it answers: only a request with a configured key reaches what is
  not public, at most the limit of requests of a client on a field in a window reaches a resolver, and
  nothing of the arguments of a field that succeeds gets into the log.
\<close>

section \<open>The environment\<close>

text \<open>Every variable of the gateway has a default; of the auth server the database and the keys have none.\<close>

lemma starts_with_defaults:
  assumes "env_contract url_ok to_number parse"
  shows "\<exists>config. validate parse envSchema (\<lambda>k. None) = Inr config \<and>
    configured_keys config = Some [''test-api-key-1'', ''test-api-key-2'']"
  using assms
  by (simp add: env_contract_def validate_def env_parse_def envSchema_def env_read_def configured_keys_def env_text_def
      valid_api_keys_def set_of_list_def set_add_def nullish_default_def)

lemma refused_iff [simp]:
  "env_read url_ok to_number (EnvString d) v \<noteq> None"
  "env_read url_ok to_number (EnvUrl d) v = None \<longleftrightarrow> (\<exists>t. v = Some t \<and> \<not> url_ok t)"
  "env_read url_ok to_number (EnvNumber n) v = None \<longleftrightarrow> (\<exists>t. v = Some t \<and> to_number t = None)"
  "env_read url_ok to_number (EnvRequired m) v = None \<longleftrightarrow> \<not> truthy v"
  by (auto simp: env_read_def truthy_def split: option.split list.split)

lemma starts_iff:
  assumes "env_contract url_ok to_number parse"
  shows "(\<exists>config. validate parse schema vars = Inr config) \<longleftrightarrow>
    list_all (\<lambda>(k, c). env_read url_ok to_number c (vars k) \<noteq> None) schema"
proof -
  have "validate parse schema vars = env_parse url_ok to_number schema vars"
    using assms by (simp add: env_contract_def validate_def)
  moreover have "filter (\<lambda>(k, c). env_read url_ok to_number c (vars k) = None) schema = [] \<longleftrightarrow>
      list_all (\<lambda>(k, c). env_read url_ok to_number c (vars k) \<noteq> None) schema"
    by (simp add: filter_empty_conv list_all_iff case_prod_beta del: not_None_eq)
  ultimately show ?thesis by (simp add: env_parse_def Let_def del: not_None_eq)
qed

text \<open>The gateway starts exactly if its URLs are URLs and its numbers numbers; a text is never refused.\<close>

lemma gateway_starts_iff:
  assumes "env_contract url_ok to_number parse"
  shows "(\<exists>config. validate parse envSchema vars = Inr config) \<longleftrightarrow>
    (\<forall>k \<in> {''AUTH_SERVICE_URL'', ''KIOSK_ADMIN_URL'', ''GW_URL'', ''LOG_STREAMER_URL'', ''LOG_STREAMER_WS_URL''}.
       \<forall>t. vars k = Some t \<longrightarrow> url_ok t) \<and>
    (\<forall>k \<in> {''PORT'', ''REDIS_PORT'', ''LOG_STREAMER_PORT''}. \<forall>t. vars k = Some t \<longrightarrow> to_number t \<noteq> None)"
  unfolding starts_iff [OF assms] envSchema_def by (simp add: conj_ac del: not_None_eq, blast)

lemma auth_starts_iff:
  assumes "env_contract url_ok to_number parse"
  shows "(\<exists>config. validate parse auth_envSchema vars = Inr config) \<longleftrightarrow>
    (\<forall>k \<in> {''DB_HOST'', ''DB_USERNAME'', ''DB_PASSWORD'', ''DB_DATABASE'', ''JWT_PUBLIC_KEY_PATH'', ''JWT_PRIVATE_KEY_PATH''}.
       truthy (vars k)) \<and>
    (\<forall>k \<in> {''AUTH_HTTP_PORT'', ''DB_PORT''}. \<forall>t. vars k = Some t \<longrightarrow> to_number t \<noteq> None)"
  unfolding starts_iff [OF assms] auth_envSchema_def by (simp add: conj_ac del: not_None_eq, blast)

text \<open>The key the log viewer sends by default is none of the keys the gateway accepts by default.\<close>

lemma default_keys_differ:
  assumes "env_contract url_ok to_number parse" and "validate parse envSchema (\<lambda>k. None) = Inr config"
    and "configured_keys config = Some keys"
  shows "api_key_canActivate keys False [(''x-api-key'', One ''test-api-key'')] = Rejected (unauthenticated ''Invalid API key'')"
  using starts_with_defaults [OF assms(1)] assms(2,3) by (auto simp: api_key_canActivate_def)

section \<open>The guards\<close>

lemma public_fields: "is_public fld \<longleftrightarrow> fst (field_name fld) \<noteq> ''Query''"
  by (cases fld) simp_all

definition key_valid :: "string list \<Rightarrow> headers \<Rightarrow> bool" where
  "key_valid keys hs \<longleftrightarrow> (\<exists>k. map_of hs ''x-api-key'' = Some (One k) \<and> k \<noteq> [] \<and> k \<in> set keys)"

lemma api_key_guard_iff: "api_key_canActivate keys public hs = Allowed \<longleftrightarrow> public \<or> key_valid keys hs"
  by (auto simp: api_key_canActivate_def key_valid_def split: option.splits header_value.splits)

lemma api_key_guard_refusal:
  "api_key_canActivate keys public hs = Rejected g \<Longrightarrow>
     map_of (ge_extensions g) ''code'' = Some (JStr ''UNAUTHENTICATED'') \<and> map_of (ge_extensions g) ''statusCode'' = Some (JNum 401)"
  by (auto simp: api_key_canActivate_def unauthenticated_def split: option.splits header_value.splits if_splits)

text \<open>The three ways of a field.\<close>

lemma handle_field_throttled:
  "throttle_guard app ctx fld (gs_throttle s) = (False, hs, t) \<Longrightarrow>
     handle_field app ctx d fld s =
       (Inl (http_exception_catch (gw_parse (ga_gateway app)) (ga_throttled app)), hs,
        s\<lparr>gs_throttle := t, gs_log := gs_log s @ exception_lines (ga_throttled app)\<rparr>)"
  by (simp add: handle_field_def)

lemma handle_field_refused:
  "throttle_guard app ctx fld (gs_throttle s) = (True, hs, t) \<Longrightarrow>
   api_key_canActivate (ga_keys app) (is_public fld) (gr_headers (gc_req ctx)) = Rejected g \<Longrightarrow>
     handle_field app ctx d fld s = (Inl g, hs, s\<lparr>gs_throttle := t\<rparr>)"
  by (simp add: handle_field_def http_exception_catch_def exception_lines_def)

lemma handle_field_passed:
  "throttle_guard app ctx fld (gs_throttle s) = (True, hs, t) \<Longrightarrow>
   api_key_canActivate (ga_keys app) (is_public fld) (gr_headers (gc_req ctx)) = Allowed \<Longrightarrow>
   resolve app (gc_req ctx) fld (s\<lparr>gs_throttle := t\<rparr>) = (r, s2) \<Longrightarrow>
     \<exists>lines. handle_field app ctx d fld s =
       (map_sum (http_exception_catch (gw_parse (ga_gateway app))) id r, hs, s2\<lparr>gs_log := gs_log s2 @ lines\<rparr>) \<and>
       lines = snd (intercept (GraphqlCall (fst (field_name fld)) (snd (field_name fld))) d
         (map_sum (\<lambda>e. nullish_default (exn_message e) ''undefined'') id r)) @
         (case r of Inl e \<Rightarrow> exception_lines e | Inr _ \<Rightarrow> [])"
  by (simp add: handle_field_def)

lemma passes_or_not:
  "api_key_canActivate keys public hs = Allowed \<or> (\<exists>g. api_key_canActivate keys public hs = Rejected g)"
  by (cases "api_key_canActivate keys public hs") auto

lemma resolve_frame:
  "resolve app req fld s = (r, s') \<Longrightarrow> gs_log s' = gs_log s \<and> gs_throttle s' = gs_throttle s"
  by (cases fld) (auto simp: resolver_defs on_upstream_def on_streamer_def from_hosts_def ret_def split: prod.splits if_splits)

text \<open>The queries to the hosts make one breaker at most, that of their domain.\<close>

lemma fold_getBreaker:
  "map_of (fold (\<lambda>host brs. snd (getBreaker parse domain brs)) hosts brs) k =
     (if k = domain \<and> map_of brs k = None \<and> hosts \<noteq> [] then Some (new_breaker parse domain) else map_of brs k)"
  by (induction hosts arbitrary: brs) (auto simp: getBreaker_def Let_def js_map.get_put split: option.splits)

lemma fire_each_breakers:
  "map_of (fire_each parse domain discovered brs) k =
     (if k = domain \<and> map_of brs k = None \<and> (\<exists>h hosts. discovered = Inr (h # hosts)) then Some (new_breaker parse domain)
      else map_of brs k)"
  by (auto simp: fire_each_def fold_getBreaker neq_Nil_conv split: sum.split)

lemma intercept_lines:
  "snd (intercept (GraphqlCall ty name) d r) =
     [(''log'', ''%u2192 GraphQL '' @ ty @ '' ['' @ name @ '']''),
      (case r of Inr _ \<Rightarrow> (''log'', ''%u2190 GraphQL '' @ ty @ '' ['' @ name @ ''] | '' @ show_int d @ ''ms'')
       | Inl m \<Rightarrow> (''error'', ''%u2715 GraphQL '' @ ty @ '' ['' @ name @ ''] | '' @ show_int d @ ''ms | '' @ m))]"
  by (simp add: intercept_def log_prefix_def split: sum.split)

lemma intercept_two: "length (snd (intercept c d r)) = 2"
  by (simp add: intercept_def split: prod.split)

text \<open>C31: only requests with a configured key reach what is not public. What the throttler or the key guard
  stops is answered with an error (a missing or unknown key with \<open>UNAUTHENTICATED\<close> and 401) and touches
  the throttler's storage only: no call to a server, no breaker, no subscription, and no line of the logging
  interceptor; the filter logs the exception of the throttler, and nothing of a refused key. Everything
  else is answered with what the resolver gives, its exceptions filtered; the interceptor logs exactly two
  lines of it, and the filter those of the exception, if there is one. The fields open to everyone are the
  mutations and the subscriptions.\<close>

theorem only_keyed_requests_pass:
  assumes "handle_field app ctx d fld s = (r, hs, s')"
  defines "guard \<equiv> throttle_guard app ctx fld (gs_throttle s)"
  defines "passes \<equiv> fst guard \<and> (fst (field_name fld) \<noteq> ''Query'' \<or> key_valid (ga_keys app) (gr_headers (gc_req ctx)))"
  shows "gs_throttle s' = snd (snd guard) \<and> hs = fst (snd guard) \<and>
    (\<not> passes \<longrightarrow> gs_upstream s' = gs_upstream s \<and> gs_breakers s' = gs_breakers s \<and> gs_streamer s' = gs_streamer s \<and>
       gs_log s' = gs_log s @ (if fst guard then [] else exception_lines (ga_throttled app)) \<and>
       (\<exists>g. r = Inl g \<and> (fst guard \<longrightarrow> map_of (ge_extensions g) ''code'' = Some (JStr ''UNAUTHENTICATED'') \<and>
          map_of (ge_extensions g) ''statusCode'' = Some (JNum 401)))) \<and>
    (passes \<longrightarrow> (\<exists>q s2. resolve app (gc_req ctx) fld (s\<lparr>gs_throttle := gs_throttle s'\<rparr>) = (q, s2) \<and>
       r = map_sum (http_exception_catch (gw_parse (ga_gateway app))) id q \<and>
       (\<exists>lines. length lines = 2 \<and>
          s' = s2\<lparr>gs_log := gs_log s @ lines @ (case q of Inl e \<Rightarrow> exception_lines e | Inr _ \<Rightarrow> [])\<rparr>)))"
proof -
  obtain ok h t where g: "guard = (ok, h, t)" by (cases guard)
  note g' = g [unfolded guard_def]
  have pub: "is_public fld \<longleftrightarrow> fst (field_name fld) \<noteq> ''Query''" by (rule public_fields)
  show ?thesis
  proof (cases ok)
    case False
    with g' assms(1) handle_field_throttled [of app ctx fld s h t d] show ?thesis
      by (auto simp: passes_def guard_def)
  next
    case True
    with g' have t: "throttle_guard app ctx fld (gs_throttle s) = (True, h, t)" by simp
    consider (allowed) "api_key_canActivate (ga_keys app) (is_public fld) (gr_headers (gc_req ctx)) = Allowed"
      | (refused) g where "api_key_canActivate (ga_keys app) (is_public fld) (gr_headers (gc_req ctx)) = Rejected g"
      using passes_or_not by blast
    then show ?thesis
    proof cases
      case allowed
      then have passes: "passes" using g' True pub by (simp add: passes_def guard_def api_key_guard_iff)
      obtain q s2 where q: "resolve app (gc_req ctx) fld (s\<lparr>gs_throttle := t\<rparr>) = (q, s2)" by fastforce
      let ?lines = "snd (intercept (GraphqlCall (fst (field_name fld)) (snd (field_name fld))) d
         (map_sum (\<lambda>e. nullish_default (exn_message e) ''undefined'') id q))"
      have "length ?lines = 2" by (rule intercept_two)
      with handle_field_passed [OF t allowed q, of d] resolve_frame [OF q] assms(1) q passes t show ?thesis
        by (auto simp: guard_def intro!: exI [of _ ?lines])
    next
      case refused
      then have "\<not> passes" using pub api_key_guard_iff [of "ga_keys app" "is_public fld" "gr_headers (gc_req ctx)"]
        by (auto simp: passes_def)
      with handle_field_refused [OF t refused, of d] assms(1) t api_key_guard_refusal [OF refused] show ?thesis
        by (auto simp: guard_def)
    qed
  qed
qed

text \<open>An application whose throttler counts to the limit and whose servers are never asked.\<close>

definition demo_increment :: "string \<times> string \<Rightarrow> string \<Rightarrow> int \<Rightarrow> int \<Rightarrow> string \<Rightarrow>
    (((string \<times> string) \<times> string) \<Rightarrow> nat) \<Rightarrow> throttle_hit \<times> (((string \<times> string) \<times> string) \<Rightarrow> nat)" where
  "demo_increment handler tracker ttl limit name hits =
     (let n = (if int (hits (handler, tracker)) \<le> limit then hits (handler, tracker) + 1 else hits (handler, tracker)) in
      (\<lparr>th_totalHits = int n, th_timeToExpire = 60, th_isBlocked = int n > limit, th_timeToBlockExpire = 60\<rparr>,
       hits((handler, tracker) := n)))"

definition demo_gateway_app :: "(nat, unit, int, ((string \<times> string) \<times> string) \<Rightarrow> nat) gateway_app" where
  "demo_gateway_app =
     \<lparr>ga_gateway = \<lparr>gw_parse = (\<lambda>t. None), gw_url_parse = (\<lambda>t. None), gw_http = (\<lambda>rq n. (Inr None, n + 1)),
        gw_fire = (\<lambda>b a. a), gw_store = None, gw_authBaseUrl = ''http://auth'', gw_kioskAdminUrl = ''http://kiosk''\<rparr>,
      ga_keys = [''k1''], ga_increment = demo_increment,
      ga_throttled = http_exception 429 ''ThrottlerException: Too Many Requests'', ga_headerPrefix = ''X-RateLimit'',
      ga_port = 4003, ga_discovered = Inr [], ga_containers = (\<lambda>u. Inr []), ga_stats = (\<lambda>u. Inr []),
      ga_apps = (\<lambda>u. Inr \<lparr>ar_apps = None, ar_node = []\<rparr>), ga_lines = (\<lambda>u q. Inl OtherExn), ga_logStats = (\<lambda>u q. Inl OtherExn),
      ga_localeCompare = (\<lambda>a b. 0)\<rparr>"

definition demo_gateway_state :: "(nat, ((string \<times> string) \<times> string) \<Rightarrow> nat) gateway_state" where
  "demo_gateway_state = \<lparr>gs_throttle = (\<lambda>k. 0), gs_breakers = [], gs_upstream = 0, gs_streamer = init_streamer 4003, gs_log = []\<rparr>"

definition demo_query :: "headers \<Rightarrow> gql_context" where
  "demo_query hs = \<lparr>gc_req = \<lparr>gr_headers = hs, gr_ip = Some ''10.0.0.9''\<rparr>, gc_reply = True\<rparr>"

lemma only_keyed_requests_pass_witness:
  "let (r, hs, s') = handle_field demo_gateway_app (demo_query [(''x-api-key'', One ''k2'')]) 5
      (ReleaseCurrencyTerminalsField USD) demo_gateway_state
   in gs_upstream s' = 0 \<and> gs_log s' = [] \<and> (\<exists>g. r = Inl g)"
proof -
  obtain r hs s' where h: "handle_field demo_gateway_app (demo_query [(''x-api-key'', One ''k2'')]) 5
      (ReleaseCurrencyTerminalsField USD) demo_gateway_state = (r, hs, s')" by (metis prod_cases3)
  have "\<not> key_valid (ga_keys demo_gateway_app) (gr_headers (gc_req (demo_query [(''x-api-key'', One ''k2'')])))"
    by (simp add: key_valid_def demo_gateway_app_def demo_query_def)
  moreover have "fst (throttle_guard demo_gateway_app (demo_query [(''x-api-key'', One ''k2'')]) (ReleaseCurrencyTerminalsField USD)
      (gs_throttle demo_gateway_state))"
    by (simp add: throttle_guard_def handleRequest_def user_agent_ignored_def demo_gateway_app_def demo_gateway_state_def
        demo_query_def demo_increment_def THROTTLE_LIMIT_def Let_def)
  ultimately show ?thesis
    using only_keyed_requests_pass [OF h] unfolding h by (auto simp: demo_gateway_state_def)
qed


section \<open>The limit\<close>

text \<open>
  What is relied on of the throttler's storage within one window, in which no hit and no block expires: a
  client of a handler that is not blocked gets a hit counted, the first hit beyond the limit blocks it, and
  while it is blocked no hit is counted.
\<close>

definition window_storage ::
  "('s, 'c, 'n, 't) gateway_app \<Rightarrow> ('t \<Rightarrow> (string \<times> string) \<times> string \<Rightarrow> nat) \<Rightarrow> bool" where
  "window_storage app hits \<longleftrightarrow>
     (\<forall>handler tracker storage.
        let (hit, storage') = ga_increment app handler tracker THROTTLE_TTL THROTTLE_LIMIT ''default'' storage;
            n = hits storage (handler, tracker);
            n' = (if int n \<le> THROTTLE_LIMIT then n + 1 else n) in
          hits storage' = (hits storage)((handler, tracker) := n') \<and> th_totalHits hit = int n' \<and>
          (th_isBlocked hit \<longleftrightarrow> THROTTLE_LIMIT < int n'))"

definition client_key :: "gql_context \<Rightarrow> gql_field \<Rightarrow> (string \<times> string) \<times> string" where
  "client_key ctx fld = (field_name fld, getTracker (gr_ip (gc_req ctx)) None)"

text \<open>A run of requests, and those of them that reached a resolver, which is to say that the interceptor logged.\<close>

fun handle_all ::
  "('s, 'c, 'n, 't) gateway_app \<Rightarrow> (gql_context \<times> int \<times> gql_field) list \<Rightarrow> ('s, 't) gateway_state \<Rightarrow> ('s, 't) gateway_state" where
  "handle_all app [] s = s"
| "handle_all app ((ctx, d, fld) # rs) s = handle_all app rs (snd (snd (handle_field app ctx d fld s)))"

fun reached ::
  "('s, 'c, 'n, 't) gateway_app \<Rightarrow> (gql_context \<times> int \<times> gql_field) list \<Rightarrow> ('s, 't) gateway_state \<Rightarrow>
   (gql_context \<times> gql_field) list" where
  "reached app [] s = []"
| "reached app ((ctx, d, fld) # rs) s =
     (let s' = snd (snd (handle_field app ctx d fld s)) in
      (if ''log'' \<in> fst ` set (drop (length (gs_log s)) (gs_log s')) then [(ctx, fld)] else []) @ reached app rs s')"

lemma throttle_guard_window:
  assumes "window_storage app hits"
  defines "n \<equiv> \<lambda>ctx fld storage. hits storage (client_key ctx fld)"
  shows "\<exists>hs t. throttle_guard app ctx fld storage = (int (n ctx fld storage) < THROTTLE_LIMIT, hs, t) \<and>
    hits t = (hits storage)(client_key ctx fld := (if int (n ctx fld storage) \<le> THROTTLE_LIMIT then n ctx fld storage + 1 else n ctx fld storage)) \<and>
    (int (n ctx fld storage) < THROTTLE_LIMIT \<and> gc_reply ctx \<longrightarrow>
       map_of hs (ga_headerPrefix app @ ''-Remaining'') = Some (show_int (THROTTLE_LIMIT - (1 + int (n ctx fld storage)))))"
proof -
  let ?n = "hits storage (client_key ctx fld)"
  let ?n' = "if int ?n \<le> THROTTLE_LIMIT then ?n + 1 else ?n"
  obtain hit t where i: "ga_increment app (field_name fld) (getTracker (gr_ip (gc_req ctx)) None) THROTTLE_TTL THROTTLE_LIMIT
      ''default'' storage = (hit, t)" by fastforce
  with assms(1) [unfolded window_storage_def, rule_format, of "field_name fld" "getTracker (gr_ip (gc_req ctx)) None" storage]
  have hit: "hits t = (hits storage)(client_key ctx fld := ?n')" "th_totalHits hit = int ?n'" "th_isBlocked hit \<longleftrightarrow> THROTTLE_LIMIT < int ?n'"
    by (simp_all add: client_key_def Let_def)
  have "th_isBlocked hit \<longleftrightarrow> \<not> int ?n < THROTTLE_LIMIT" "int ?n < THROTTLE_LIMIT \<Longrightarrow> th_totalHits hit = 1 + int ?n"
    using hit(2,3) by (auto split: if_splits)
  with i hit(1) show ?thesis unfolding n_def
    by (auto simp: throttle_guard_def handleRequest_def Let_def user_agent_ignored_def nullish_default_def throttler_suffix_def)
qed

lemma handle_field_storage:
  "gs_throttle (snd (snd (handle_field app ctx d fld s))) = snd (snd (throttle_guard app ctx fld (gs_throttle s)))"
proof -
  obtain r hs s' where h: "handle_field app ctx d fld s = (r, hs, s')" by (metis prod_cases3)
  obtain ok h t where g: "throttle_guard app ctx fld (gs_throttle s) = (ok, h, t)" by (metis prod_cases3)
  show ?thesis
    using h g resolve_frame
    by (fastforce simp: handle_field_def Let_def split: guard_result.splits prod.splits if_splits)
qed

lemma handle_field_log:
  assumes "''log'' \<in> fst ` set (drop (length (gs_log s)) (gs_log (snd (snd (handle_field app ctx d fld s)))))"
  shows "fst (throttle_guard app ctx fld (gs_throttle s))"
proof (rule ccontr)
  assume "\<not> fst (throttle_guard app ctx fld (gs_throttle s))"
  then obtain hs t where "throttle_guard app ctx fld (gs_throttle s) = (False, hs, t)"
    by (cases "throttle_guard app ctx fld (gs_throttle s)") auto
  from handle_field_throttled [OF this, of d] assms exception_lines_level [of "ga_throttled app"] show False
    by (auto simp: list_all_iff)
qed

text \<open>The count of a client is the number of its requests, up to the one that blocks it.\<close>

lemma reached_bounded:
  assumes "window_storage app hits" and "int (hits (gs_throttle s) k) \<le> THROTTLE_LIMIT + 1"
  shows "int (hits (gs_throttle (handle_all app rs s)) k) =
      min (THROTTLE_LIMIT + 1) (int (hits (gs_throttle s) k + length (filter (\<lambda>(ctx, d, fld). client_key ctx fld = k) rs))) \<and>
    int (hits (gs_throttle s) k + length (filter (\<lambda>(ctx, fld). client_key ctx fld = k) (reached app rs s)))
      \<le> max THROTTLE_LIMIT (int (hits (gs_throttle s) k))"
  using assms(2)
proof (induction rs arbitrary: s)
  case Nil
  then show ?case by simp
next
  case (Cons x rs)
  obtain ctx d fld where x: "x = (ctx, d, fld)" by (cases x)
  let ?s' = "snd (snd (handle_field app ctx d fld s))"
  let ?n = "hits (gs_throttle s) (client_key ctx fld)"
  obtain hs t where g: "throttle_guard app ctx fld (gs_throttle s) = (int ?n < THROTTLE_LIMIT, hs, t)"
    and t: "hits t = (hits (gs_throttle s))(client_key ctx fld := (if int ?n \<le> THROTTLE_LIMIT then ?n + 1 else ?n))"
    using throttle_guard_window [OF assms(1)] by meson
  have s': "gs_throttle ?s' = t" by (simp add: handle_field_storage g)
  have log: "int ?n < THROTTLE_LIMIT" if "''log'' \<in> fst ` set (drop (length (gs_log s)) (gs_log ?s'))"
    using handle_field_log [OF that] by (simp add: g)
  have bound: "int (hits (gs_throttle ?s') k) \<le> THROTTLE_LIMIT + 1"
    using Cons.prems by (auto simp: s' t)
  show ?case
  proof (cases "client_key ctx fld = k")
    case False
    then have "hits (gs_throttle ?s') k = hits (gs_throttle s) k" by (simp add: s' t)
    with Cons.IH [OF bound] False show ?thesis by (auto simp: x Let_def)
  next
    case True
    then have "hits (gs_throttle ?s') k = (if int (hits (gs_throttle s) k) \<le> THROTTLE_LIMIT then hits (gs_throttle s) k + 1 else hits (gs_throttle s) k)"
      by (simp add: s' t)
    with Cons.IH [OF bound] Cons.prems log True show ?thesis
      by (cases "''log'' \<in> fst ` set (drop (length (gs_log s)) (gs_log ?s'))")
        (auto simp: x Let_def min_def max_def simp del: drop_append split: if_splits)
  qed
qed

text \<open>C24: the limit holds. Within one window of the throttler's storage at most 100 requests of one client on
  one field reach the resolver, however its requests mix with those of others, on whatever fields and
  with whatever keys. The requests of the client are counted, whether or not their key is accepted, up to
  the one that blocks it: the throttler lets the next one through exactly if there have been fewer than
  a hundred, and a client that has the reply's headers is told how many are left.\<close>

theorem request_limit:
  fixes rs :: "(gql_context \<times> int \<times> gql_field) list"
  assumes "window_storage app hits" and "hits (gs_throttle s) k = 0"
  defines "made \<equiv> int (length (filter (\<lambda>(ctx, d, fld). client_key ctx fld = k) rs))"
  shows "int (length (filter (\<lambda>(ctx, fld). client_key ctx fld = k) (reached app rs s))) \<le> THROTTLE_LIMIT \<and>
    int (hits (gs_throttle (handle_all app rs s)) k) = min (THROTTLE_LIMIT + 1) made \<and>
    (\<forall>ctx d fld. client_key ctx fld = k \<longrightarrow>
       fst (throttle_guard app ctx fld (gs_throttle (handle_all app rs s))) = (made < THROTTLE_LIMIT) \<and>
       (gc_reply ctx \<and> made < THROTTLE_LIMIT \<longrightarrow>
          map_of (fst (snd (handle_field app ctx d fld (handle_all app rs s)))) (ga_headerPrefix app @ ''-Remaining'') =
            Some (show_int (THROTTLE_LIMIT - (1 + made)))))"
proof -
  have "int (hits (gs_throttle s) k) \<le> THROTTLE_LIMIT + 1" using assms(2) by (simp add: THROTTLE_LIMIT_def)
  note b = reached_bounded [OF assms(1) this, of rs]
  let ?u = "handle_all app rs s"
  have count: "int (hits (gs_throttle ?u) k) = min (THROTTLE_LIMIT + 1) made"
    using b assms(2) by (simp add: made_def)
  have headers: "fst (snd (handle_field app ctx d fld u)) = fst (snd (throttle_guard app ctx fld (gs_throttle u)))" for ctx d fld u
    by (auto simp: handle_field_def Let_def split: guard_result.splits prod.splits)
  have "fst (throttle_guard app ctx fld (gs_throttle ?u)) = (made < THROTTLE_LIMIT) \<and>
      (gc_reply ctx \<and> made < THROTTLE_LIMIT \<longrightarrow>
         map_of (fst (snd (handle_field app ctx d fld ?u))) (ga_headerPrefix app @ ''-Remaining'') =
           Some (show_int (THROTTLE_LIMIT - (1 + made))))" if "client_key ctx fld = k" for ctx d fld
    using throttle_guard_window [OF assms(1), of ctx fld "gs_throttle ?u"] that count
    by (auto simp: headers)
  with b assms(2) count show ?thesis by (simp add: THROTTLE_LIMIT_def)
qed

lemma request_limit_witness:
  "int (length (filter (\<lambda>(ctx, fld). client_key ctx fld = ((''Query'', ''containers''), ''10.0.0.9''))
     (reached demo_gateway_app (replicate 200 (demo_query [(''x-api-key'', One ''k1'')], 3, ContainersField)) demo_gateway_state)))
   \<le> THROTTLE_LIMIT"
proof -
  have "window_storage demo_gateway_app (\<lambda>hits. hits)"
    by (simp add: window_storage_def demo_gateway_app_def demo_increment_def Let_def)
  moreover have "gs_throttle demo_gateway_state ((''Query'', ''containers''), ''10.0.0.9'') = 0"
    by (simp add: demo_gateway_state_def)
  ultimately show ?thesis using request_limit by blast
qed

section \<open>The log\<close>

text \<open>
  What a successful field logs says nothing of its arguments: two calls of the same field log the same
  lines but for the time they took.
\<close>

lemma log_hides_arguments:
  assumes "handle_field app ctx d fld s = (Inr x, hs, s')"
  shows "gs_log s' = gs_log s @
    (let name = ''GraphQL '' @ fst (field_name fld) @ '' ['' @ snd (field_name fld) @ '']'' in
     [(''log'', ''%u2192 '' @ name), (''log'', ''%u2190 '' @ name @ '' | '' @ show_int d @ ''ms'')])"
proof -
  obtain ok h t where g: "throttle_guard app ctx fld (gs_throttle s) = (ok, h, t)" by (metis prod_cases3)
  obtain q s2 where q: "resolve app (gc_req ctx) fld (s\<lparr>gs_throttle := t\<rparr>) = (q, s2)" by fastforce
  from assms g q resolve_frame [OF q] show ?thesis
    by (cases q) (auto simp: handle_field_def Let_def intercept_lines split: if_splits guard_result.splits)
qed

text \<open>The status the HTTP client logs for a failure is the one the client's GraphQL error carries.\<close>

lemma failure_line_status:
  assumes "answered e st" and "ax_response (findAxiosErrorWithResponse e) \<noteq> None"
  shows "(\<exists>url. failure_line e = ''%u2190 '' @ show_int st @ '' '' @ url) \<and>
    map_of (ge_extensions (toAxiosGraphQLError parse e)) ''statusCode'' = Some (JNum st)"
  using assms answered_error(4) [OF assms(1) refl] by (auto simp: failure_line_def answered_def)


section \<open>The port of the auth server\<close>

text \<open>
  The port is not the one of the validated configuration: with \<open>AUTH_PORT\<close> only, which the schema does not
  know, the configuration says 4001 and the server listens on \<open>AUTH_PORT\<close>.
\<close>

lemma port_beside_configuration:
  assumes "env_contract url_ok to_number parse" and "vars ''AUTH_HTTP_PORT'' = None" and "vars ''AUTH_PORT'' = Some port"
    and "validate parse auth_envSchema vars = Inr config"
  shows "map_of config ''AUTH_HTTP_PORT'' = Some (EnvInt 4001) \<and> auth_port vars = port"
  using assms
  by (auto simp: env_contract_def validate_def env_parse_def auth_envSchema_def env_read_def Let_def auth_port_def nullish_def
      nullish_default_def split: if_splits)

end
