(* ===== verification/Log_Streamer_Invariants.thy ===== *)
theory Log_Streamer_Invariants
  imports Log_Streamer
begin

text \<open>
  What holds of the log-streamer connections in every state the machine can reach: the references
  between the objects, the reference counts, and what each open connection has been told.
\<close>

section \<open>Reference counting\<close>

text \<open>
  The contract of the two methods: \<open>retain\<close> counts up and says whether the key is new, \<open>release\<close>
  counts down and says whether it was the last.
\<close>

locale ref_counter =
  fixes retain :: "'m \<Rightarrow> 'k \<Rightarrow> bool \<times> 'm"
    and release :: "'m \<Rightarrow> 'k \<Rightarrow> bool \<times> 'm"
    and count :: "'m \<Rightarrow> 'k \<Rightarrow> nat"
    and wf :: "'m \<Rightarrow> bool"
  assumes retain_first: "fst (retain m k) \<longleftrightarrow> count m k = 0"
    and retain_count: "count (snd (retain m k)) = (count m)(k := count m k + 1)"
    and retain_wf: "wf m \<Longrightarrow> wf (snd (retain m k))"
    and release_last: "wf m \<Longrightarrow> fst (release m k) \<longleftrightarrow> count m k = 1"
    and release_count: "wf m \<Longrightarrow> count (snd (release m k)) = (count m)(k := count m k - 1)"
    and release_wf: "wf m \<Longrightarrow> wf (snd (release m k))"
begin

definition live :: "'m \<Rightarrow> 'k set" where
  "live m = {k. count m k > 0}"

lemma live_retain: "live (snd (retain m k)) = insert k (live m)"
  by (auto simp: live_def retain_count)

lemma live_release:
  "wf m \<Longrightarrow> live (snd (release m k)) = (if fst (release m k) then live m - {k} else live m)"
  by (auto simp: live_def release_count release_last)

lemma retain_release: "wf m \<Longrightarrow> count (snd (release (snd (retain m k)) k)) = count m"
  by (auto simp: retain_wf release_count retain_count)

lemma retain_n: "count (((\<lambda>m. snd (retain m k)) ^^ n) m) = (count m)(k := count m k + n)"
  by (induction n) (auto simp: retain_count)

end

definition sub_count :: "(string \<times> nat) list \<Rightarrow> string \<Rightarrow> nat" where
  "sub_count m k = nullish_default (map_of m k) 0"

definition subs_wf :: "(string \<times> nat) list \<Rightarrow> bool" where
  "subs_wf m \<longleftrightarrow> wf_map m \<and> (\<forall>kn \<in> set m. 0 < snd kn)"

lemma subs_wf_pos: "subs_wf m \<Longrightarrow> map_of m k = Some n \<Longrightarrow> 0 < n"
  by (force simp: subs_wf_def dest: map_of_SomeD)

lemma subs_wf_iff: "subs_wf m \<longleftrightarrow> wf_map m \<and> (\<forall>k n. map_of m k = Some n \<longrightarrow> 0 < n)"
  by (force simp: subs_wf_def wf_map_def)

interpretation subs: ref_counter retainSubscription releaseSubscription sub_count subs_wf
proof
  fix m :: "(string \<times> nat) list" and k
  show "fst (retainSubscription m k) \<longleftrightarrow> sub_count m k = 0"
    and "sub_count (snd (retainSubscription m k)) = (sub_count m)(k := sub_count m k + 1)"
    by (auto simp: retainSubscription_def sub_count_def Let_def js_map.get_put)
  assume wf: "subs_wf m"
  show "subs_wf (snd (retainSubscription m k))"
    using wf by (auto simp: subs_wf_iff retainSubscription_def Let_def js_map.get_put js_map.wf_put)
  have wfm: "wf_map m" using wf by (simp add: subs_wf_iff)
  note pos = subs_wf_pos [OF wf]
  show "fst (releaseSubscription m k) \<longleftrightarrow> sub_count m k = 1"
    by (auto simp: releaseSubscription_def sub_count_def split: option.splits)
  show "sub_count (snd (releaseSubscription m k)) = (sub_count m)(k := sub_count m k - 1)"
    by (auto simp: releaseSubscription_def sub_count_def js_map.get_put js_map.get_del split: option.splits)
  show "subs_wf (snd (releaseSubscription m k))"
    using wf wfm pos by (auto simp: subs_wf_iff releaseSubscription_def js_map.get_put js_map.get_del
        js_map.wf_put js_map.wf_del split: option.splits if_splits)
qed

lemma live_keys:
  assumes "subs_wf m"
  shows "subs.live m = set (map_keys m)"
proof (rule set_eqI)
  fix k
  show "k \<in> subs.live m \<longleftrightarrow> k \<in> set (map_keys m)"
    using subs_wf_pos [OF assms, of k] js_map.get_keys [of m k]
    by (cases "map_of m k") (auto simp: subs.live_def sub_count_def)
qed

section \<open>What a connection has been told\<close>

datatype up_msg = Sub string | Unsub string | SubSvc string | UnsubSvc string

fun render :: "up_msg \<Rightarrow> string" where
  "render (Sub c) = ws_message ''subscribe'' ''containerId'' c"
| "render (Unsub c) = ws_message ''unsubscribe'' ''containerId'' c"
| "render (SubSvc v) = ws_message ''subscribe_service'' ''serviceName'' v"
| "render (UnsubSvc v) = ws_message ''unsubscribe_service'' ''serviceName'' v"

fun hear :: "up_msg \<Rightarrow> string set \<times> string set \<Rightarrow> string set \<times> string set" where
  "hear (Sub c) (C, S) = (insert c C, S)"
| "hear (Unsub c) (C, S) = (C - {c}, S)"
| "hear (SubSvc v) (C, S) = (C, insert v S)"
| "hear (UnsubSvc v) (C, S) = (C, S - {v})"

text \<open>\<open>told sent CS\<close>: a log-streamer that received the texts \<open>sent\<close> serves exactly \<open>CS\<close>.\<close>

definition told :: "string list \<Rightarrow> string set \<times> string set \<Rightarrow> bool" where
  "told sent CS \<longleftrightarrow> (\<exists>msgs. sent = map render msgs \<and> fold hear msgs ({}, {}) = CS)"

lemma told_Nil: "told [] ({}, {})"
  by (auto simp: told_def)

lemma told_append: "told sent CS \<Longrightarrow> told (sent @ map render msgs) (fold hear msgs CS)"
  unfolding told_def by (metis comp_apply fold_append map_append)

definition wanted :: "streamer \<Rightarrow> string set \<times> string set" where
  "wanted s = (set (map_keys (ls_activeSubscriptions s)), set (map_keys (ls_activeServiceSubscriptions s)))"

definition resub_msgs :: "streamer \<Rightarrow> up_msg list" where
  "resub_msgs s = map Sub (map_keys (ls_activeSubscriptions s)) @
     map SubSvc (map_keys (ls_activeServiceSubscriptions s))"

lemma resubscribe_render: "resubscribe_messages s = map render (resub_msgs s)"
  by (simp add: resubscribe_messages_def resub_msgs_def)

lemma hear_subs: "fold hear (map Sub xs) (C, S) = (C \<union> set xs, S)"
  by (induction xs arbitrary: C) auto

lemma hear_svcs: "fold hear (map SubSvc xs) (C, S) = (C, S \<union> set xs)"
  by (induction xs arbitrary: S) auto

lemma hear_resub: "fold hear (resub_msgs s) (C, S) = (C \<union> fst (wanted s), S \<union> snd (wanted s))"
  by (simp add: resub_msgs_def hear_subs hear_svcs wanted_def)

section \<open>The invariant\<close>

definition conn_ok :: "streamer \<Rightarrow> bool" where
  "conn_ok s \<longleftrightarrow> wf_map (ls_connections s) \<and>
     (\<forall>h i. (h, i) \<in> set (ls_connections s) \<longrightarrow> i < length (ls_objs s) \<and> cn_host (ls_objs s ! i) = h)"

definition ref_ok :: "streamer \<Rightarrow> bool" where
  "ref_ok s \<longleftrightarrow>
     (\<forall>w \<in> set (ls_sockets s). sk_conn w < length (ls_objs s)) \<and>
     (\<forall>t \<in> set (ls_timers s). tm_conn t < length (ls_objs s)) \<and>
     (\<forall>i < length (ls_objs s). \<forall>k. cn_ws (ls_objs s ! i) = Some k \<longrightarrow>
        k < length (ls_sockets s) \<and> sk_conn (ls_sockets s ! k) = i)"

definition fresh_ok :: "streamer \<Rightarrow> bool" where
  "fresh_ok s \<longleftrightarrow> (\<forall>w \<in> set (ls_sockets s). sk_state w = CONNECTING \<longrightarrow> sk_sent w = [])"

definition told_ok :: "streamer \<Rightarrow> bool" where
  "told_ok s \<longleftrightarrow>
     (\<forall>h i k. (h, i) \<in> set (ls_connections s) \<longrightarrow> i < length (ls_objs s) \<longrightarrow>
        cn_ws (ls_objs s ! i) = Some k \<longrightarrow> k < length (ls_sockets s) \<longrightarrow>
        sk_state (ls_sockets s ! k) = OPEN \<longrightarrow> told (sk_sent (ls_sockets s ! k)) (wanted s))"

definition subs_ok :: "streamer \<Rightarrow> bool" where
  "subs_ok s \<longleftrightarrow> subs_wf (ls_activeSubscriptions s) \<and> subs_wf (ls_activeServiceSubscriptions s)"

definition ls_inv :: "streamer \<Rightarrow> bool" where
  "ls_inv s \<longleftrightarrow> conn_ok s \<and> ref_ok s \<and> fresh_ok s \<and> told_ok s \<and> subs_ok s"

lemmas inv_defs = ls_inv_def conn_ok_def ref_ok_def fresh_ok_def told_ok_def subs_ok_def wanted_def

lemma set_obj_fields [simp]:
  "ls_connections (set_obj i f s) = ls_connections s" "ls_sockets (set_obj i f s) = ls_sockets s"
  "ls_timers (set_obj i f s) = ls_timers s" "ls_isShuttingDown (set_obj i f s) = ls_isShuttingDown s"
  "ls_activeSubscriptions (set_obj i f s) = ls_activeSubscriptions s"
  "ls_activeServiceSubscriptions (set_obj i f s) = ls_activeServiceSubscriptions s"
  "length (ls_objs (set_obj i f s)) = length (ls_objs s)" "ls_port (set_obj i f s) = ls_port s"
  by (simp_all add: set_obj_def)

lemma set_obj_nth [simp]:
  "j < length (ls_objs s) \<Longrightarrow> ls_objs (set_obj i f s) ! j = (if i = j then f (ls_objs s ! j) else ls_objs s ! j)"
  by (simp add: set_obj_def nth_list_update)

lemma set_socket_fields [simp]:
  "ls_connections (set_socket k f s) = ls_connections s" "ls_objs (set_socket k f s) = ls_objs s"
  "ls_timers (set_socket k f s) = ls_timers s" "ls_isShuttingDown (set_socket k f s) = ls_isShuttingDown s"
  "ls_activeSubscriptions (set_socket k f s) = ls_activeSubscriptions s"
  "ls_activeServiceSubscriptions (set_socket k f s) = ls_activeServiceSubscriptions s"
  "length (ls_sockets (set_socket k f s)) = length (ls_sockets s)" "ls_port (set_socket k f s) = ls_port s"
  by (simp_all add: set_socket_def)

lemma set_socket_nth [simp]:
  "j < length (ls_sockets s) \<Longrightarrow>
     ls_sockets (set_socket k f s) ! j = (if k = j then f (ls_sockets s ! j) else ls_sockets s ! j)"
  by (simp add: set_socket_def nth_list_update)

lemma set_socket_set: "w \<in> set (ls_sockets (set_socket k f s)) \<Longrightarrow>
    w \<in> set (ls_sockets s) \<or> k < length (ls_sockets s) \<and> w = f (ls_sockets s ! k)"
  by (auto simp: set_socket_def split: if_splits dest!: in_set_conv_nth [THEN iffD1] intro: nth_mem)
    (metis length_list_update nth_list_update nth_mem)

lemma clear_timer_fields [simp]:
  "ls_connections (clear_timer t s) = ls_connections s" "ls_objs (clear_timer t s) = ls_objs s"
  "ls_sockets (clear_timer t s) = ls_sockets s" "ls_isShuttingDown (clear_timer t s) = ls_isShuttingDown s"
  "ls_activeSubscriptions (clear_timer t s) = ls_activeSubscriptions s"
  "ls_activeServiceSubscriptions (clear_timer t s) = ls_activeServiceSubscriptions s"
  "length (ls_timers (clear_timer t s)) = length (ls_timers s)" "ls_port (clear_timer t s) = ls_port s"
  by (simp_all add: clear_timer_def)

lemma clear_timer_conns: "tm_conn ` set (ls_timers (clear_timer t s)) = tm_conn ` set (ls_timers s)"
proof -
  have "map tm_conn (ls_timers (clear_timer t s)) = map tm_conn (ls_timers s)"
    by (auto simp: clear_timer_def map_update intro: list_update_same_conv [THEN iffD2] nth_equalityI)
  then show ?thesis by (metis set_map)
qed

text \<open>An update of a connection object that keeps its host and its socket, and of a socket that keeps
  its owner, its state and what it was sent, keep the invariant.\<close>

lemma inv_set_obj:
  assumes "ls_inv s" "\<And>c. cn_host (f c) = cn_host c" "\<And>c. cn_ws (f c) = cn_ws c \<or> cn_ws (f c) = None"
  shows "ls_inv (set_obj i f s)"
proof -
  have "cn_ws (f (ls_objs s ! i)) = Some k \<Longrightarrow> cn_ws (ls_objs s ! i) = Some k" for k
    using assms(3) [of "ls_objs s ! i"] by auto
  then show ?thesis
    using assms(1,2) unfolding inv_defs by (auto split: if_splits)
qed

lemma inv_set_socket:
  assumes "ls_inv s" "\<And>w. sk_conn (f w) = sk_conn w" "\<And>w. sk_state (f w) \<noteq> OPEN" "\<And>w. sk_state (f w) \<noteq> CONNECTING"
  shows "ls_inv (set_socket k f s)"
  using assms unfolding inv_defs
  by (auto dest!: set_socket_set split: if_splits)

lemma inv_flags [simp]:
  "ls_inv (s\<lparr>ls_dnsRefreshInterval := b\<rparr>) = ls_inv s" "ls_inv (s\<lparr>ls_pendingDns := n\<rparr>) = ls_inv s"
  "ls_inv (s\<lparr>ls_isShuttingDown := b\<rparr>) = ls_inv s" "ls_inv (s\<lparr>ls_preSubs := p\<rparr>) = ls_inv s"
  "ls_inv (s\<lparr>ls_nextSubId := n\<rparr>) = ls_inv s" "ls_inv (s\<lparr>ls_published := q\<rparr>) = ls_inv s"
  "ls_inv (s\<lparr>ls_uncaught := b\<rparr>) = ls_inv s"
  by (simp_all add: inv_defs)

lemma inv_add_timer:
  "ls_inv s \<Longrightarrow> tm_conn t < length (ls_objs s) \<Longrightarrow> ls_inv (s\<lparr>ls_timers := ls_timers s @ [t]\<rparr>)"
  unfolding inv_defs by auto

lemma inv_clear_timer: "ls_inv s \<Longrightarrow> ls_inv (clear_timer t s)"
proof -
  assume inv: "ls_inv s"
  have "\<forall>x \<in> set (ls_timers (clear_timer t s)). tm_conn x < length (ls_objs s)"
    using inv clear_timer_conns [of t s] unfolding inv_defs
    by (metis (no_types, lifting) image_iff imageI)
  with inv show ?thesis unfolding inv_defs by auto
qed

lemma inv_scheduleReconnect:
  assumes "ls_inv s" "i < length (ls_objs s)"
  shows "ls_inv (scheduleReconnect i s)"
  unfolding scheduleReconnect_def Let_def
  using assms by (auto intro!: inv_add_timer [where s = "set_obj i f s" for f, simplified] inv_set_obj)

lemma inv_closeConnection:
  assumes "ls_inv s"
  shows "ls_inv (closeConnection i s)"
  unfolding closeConnection_def Let_def close_socket_def
  using assms by (auto split: option.split if_splits intro!: inv_set_obj inv_set_socket inv_clear_timer)

lemma inv_connectWebSocket:
  assumes "ls_inv s" "i < length (ls_objs s)"
  shows "ls_inv (connectWebSocket ws_ok i s)"
proof -
  have "ls_inv ((set_obj i (\<lambda>c. c\<lparr>cn_ws := Some (length (ls_sockets s))\<rparr>) s)
      \<lparr>ls_sockets := ls_sockets s @ [\<lparr>sk_conn = i, sk_state = CONNECTING, sk_sent = []\<rparr>]\<rparr>)"
    using assms unfolding inv_defs by (auto simp: nth_append split: if_splits)
  with assms show ?thesis
    unfolding connectWebSocket_def Let_def by (auto intro: inv_scheduleReconnect)
qed

lemma delete_mem: "x \<in> set (AList.delete k m) \<Longrightarrow> x \<in> set m"
  by (simp add: AList.delete_eq)

lemma inv_delete_host: "ls_inv s \<Longrightarrow> ls_inv (s\<lparr>ls_connections := AList.delete h (ls_connections s)\<rparr>)"
  unfolding inv_defs by (auto simp: js_map.wf_del dest!: delete_mem)

lemma inv_remove_host: "ls_inv s \<Longrightarrow> ls_inv (remove_host h s)"
  unfolding remove_host_def Let_def
  by (auto split: option.split intro: inv_delete_host inv_closeConnection)

lemma inv_add_host:
  assumes "ls_inv s"
  shows "ls_inv (add_host ws_ok h s)"
proof -
  let ?s = "s\<lparr>ls_objs := ls_objs s @ [new_connection h (ls_port s)],
     ls_connections := AList.update h (length (ls_objs s)) (ls_connections s)\<rparr>"
  have "set (AList.update h i m) \<subseteq> insert (h, i) {x \<in> set m. fst x \<noteq> h}" if "wf_map m" for m :: "(string \<times> nat) list" and i
    using that by (induction m) (auto simp: wf_map_def rev_image_eqI)
  then have sub: "(h', i) \<in> set (AList.update h (length (ls_objs s)) (ls_connections s)) \<Longrightarrow>
      (h', i) \<in> set (ls_connections s) \<or> h' = h \<and> i = length (ls_objs s)" for h' i
    using assms unfolding inv_defs by fastforce
  have "ls_inv ?s"
    using assms unfolding inv_defs
    by (auto simp: js_map.wf_put nth_append new_connection_def less_Suc_eq dest!: sub)
  then show ?thesis
    unfolding add_host_def Let_def by (intro inv_connectWebSocket) simp_all
qed

lemma inv_fold: "ls_inv s \<Longrightarrow> (\<And>x s. ls_inv s \<Longrightarrow> ls_inv (f x s)) \<Longrightarrow> ls_inv (fold f xs s)"
  by (induction xs arbitrary: s) auto

lemma inv_reconcile_resume: "ls_inv s \<Longrightarrow> ls_inv (reconcile_resume ws_ok hosts s)"
  unfolding reconcile_resume_def Let_def
  by (intro inv_fold) (auto intro: inv_remove_host inv_add_host)

lemma inv_onModuleDestroy: "ls_inv s \<Longrightarrow> ls_inv (onModuleDestroy s)"
proof -
  assume "ls_inv s"
  then have "ls_inv (fold (\<lambda>(_, i) s. closeConnection i s) xs (s\<lparr>ls_isShuttingDown := True, ls_dnsRefreshInterval := False\<rparr>))"
    for xs :: "(string \<times> nat) list"
    by (intro inv_fold) (auto intro: inv_closeConnection)
  moreover have "ls_inv v \<Longrightarrow> ls_inv (v\<lparr>ls_connections := []\<rparr>)" for v
    unfolding inv_defs by (auto simp: wf_map_def)
  ultimately show ?thesis unfolding onModuleDestroy_def Let_def by simp
qed

section \<open>Broadcasting\<close>

text \<open>\<open>current s i k\<close>: the connection object \<open>i\<close> is in the map and its socket is \<open>k\<close>.\<close>

definition current :: "streamer \<Rightarrow> nat \<Rightarrow> nat \<Rightarrow> bool" where
  "current s i k \<longleftrightarrow> i \<in> snd ` set (ls_connections s) \<and> cn_ws (ls_objs s ! i) = Some k"

definition say :: "string \<Rightarrow> socket \<Rightarrow> socket" where
  "say m w = (if sk_state w = OPEN then w\<lparr>sk_sent := sk_sent w @ [m]\<rparr> else w)"

lemma say_fields [simp]: "sk_conn (say m w) = sk_conn w" "sk_state (say m w) = sk_state w"
  by (simp_all add: say_def)

lemma broadcast_say:
  "broadcastToAll m s =
    fold (\<lambda>i s. case cn_ws (ls_objs s ! i) of None \<Rightarrow> s | Some k \<Rightarrow> set_socket k (say m) s)
      (map snd (ls_connections s)) s"
proof -
  have "say m = (\<lambda>w. if sk_state w = OPEN then w\<lparr>sk_sent := sk_sent w @ [m]\<rparr> else w)"
    by (simp add: fun_eq_iff say_def)
  then show ?thesis
    by (simp only: broadcastToAll_def fold_map comp_def split_def)
qed

lemma fold_say_fields:
  defines "F \<equiv> \<lambda>m is s. fold (\<lambda>i s. case cn_ws (ls_objs s ! i) of None \<Rightarrow> s | Some k \<Rightarrow> set_socket k (say m) s) is s"
  shows "ls_connections (F m is s) = ls_connections s" "ls_objs (F m is s) = ls_objs s"
    "ls_timers (F m is s) = ls_timers s" "ls_isShuttingDown (F m is s) = ls_isShuttingDown s"
    "ls_activeSubscriptions (F m is s) = ls_activeSubscriptions s"
    "ls_activeServiceSubscriptions (F m is s) = ls_activeServiceSubscriptions s"
    "length (ls_sockets (F m is s)) = length (ls_sockets s)"
  unfolding F_def by (induction "is" arbitrary: s) (auto split: option.splits)

lemma fold_say_nth:
  assumes "distinct is" "\<forall>i \<in> set is. i < length (ls_objs s)" "ref_ok s" "k < length (ls_sockets s)"
  shows "ls_sockets (fold (\<lambda>i s. case cn_ws (ls_objs s ! i) of None \<Rightarrow> s | Some k \<Rightarrow> set_socket k (say m) s) is s) ! k =
    (if \<exists>i \<in> set is. cn_ws (ls_objs s ! i) = Some k then say m (ls_sockets s ! k) else ls_sockets s ! k)"
  using assms
proof (induction "is" arbitrary: s)
  case (Cons i "is")
  show ?case
  proof (cases "cn_ws (ls_objs s ! i)")
    case None
    with Cons show ?thesis by auto
  next
    case (Some j)
    have ref: "ref_ok (set_socket j (say m) s)"
      using Cons.prems(3) unfolding ref_ok_def by (auto dest!: set_socket_set split: if_splits)
    from Cons.prems Some have j: "j < length (ls_sockets s)" "sk_conn (ls_sockets s ! j) = i"
      by (auto simp: ref_ok_def)
    have "\<not> (\<exists>i' \<in> set is. cn_ws (ls_objs s ! i') = Some j)"
    proof
      assume "\<exists>i' \<in> set is. cn_ws (ls_objs s ! i') = Some j"
      then obtain i' where i': "i' \<in> set is" "cn_ws (ls_objs s ! i') = Some j" by blast
      with Cons.prems(2,3) have "sk_conn (ls_sockets s ! j) = i'" by (auto simp: ref_ok_def)
      with j(2) i'(1) Cons.prems(1) show False by simp
    qed
    with Cons.IH [of "set_socket j (say m) s"] Cons.prems ref Some j show ?thesis
      by auto
  qed
qed simp

lemma conns_distinct: "ls_inv s \<Longrightarrow> distinct (map snd (ls_connections s))"
proof -
  assume inv: "ls_inv s"
  have "distinct (map fst m) \<Longrightarrow> (\<forall>h i. (h, i) \<in> set m \<longrightarrow> host i = h) \<Longrightarrow> distinct (map snd m)"
    for m :: "(string \<times> nat) list" and host
  proof (induction m)
    case (Cons x m)
    obtain h i where x: "x = (h, i)" by (cases x)
    have "i \<notin> snd ` set m"
    proof
      assume "i \<in> snd ` set m"
      then obtain h' where "(h', i) \<in> set m" by auto
      have "host i = h" "host i = h'" using Cons.prems(2) x \<open>(h', i) \<in> set m\<close> by auto
      then have "h' = h" by simp
      with \<open>(h', i) \<in> set m\<close> Cons.prems(1) x show False by (auto simp: rev_image_eqI)
    qed
    with Cons x show ?case by auto
  qed simp
  from this [of "ls_connections s" "\<lambda>i. cn_host (ls_objs s ! i)"] inv show ?thesis
    unfolding inv_defs wf_map_def by simp
qed

lemma broadcast_fields [simp]:
  "ls_connections (broadcastToAll m s) = ls_connections s" "ls_objs (broadcastToAll m s) = ls_objs s"
  "ls_timers (broadcastToAll m s) = ls_timers s" "ls_isShuttingDown (broadcastToAll m s) = ls_isShuttingDown s"
  "ls_activeSubscriptions (broadcastToAll m s) = ls_activeSubscriptions s"
  "ls_activeServiceSubscriptions (broadcastToAll m s) = ls_activeServiceSubscriptions s"
  "length (ls_sockets (broadcastToAll m s)) = length (ls_sockets s)"
  unfolding broadcast_say by (simp_all add: fold_say_fields)

lemma broadcast_nth:
  assumes "ls_inv s" "k < length (ls_sockets s)"
  shows "ls_sockets (broadcastToAll m s) ! k =
    (if \<exists>i. current s i k then say m (ls_sockets s ! k) else ls_sockets s ! k)"
proof -
  have "\<forall>i \<in> set (map snd (ls_connections s)). i < length (ls_objs s)" "ref_ok s"
    using assms(1) unfolding inv_defs by auto
  from fold_say_nth [OF conns_distinct [OF assms(1)] this assms(2)] show ?thesis
    by (auto simp: broadcast_say current_def)
qed

lemma set_socket_subs:
  "set_socket k f (s\<lparr>ls_activeSubscriptions := A, ls_activeServiceSubscriptions := B\<rparr>) =
     (set_socket k f s)\<lparr>ls_activeSubscriptions := A, ls_activeServiceSubscriptions := B\<rparr>"
  by (simp add: set_socket_def)

text \<open>
  A change of the subscriptions together with the broadcast of the message that says so keeps the
  invariant; so does one that changes no key, without a message.
\<close>

lemma inv_say:
  assumes inv: "ls_inv s" and subs: "subs_wf A" "subs_wf B"
    and hear: "hear m (wanted s) = (set (map_keys A), set (map_keys B))"
  shows "ls_inv (broadcastToAll (render m)
    (s\<lparr>ls_activeSubscriptions := A, ls_activeServiceSubscriptions := B\<rparr>))"
proof -
  let ?t = "s\<lparr>ls_activeSubscriptions := A, ls_activeServiceSubscriptions := B\<rparr>"
  let ?u = "broadcastToAll (render m) ?t"
  have comm: "broadcastToAll x (s\<lparr>ls_activeSubscriptions := A, ls_activeServiceSubscriptions := B\<rparr>) =
    (broadcastToAll x s)\<lparr>ls_activeSubscriptions := A, ls_activeServiceSubscriptions := B\<rparr>" for x
  proof -
    have "fold (\<lambda>i s. case cn_ws (ls_objs s ! i) of None \<Rightarrow> s | Some k \<Rightarrow> set_socket k (say x) s) is
        (s\<lparr>ls_activeSubscriptions := A, ls_activeServiceSubscriptions := B\<rparr>) =
      (fold (\<lambda>i s. case cn_ws (ls_objs s ! i) of None \<Rightarrow> s | Some k \<Rightarrow> set_socket k (say x) s) is s)
        \<lparr>ls_activeSubscriptions := A, ls_activeServiceSubscriptions := B\<rparr>" for "is"
      by (induction "is" arbitrary: s) (simp_all add: set_socket_subs split: option.split)
    then show ?thesis by (simp add: broadcast_say)
  qed
  have nth: "ls_sockets ?u ! k = (if \<exists>i. current s i k then say (render m) (ls_sockets s ! k) else ls_sockets s ! k)"
    if "k < length (ls_sockets s)" for k
    using broadcast_nth [OF inv that] by (simp add: comm)
  have len: "length (ls_sockets ?u) = length (ls_sockets s)" by simp
  have sockets: "\<forall>w \<in> set (ls_sockets ?u). \<exists>v \<in> set (ls_sockets s). sk_conn w = sk_conn v \<and> sk_state w = sk_state v \<and>
      (sk_state v = CONNECTING \<longrightarrow> sk_sent w = sk_sent v)"
  proof
    fix w assume "w \<in> set (ls_sockets ?u)"
    then obtain k where "k < length (ls_sockets s)" "w = ls_sockets ?u ! k"
      using len by (auto simp: in_set_conv_nth)
    then show "\<exists>v \<in> set (ls_sockets s). sk_conn w = sk_conn v \<and> sk_state w = sk_state v \<and>
      (sk_state v = CONNECTING \<longrightarrow> sk_sent w = sk_sent v)"
      using nth [of k] by (intro bexI [of _ "ls_sockets s ! k"]) (auto simp: say_def)
  qed
  have conn: "conn_ok ?u" using inv unfolding inv_defs by simp
  have ref: "ref_ok ?u"
    using inv sockets nth unfolding inv_defs by (auto split: if_splits)
  have fresh: "fresh_ok ?u"
    using inv sockets unfolding inv_defs by (metis (no_types, lifting))
  have told: "told_ok ?u"
    unfolding told_ok_def
  proof (intro allI impI)
    fix h i k
    assume a: "(h, i) \<in> set (ls_connections ?u)" "i < length (ls_objs ?u)" "cn_ws (ls_objs ?u ! i) = Some k"
      "k < length (ls_sockets ?u)" "sk_state (ls_sockets ?u ! k) = OPEN"
    then have cur: "current s i k" "k < length (ls_sockets s)"
      by (auto simp: current_def rev_image_eqI)
    with nth a have u: "ls_sockets ?u ! k = say (render m) (ls_sockets s ! k)" by auto
    with a have "sk_state (ls_sockets s ! k) = OPEN" by simp
    with inv a cur have "told (sk_sent (ls_sockets s ! k)) (wanted s)"
      unfolding ls_inv_def told_ok_def by auto
    from told_append [OF this, of "[m]"] hear u \<open>sk_state (ls_sockets s ! k) = OPEN\<close>
    show "told (sk_sent (ls_sockets ?u ! k)) (wanted ?u)"
      by (simp add: say_def wanted_def)
  qed
  show ?thesis using conn ref fresh told subs unfolding ls_inv_def subs_ok_def by simp
qed

lemma inv_same_keys:
  assumes "ls_inv s" "subs_wf A" "subs_wf B" "wanted s = (set (map_keys A), set (map_keys B))"
  shows "ls_inv (s\<lparr>ls_activeSubscriptions := A, ls_activeServiceSubscriptions := B\<rparr>)"
  using assms unfolding inv_defs by simp

section \<open>Every event keeps the invariant\<close>

lemma wanted_live:
  "ls_inv s \<Longrightarrow> wanted s = (subs.live (ls_activeSubscriptions s), subs.live (ls_activeServiceSubscriptions s))"
  by (simp add: wanted_def live_keys ls_inv_def subs_ok_def)

lemma inv_subscribeToLogs:
  assumes "ls_inv s"
  shows "ls_inv (snd (subscribeToLogs c s))"
proof -
  let ?A = "ls_activeSubscriptions s" and ?B = "ls_activeServiceSubscriptions s"
  have wf: "subs_wf ?A" "subs_wf ?B" using assms by (simp_all add: ls_inv_def subs_ok_def)
  obtain b A where r: "retainSubscription ?A c = (b, A)" by fastforce
  have A: "subs_wf A" "set (map_keys A) = insert c (set (map_keys ?A))"
    using subs.retain_wf [OF wf(1), of c] subs.live_retain [of ?A c] r live_keys [OF wf(1)]
      live_keys [of A] by simp_all
  have b: "\<not> b \<Longrightarrow> c \<in> set (map_keys ?A)"
    using subs.retain_first [of ?A c] r live_keys [OF wf(1)] by (auto simp: subs.live_def)
  let ?s1 = "s\<lparr>ls_preSubs := ls_preSubs s @ [(ls_nextSubId s, ''CONTAINER_LOG.'' @ c)], ls_nextSubId := ls_nextSubId s + 1\<rparr>"
  have inv1: "ls_inv ?s1" using assms by simp
  have upd: "s\<lparr>ls_preSubs := p, ls_nextSubId := n, ls_activeSubscriptions := A\<rparr> =
      s\<lparr>ls_preSubs := p, ls_nextSubId := n\<rparr>\<lparr>ls_activeSubscriptions := A, ls_activeServiceSubscriptions := ?B\<rparr>" for p n
    by simp
  show ?thesis
  proof (cases b)
    case True
    have "hear (Sub c) (wanted ?s1) = (set (map_keys A), set (map_keys ?B))" by (simp add: wanted_def A(2))
    from inv_say [OF inv1 A(1) wf(2) this] True r show ?thesis by (simp add: subscribeToLogs_def Let_def)
  next
    case False
    have "wanted ?s1 = (set (map_keys A), set (map_keys ?B))" using b [OF False] A(2) by (auto simp: wanted_def)
    from inv_same_keys [OF inv1 A(1) wf(2) this] False r show ?thesis by (simp add: subscribeToLogs_def Let_def)
  qed
qed

lemma inv_subscribeToServiceLogs:
  assumes "ls_inv s"
  shows "ls_inv (snd (subscribeToServiceLogs c s))"
proof -
  let ?A = "ls_activeSubscriptions s" and ?B = "ls_activeServiceSubscriptions s"
  have wf: "subs_wf ?A" "subs_wf ?B" using assms by (simp_all add: ls_inv_def subs_ok_def)
  obtain b B where r: "retainSubscription ?B c = (b, B)" by fastforce
  have B: "subs_wf B" "set (map_keys B) = insert c (set (map_keys ?B))"
    using subs.retain_wf [OF wf(2), of c] subs.live_retain [of ?B c] r live_keys [OF wf(2)]
      live_keys [of B] by simp_all
  have b: "\<not> b \<Longrightarrow> c \<in> set (map_keys ?B)"
    using subs.retain_first [of ?B c] r live_keys [OF wf(2)] by (auto simp: subs.live_def)
  let ?s1 = "s\<lparr>ls_preSubs := ls_preSubs s @ [(ls_nextSubId s, ''SERVICE_LOG.'' @ c)], ls_nextSubId := ls_nextSubId s + 1\<rparr>"
  have inv1: "ls_inv ?s1" using assms by simp
  show ?thesis
  proof (cases b)
    case True
    have "hear (SubSvc c) (wanted ?s1) = (set (map_keys ?A), set (map_keys B))" by (simp add: wanted_def B(2))
    from inv_say [OF inv1 wf(1) B(1) this] True r show ?thesis by (simp add: subscribeToServiceLogs_def Let_def)
  next
    case False
    have "wanted ?s1 = (set (map_keys ?A), set (map_keys B))" using b [OF False] B(2) by (auto simp: wanted_def)
    from inv_same_keys [OF inv1 wf(1) B(1) this] False r show ?thesis by (simp add: subscribeToServiceLogs_def Let_def)
  qed
qed

lemma inv_return_logs:
  assumes "ls_inv s"
  shows "ls_inv (return_logs w s)"
proof -
  obtain c n where w: "w = (c, n)" by fastforce
  let ?A = "ls_activeSubscriptions s" and ?B = "ls_activeServiceSubscriptions s"
  have wf: "subs_wf ?A" "subs_wf ?B" using assms by (simp_all add: ls_inv_def subs_ok_def)
  obtain b A where r: "releaseSubscription ?A c = (b, A)" by fastforce
  have A: "subs_wf A" using subs.release_wf [OF wf(1), of c] r by simp
  have keys: "set (map_keys A) = (if b then set (map_keys ?A) - {c} else set (map_keys ?A))"
    using subs.live_release [OF wf(1), of c] r live_keys [OF wf(1)] live_keys [OF A] by simp
  show ?thesis
  proof (cases b)
    case True
    have "hear (Unsub c) (wanted s) = (set (map_keys A), set (map_keys ?B))"
      using keys True by (simp add: wanted_def)
    from inv_say [OF assms A wf(2) this] True r w show ?thesis
      by (simp add: return_logs_def Let_def unsubscribeFromLogs_def)
  next
    case False
    have "wanted s = (set (map_keys A), set (map_keys ?B))" using keys False by (simp add: wanted_def)
    from inv_same_keys [OF assms A wf(2) this] False r w show ?thesis
      by (simp add: return_logs_def Let_def)
  qed
qed

lemma inv_return_service_logs:
  assumes "ls_inv s"
  shows "ls_inv (return_service_logs w s)"
proof -
  obtain c n where w: "w = (c, n)" by fastforce
  let ?A = "ls_activeSubscriptions s" and ?B = "ls_activeServiceSubscriptions s"
  have wf: "subs_wf ?A" "subs_wf ?B" using assms by (simp_all add: ls_inv_def subs_ok_def)
  obtain b B where r: "releaseSubscription ?B c = (b, B)" by fastforce
  have B: "subs_wf B" using subs.release_wf [OF wf(2), of c] r by simp
  have keys: "set (map_keys B) = (if b then set (map_keys ?B) - {c} else set (map_keys ?B))"
    using subs.live_release [OF wf(2), of c] r live_keys [OF wf(2)] live_keys [OF B] by simp
  show ?thesis
  proof (cases b)
    case True
    have "hear (UnsubSvc c) (wanted s) = (set (map_keys ?A), set (map_keys B))"
      using keys True by (simp add: wanted_def)
    from inv_say [OF assms wf(1) B this] True r w show ?thesis
      by (simp add: return_service_logs_def Let_def unsubscribeFromServiceLogs_def)
  next
    case False
    have "wanted s = (set (map_keys ?A), set (map_keys B))" using keys False by (simp add: wanted_def)
    from inv_same_keys [OF assms wf(1) B this] False r w show ?thesis
      by (simp add: return_service_logs_def Let_def)
  qed
qed

lemma inv_on_message: "ls_inv s \<Longrightarrow> ls_inv (on_message parse data s)"
  by (auto simp: on_message_def publish_def Let_def split: option.split)

lemma inv_on_close:
  assumes "ls_inv s" "k < length (ls_sockets s)"
  shows "ls_inv (on_close k s)"
proof -
  have "ls_inv (set_socket k (\<lambda>w. w\<lparr>sk_state := CLOSED\<rparr>) s)"
    by (rule inv_set_socket [OF assms(1)]) simp_all
  moreover have "sk_conn (ls_sockets s ! k) < length (ls_objs s)"
    using assms unfolding inv_defs by (auto dest: nth_mem)
  ultimately show ?thesis unfolding on_close_def by (intro inv_scheduleReconnect) simp_all
qed

lemma inv_on_timer:
  assumes "ls_inv s" "t < length (ls_timers s)"
  shows "ls_inv (on_timer ws_ok t s)"
proof -
  have "tm_conn (ls_timers s ! t) < length (ls_objs s)"
    using assms unfolding inv_defs by (auto dest: nth_mem)
  then show ?thesis
    unfolding on_timer_def using inv_clear_timer [OF assms(1)] by (intro inv_connectWebSocket) simp_all
qed

definition hear_texts :: "string list \<Rightarrow> socket \<Rightarrow> socket" where
  "hear_texts msgs w = w\<lparr>sk_sent := sk_sent w @ msgs\<rparr>"

lemma on_open_shape:
  assumes "k < length (ls_sockets s)" "ref_ok s"
  defines "i \<equiv> sk_conn (ls_sockets s ! k)"
  defines "s1 \<equiv> set_obj i (\<lambda>c. c\<lparr>cn_reconnectAttempts := 0\<rparr>) (set_socket k (\<lambda>w. w\<lparr>sk_state := OPEN\<rparr>) s)"
  defines "heard \<equiv> cn_ws (ls_objs s ! i)"
  shows "\<exists>b. on_open k s =
    (case heard of
       None \<Rightarrow> s1 | Some j \<Rightarrow> if sk_state (ls_sockets s1 ! j) = OPEN
         then set_socket j (hear_texts (map render (resub_msgs s))) s1 else s1)\<lparr>ls_uncaught := b\<rparr>"
proof -
  have i: "i < length (ls_objs s)" using assms(1,2) by (auto simp: i_def ref_ok_def)
  have msgs: "resubscribe_messages s1 = map render (resub_msgs s)"
    by (simp add: resubscribe_render resub_msgs_def s1_def)
  have ws: "cn_ws (ls_objs s1 ! i) = heard" using i by (simp add: s1_def heard_def)
  have same: "v\<lparr>ls_uncaught := ls_uncaught v\<rparr> = v" for v by simp
  have ht: "hear_texts m = (\<lambda>w. w\<lparr>sk_sent := sk_sent w @ m\<rparr>)" for m by (simp add: fun_eq_iff hear_texts_def)
  have noop: "set_socket j (hear_texts []) v = v" for j v
    by (simp add: set_socket_def hear_texts_def)
  have unfold: "on_open k s =
    (if map render (resub_msgs s) = [] then s1
     else (case heard of
             None \<Rightarrow> s1\<lparr>ls_uncaught := True\<rparr>
           | Some j \<Rightarrow>
               (case sk_state (ls_sockets s1 ! j) of
                  OPEN \<Rightarrow> set_socket j (hear_texts (map render (resub_msgs s))) s1
                | CONNECTING \<Rightarrow> s1\<lparr>ls_uncaught := True\<rparr>
                | _ \<Rightarrow> s1)))"
    unfolding on_open_def Let_def i_def [symmetric] s1_def [symmetric] msgs ws ht ..
  show ?thesis
  proof (cases "map render (resub_msgs s) = []")
    case True
    then have "on_open k s = s1" unfolding unfold by simp
    with True show ?thesis
      by (intro exI [of _ "ls_uncaught s1"]) (simp add: noop split: option.split)
  next
    case False
    show ?thesis
    proof (cases heard)
      case None
      with False unfold show ?thesis by (intro exI [of _ True]) simp
    next
      case (Some j)
      show ?thesis
      proof (cases "sk_state (ls_sockets s1 ! j)")
        case CONNECTING
        with False Some unfold show ?thesis by (intro exI [of _ True]) simp
      next
        case OPEN
        with False Some unfold show ?thesis
          by (intro exI [of _ "ls_uncaught (set_socket j (hear_texts (map render (resub_msgs s))) s1)"]) simp
      next
        case CLOSING
        with False Some unfold show ?thesis by (intro exI [of _ "ls_uncaught s1"]) simp
      next
        case CLOSED
        with False Some unfold show ?thesis by (intro exI [of _ "ls_uncaught s1"]) simp
      qed
    qed
  qed
qed

lemma inv_on_open:
  assumes inv: "ls_inv s" and k: "k < length (ls_sockets s)" "sk_state (ls_sockets s ! k) = CONNECTING"
  shows "ls_inv (on_open k s)"
proof -
  define i where "i = sk_conn (ls_sockets s ! k)"
  define s1 where "s1 = set_obj i (\<lambda>c. c\<lparr>cn_reconnectAttempts := 0\<rparr>) (set_socket k (\<lambda>w. w\<lparr>sk_state := OPEN\<rparr>) s)"
  have ref: "ref_ok s" using inv by (simp add: ls_inv_def)
  have i: "i < length (ls_objs s)" using ref k(1) by (auto simp: i_def ref_ok_def)
  have empty: "sk_sent (ls_sockets s ! k) = []" using inv k unfolding inv_defs by (auto dest: nth_mem)
  have owner: "cn_ws (ls_objs s ! i') = Some k \<Longrightarrow> i' < length (ls_objs s) \<Longrightarrow> i' = i" for i'
    using ref by (auto simp: ref_ok_def i_def)
  have ref1: "ref_ok s1" "conn_ok s1" "subs_ok s1" "fresh_ok s1"
    using inv unfolding inv_defs s1_def
    by (auto dest!: set_socket_set split: if_splits)
  have wanted1: "wanted s1 = wanted s" by (simp add: wanted_def s1_def)
  have told1: "told (sk_sent (ls_sockets s1 ! j)) (wanted s1)"
    if "(h, i') \<in> set (ls_connections s1)" "i' < length (ls_objs s1)" "cn_ws (ls_objs s1 ! i') = Some j"
      "j < length (ls_sockets s1)" "sk_state (ls_sockets s1 ! j) = OPEN" "j \<noteq> k" for h i' j
    using inv that unfolding ls_inv_def told_ok_def wanted1
    by (auto simp: s1_def split: if_splits)
  have final: "ls_inv (case cn_ws (ls_objs s ! i) of
       None \<Rightarrow> s1 | Some j \<Rightarrow> if sk_state (ls_sockets s1 ! j) = OPEN
         then set_socket j (hear_texts (map render (resub_msgs s))) s1 else s1)"
  proof (cases "\<exists>j. cn_ws (ls_objs s ! i) = Some j \<and> sk_state (ls_sockets s1 ! j) = OPEN")
    case False
    have "told_ok s1"
      unfolding told_ok_def
    proof (intro allI impI)
      fix h i' j
      assume a: "(h, i') \<in> set (ls_connections s1)" "i' < length (ls_objs s1)" "cn_ws (ls_objs s1 ! i') = Some j"
        "j < length (ls_sockets s1)" "sk_state (ls_sockets s1 ! j) = OPEN"
      have "j \<noteq> k"
      proof
        assume "j = k"
        with a owner [of i'] have "i' = i" "cn_ws (ls_objs s ! i) = Some k" by (auto simp: s1_def split: if_splits)
        with False a \<open>j = k\<close> show False by auto
      qed
      with told1 a show "told (sk_sent (ls_sockets s1 ! j)) (wanted s1)" by blast
    qed
    with ref1 False show ?thesis
      by (auto simp: ls_inv_def split: option.split)
  next
    case True
    then obtain j where j: "cn_ws (ls_objs s ! i) = Some j" "sk_state (ls_sockets s1 ! j) = OPEN" by blast
    then have jlen: "j < length (ls_sockets s)" using ref i by (auto simp: ref_ok_def)
    let ?f = "hear_texts (map render (resub_msgs s))"
    have f: "sk_conn (?f w) = sk_conn w" "sk_state (?f w) = sk_state w" for w by (simp_all add: hear_texts_def)
    have jlen1: "j < length (ls_sockets s1)" using jlen by (simp add: s1_def)
    have told: "told_ok (set_socket j ?f s1)"
      unfolding told_ok_def
    proof (intro allI impI)
      fix h i' m
      assume a: "(h, i') \<in> set (ls_connections (set_socket j ?f s1))" "i' < length (ls_objs (set_socket j ?f s1))"
        "cn_ws (ls_objs (set_socket j ?f s1) ! i') = Some m" "m < length (ls_sockets (set_socket j ?f s1))"
        "sk_state (ls_sockets (set_socket j ?f s1) ! m) = OPEN"
      have w: "wanted (set_socket j ?f s1) = wanted s" by (simp add: wanted_def s1_def)
      show "told (sk_sent (ls_sockets (set_socket j ?f s1) ! m)) (wanted (set_socket j ?f s1))"
      proof (cases "m = k")
        case True
        with a owner [of i'] have "i' = i" "cn_ws (ls_objs s ! i) = Some k" by (auto simp: s1_def split: if_splits)
        with j have "j = k" by simp
        have "told ([] @ map render (resub_msgs s)) (fold hear (resub_msgs s) ({}, {}))"
          by (rule told_append [OF told_Nil])
        then show ?thesis
          using True \<open>j = k\<close> k(1) empty by (simp add: w s1_def hear_texts_def hear_resub wanted_def)
      next
        case False
        with a told1 have t: "told (sk_sent (ls_sockets s1 ! m)) (wanted s)"
          using wanted1 f jlen1 by (auto split: if_splits)
        show ?thesis
        proof (cases "m = j")
          case False
          with t a(4) w show ?thesis by simp
        next
          case True
          obtain C S where cs: "wanted s = (C, S)" by fastforce
          have "fold hear (resub_msgs s) (wanted s) = wanted s"
            unfolding cs hear_resub by (simp add: cs)
          with told_append [OF t, of "resub_msgs s"] True jlen1 w show ?thesis
            by (simp add: hear_texts_def)
        qed
      qed
    qed
    have "ref_ok (set_socket j ?f s1)" "conn_ok (set_socket j ?f s1)" "subs_ok (set_socket j ?f s1)"
      using ref1 f unfolding ref_ok_def conn_ok_def subs_ok_def by (auto dest!: set_socket_set split: if_splits)
    moreover have "fresh_ok (set_socket j ?f s1)"
      using ref1(4) j(2) jlen1 f unfolding fresh_ok_def by (auto dest!: set_socket_set)
    ultimately have "ls_inv (set_socket j ?f s1)" using told by (simp add: ls_inv_def)
    with j show ?thesis by simp
  qed
  from on_open_shape [OF k(1) ref] obtain b where
    "on_open k s = (case cn_ws (ls_objs s ! i) of
       None \<Rightarrow> s1 | Some j \<Rightarrow> if sk_state (ls_sockets s1 ! j) = OPEN
         then set_socket j (hear_texts (map render (resub_msgs s))) s1 else s1)\<lparr>ls_uncaught := b\<rparr>"
    unfolding i_def s1_def by blast
  with final show ?thesis by simp
qed

lemma inv_ls_step: "ls_inv s \<Longrightarrow> ls_inv (ls_step ws_ok parse e s)"
  by (cases e) (auto simp: reconcile_start_def onModuleInit_resume_def intro: inv_reconcile_resume
      inv_onModuleDestroy inv_on_open inv_on_message inv_on_close inv_on_timer inv_subscribeToLogs
      inv_subscribeToServiceLogs inv_return_logs inv_return_service_logs)

interpretation streamer: machine "ls_step ws_ok parse" ls_inv for ws_ok parse
  by unfold_locales (rule inv_ls_step)

lemma ls_inv_init: "ls_inv (init_streamer port)"
  by (simp add: inv_defs init_streamer_def wf_map_def subs_wf_def)

end
