(* ===== verification/Log_Streamer_Properties.thy ===== *)
theory Log_Streamer_Properties
  imports Log_Streamer_Invariants
begin

text \<open>
  The properties of the log-streamer proxy: what every reachable state guarantees, how the
  subscriptions are counted, how the connections follow DNS, the waiting times, the shutdown, the
  routing of messages, and a connection that is removed and added again.
\<close>

section \<open>What connections are told\<close>

text \<open>C10: every open connection serves exactly the live subscriptions. After any sequence of method
  calls, timers and socket callbacks, in any order, the messages a connected log-streamer has
  received add up to the containers and services that are subscribed now: none is forgotten after a
  reconnection, none is left over after the last client has gone.\<close>

theorem upstream_matches_subscriptions:
  assumes "s = fold (ls_step ws_ok parse) es (init_streamer port)"
    and "(h, i) \<in> set (ls_connections s)" and "cn_ws (ls_objs s ! i) = Some k"
    and "sk_state (ls_sockets s ! k) = OPEN"
  shows "\<exists>msgs. sk_sent (ls_sockets s ! k) = map render msgs \<and>
    fold hear msgs ({}, {}) =
      (set (map_keys (ls_activeSubscriptions s)), set (map_keys (ls_activeServiceSubscriptions s)))"
proof -
  have inv: "ls_inv s" unfolding assms(1) by (rule streamer.inv_run [OF ls_inv_init])
  then have i: "i < length (ls_objs s)" using assms(2) unfolding ls_inv_def conn_ok_def by blast
  with inv assms(3) have "k < length (ls_sockets s)" unfolding ls_inv_def ref_ok_def by blast
  with i inv assms(2-4) have "told (sk_sent (ls_sockets s ! k)) (wanted s)"
    unfolding ls_inv_def told_ok_def by blast
  then show ?thesis by (simp add: told_def wanted_def)
qed

lemmas run_simps = init_streamer_def reconcile_start_def reconcile_resume_def set_of_list_def set_add_def
  add_host_def remove_host_def connectWebSocket_def new_connection_def closeConnection_def close_socket_def
  set_obj_def set_socket_def clear_timer_def scheduleReconnect_def on_open_def on_close_def on_timer_def
  onModuleDestroy_def resubscribe_messages_def subscribeToLogs_def retainSubscription_def
  releaseSubscription_def return_logs_def unsubscribeFromLogs_def broadcastToAll_def map_keys_def Let_def

definition demo_events :: "ls_event list" where
  "demo_events = [Subscribe ''c1'', ReconcileStart, DnsResult [''10.0.0.5''], SocketOpen 0, Subscribe ''c2'',
     ReturnLogs (''c1'', 0)]"

lemma upstream_matches_subscriptions_witness:
  "\<exists>msgs. sk_sent (ls_sockets (fold (ls_step (\<lambda>_. True) (\<lambda>_. None)) demo_events (init_streamer 4003)) ! 0) =
      map render msgs \<and> fold hear msgs ({}, {}) = ({''c2''}, {})"
proof -
  let ?s = "fold (ls_step (\<lambda>_. True) (\<lambda>_. None)) demo_events (init_streamer 4003)"
  have s: "(''10.0.0.5'', 0) \<in> set (ls_connections ?s)" "cn_ws (ls_objs ?s ! 0) = Some 0"
    "sk_state (ls_sockets ?s ! 0) = OPEN" "map_keys (ls_activeSubscriptions ?s) = [''c2'']"
    "map_keys (ls_activeServiceSubscriptions ?s) = []"
    by (simp_all add: demo_events_def run_simps)
  from upstream_matches_subscriptions [OF refl s(1-3)] s(4,5) show ?thesis by simp
qed

section \<open>Counting\<close>

text \<open>The specification of the counts: only the subscription events count, each for its own key.\<close>

fun count_step :: "ls_event \<Rightarrow> (string \<Rightarrow> nat) \<Rightarrow> (string \<Rightarrow> nat)" where
  "count_step (Subscribe c) f = f(c := f c + 1)"
| "count_step (ReturnLogs (c, _)) f = f(c := f c - 1)"
| "count_step _ f = f"

lemma act_scheduleReconnect [simp]: "ls_activeSubscriptions (scheduleReconnect i s) = ls_activeSubscriptions s"
  by (simp add: scheduleReconnect_def Let_def)

lemma act_connectWebSocket [simp]: "ls_activeSubscriptions (connectWebSocket ok i s) = ls_activeSubscriptions s"
  by (simp add: connectWebSocket_def Let_def)

lemma act_closeConnection [simp]: "ls_activeSubscriptions (closeConnection i s) = ls_activeSubscriptions s"
  by (simp add: closeConnection_def Let_def close_socket_def split: option.split)

lemma act_fold:
  "(\<And>x s. ls_activeSubscriptions (f x s) = ls_activeSubscriptions s) \<Longrightarrow>
   ls_activeSubscriptions (fold f xs s) = ls_activeSubscriptions s"
  by (induction xs arbitrary: s) auto

lemma act_remove_host [simp]: "ls_activeSubscriptions (remove_host h s) = ls_activeSubscriptions s"
  by (simp add: remove_host_def Let_def split: option.split)

lemma act_add_host [simp]: "ls_activeSubscriptions (add_host ok h s) = ls_activeSubscriptions s"
  by (simp add: add_host_def Let_def)

lemma act_reconcile_resume [simp]: "ls_activeSubscriptions (reconcile_resume ok hosts s) = ls_activeSubscriptions s"
  by (simp add: reconcile_resume_def Let_def act_fold)

lemma act_onModuleDestroy [simp]: "ls_activeSubscriptions (onModuleDestroy s) = ls_activeSubscriptions s"
  by (simp add: onModuleDestroy_def Let_def act_fold split_def)

lemma act_on_open [simp]: "ls_activeSubscriptions (on_open k s) = ls_activeSubscriptions s"
  by (simp add: on_open_def Let_def split: option.split socket_state.split)

lemma act_on_message [simp]: "ls_activeSubscriptions (on_message parse data s) = ls_activeSubscriptions s"
  by (simp add: on_message_def publish_def Let_def split: option.split)

lemma act_service [simp]:
  "ls_activeSubscriptions (snd (subscribeToServiceLogs v s)) = ls_activeSubscriptions s"
  "ls_activeSubscriptions (return_service_logs w s) = ls_activeSubscriptions s"
  by (simp_all add: subscribeToServiceLogs_def return_service_logs_def unsubscribeFromServiceLogs_def
      Let_def split_def)

lemma count_one_step:
  assumes "ls_inv s"
  shows "sub_count (ls_activeSubscriptions (ls_step ok parse e s)) = count_step e (sub_count (ls_activeSubscriptions s))"
proof (cases e)
  case (Subscribe c)
  then show ?thesis
    using subs.retain_count [of "ls_activeSubscriptions s" c]
    by (simp add: subscribeToLogs_def Let_def split_def)
next
  case (ReturnLogs w)
  have "subs_wf (ls_activeSubscriptions s)" using assms by (simp add: ls_inv_def subs_ok_def)
  from subs.release_count [OF this, of "fst w"] ReturnLogs show ?thesis
    by (cases w) (simp add: return_logs_def unsubscribeFromLogs_def Let_def split_def)
qed (auto simp: reconcile_start_def onModuleInit_resume_def on_close_def on_timer_def)

text \<open>C11: the reference counts implement counting. After any sequence of events the stored count of a
  container is the number of its subscriptions minus its returns, never below zero, and nothing else
  (reconnections, DNS changes, the shutdown, services) touches it.\<close>

theorem subscription_counts_exact:
  "sub_count (ls_activeSubscriptions (fold (ls_step ws_ok parse) es (init_streamer port))) =
     fold count_step es (\<lambda>_. 0)"
proof -
  have "ls_inv s \<Longrightarrow> sub_count (ls_activeSubscriptions (fold (ls_step ws_ok parse) es s)) =
      fold count_step es (sub_count (ls_activeSubscriptions s))" for s
    by (induction es arbitrary: s) (simp_all add: inv_ls_step count_one_step)
  from this [OF ls_inv_init] show ?thesis
    by (simp add: init_streamer_def sub_count_def [abs_def])
qed

section \<open>Following DNS\<close>

lemma conns_scheduleReconnect [simp]: "ls_connections (scheduleReconnect i s) = ls_connections s"
  by (simp add: scheduleReconnect_def Let_def)

lemma conns_connectWebSocket [simp]: "ls_connections (connectWebSocket ok i s) = ls_connections s"
  by (simp add: connectWebSocket_def Let_def)

lemma conns_closeConnection [simp]: "ls_connections (closeConnection i s) = ls_connections s"
  by (simp add: closeConnection_def Let_def close_socket_def split: option.split)

lemma conns_remove_host: "map_of (ls_connections (remove_host h s)) = (map_of (ls_connections s))(h := None)"
  by (auto simp: remove_host_def Let_def js_map.get_del split: option.split)

lemma conns_remove_fold:
  "map_of (ls_connections (fold (\<lambda>h s. if h \<in> D then s else remove_host h s) hs s)) x =
    (if x \<in> set hs \<and> x \<notin> D then None else map_of (ls_connections s) x)"
  by (induction hs arbitrary: s) (auto simp: conns_remove_host)

lemma conns_add_fold:
  "x \<in> C \<or> x \<notin> set hs \<Longrightarrow>
     map_of (ls_connections (fold (\<lambda>h s. if h \<in> C then s else add_host ok h s) hs s)) x = map_of (ls_connections s) x"
  "x \<notin> C \<and> x \<in> set hs \<Longrightarrow>
     map_of (ls_connections (fold (\<lambda>h s. if h \<in> C then s else add_host ok h s) hs s)) x \<noteq> None"
proof -
  have add: "map_of (ls_connections (add_host ok h s)) = (map_of (ls_connections s))(h \<mapsto> length (ls_objs s))" for h s
    by (simp add: add_host_def Let_def js_map.get_put)
  show "x \<in> C \<or> x \<notin> set hs \<Longrightarrow>
     map_of (ls_connections (fold (\<lambda>h s. if h \<in> C then s else add_host ok h s) hs s)) x = map_of (ls_connections s) x"
    by (induction hs arbitrary: s) (auto simp: add)
  have keep: "map_of (ls_connections s) x \<noteq> None \<Longrightarrow>
     map_of (ls_connections (fold (\<lambda>h s. if h \<in> C then s else add_host ok h s) hs s)) x \<noteq> None" for s hs
    by (induction hs arbitrary: s) (auto simp: add)
  show "x \<notin> C \<and> x \<in> set hs \<Longrightarrow>
     map_of (ls_connections (fold (\<lambda>h s. if h \<in> C then s else add_host ok h s) hs s)) x \<noteq> None"
  proof (induction hs arbitrary: s)
    case (Cons h hs)
    then show ?case using keep [of "add_host ok x s" hs] by (cases "h = x") (auto simp: add)
  qed simp
qed

text \<open>C12: after a reconciliation there is a connection for each discovered host and for no other,
  and a host that stays keeps its connection object, with its socket and its attempts.\<close>

theorem reconcile_follows_dns:
  "set (map_keys (ls_connections (reconcile_resume ws_ok hosts s))) = set hosts \<and>
   (\<forall>h \<in> set hosts. h \<in> set (map_keys (ls_connections s)) \<longrightarrow>
      map_of (ls_connections (reconcile_resume ws_ok hosts s)) h = map_of (ls_connections s) h)"
proof -
  let ?r = "reconcile_resume ws_ok hosts s" and ?C = "set (map_keys (ls_connections s))"
  have "map_of (ls_connections ?r) h = None \<longleftrightarrow> h \<notin> set hosts" for h
  proof (cases "h \<in> ?C")
    case True
    then have "map_of (ls_connections ?r) h = (if h \<notin> set hosts then None else map_of (ls_connections s) h)"
      by (simp add: reconcile_resume_def Let_def conns_add_fold(1) conns_remove_fold)
    with True show ?thesis using js_map.get_keys [of "ls_connections s" h] by simp
  next
    case False
    then have none: "map_of (ls_connections s) h = None" using js_map.get_keys by metis
    show ?thesis
    proof (cases "h \<in> set hosts")
      case True
      with False show ?thesis by (simp add: reconcile_resume_def Let_def conns_add_fold(2))
    next
      case notin: False
      with False none show ?thesis
        by (simp add: reconcile_resume_def Let_def conns_add_fold(1) conns_remove_fold)
    qed
  qed
  moreover have "map_of (ls_connections ?r) h = map_of (ls_connections s) h" if "h \<in> set hosts" "h \<in> ?C" for h
    using that by (simp add: reconcile_resume_def Let_def conns_add_fold(1) conns_remove_fold)
  moreover have "h \<in> set (map_keys (ls_connections ?r)) \<longleftrightarrow> map_of (ls_connections ?r) h \<noteq> None" for h
    using js_map.get_keys [of "ls_connections ?r" h] by simp
  ultimately show ?thesis by auto
qed

lemma reconcile_follows_dns_witness:
  "set (map_keys (ls_connections (reconcile_resume (\<lambda>_. True) [''b''] (init_streamer 4003)))) = {''b''}"
  using reconcile_follows_dns [of "\<lambda>_. True" "[''b'']" "init_streamer 4003"] by simp


section \<open>Waiting before a reconnection\<close>

lemma reconnect_delay_eq: "reconnect_delay (Suc n) = (if n < 5 then 1000 * 2 ^ n else 30000)"
proof (cases "n < 5")
  case True
  then have "n = 0 \<or> n = 1 \<or> n = 2 \<or> n = 3 \<or> n = 4" by auto
  then show ?thesis by (auto simp: reconnect_delay_def BASE_RECONNECT_MS_def MAX_RECONNECT_MS_def)
next
  case False
  then have "(2::int) ^ 5 \<le> 2 ^ n" by (intro power_increasing) auto
  with False show ?thesis by (simp add: reconnect_delay_def BASE_RECONNECT_MS_def MAX_RECONNECT_MS_def)
qed

lemma reconnect_delay_bounds: "1000 \<le> reconnect_delay (Suc n) \<and> reconnect_delay (Suc n) \<le> 30000"
proof -
  have "(1::int) \<le> 2 ^ n" by simp
  then show ?thesis by (simp add: reconnect_delay_def BASE_RECONNECT_MS_def MAX_RECONNECT_MS_def)
qed

definition delays_in :: "timer list \<Rightarrow> bool" where
  "delays_in ts \<longleftrightarrow> (\<forall>t \<in> set ts. 1000 \<le> tm_delay t \<and> tm_delay t \<le> 30000)"

abbreviation delays_ok :: "streamer \<Rightarrow> bool" where
  "delays_ok s \<equiv> delays_in (ls_timers s)"

text \<open>The steps that leave the timers alone, and those that stop or add one.\<close>

lemma timers_set [simp]: "ls_timers (broadcastToAll m s) = ls_timers s"
proof -
  have "ls_timers (fold (\<lambda>(_, i) s. case cn_ws (ls_objs s ! i) of None \<Rightarrow> s
      | Some k \<Rightarrow> set_socket k (\<lambda>w. if sk_state w = OPEN then w\<lparr>sk_sent := sk_sent w @ [m]\<rparr> else w) s) cs s) =
      ls_timers s" for cs
    by (induction cs arbitrary: s) (auto split: option.split)
  then show ?thesis by (simp add: broadcastToAll_def)
qed

lemma timers_on_open [simp]: "ls_timers (on_open k s) = ls_timers s"
  by (simp add: on_open_def Let_def split: option.split socket_state.split)

lemma timers_on_message [simp]: "ls_timers (on_message parse data s) = ls_timers s"
  by (simp add: on_message_def publish_def Let_def split: option.split)

lemma timers_subscriptions [simp]:
  "ls_timers (snd (subscribeToLogs c s)) = ls_timers s"
  "ls_timers (snd (subscribeToServiceLogs v s)) = ls_timers s"
  "ls_timers (return_logs w s) = ls_timers s" "ls_timers (return_service_logs w s) = ls_timers s"
  by (simp_all add: subscribeToLogs_def subscribeToServiceLogs_def return_logs_def return_service_logs_def
      unsubscribeFromLogs_def unsubscribeFromServiceLogs_def Let_def split_def)

lemma timers_add_conn [simp]: "ls_timers (s\<lparr>ls_objs := x, ls_connections := y\<rparr>) = ls_timers s"
  by simp

lemma delays_clear_timer: "delays_ok s \<Longrightarrow> delays_ok (clear_timer t s)"
  by (auto simp: delays_in_def clear_timer_def dest!: set_update_subset_insert [THEN subsetD])

lemma delays_scheduleReconnect: "delays_ok s \<Longrightarrow> delays_ok (scheduleReconnect i s)"
  using reconnect_delay_bounds by (auto simp: delays_in_def scheduleReconnect_def Let_def)

lemma delays_connectWebSocket: "delays_ok s \<Longrightarrow> delays_ok (connectWebSocket ok i s)"
  using delays_scheduleReconnect [of s i] by (simp add: connectWebSocket_def Let_def)

lemma delays_closeConnection: "delays_ok s \<Longrightarrow> delays_ok (closeConnection i s)"
  using delays_clear_timer [of s]
  by (simp add: closeConnection_def close_socket_def Let_def split: option.split)

lemma delays_remove_host: "delays_ok s \<Longrightarrow> delays_ok (remove_host h s)"
  using delays_closeConnection [of s] by (simp add: remove_host_def Let_def split: option.split)

lemma delays_add_host: "delays_ok s \<Longrightarrow> delays_ok (add_host ok h s)"
  by (simp add: add_host_def Let_def delays_connectWebSocket)

lemma fold_keeps: "P s \<Longrightarrow> (\<And>x s. P s \<Longrightarrow> P (f x s)) \<Longrightarrow> P (fold f xs s)"
  by (induction xs arbitrary: s) auto

lemma delays_reconcile_resume:
  assumes "delays_ok s"
  shows "delays_ok (reconcile_resume ok hosts s)"
proof -
  have "delays_ok (fold (\<lambda>h s. if h \<in> D then s else remove_host h s) cs s)" for D cs
    by (rule fold_keeps [where P = "\<lambda>s. delays_ok s"]) (use assms delays_remove_host in auto)
  then have "delays_ok (fold (\<lambda>h s. if h \<in> C then s else add_host ok h s) hs
      (fold (\<lambda>h s. if h \<in> D then s else remove_host h s) cs s))" for C hs D cs
    by (rule fold_keeps [where P = "\<lambda>s. delays_ok s"]) (use delays_add_host in auto)
  then show ?thesis by (simp add: reconcile_resume_def Let_def)
qed

lemma delays_onModuleDestroy:
  assumes "delays_ok s"
  shows "delays_ok (onModuleDestroy s)"
proof -
  let ?s = "s\<lparr>ls_isShuttingDown := True, ls_dnsRefreshInterval := False\<rparr>"
  have "delays_ok (fold (\<lambda>c s. closeConnection (snd c) s) cs ?s)" for cs :: "(string \<times> nat) list"
    by (rule fold_keeps [where P = "\<lambda>s. delays_ok s"]) (use assms delays_closeConnection in auto)
  then show ?thesis by (simp add: onModuleDestroy_def Let_def split_def)
qed

lemma delays_ls_step: "delays_ok s \<Longrightarrow> delays_ok (ls_step ok parse e s)"
  by (cases e) (simp_all add: on_timer_def on_close_def onModuleInit_resume_def reconcile_start_def
      delays_connectWebSocket delays_clear_timer delays_scheduleReconnect delays_reconcile_resume
      delays_onModuleDestroy)

interpretation delays: machine "ls_step ws_ok parse" delays_ok for ws_ok parse
  by unfold_locales (rule delays_ls_step)

text \<open>The reconnections back off. No timer is ever set for less than a second or more than
  thirty; each closing of the socket of a known host sets a timer of twice the previous delay, one
  second after a successful opening, thirty from the sixth failure on.\<close>

theorem reconnections_back_off:
  assumes "s = fold (ls_step ws_ok parse) es (init_streamer port)"
  shows "(\<forall>t \<in> set (ls_timers s). 1000 \<le> tm_delay t \<and> tm_delay t \<le> 30000) \<and>
    (\<forall>k i. k < length (ls_sockets s) \<and> sk_conn (ls_sockets s ! k) = i \<and> i < length (ls_objs s) \<and>
       \<not> ls_isShuttingDown s \<and> map_of (ls_connections s) (cn_host (ls_objs s ! i)) \<noteq> None \<longrightarrow>
       (let n = cn_reconnectAttempts (ls_objs s ! i); s' = on_close k s in
        ls_timers s' = ls_timers s @
          [\<lparr>tm_conn = i, tm_delay = (if n < 5 then 1000 * 2 ^ n else 30000), tm_live = True\<rparr>] \<and>
        cn_reconnectAttempts (ls_objs s' ! i) = n + 1) \<and>
       cn_reconnectAttempts (ls_objs (on_open k s) ! i) = 0)"
proof -
  have "delays_ok s" unfolding assms by (rule delays.inv_run) (simp add: delays_in_def init_streamer_def)
  then have "\<forall>t \<in> set (ls_timers s). 1000 \<le> tm_delay t \<and> tm_delay t \<le> 30000" by (simp add: delays_in_def)
  moreover have "ls_timers (on_close k s) = ls_timers s @
      [\<lparr>tm_conn = i, tm_delay = reconnect_delay (Suc (cn_reconnectAttempts (ls_objs s ! i))), tm_live = True\<rparr>] \<and>
      cn_reconnectAttempts (ls_objs (on_close k s) ! i) = cn_reconnectAttempts (ls_objs s ! i) + 1"
    if "k < length (ls_sockets s)" "sk_conn (ls_sockets s ! k) = i" "i < length (ls_objs s)"
      "\<not> ls_isShuttingDown s" "map_of (ls_connections s) (cn_host (ls_objs s ! i)) \<noteq> None" for k i
    using that by (simp add: on_close_def scheduleReconnect_def Let_def)
  moreover have "cn_reconnectAttempts (ls_objs (on_open k s) ! i) = 0"
    if "k < length (ls_sockets s)" "sk_conn (ls_sockets s ! k) = i" "i < length (ls_objs s)" for k i
    using that by (simp add: on_open_def Let_def split: option.split socket_state.split)
  ultimately show ?thesis unfolding Let_def reconnect_delay_eq by simp
qed

lemma reconnections_back_off_witness:
  "ls_timers (on_close 1 (fold (ls_step (\<lambda>_. True) (\<lambda>_. None))
      [ReconcileStart, DnsResult [''h''], SocketClose 0, TimerFires 0] (init_streamer 4003))) =
    [\<lparr>tm_conn = 0, tm_delay = 1000, tm_live = False\<rparr>, \<lparr>tm_conn = 0, tm_delay = 2000, tm_live = True\<rparr>]"
proof -
  let ?es = "[ReconcileStart, DnsResult [''h''], SocketClose 0, TimerFires 0]"
  let ?s = "fold (ls_step (\<lambda>_. True) (\<lambda>_. None)) ?es (init_streamer 4003)"
  have "length (ls_sockets ?s) = 2" "sk_conn (ls_sockets ?s ! 1) = 0" "length (ls_objs ?s) = 1"
    "\<not> ls_isShuttingDown ?s" "map_of (ls_connections ?s) (cn_host (ls_objs ?s ! 0)) \<noteq> None"
    "cn_reconnectAttempts (ls_objs ?s ! 0) = 1"
    "ls_timers ?s = [\<lparr>tm_conn = 0, tm_delay = 1000, tm_live = False\<rparr>]"
    by (simp_all add: run_simps reconnect_delay_def BASE_RECONNECT_MS_def MAX_RECONNECT_MS_def)
  then show ?thesis
    using reconnections_back_off [of ?s "\<lambda>_. True" "\<lambda>_. None" ?es 4003, OF refl]
    by (simp add: Let_def)
qed

section \<open>Shutting down\<close>

definition quiet :: "nat \<Rightarrow> nat \<Rightarrow> streamer \<Rightarrow> bool" where
  "quiet n m s \<longleftrightarrow> ls_isShuttingDown s \<and> length (ls_sockets s) = n \<and> length (ls_timers s) = m"

lemma quiet_flags [simp]:
  "quiet n m (s\<lparr>ls_objs := a\<rparr>) = quiet n m s" "quiet n m (s\<lparr>ls_connections := b\<rparr>) = quiet n m s"
  "quiet n m (s\<lparr>ls_dnsRefreshInterval := c\<rparr>) = quiet n m s" "quiet n m (s\<lparr>ls_pendingDns := d\<rparr>) = quiet n m s"
  "quiet n m (s\<lparr>ls_activeSubscriptions := f\<rparr>) = quiet n m s"
  "quiet n m (s\<lparr>ls_activeServiceSubscriptions := f\<rparr>) = quiet n m s"
  "quiet n m (s\<lparr>ls_preSubs := g\<rparr>) = quiet n m s" "quiet n m (s\<lparr>ls_nextSubId := h\<rparr>) = quiet n m s"
  "quiet n m (s\<lparr>ls_published := i\<rparr>) = quiet n m s" "quiet n m (s\<lparr>ls_uncaught := j\<rparr>) = quiet n m s"
  "quiet n m (set_obj k l s) = quiet n m s" "quiet n m (set_socket p q s) = quiet n m s"
  "quiet n m (clear_timer t s) = quiet n m s"
  by (simp_all add: quiet_def)

lemma quiet_broadcast [simp]: "quiet n m (broadcastToAll msg s) = quiet n m s"
proof -
  have "quiet n m (fold (\<lambda>(_, i) s. case cn_ws (ls_objs s ! i) of None \<Rightarrow> s
      | Some k \<Rightarrow> set_socket k (\<lambda>w. if sk_state w = OPEN then w\<lparr>sk_sent := sk_sent w @ [msg]\<rparr> else w) s) cs s) =
      quiet n m s" for cs
    by (induction cs arbitrary: s) (simp_all split: option.split prod.split)
  then show ?thesis by (simp add: broadcastToAll_def)
qed

lemma quiet_connections [simp]:
  "quiet n m s \<Longrightarrow> scheduleReconnect i s = s" "quiet n m s \<Longrightarrow> connectWebSocket ok i s = s"
  "quiet n m (closeConnection i s) = quiet n m s"
  by (simp_all add: quiet_def scheduleReconnect_def connectWebSocket_def closeConnection_def
      close_socket_def Let_def split: option.split)

lemma quiet_hosts:
  "quiet n m s \<Longrightarrow> quiet n m (remove_host h s)" "quiet n m s \<Longrightarrow> quiet n m (add_host ok h s)"
  by (auto simp: remove_host_def add_host_def Let_def quiet_connections(2) [of n m] split: option.split)

lemma quiet_reconcile_resume:
  assumes "quiet n m s"
  shows "quiet n m (reconcile_resume ok hosts s)"
  unfolding reconcile_resume_def Let_def
  by (intro fold_keeps [where P = "quiet n m"] assms) (auto intro: quiet_hosts)

lemma quiet_onModuleDestroy:
  assumes "quiet n m s"
  shows "quiet n m (onModuleDestroy s)"
proof -
  have "quiet n m (s\<lparr>ls_isShuttingDown := True, ls_dnsRefreshInterval := False\<rparr>)"
    using assms by (simp add: quiet_def)
  then have "quiet n m (fold (\<lambda>c. closeConnection (snd c)) cs
      (s\<lparr>ls_isShuttingDown := True, ls_dnsRefreshInterval := False\<rparr>))" for cs :: "(string \<times> nat) list"
    by (rule fold_keeps) simp
  then show ?thesis by (simp add: onModuleDestroy_def Let_def split_def)
qed

lemma quiet_on_open: "quiet n m s \<Longrightarrow> quiet n m (on_open k s)"
  by (simp add: on_open_def Let_def split: option.split socket_state.split)

lemma quiet_on_message: "quiet n m s \<Longrightarrow> quiet n m (on_message parse data s)"
  by (simp add: on_message_def publish_def Let_def split: option.split)

lemma quiet_on_close: "quiet n m s \<Longrightarrow> quiet n m (on_close k s)"
  by (simp add: on_close_def quiet_connections(1) [of n m])

lemma quiet_on_timer: "quiet n m s \<Longrightarrow> quiet n m (on_timer ok t s)"
  by (simp add: on_timer_def quiet_connections(2) [of n m])

lemma quiet_subscriptions:
  "quiet n m s \<Longrightarrow> quiet n m (snd (subscribeToLogs c s))"
  "quiet n m s \<Longrightarrow> quiet n m (snd (subscribeToServiceLogs v s))"
  "quiet n m s \<Longrightarrow> quiet n m (return_logs w s)" "quiet n m s \<Longrightarrow> quiet n m (return_service_logs w s)"
  by (simp_all add: subscribeToLogs_def subscribeToServiceLogs_def return_logs_def return_service_logs_def
      unsubscribeFromLogs_def unsubscribeFromServiceLogs_def Let_def split_def)

lemma quiet_ls_step: "quiet n m s \<Longrightarrow> quiet n m (ls_step ok parse e s)"
  by (cases e) (simp_all add: onModuleInit_resume_def reconcile_start_def quiet_reconcile_resume
      quiet_onModuleDestroy quiet_on_open quiet_on_message quiet_on_close quiet_on_timer quiet_subscriptions)

interpretation quiet: machine "ls_step ws_ok parse" "quiet n m" for ws_ok parse n m
  by unfold_locales (rule quiet_ls_step)

lemma onModuleDestroy_lengths:
  "quiet (length (ls_sockets s)) (length (ls_timers s)) (onModuleDestroy s)"
proof -
  have "quiet (length (ls_sockets s)) (length (ls_timers s)) (s\<lparr>ls_isShuttingDown := True, ls_dnsRefreshInterval := False\<rparr>)"
    by (simp add: quiet_def)
  then have "quiet (length (ls_sockets s)) (length (ls_timers s)) (fold (\<lambda>c. closeConnection (snd c)) cs
      (s\<lparr>ls_isShuttingDown := True, ls_dnsRefreshInterval := False\<rparr>))" for cs :: "(string \<times> nat) list"
    by (rule fold_keeps) simp
  then show ?thesis by (simp add: onModuleDestroy_def Let_def split_def)
qed

text \<open>A module that has been destroyed stays quiet. Whatever arrives after \<open>onModuleDestroy\<close>, a
  pending DNS answer, a closing socket or a timer that was still running, no WebSocket is created and
  no timer is set, and the interval of the DNS refresh is gone until such an answer.\<close>

theorem destroyed_stays_quiet:
  "length (ls_sockets (fold (ls_step ws_ok parse) es (onModuleDestroy s))) = length (ls_sockets s) \<and>
   length (ls_timers (fold (ls_step ws_ok parse) es (onModuleDestroy s))) = length (ls_timers s) \<and>
   \<not> ls_dnsRefreshInterval (onModuleDestroy s) \<and> ls_connections (onModuleDestroy s) = []"
proof -
  have "ls_dnsRefreshInterval (closeConnection i s) = ls_dnsRefreshInterval s" for i s
    by (simp add: closeConnection_def close_socket_def clear_timer_def set_obj_def set_socket_def Let_def
        split: option.split)
  then have "ls_dnsRefreshInterval (fold (\<lambda>(_, i). closeConnection i) cs s) = ls_dnsRefreshInterval s"
    for cs :: "(string \<times> nat) list" and s
    by (induction cs arbitrary: s) (simp_all split: prod.split)
  then have "\<not> ls_dnsRefreshInterval (onModuleDestroy s) \<and> ls_connections (onModuleDestroy s) = []"
    by (simp add: onModuleDestroy_def Let_def)
  with quiet.inv_run [OF onModuleDestroy_lengths] show ?thesis unfolding quiet_def by blast
qed

section \<open>Where messages go\<close>

definition well_routed :: "string \<times> json \<Rightarrow> bool" where
  "well_routed p \<longleftrightarrow>
     (\<exists>cid l. p = (''CONTAINER_LOG.'' @ cid, JObj [(''containerLog'', l)]) \<and> cid \<noteq> [] \<and>
        string_prop l ''containerId'' = Some cid) \<or>
     (\<exists>svc l. p = (''SERVICE_LOG.'' @ svc, JObj [(''serviceLog'', l)]) \<and> svc \<noteq> [] \<and>
        string_prop l ''serviceName'' = Some svc)"

definition all_routed :: "(string \<times> json) list \<Rightarrow> bool" where
  "all_routed ps \<longleftrightarrow> (\<forall>p \<in> set ps. well_routed p)"

lemma routed_container: "cid \<noteq> [] \<Longrightarrow> well_routed (''CONTAINER_LOG.'' @ cid, container_payload cid m)"
  by (simp add: well_routed_def container_payload_def string_prop_def json_prop_def)

lemma routed_service: "svc \<noteq> [] \<Longrightarrow> well_routed (''SERVICE_LOG.'' @ svc, service_payload cid svc m strm ev)"
  by (simp add: well_routed_def service_payload_def string_prop_def json_prop_def)

lemma published_on_message:
  "all_routed (ls_published s) \<Longrightarrow> all_routed (ls_published (on_message parse data s))"
  by (auto simp: on_message_def publish_def all_routed_def Let_def truthy_iff routed_container [simplified] routed_service [simplified]
      split: option.split)

text \<open>Nothing else publishes.\<close>

lemma pub_set_obj [simp]: "ls_published (set_obj i f s) = ls_published s"
  "ls_published (set_socket k g s) = ls_published s" "ls_published (clear_timer t s) = ls_published s"
  by (simp_all add: set_obj_def set_socket_def clear_timer_def)

lemma pub_connections [simp]:
  "ls_published (scheduleReconnect i s) = ls_published s" "ls_published (connectWebSocket ok i s) = ls_published s"
  "ls_published (closeConnection i s) = ls_published s" "ls_published (remove_host h s) = ls_published s"
  "ls_published (add_host ok h s) = ls_published s" "ls_published (on_open k s) = ls_published s"
proof -
  show sr [simp]: "ls_published (scheduleReconnect i s) = ls_published s" for i s
    by (simp add: scheduleReconnect_def Let_def)
  show cw [simp]: "ls_published (connectWebSocket ok i s) = ls_published s" for i s
    by (simp add: connectWebSocket_def Let_def)
  show cc [simp]: "ls_published (closeConnection i s) = ls_published s" for i s
    by (simp add: closeConnection_def close_socket_def Let_def split: option.split)
  show "ls_published (remove_host h s) = ls_published s"
    by (simp add: remove_host_def Let_def split: option.split)
  show "ls_published (add_host ok h s) = ls_published s"
    by (simp add: add_host_def Let_def)
  show "ls_published (on_open k s) = ls_published s"
    by (simp add: on_open_def Let_def split: option.split socket_state.split)
qed

lemma pub_fold: "(\<And>x s. ls_published (f x s) = ls_published s) \<Longrightarrow> ls_published (fold f xs s) = ls_published s"
  by (induction xs arbitrary: s) auto

lemma pub_broadcast [simp]: "ls_published (broadcastToAll m s) = ls_published s"
  unfolding broadcastToAll_def by (rule pub_fold) (simp split: prod.split option.split)

lemma pub_reconcile [simp]:
  "ls_published (reconcile_resume ok hosts s) = ls_published s" "ls_published (onModuleDestroy s) = ls_published s"
  by (simp_all add: reconcile_resume_def onModuleDestroy_def Let_def pub_fold split_def)

lemma pub_subscriptions [simp]:
  "ls_published (snd (subscribeToLogs c s)) = ls_published s"
  "ls_published (snd (subscribeToServiceLogs v s)) = ls_published s"
  "ls_published (return_logs w s) = ls_published s" "ls_published (return_service_logs w s) = ls_published s"
  by (simp_all add: subscribeToLogs_def subscribeToServiceLogs_def return_logs_def return_service_logs_def
      unsubscribeFromLogs_def unsubscribeFromServiceLogs_def Let_def split_def)

interpretation routed: machine "ls_step ws_ok parse" "\<lambda>s. all_routed (ls_published s)" for ws_ok parse
proof
  fix s :: streamer and e :: ls_event
  assume "all_routed (ls_published s)"
  then show "all_routed (ls_published (ls_step ws_ok parse e s))"
    by (cases e) (simp_all add: published_on_message on_close_def on_timer_def onModuleInit_resume_def reconcile_start_def)
qed

text \<open>Logs reach only the subscribers of their container or service. After any sequence of
  events, whatever has been published on the topic of a container carries that container's id, and
  whatever has been published on the topic of a service carries that service's name.\<close>

theorem logs_reach_their_topic:
  assumes "(topic, payload) \<in> set (ls_published (fold (ls_step ws_ok parse) es (init_streamer port)))"
  shows "(topic = ''CONTAINER_LOG.'' @ c \<longrightarrow>
      (\<exists>l. json_prop payload ''containerLog'' = Some l \<and> string_prop l ''containerId'' = Some c)) \<and>
    (topic = ''SERVICE_LOG.'' @ v \<longrightarrow>
      (\<exists>l. json_prop payload ''serviceLog'' = Some l \<and> string_prop l ''serviceName'' = Some v))"
proof -
  have "all_routed (ls_published (fold (ls_step ws_ok parse) es (init_streamer port)))"
    by (rule routed.inv_run) (simp add: all_routed_def init_streamer_def)
  with assms have "well_routed (topic, payload)" by (auto simp: all_routed_def)
  then show ?thesis by (auto simp: well_routed_def json_prop_def)
qed

definition demo_log :: json where
  "demo_log = JObj [(''type'', JStr ''log''), (''containerId'', JStr ''c1''), (''message'', JStr ''up'')]"

lemma logs_reach_their_topic_witness:
  "string_prop (JObj [(''containerId'', JStr ''c1''), (''message'', JStr ''up'')]) ''containerId'' = Some ''c1''"
proof -
  have "(''CONTAINER_LOG.'' @ ''c1'', container_payload ''c1'' demo_log) \<in>
      set (ls_published (fold (ls_step (\<lambda>_. True) (\<lambda>_. Some demo_log)) [SocketMessage ''x''] (init_streamer 4003)))"
    by (simp add: on_message_def demo_log_def string_prop_def json_prop_def publish_def init_streamer_def Let_def)
  from logs_reach_their_topic [OF this, of "''c1''"] show ?thesis
    by (simp add: container_payload_def demo_log_def opt_entry_def string_prop_def json_prop_def)
qed

section \<open>A host that comes back\<close>

text \<open>
  \<open>scheduleReconnect\<close> looks the host up in the map, not the connection: the comment promises that a
  connection removed by the reconciliation is not reconnected.
\<close>

definition readded_host :: "ls_event list" where
  "readded_host = [Subscribe ''c1'', ReconcileStart, DnsResult [''h''], SocketOpen 0,
     ReconcileStart, DnsResult [], ReconcileStart, DnsResult [''h''], SocketOpen 1,
     SocketClose 0, TimerFires 0, SocketOpen 2]"

text \<open>A host that disappears from DNS and comes back before the old socket has closed is connected
  twice. The removed connection reconnects and stays: two open sockets are subscribed to the same
  container, so each of its log lines is published twice, and no connection of the map owns one of them.\<close>

theorem readded_host_connected_twice:
  "let s = fold (ls_step (\<lambda>_. True) parse) readded_host (init_streamer port) in
     map sk_state (ls_sockets s) = [CLOSED, OPEN, OPEN] \<and>
     sk_sent (ls_sockets s ! 1) = [ws_message ''subscribe'' ''containerId'' ''c1''] \<and>
     sk_sent (ls_sockets s ! 2) = [ws_message ''subscribe'' ''containerId'' ''c1''] \<and>
     ls_connections s = [(''h'', 1)] \<and> sk_conn (ls_sockets s ! 2) = 0"
  by (simp add: readded_host_def run_simps)

section \<open>Queries\<close>

lemma foldl_append_concat: "foldl (\<lambda>a v. a @ v) acc xs = acc @ concat xs"
  by (induction xs arbitrary: acc) auto

lemma foldl_add_unseen_concat:
  "foldl (\<lambda>acc v. foldl add_unseen acc v) acc xs = foldl add_unseen acc (concat xs)"
  by (induction xs arbitrary: acc) auto

lemma add_unseen_inv:
  assumes "\<forall>i. i \<in> set seen \<longleftrightarrow> i \<in> st_id ` set stats" "distinct (map st_id stats)"
  shows "distinct (map st_id (snd (foldl add_unseen (seen, stats) xs))) \<and>
    st_id ` set (snd (foldl add_unseen (seen, stats) xs)) = st_id ` set stats \<union> st_id ` set xs \<and>
    (\<forall>y \<in> set (snd (foldl add_unseen (seen, stats) xs)). find (\<lambda>z. st_id z = st_id y) (stats @ xs) = Some y)"
  using assms
proof (induction xs arbitrary: seen stats)
  case Nil
  have "find (\<lambda>z. st_id z = st_id y) stats = Some y" if "y \<in> set stats" for y
    using that Nil.prems(2) by (induction stats) (auto simp: rev_image_eqI)
  with Nil show ?case by simp
next
  case (Cons x xs)
  show ?case
  proof (cases "st_id x \<in> set seen")
    case True
    then have "st_id x \<in> st_id ` set stats" using Cons.prems(1) by blast
    have skip: "find P (stats @ x # xs) = find P (stats @ xs)" if "P x \<Longrightarrow> \<exists>y \<in> set stats. P y" for P
      using that by (induction stats) auto
    have "find (\<lambda>z. st_id z = i) (stats @ x # xs) = find (\<lambda>z. st_id z = i) (stats @ xs)" for i
      by (rule skip) (use \<open>st_id x \<in> st_id ` set stats\<close> in auto)
    with True Cons.IH [OF Cons.prems] \<open>st_id x \<in> st_id ` set stats\<close> show ?thesis
      by (auto simp: add_unseen_def)
  next
    case False
    then have "st_id x \<notin> st_id ` set stats" using Cons.prems(1) by blast
    with Cons.IH [of "set_add (st_id x) seen" "stats @ [x]"] Cons.prems False show ?thesis
      by (simp add: add_unseen_def)
  qed
qed

text \<open>A query to every log-streamer survives the failure of some. \<open>listContainers\<close> answers with
  the containers of the hosts that answered, in their order; \<open>getContainerStats\<close> with exactly one
  entry for each container some host reported, the one of the first such host.\<close>

theorem container_queries:
  assumes "containerIds \<noteq> []"
  shows "let answered = (\<lambda>path. fulfilled (map (\<lambda>h. fetch (''http://'' @ h @ '':'' @ show_int port @ path)) hosts));
      stats = concat (fulfilled (map (\<lambda>h. fetch' (''http://'' @ h @ '':'' @ show_int port @ ''/api/stats?ids='' @
                             join '','' containerIds)) hosts)) in
    listContainers (Inr hosts) port fetch = Inr (concat (answered ''/api/containers'')) \<and>
    (\<exists>r. getContainerStats (Inr hosts) port fetch' containerIds = Inr r \<and> distinct (map st_id r) \<and>
       st_id ` set r = st_id ` set stats \<and>
       (\<forall>y \<in> set r. find (\<lambda>z. st_id z = st_id y) stats = Some y))"
  unfolding Let_def
  using assms add_unseen_inv [of "[]" "[]"]
  by (simp add: listContainers_def getContainerStats_def foldl_append_concat foldl_add_unseen_concat del: set_concat)

lemma container_queries_witness:
  "\<exists>r. getContainerStats (Inr [''a'', ''b'']) 4003
      (\<lambda>url. if url = ''http://a:4003/api/stats?ids=x'' then Inl ''down''
             else Inr [\<lparr>st_id = ''x'', st_name = ''n'', st_cpuPercent = (1::int), st_memUsage = 2, st_memLimit = 3\<rparr>])
      [''x''] = Inr r \<and> distinct (map st_id r)"
  using container_queries [of "[''x'']" "\<lambda>_. Inl ''down''" 4003 "[''a'', ''b'']"
      "\<lambda>url. if url = ''http://a:4003/api/stats?ids=x'' then Inl ''down''
             else Inr [\<lparr>st_id = ''x'', st_name = ''n'', st_cpuPercent = (1::int), st_memUsage = 2, st_memLimit = 3\<rparr>]"]
  unfolding Let_def by blast

end
