(* ===== verification/Log_History_Properties.thy ===== *)
theory Log_History_Properties
  imports Log_History_Search
begin

text \<open>
  What the merged answers of the log search guarantee: order, limit, node filter, the sums of the
  statistics, and the list of applications.
\<close>

section \<open>Collecting the lines\<close>

definition kept :: "LogSearchInput \<Rightarrow> ('e + LogSearchResponse) list \<Rightarrow> LogSearchResponse list" where
  "kept inp results = filter (\<lambda>d. \<not> node_skipped (si_node inp) (lr_node d)) (fulfilled results)"

definition lines_of :: "LogSearchResponse \<Rightarrow> LogLine list" where
  "lines_of d = map (\<lambda>line. line\<lparr>ll_node := lr_node d\<rparr>) (nullish_default (lr_lines d) [])"

lemma collect_lines:
  "fold (add_lines f) ds (ls, m) =
     (ls @ concat (map lines_of (filter (\<lambda>d. \<not> node_skipped f (lr_node d)) ds)),
      m \<or> (\<exists>d \<in> set (filter (\<lambda>d. \<not> node_skipped f (lr_node d)) ds). lr_hasMore d))"
  by (induction ds arbitrary: ls m) (auto simp: add_lines_def lines_of_def)

definition ts :: "LogLine \<Rightarrow> string" where
  "ts l = nullish_default (ll_timestamp l) []"

lemma search_eq:
  "search cmp (Inr hosts) port fetchLines fetchStats inp =
     (let urls = map (\<lambda>ip. ''http://'' @ ip @ '':'' @ show_int port) hosts;
          ds = kept inp (map (\<lambda>u. fetchLines (u @ ''/api/logs/search'') (search_params inp)) urls);
          sorted = js_sort (\<lambda>a b. cmp (ts a) (ts b)) (concat (map lines_of ds));
          limit = nullish_default (si_limit inp) 100;
          summary = mergeStats (map (\<lambda>u. fetchStats (u @ ''/api/logs/stats'') (stats_params inp)) urls) (si_node inp)
      in Inr \<lparr>sr_lines = (if limit < int (length sorted) then slice_to limit sorted else sorted),
              sr_hasMore = (limit < int (length sorted) \<or> (\<exists>d \<in> set ds. lr_hasMore d)),
              sr_summary = summary\<rparr>)"
  by (simp add: search_def discoverLogStreamerUrls_def collect_lines kept_def ts_def [abs_def] Let_def comp_def)

lemma search_lines:
  assumes "0 \<le> nullish_default (si_limit inp) 100"
    and "search localeCompare (Inr hosts) port fetchLines fetchStats inp = Inr r"
  defines "ds \<equiv> kept inp (map (\<lambda>ip. fetchLines (''http://'' @ ip @ '':'' @ show_int port @ ''/api/logs/search'')
                              (search_params inp)) hosts)"
  defines "xs \<equiv> js_sort (\<lambda>a b. localeCompare (ts a) (ts b)) (concat (map lines_of ds))"
  shows "sr_lines r = take (nat (nullish_default (si_limit inp) 100)) xs"
    and "sr_hasMore r \<longleftrightarrow> nullish_default (si_limit inp) 100 < int (length xs) \<or> (\<exists>d \<in> set ds. lr_hasMore d)"
  using assms by (auto simp: search_eq Let_def comp_def slice_to_def)

text \<open>A log search is the ordered merge of the answers. With a consistent \<open>localeCompare\<close> and a
  limit that is not negative, the result holds at most \<open>limit\<close> lines in the order of their
  timestamps; they are a prefix of the sorted lines of the hosts that answered, restricted to the
  chosen node, so every line left out is at least as late as every line shown; \<open>hasMore\<close> says exactly
  whether a host has more or lines were cut; and each line names the node it came from.\<close>

theorem log_search_merges:
  assumes "comparator localeCompare" and "0 \<le> nullish_default (si_limit inp) 100"
    and "ds = kept inp (map (\<lambda>ip. fetchLines (''http://'' @ ip @ '':'' @ show_int port @ ''/api/logs/search'')
                              (search_params inp)) hosts)"
    and "search localeCompare (Inr hosts) port fetchLines fetchStats inp = Inr r"
  shows "sorted_wrt (\<lambda>a b. localeCompare (ts a) (ts b) \<le> 0) (sr_lines r) \<and>
    int (length (sr_lines r)) \<le> nullish_default (si_limit inp) 100 \<and>
    (\<exists>rest. mset (sr_lines r) + mset rest = mset (concat (map lines_of ds)) \<and>
       (\<forall>a \<in> set (sr_lines r). \<forall>b \<in> set rest. localeCompare (ts a) (ts b) \<le> 0) \<and>
       (sr_hasMore r \<longleftrightarrow> rest \<noteq> [] \<or> (\<exists>d \<in> set ds. lr_hasMore d))) \<and>
    (\<forall>a \<in> set (sr_lines r). truthy (si_node inp) \<longrightarrow> si_node inp = Some (ll_node a))"
proof -
  let ?lim = "nullish_default (si_limit inp) 100" and ?le = "\<lambda>a b. localeCompare (ts a) (ts b) \<le> 0"
  let ?xs = "concat (map lines_of ds)"
  define xs where "xs = js_sort (\<lambda>a b. localeCompare (ts a) (ts b)) ?xs"
  have sorted: "sorted_wrt ?le xs" unfolding xs_def by (rule sorted_by_key) (rule assms(1))
  have mset: "mset xs = mset ?xs" by (simp add: xs_def)
  have r: "sr_lines r = take (nat ?lim) xs" "sr_hasMore r \<longleftrightarrow> ?lim < int (length xs) \<or> (\<exists>d \<in> set ds. lr_hasMore d)"
    using search_lines [OF assms(2,4)] by (simp_all add: xs_def assms(3))
  let ?rest = "drop (nat ?lim) xs"
  have "mset (sr_lines r) + mset ?rest = mset ?xs"
    unfolding r(1) mset [symmetric] by (metis append_take_drop_id mset_append)
  moreover have "?rest \<noteq> [] \<longleftrightarrow> ?lim < int (length xs)" using assms(2) by auto
  moreover have "\<forall>a \<in> set (sr_lines r). \<forall>b \<in> set ?rest. ?le a b"
    unfolding r(1) using sorted_take_drop [OF sorted] by blast
  moreover have "sorted_wrt ?le (sr_lines r)" unfolding r(1) by (rule sorted_wrt_take [OF sorted])
  moreover have "int (length (sr_lines r)) \<le> ?lim" using assms(2) by (simp add: r(1))
  moreover have "si_node inp = Some (ll_node a)" if "a \<in> set (sr_lines r)" "truthy (si_node inp)" for a
  proof -
    have "a \<in> set xs" using that(1) unfolding r(1) by (rule in_set_takeD)
    then obtain d where d: "d \<in> set ds" "a \<in> set (lines_of d)" by (auto simp: xs_def)
    then have "ll_node a = lr_node d" by (auto simp: lines_of_def)
    with d(1) that(2) show ?thesis unfolding assms(3) by (auto simp: kept_def node_skipped_def)
  qed
  ultimately show ?thesis using r(2) by blast
qed

section \<open>Statistics\<close>

definition stats_kept :: "string option \<Rightarrow> ('e + LogStatsResponse) list \<Rightarrow> LogStatsResponse list" where
  "stats_kept f results = filter (\<lambda>d. \<not> node_skipped f (so_node d)) (fulfilled results)"

lemma add_stats_fold:
  "fold (\<lambda>d s. if node_skipped f (so_node d) then s else add_stats d s) ds s0 =
     (let k = filter (\<lambda>d. \<not> node_skipped f (so_node d)) ds in
      \<lparr>sm_totalLines = sm_totalLines s0 + sum_list (map so_totalLines k),
       sm_errorCount = sm_errorCount s0 + sum_list (map so_errorCount k),
       sm_warnCount = sm_warnCount s0 + sum_list (map so_warnCount k),
       sm_infoCount = sm_infoCount s0 + sum_list (map so_infoCount k),
       sm_fileCount = sm_fileCount s0 + sum_list (map so_fileCount k)\<rparr>)"
  by (induction ds arbitrary: s0) (simp_all add: add_stats_def Let_def)

text \<open>The summary is the sum of the answers. Each of its five counters is the sum over the hosts
  that answered and, with a node filter, are that node; in particular a host that failed, or another
  node, contributes nothing, and the order of the answers does not matter.\<close>

theorem summary_sums_the_answers:
  fixes results results' :: "('e + LogStatsResponse) list"
  shows "mergeStats results nodeFilter =
     (let k = stats_kept nodeFilter results in
      \<lparr>sm_totalLines = sum_list (map so_totalLines k), sm_errorCount = sum_list (map so_errorCount k),
       sm_warnCount = sum_list (map so_warnCount k), sm_infoCount = sum_list (map so_infoCount k),
       sm_fileCount = sum_list (map so_fileCount k)\<rparr>) \<and>
   (mset (fulfilled results) = mset (fulfilled results') \<longrightarrow>
      mergeStats results nodeFilter = mergeStats results' nodeFilter)"
proof -
  have eq: "mergeStats rs nodeFilter = (let k = stats_kept nodeFilter rs in
      \<lparr>sm_totalLines = sum_list (map so_totalLines k), sm_errorCount = sum_list (map so_errorCount k),
       sm_warnCount = sum_list (map so_warnCount k), sm_infoCount = sum_list (map so_infoCount k),
       sm_fileCount = sum_list (map so_fileCount k)\<rparr>)" for rs :: "('e + LogStatsResponse) list"
    by (simp add: mergeStats_def stats_kept_def add_stats_fold Let_def)
  have same: "sum_list (map g (stats_kept nodeFilter results)) = sum_list (map g (stats_kept nodeFilter results'))"
    if "mset (fulfilled results) = mset (fulfilled results')" for g :: "LogStatsResponse \<Rightarrow> int"
  proof -
    have "mset (stats_kept nodeFilter results) = mset (stats_kept nodeFilter results')"
      using that by (simp add: stats_kept_def mset_filter)
    then have "mset (map g (stats_kept nodeFilter results)) = mset (map g (stats_kept nodeFilter results'))" by simp
    then show ?thesis by (metis sum_mset_sum_list)
  qed
  show ?thesis using same by (simp add: eq Let_def)
qed

lemma summary_sums_the_answers_witness:
  "sm_errorCount (mergeStats [Inl ''down'', Inr \<lparr>so_node = ''n'', so_totalLines = 5, so_errorCount = 2,
      so_warnCount = 0, so_infoCount = 3, so_fileCount = 1\<rparr>] (Some ''n'')) = 2"
  using summary_sums_the_answers [of "[Inl ''down'', Inr \<lparr>so_node = ''n'', so_totalLines = 5,
      so_errorCount = 2, so_warnCount = 0, so_infoCount = 3, so_fileCount = 1\<rparr>]" "Some ''n''" "[]"]
  by (simp add: Let_def stats_kept_def node_skipped_def)

definition demo_line :: "string \<Rightarrow> LogLine" where
  "demo_line t = \<lparr>ll_timestamp = Some t, ll_level = None, ll_source = None, ll_message = ''m'',
     ll_metadata = None, ll_node = [], ll_file = ''f'', ll_lineNo = 1\<rparr>"

definition demo_input :: LogSearchInput where
  "demo_input = \<lparr>si_app = ''auth'', si_from = ''2026-01-01'', si_fromTime = None, si_to = ''2026-01-01'',
     si_toTime = None, si_level = None, si_keyword = None, si_node = Some ''n1'', si_after = None,
     si_limit = Some 1\<rparr>"

definition demo_lines :: "string \<Rightarrow> query_params \<Rightarrow> string + LogSearchResponse" where
  "demo_lines url ps = Inr \<lparr>lr_lines = Some [demo_line ''10:01'', demo_line ''10:00''], lr_node = ''n1'', lr_hasMore = False\<rparr>"

definition demo_stats :: "string \<Rightarrow> query_params \<Rightarrow> string + LogStatsResponse" where
  "demo_stats url ps = Inl ''down''"

lemma log_search_merges_witness:
  "\<exists>r. search js_compare (Inr [''h'']) 4003 demo_lines demo_stats demo_input = Inr r \<and>
     length (sr_lines r) \<le> 1 \<and> ll_node ` set (sr_lines r) \<subseteq> {''n1''}"
proof -
  obtain r where r: "search js_compare (Inr [''h'']) 4003 demo_lines demo_stats demo_input = Inr r"
    by (simp add: search_eq Let_def)
  have limit: "0 \<le> nullish_default (si_limit demo_input) 100" by (simp add: demo_input_def)
  from log_search_merges [OF text_order.comparator_axioms limit refl r] r show ?thesis
    by (auto simp: demo_input_def)
qed

section \<open>The list of applications\<close>

definition app_key :: "LogApp \<Rightarrow> string" where
  "app_key a = la_name a @ ''@'' @ la_node a"

definition reported :: "LogAppsResponse list \<Rightarrow> LogApp set" where
  "reported ds = {\<lparr>la_name = n, la_node = ar_node d\<rparr> | n d. d \<in> set ds \<and> n \<in> set (nullish_default (ar_apps d) [])}"

definition app_map_ok :: "LogApp set \<Rightarrow> (string \<times> LogApp) list \<Rightarrow> bool" where
  "app_map_ok A m \<longleftrightarrow> wf_map m \<and> (\<forall>(k, a) \<in> set m. k = app_key a \<and> a \<in> A) \<and> fst ` set m = app_key ` A"

lemma app_map_add:
  assumes "app_map_ok A m"
  shows "app_map_ok (insert \<lparr>la_name = n, la_node = node\<rparr> A) (add_app node n m)"
proof -
  let ?a = "\<lparr>la_name = n, la_node = node\<rparr>"
  have key: "n @ ''@'' @ node = app_key ?a" by (simp add: app_key_def)
  show ?thesis
  proof (cases "map_of m (app_key ?a)")
    case None
    then have new: "app_key ?a \<notin> fst ` set m" by (simp add: map_of_eq_None_iff)
    then have "AList.update (app_key ?a) ?a m = m @ [(app_key ?a, ?a)]" by (induction m) auto
    with None new assms show ?thesis
      unfolding add_app_def key by (auto simp: app_map_ok_def wf_map_def Let_def)
  next
    case (Some b)
    then have "app_key ?a \<in> fst ` set m" by (metis map_of_SomeD fst_conv image_eqI)
    with Some assms show ?thesis
      unfolding add_app_def key by (auto simp: app_map_ok_def Let_def)
  qed
qed

lemma app_map_host:
  "app_map_ok A m \<Longrightarrow> app_map_ok (A \<union> (\<lambda>n. \<lparr>la_name = n, la_node = node\<rparr>) ` set ns) (fold (add_app node) ns m)"
proof (induction ns arbitrary: A m)
  case (Cons n ns)
  from Cons.IH [OF app_map_add [OF Cons.prems]] show ?case by (simp add: insert_commute)
qed simp

lemma app_map_hosts:
  "app_map_ok A m \<Longrightarrow> app_map_ok (A \<union> reported ds)
     (fold (\<lambda>data appMap. fold (add_app (ar_node data)) (nullish_default (ar_apps data) []) appMap) ds m)"
proof (induction ds arbitrary: A m)
  case Nil
  then show ?case by (simp add: reported_def)
next
  case (Cons d ds)
  have "A \<union> (\<lambda>n. \<lparr>la_name = n, la_node = ar_node d\<rparr>) ` set (nullish_default (ar_apps d) []) \<union> reported ds =
      A \<union> reported (d # ds)" by (auto simp: reported_def)
  with Cons.IH [OF app_map_host [OF Cons.prems, of "ar_node d" "nullish_default (ar_apps d) []"]]
  show ?case by simp
qed

text \<open>The list of applications. With a consistent \<open>localeCompare\<close> it is in the order of the names,
  has one entry for each pair of application and node, written \<open>name@node\<close>, that some host
  reported, and nothing else.\<close>

theorem log_apps_listed:
  assumes "comparator localeCompare" and "listApps localeCompare (Inr hosts) port fetch = Inr r"
    and "A = reported (fulfilled (map (\<lambda>ip. fetch (''http://'' @ ip @ '':'' @ show_int port @ ''/api/logs/apps'')) hosts))"
  shows "sorted_wrt (\<lambda>a b. localeCompare (la_name a) (la_name b) \<le> 0) r \<and>
    distinct (map app_key r) \<and> set r \<subseteq> A \<and> app_key ` set r = app_key ` A"
proof -
  define m where "m = fold (\<lambda>data appMap. fold (add_app (ar_node data)) (nullish_default (ar_apps data) []) appMap)
      (fulfilled (map (\<lambda>ip. fetch (''http://'' @ ip @ '':'' @ show_int port @ ''/api/logs/apps'')) hosts)) []"
  have r: "r = js_sort (\<lambda>a b. localeCompare (la_name a) (la_name b)) (map snd m)"
    using assms(2) by (simp add: listApps_def discoverLogStreamerUrls_def m_def comp_def)
  have "app_map_ok {} []" by (simp add: app_map_ok_def wf_map_def)
  from app_map_hosts [OF this] have ok: "app_map_ok A m" by (simp add: assms(3) m_def)
  then have keys: "map app_key (map snd m) = map fst m" by (auto simp: app_map_ok_def)
  have "mset r = mset (map snd m)" by (simp add: r)
  then have "mset (map app_key r) = mset (map fst m)" unfolding keys [symmetric] by (metis mset_map)
  then have "distinct (map app_key r)" "set (map app_key r) = app_key ` A"
    using ok mset_eq_imp_distinct_iff mset_eq_setD unfolding app_map_ok_def wf_map_def by (metis, metis list.set_map)
  moreover have "set r \<subseteq> A" unfolding r using ok by (auto simp: app_map_ok_def)
  moreover have "sorted_wrt (\<lambda>a b. localeCompare (la_name a) (la_name b) \<le> 0) r"
    unfolding r by (rule sorted_by_key) (rule assms(1))
  ultimately show ?thesis by simp
qed

lemma log_apps_listed_witness:
  "\<exists>r. listApps js_compare (Inr [''h'']) 4003
       (\<lambda>url. Inr \<lparr>ar_apps = Some [''auth'', ''auth'', ''gateway''], ar_node = ''n1''\<rparr> :: string + LogAppsResponse) = Inr r \<and>
     distinct (map app_key r) \<and> app_key ` set r = {''auth@n1'', ''gateway@n1''}"
proof -
  let ?fetch = "\<lambda>url::string. Inr \<lparr>ar_apps = Some [''auth'', ''auth'', ''gateway''], ar_node = ''n1''\<rparr> :: string + LogAppsResponse"
  obtain r where r: "listApps js_compare (Inr [''h'']) 4003 ?fetch = Inr r"
    by (simp add: listApps_def discoverLogStreamerUrls_def)
  have "reported (fulfilled [?fetch []]) = {\<lparr>la_name = ''auth'', la_node = ''n1''\<rparr>, \<lparr>la_name = ''gateway'', la_node = ''n1''\<rparr>}"
    by (auto simp: reported_def)
  with log_apps_listed [OF text_order.comparator_axioms r refl] r show ?thesis
    by (simp add: app_key_def)
qed

text \<open>The key does not separate its parts: two different applications can share it, and one is lost.\<close>

lemma app_keys_collide:
  "listApps js_compare (Inr [''h1'', ''h2'']) 4003
     (\<lambda>url. Inr (if take 9 url = ''http://h1''
        then \<lparr>ar_apps = Some [''a''], ar_node = ''b@c''\<rparr> else \<lparr>ar_apps = Some [''a@b''], ar_node = ''c''\<rparr>) ::
          string + LogAppsResponse) = Inr [\<lparr>la_name = ''a'', la_node = ''b@c''\<rparr>]"
  by (simp add: listApps_def discoverLogStreamerUrls_def add_app_def)

end
