(* ===== verification/Error_Report.thy ===== *)
theory Error_Report
  imports Log_History_Search
begin

text \<open>
  The daily report of the errors (scripts/daily-error-report.mjs): it asks every log-streamer for the
  ERROR lines of yesterday, groups them and posts one message to Slack. The date, the discovery of the
  hosts and the HTTP client are parameters; an exception is its message. The message holds characters
  outside Latin-1 and is limited by its number of UTF-16 code units, so it is a list of code units.
\<close>

section \<open>Configuration\<close>

record report_env =
  re_SLACK_WEBHOOK_URL :: "string option"
  re_LOG_STREAMER_HOST :: "string option"
  re_LOG_STREAMER_PORT :: "string option"
  re_REPORT_NO_ERRORS :: "string option"

definition LOG_STREAMER_HOST :: "report_env \<Rightarrow> string" where
  "LOG_STREAMER_HOST env = or_default (re_LOG_STREAMER_HOST env) ''tasks.log-streamer''"

definition LOG_STREAMER_PORT :: "report_env \<Rightarrow> string" where
  "LOG_STREAMER_PORT env = or_default (re_LOG_STREAMER_PORT env) ''4003''"

definition REPORT_NO_ERRORS :: "report_env \<Rightarrow> bool" where
  "REPORT_NO_ERRORS env \<longleftrightarrow> re_REPORT_NO_ERRORS env = Some ''true''"

definition SLACK_CHAR_LIMIT :: nat where "SLACK_CHAR_LIMIT = 40000"

section \<open>HTTP\<close>

text \<open>The response of \<open>fetch\<close>; reading its body as JSON or as text may throw.\<close>

record 'a response =
  rp_ok :: bool
  rp_status :: int
  rp_json :: "string + 'a"
  rp_text :: "string + string"

definition fetchJson :: "(string \<Rightarrow> string + 'a response) \<Rightarrow> string \<Rightarrow> string + 'a" where
  "fetchJson fetch url =
     (case fetch url of
        Inl e \<Rightarrow> Inl e
      | Inr res \<Rightarrow> if \<not> rp_ok res then Inl (''HTTP '' @ show_int (rp_status res) @ '' from '' @ url) else rp_json res)"

type_synonym utf16 = "nat list"

definition units :: "string \<Rightarrow> utf16" where
  "units s = map code s"

text \<open>
  \<open>postSlack\<close>: the client is given the URL and the text of the message and gives the response or
  throws.
\<close>

definition postSlack :: "(string \<Rightarrow> utf16 \<Rightarrow> string + unit response) \<Rightarrow> string \<Rightarrow> utf16 \<Rightarrow> string option" where
  "postSlack post webhookUrl text =
     (case post webhookUrl text of
        Inl e \<Rightarrow> Some e
      | Inr res \<Rightarrow>
          if \<not> rp_ok res
          then Some (''Slack responded with HTTP '' @ show_int (rp_status res) @ '': '' @
                     (case rp_text res of Inl _ \<Rightarrow> [] | Inr body \<Rightarrow> body))
          else None)"

section \<open>Collecting\<close>

fun fetchAppList :: "(string \<Rightarrow> string + LogAppsResponse response) \<Rightarrow> string list \<Rightarrow> string \<Rightarrow> string + string list" where
  "fetchAppList fetch [] port = Inl ''Failed to fetch app list from all instances''"
| "fetchAppList fetch (ip # ips) port =
     (case fetchJson fetch (''http://'' @ ip @ '':'' @ port @ ''/api/logs/apps'') of
        Inl err \<Rightarrow> fetchAppList fetch ips port
      | Inr data \<Rightarrow>
          (case ar_apps data of None \<Rightarrow> fetchAppList fetch ips port | Some names \<Rightarrow> Inr names))"

text \<open>The log-streamer leaves an empty timestamp out, and \<open>`${undefined}`\<close> is \<open>undefined\<close>.\<close>

definition dedup_key :: "LogLine \<Rightarrow> string" where
  "dedup_key line = (case ll_timestamp line of None \<Rightarrow> ''undefined'' | Some t \<Rightarrow> t) @ ''|'' @ ll_message line"

definition add_unique :: "string list \<times> LogLine list \<Rightarrow> LogLine \<Rightarrow> string list \<times> LogLine list" where
  "add_unique acc line =
     (let (seen, unique) = acc; key = dedup_key line in
      if key \<in> set seen then acc else (set_add key seen, unique @ [line]))"

definition search_url :: "(string \<Rightarrow> string) \<Rightarrow> string \<Rightarrow> string \<Rightarrow> string \<Rightarrow> string \<Rightarrow> string" where
  "search_url encodeURIComponent app date ip port =
     ''http://'' @ ip @ '':'' @ port @ ''/api/logs/search'' @ ''?app='' @ encodeURIComponent app @
     ''&from='' @ date @ ''&to='' @ date @ ''&level=ERROR&limit=500''"

definition fetchErrorsForApp ::
  "(string \<Rightarrow> string) \<Rightarrow> (string \<Rightarrow> string \<Rightarrow> int) \<Rightarrow> (string \<Rightarrow> string + LogSearchResponse response) \<Rightarrow>
   string \<Rightarrow> string \<Rightarrow> string list \<Rightarrow> string \<Rightarrow> LogLine list" where
  "fetchErrorsForApp encodeURIComponent localeCompare fetch app date ips port =
     (let results = foldl (\<lambda>results ip.
            case fetchJson fetch (search_url encodeURIComponent app date ip port) of
              Inl err \<Rightarrow> results
            | Inr data \<Rightarrow> (case lr_lines data of None \<Rightarrow> results | Some ls \<Rightarrow> results @ ls)) [] ips;
          unique = snd (foldl add_unique ([], []) results)
      in js_sort (\<lambda>a b. localeCompare (or_default (ll_timestamp a) []) (or_default (ll_timestamp b) [])) unique)"

section \<open>Formatting\<close>

definition truncateMessage :: "string \<Rightarrow> nat \<Rightarrow> string" where
  "truncateMessage str limit =
     (if str = [] then []
      else (let firstLine = hd (split_on (CHR 0x0A) str) in
            if length firstLine \<le> limit then firstLine else take limit firstLine @ ''...''))"

definition count_message :: "LogLine \<Rightarrow> (string \<times> nat) list \<Rightarrow> (string \<times> nat) list" where
  "count_message line counts =
     (let msg = truncateMessage (ll_message line) 200 in
      AList.update msg (nullish_default (map_of counts msg) 0 + 1) counts)"

definition groupErrors :: "LogLine list \<Rightarrow> (string \<times> nat) list" where
  "groupErrors errors = js_sort (descending (\<lambda>e. int (snd e))) (fold count_message errors [])"

definition error_line :: "string \<times> nat \<Rightarrow> utf16" where
  "error_line e =
     (let (message, count) = e;
          suffix = if count > 1 then units ('' _('' @ show_nat count) @ [0xAC74] @ units '')_'' else []
      in units ''> '' @ [0x2022] @ units ('' '' @ message) @ suffix)"

definition app_part :: "string \<times> LogLine list \<Rightarrow> utf16 list" where
  "app_part ae =
     (let (app, errors) = ae in
      (if errors = []
       then [units ('':white_check_mark: *'' @ app @ ''* '') @ [0x2014] @ units '' ERROR: 0'' @ [0xAC74]]
       else (units ('':red_circle: *'' @ app @ ''* '') @ [0x2014] @ units ('' ERROR: '' @ show_nat (length errors)) @ [0xAC74]) #
            map error_line (groupErrors errors)) @ [[]])"

definition report_parts :: "string \<Rightarrow> (string \<times> LogLine list) list \<Rightarrow> utf16 list" where
  "report_parts date appErrors =
     [units (''*Daily ERROR Log Report ('' @ date @ '')*''), []] @ concat (map app_part appErrors)"

definition notice :: utf16 where
  "notice = [10, 10] @ units '':warning: _Report truncated due to Slack message size limit._''"

definition buildSlackMessage :: "string \<Rightarrow> (string \<times> LogLine list) list \<Rightarrow> utf16 \<times> nat" where
  "buildSlackMessage date appErrors =
     (let totalErrors = foldl (\<lambda>n (app, errors). n + length errors) 0 appErrors;
          text = join [10] (report_parts date appErrors)
      in (if length text > SLACK_CHAR_LIMIT then take (SLACK_CHAR_LIMIT - length notice) text @ notice else text,
          totalErrors))"

section \<open>Main\<close>

text \<open>How the process ends, with the texts handed to Slack.\<close>

datatype outcome = Exit nat

record report_world =
  rw_date :: string
  rw_resolve4 :: "string \<Rightarrow> string + string list"
  rw_fetchApps :: "string \<Rightarrow> string + LogAppsResponse response"
  rw_fetchLines :: "string \<Rightarrow> string + LogSearchResponse response"
  rw_post :: "string \<Rightarrow> utf16 \<Rightarrow> string + unit response"
  rw_encode :: "string \<Rightarrow> string"
  rw_localeCompare :: "string \<Rightarrow> string \<Rightarrow> int"

definition report_main :: "report_env \<Rightarrow> report_world \<Rightarrow> outcome \<times> (string \<times> utf16) list" where
  "report_main env w =
     (if \<not> truthy (re_SLACK_WEBHOOK_URL env) then (Exit 1, [])
      else
        (case rw_resolve4 w (LOG_STREAMER_HOST env) of
           Inl err \<Rightarrow> (Exit 1, [])
         | Inr ips \<Rightarrow>
             (case fetchAppList (rw_fetchApps w) ips (LOG_STREAMER_PORT env) of
                Inl err \<Rightarrow> (Exit 1, [])
              | Inr apps \<Rightarrow>
                  (let appErrors = map (\<lambda>app. (app, fetchErrorsForApp (rw_encode w) (rw_localeCompare w)
                                          (rw_fetchLines w) app (rw_date w) ips (LOG_STREAMER_PORT env))) apps;
                       (text, totalErrors) = buildSlackMessage (rw_date w) appErrors
                   in if totalErrors = 0 \<and> \<not> REPORT_NO_ERRORS env then (Exit 0, [])
                      else
                        (let url = nullish_default (re_SLACK_WEBHOOK_URL env) [] in
                         case postSlack (rw_post w) url text of
                           Some err \<Rightarrow> (Exit 1, [(url, text)])
                         | None \<Rightarrow> (Exit 0, [(url, text)]))))))"

end
