(* ===== verification/Error_Report_Properties.thy ===== *)
theory Error_Report_Properties
  imports Error_Report
begin

text \<open>
  What the daily report guarantees: the counts of the groups, the size of the message, what is
  collected, and when something is posted.
\<close>

section \<open>Grouping\<close>

lemma count_message_get:
  "nullish_default (map_of (fold count_message errors m) k) 0 =
     nullish_default (map_of m k) 0 + length (filter (\<lambda>l. truncateMessage (ll_message l) 200 = k) errors)"
  by (induction errors arbitrary: m) (auto simp: count_message_def Let_def js_map.get_put)

definition counts_ok :: "(string \<times> nat) list \<Rightarrow> bool" where
  "counts_ok m \<longleftrightarrow> wf_map m \<and> (\<forall>(k, n) \<in> set m. 0 < n \<and> (\<exists>s. k = truncateMessage s 200))"

lemma set_update: "wf_map m \<Longrightarrow> set (AList.update k v m) = insert (k, v) {x \<in> set m. fst x \<noteq> k}"
  by (induction m) (auto simp: wf_map_def rev_image_eqI)

lemma counts_ok_fold: "counts_ok m \<Longrightarrow> counts_ok (fold count_message errors m)"
proof (induction errors arbitrary: m)
  case (Cons e errors)
  have "counts_ok (count_message e m)"
    using Cons.prems by (auto simp: counts_ok_def count_message_def Let_def js_map.wf_put set_update)
  then show ?case by (simp add: Cons.IH)
qed simp

lemma sum_update:
  "wf_map m \<Longrightarrow> sum_list (map snd (AList.update k (nullish_default (map_of m k) 0 + n) m)) = sum_list (map snd m) + (n::nat)"
proof (induction m)
  case (Cons x m)
  then show ?case by (cases x) (auto simp: wf_map_def)
qed simp

lemma sum_counts: "counts_ok m \<Longrightarrow> sum_list (map snd (fold count_message errors m)) = sum_list (map snd m) + length errors"
proof (induction errors arbitrary: m)
  case (Cons e errors)
  have "counts_ok (count_message e m)" using counts_ok_fold [OF Cons.prems, of "[e]"] by simp
  moreover have "sum_list (map snd (count_message e m)) = sum_list (map snd m) + 1"
    using Cons.prems sum_update [of m "truncateMessage (ll_message e) 200" 1]
    by (simp add: counts_ok_def count_message_def Let_def)
  ultimately show ?case by (simp add: Cons.IH)
qed simp

lemma truncate_short: "length (truncateMessage s 200) \<le> 203 \<and> CHR 0x0A \<notin> set (truncateMessage s 200)"
proof -
  have "CHR 0x0A \<notin> set (takeWhile (\<lambda>c. c \<noteq> CHR 0x0A) s)" by (auto dest: set_takeWhileD)
  then show ?thesis by (auto simp: truncateMessage_def Let_def hd_split_on dest: in_set_takeD)
qed

text \<open>C26: the groups of a report count the errors. There is one group for each first line, cut after
  200 characters, with the number of the errors that have it, the largest group first; no error is
  lost, and no message breaks its line.\<close>

theorem groups_count_the_errors:
  "let g = groupErrors errors in
     distinct (map fst g) \<and> sorted_wrt (\<lambda>a b. snd b \<le> snd a) g \<and>
     (\<forall>m. nullish_default (map_of g m) 0 = length (filter (\<lambda>l. truncateMessage (ll_message l) 200 = m) errors)) \<and>
     sum_list (map snd g) = length errors \<and>
     (\<forall>(m, n) \<in> set g. 0 < n \<and> length m \<le> 203 \<and> CHR 0x0A \<notin> set m)"
proof -
  define c where "c = fold count_message errors []"
  have start: "counts_ok []" by (simp add: counts_ok_def wf_map_def)
  have ok: "counts_ok c" unfolding c_def by (rule counts_ok_fold [OF start])
  have g: "groupErrors errors = js_sort (descending (\<lambda>e. int (snd e))) c" by (simp add: groupErrors_def c_def)
  then have mset: "mset (groupErrors errors) = mset c" by simp
  then have dist: "distinct (map fst (groupErrors errors))"
    using ok by (metis counts_ok_def wf_map_def mset_map mset_eq_imp_distinct_iff)
  have maps: "map_of (groupErrors errors) = map_of c"
    using dist ok mset by (metis counts_ok_def wf_map_def map_of_inject_set set_mset_mset)
  have "sorted_wrt (\<lambda>a b. snd b \<le> snd a) (groupErrors errors)"
    using descending.sorted_js_sort [of "\<lambda>e. int (snd e)" c] unfolding g by (simp add: descending_def)
  moreover have "sum_list (map snd (groupErrors errors)) = length errors"
    using mset sum_counts [OF start, of errors] unfolding c_def [symmetric]
    by (metis list.simps(8) sum_list.Nil add_0 mset_map sum_mset_sum_list)
  moreover have "nullish_default (map_of (groupErrors errors) m) 0 =
      length (filter (\<lambda>l. truncateMessage (ll_message l) 200 = m) errors)" for m
    unfolding maps c_def by (simp add: count_message_get)
  moreover have "0 < n \<and> length m \<le> 203 \<and> CHR 0x0A \<notin> set m" if "(m, n) \<in> set (groupErrors errors)" for m n
  proof -
    have "(m, n) \<in> set c" using that mset by (metis set_mset_mset)
    with ok have "0 < n \<and> (\<exists>s. m = truncateMessage s 200)" by (auto simp: counts_ok_def)
    then show ?thesis using truncate_short by auto
  qed
  ultimately show ?thesis using dist unfolding Let_def by blast
qed

lemma groups_count_the_errors_witness:
  "sum_list (map snd (groupErrors [\<lparr>ll_timestamp = None, ll_level = None, ll_source = None, ll_message = ''boom'',
     ll_metadata = None, ll_node = ''n'', ll_file = ''f'', ll_lineNo = 1\<rparr>])) = 1"
  using groups_count_the_errors [of "[\<lparr>ll_timestamp = None, ll_level = None, ll_source = None, ll_message = ''boom'',
     ll_metadata = None, ll_node = ''n'', ll_file = ''f'', ll_lineNo = 1\<rparr>]"]
  unfolding Let_def by auto

section \<open>Collecting\<close>

lemma foldl_add_unique:
  assumes "distinct seen" "set seen = dedup_key ` set unique" "distinct (map dedup_key unique)"
  shows "distinct (map dedup_key (snd (foldl add_unique (seen, unique) ls))) \<and>
    set (snd (foldl add_unique (seen, unique) ls)) \<subseteq> set unique \<union> set ls \<and>
    dedup_key ` set (snd (foldl add_unique (seen, unique) ls)) = dedup_key ` set unique \<union> dedup_key ` set ls"
  using assms
proof (induction ls arbitrary: seen unique)
  case (Cons l ls)
  show ?case
  proof (cases "dedup_key l \<in> set seen")
    case True
    with Cons.IH [OF Cons.prems] Cons.prems(2) show ?thesis by (auto simp: add_unique_def Let_def)
  next
    case False
    then have "dedup_key l \<notin> dedup_key ` set unique" using Cons.prems(2) by simp
    with Cons.IH [of "set_add (dedup_key l) seen" "unique @ [l]"] Cons.prems False show ?thesis
      by (auto simp: add_unique_def Let_def)
  qed
qed simp

definition answered_lines :: "(string \<Rightarrow> string + LogSearchResponse response) \<Rightarrow> string list \<Rightarrow> LogLine list" where
  "answered_lines fetch urls =
     concat (map (\<lambda>u. case fetchJson fetch u of Inl _ \<Rightarrow> [] | Inr d \<Rightarrow> nullish_default (lr_lines d) []) urls)"

lemma foldl_answers:
  "foldl (\<lambda>results ip. case fetchJson fetch (g ip) of Inl err \<Rightarrow> results
      | Inr data \<Rightarrow> (case lr_lines data of None \<Rightarrow> results | Some ls \<Rightarrow> results @ ls)) acc ips =
    acc @ answered_lines fetch (map g ips)"
  by (induction ips arbitrary: acc) (auto simp: answered_lines_def split: sum.split option.split)

text \<open>The errors of an application: sorted, none twice, and all the hosts that answered could tell.\<close>

lemma errors_collected:
  assumes "comparator localeCompare"
  shows "let errors = fetchErrorsForApp enc localeCompare fetch app date ips port;
      ls = answered_lines fetch (map (\<lambda>ip. search_url enc app date ip port) ips) in
    sorted_wrt (\<lambda>a b. localeCompare (or_default (ll_timestamp a) []) (or_default (ll_timestamp b) []) \<le> 0) errors \<and>
    distinct (map dedup_key errors) \<and> set errors \<subseteq> set ls \<and> dedup_key ` set errors = dedup_key ` set ls"
proof -
  let ?ls = "answered_lines fetch (map (\<lambda>ip. search_url enc app date ip port) ips)"
  define u where "u = snd (foldl add_unique ([], []) ?ls)"
  let ?key = "\<lambda>a. or_default (ll_timestamp a) []"
  have e: "fetchErrorsForApp enc localeCompare fetch app date ips port =
      js_sort (\<lambda>a b. localeCompare (?key a) (?key b)) u"
    by (simp add: fetchErrorsForApp_def foldl_answers u_def Let_def)
  have "distinct (map dedup_key u)" "set u \<subseteq> set ?ls" "dedup_key ` set u = dedup_key ` set ?ls"
    using foldl_add_unique [of "[]" "[]" ?ls] by (simp_all add: u_def)
  moreover have "mset (js_sort (\<lambda>a b. localeCompare (?key a) (?key b)) u) = mset u" by simp
  then have "distinct (map dedup_key (js_sort (\<lambda>a b. localeCompare (?key a) (?key b)) u)) = distinct (map dedup_key u)"
    by (metis mset_map mset_eq_imp_distinct_iff)
  ultimately show ?thesis
    unfolding Let_def e using sorted_by_key [OF assms, of ?key u] by simp
qed

section \<open>The message\<close>

lemma total_errors: "foldl (\<lambda>n (app, errors). n + length errors) k aes = k + sum_list (map (length \<circ> snd) aes)"
  by (induction aes arbitrary: k) auto

lemma length_notice: "length notice < SLACK_CHAR_LIMIT"
  by (simp add: notice_def units_def SLACK_CHAR_LIMIT_def)

lemma slack_message:
  "let (text, total) = buildSlackMessage date aes; full = join [10] (report_parts date aes) in
     total = sum_list (map (length \<circ> snd) aes) \<and> length text \<le> SLACK_CHAR_LIMIT \<and>
     (if length full \<le> SLACK_CHAR_LIMIT then text = full
      else length text = SLACK_CHAR_LIMIT \<and> (\<exists>p rest. full = p @ rest \<and> text = p @ notice))"
proof -
  let ?full = "join [10] (report_parts date aes)"
  have "\<exists>rest. ?full = take (SLACK_CHAR_LIMIT - length notice) ?full @ rest" by (metis append_take_drop_id)
  then show ?thesis using length_notice by (auto simp: buildSlackMessage_def Let_def total_errors)
qed

text \<open>What the daily report posts. It posts at most one message, to the configured webhook, of at
  most 40,000 code units, and only if there are errors or empty reports are wanted; it ends with 0
  exactly when the webhook is configured, the hosts and the applications are found, and the message, if
  one is due, is delivered.\<close>

theorem daily_report_posts:
  assumes "report_main env w = (Exit c, posts)"
  shows "(posts = [] \<or> (\<exists>url text. posts = [(url, text)] \<and> re_SLACK_WEBHOOK_URL env = Some url \<and>
            length text \<le> SLACK_CHAR_LIMIT)) \<and> (c = 0 \<or> c = 1) \<and>
    (c = 0 \<longleftrightarrow> truthy (re_SLACK_WEBHOOK_URL env) \<and>
       (\<exists>ips apps. rw_resolve4 w (LOG_STREAMER_HOST env) = Inr ips \<and>
          fetchAppList (rw_fetchApps w) ips (LOG_STREAMER_PORT env) = Inr apps \<and>
          (let aes = map (\<lambda>app. (app, fetchErrorsForApp (rw_encode w) (rw_localeCompare w) (rw_fetchLines w) app
                       (rw_date w) ips (LOG_STREAMER_PORT env))) apps in
           if (\<forall>(app, errors) \<in> set aes. errors = []) \<and> \<not> REPORT_NO_ERRORS env then posts = []
           else \<exists>url text. posts = [(url, text)] \<and> postSlack (rw_post w) url text = None)))"
proof -
  have total: "snd (buildSlackMessage d aes) = 0 \<longleftrightarrow> (\<forall>(app, errors) \<in> set aes. errors = [])"
    and size: "length (fst (buildSlackMessage d aes)) \<le> SLACK_CHAR_LIMIT" for d aes
    using slack_message [of d aes] by (auto simp: Let_def split_def)
  show ?thesis
  proof (cases "re_SLACK_WEBHOOK_URL env")
    case None
    with assms show ?thesis by (auto simp: report_main_def)
  next
    case (Some url)
    then show ?thesis
      using assms size
      by (auto simp: report_main_def Let_def split_def total [unfolded split_def] truthy_iff
          split: if_split_asm sum.split_asm option.split_asm)
  qed
qed

definition demo_report_env :: report_env where
  "demo_report_env = \<lparr>re_SLACK_WEBHOOK_URL = Some ''https://hooks'', re_LOG_STREAMER_HOST = None,
     re_LOG_STREAMER_PORT = None, re_REPORT_NO_ERRORS = None\<rparr>"

definition demo_report_world :: report_world where
  "demo_report_world = \<lparr>rw_date = ''2026-01-01'', rw_resolve4 = (\<lambda>_. Inr [''10.0.0.5'']),
     rw_fetchApps = (\<lambda>_. Inr \<lparr>rp_ok = True, rp_status = 200, rp_json = Inr \<lparr>ar_apps = Some [''auth''], ar_node = ''n''\<rparr>,
       rp_text = Inl []\<rparr>),
     rw_fetchLines = (\<lambda>_. Inl ''timeout''), rw_post = (\<lambda>_ _. Inl ''down''), rw_encode = id,
     rw_localeCompare = js_compare\<rparr>"

lemma daily_report_posts_witness:
  "\<exists>c posts. report_main demo_report_env demo_report_world = (Exit c, posts) \<and> length posts \<le> 1 \<and> c \<le> 1"
proof -
  obtain c posts where r: "report_main demo_report_env demo_report_world = (Exit c, posts)"
    by (metis outcome.exhaust surj_pair)
  from daily_report_posts [OF r] r show ?thesis by auto
qed

end
