(* ===== verification/Logging_Properties.thy ===== *)
theory Logging_Properties
  imports Request_Context
begin

text \<open>
  What the logs guarantee: the masking of secrets and its limits, and which fields of an entry survive
  in its JSON form.
\<close>

section \<open>Masking\<close>

lemma mask_field_get:
  "map_of (mask_field f fs) k =
     (if k = f \<and> opt_truthy (map_of fs f) then Some (JStr ''***'') else map_of fs k)"
  by (simp add: mask_field_def obj_set_def js_map.get_put)

lemma mask_field_keys: "map fst (mask_field f fs) = map fst fs"
proof -
  have "opt_truthy (map_of fs f) \<Longrightarrow> f \<in> fst ` set fs"
    by (cases "map_of fs f") (auto simp: opt_truthy_def dest: map_of_SomeD intro: rev_image_eqI)
  then show ?thesis by (simp add: mask_field_def obj_set_def map_fst_update)
qed

lemma mask_fields_get:
  "map_of (fold mask_field ns fs) k =
     (if k \<in> set ns \<and> opt_truthy (map_of fs k) then Some (JStr ''***'') else map_of fs k)"
proof (induction ns arbitrary: fs)
  case (Cons n ns)
  have "opt_truthy (Some (JStr ''***''))" by (simp add: opt_truthy_def json_truthy_def)
  with Cons show ?case by (auto simp: mask_field_get)
qed simp

lemma mask_fields_keys: "map fst (fold mask_field ns fs) = map fst fs"
  by (induction ns arbitrary: fs) (simp_all add: mask_field_keys)

lemma wf_obj_eqI:
  "map fst a = map fst b \<Longrightarrow> distinct (map fst a) \<Longrightarrow> map_of a = map_of b \<Longrightarrow> a = b"
proof (induction a arbitrary: b)
  case (Cons x a)
  then obtain y b' where b: "b = y # b'" "fst x = fst y" "map fst a = map fst b'" by (cases b) auto
  from Cons.prems(2) b have new: "fst y \<notin> set (map fst a)" "fst y \<notin> set (map fst b')" "distinct (map fst a)" by auto
  from Cons.prems(3) b have eq: "(map_of a)(fst y \<mapsto> snd x) = (map_of b')(fst y \<mapsto> snd y)"
    by (cases x; cases y) (simp add: fun_upd_def)
  then have "snd x = snd y" by (metis fun_upd_same option.inject)
  moreover have "map_of a k = map_of b' k" for k
  proof (cases "k = fst y")
    case True
    with new show ?thesis by (metis map_of_eq_None_iff list.set_map)
  next
    case False
    with eq show ?thesis by (metis fun_upd_other)
  qed
  ultimately show ?case using Cons.IH [of b'] b new by (simp add: prod_eq_iff fun_eq_iff)
qed simp

text \<open>The masking of the logging interceptor. Of an object, exactly the five sensitive fields that
  are truthy are replaced by three asterisks; every other field keeps its value, the fields keep their
  order, a value that is not an object is untouched, and masking twice changes nothing more.\<close>

theorem sanitize_masks:
  assumes "distinct (map fst fs)"
  shows "(\<exists>gs. sanitizeData (JObj fs) = JObj gs \<and> map fst gs = map fst fs \<and>
       (\<forall>k. map_of gs k = (if k \<in> set sensitiveFields \<and> opt_truthy (map_of fs k)
                            then Some (JStr ''***'') else map_of fs k))) \<and>
    sanitizeData (sanitizeData (JObj fs)) = sanitizeData (JObj fs) \<and>
    sanitizeData (JStr t) = JStr t \<and> sanitizeData JNull = JNull"
proof -
  define gs where "gs = fold mask_field sensitiveFields fs"
  have s: "sanitizeData (JObj fs) = JObj gs" by (simp add: sanitizeData_def object_entries_def gs_def)
  have keys: "map fst gs = map fst fs" by (simp add: gs_def mask_fields_keys)
  have get: "map_of gs k = (if k \<in> set sensitiveFields \<and> opt_truthy (map_of fs k)
      then Some (JStr ''***'') else map_of fs k)" for k by (simp add: gs_def mask_fields_get)
  have "map_of (fold mask_field sensitiveFields gs) = map_of gs"
    by (rule ext) (simp add: mask_fields_get get)
  then have "fold mask_field sensitiveFields gs = gs"
    using assms keys by (intro wf_obj_eqI) (simp_all add: mask_fields_keys)
  then have "sanitizeData (JObj gs) = JObj gs" by (simp add: sanitizeData_def object_entries_def)
  then show ?thesis using s keys get by (auto simp: sanitizeData_def)
qed

lemma sanitize_masks_witness:
  "sanitizeData (sanitizeData (JObj [(''loginId'', JStr ''kim''), (''password'', JStr ''pw'')])) =
     JObj [(''loginId'', JStr ''kim''), (''password'', JStr ''***'')]"
proof -
  have "distinct (map fst [(''loginId'', JStr ''kim''), (''password'', JStr ''pw'')])" by simp
  from sanitize_masks [OF this] show ?thesis
    by (simp add: sanitizeData_def object_entries_def sensitiveFields_def mask_field_def opt_truthy_def
        json_truthy_def obj_set_def)
qed

text \<open>The passwords of a password change, and anything nested, are logged as they are.\<close>

lemma sanitize_misses_new_passwords:
  "sanitizeData (JObj [(''currentPassword'', JStr p), (''newPassword'', JStr q),
       (''input'', JObj [(''password'', JStr r)])]) =
     JObj [(''currentPassword'', JStr p), (''newPassword'', JStr q), (''input'', JObj [(''password'', JStr r)])]"
  by (simp add: sanitizeData_def object_entries_def sensitiveFields_def mask_field_def opt_truthy_def)

section \<open>The JSON form of an entry\<close>

lemma set_field_get:
  "map_of (set_field k v ecs) = (case v of None \<Rightarrow> map_of ecs | Some j \<Rightarrow> (map_of ecs)(k \<mapsto> j))"
  by (cases v) (simp_all add: set_field_def obj_set_def js_map.get_put)

lemma fold_fields_get:
  assumes "distinct (map fst rest)"
  shows "map_of (foldl (\<lambda>ecs (key, value). if key \<notin> set INTERNAL_KEYS then set_field key value ecs else ecs) ecs rest) k =
    (if k \<notin> set INTERNAL_KEYS \<and> field rest k \<noteq> None then field rest k else map_of ecs k)"
  using assms
proof (induction rest arbitrary: ecs)
  case Nil
  then show ?case by (simp add: field_def)
next
  case (Cons x rest)
  obtain key v where x: "x = (key, v)" by (cases x)
  have none: "map_of rest key = None" using Cons.prems x by (simp add: map_of_eq_None_iff)
  have f: "field (x # rest) k = (if k = key then v else field rest k)" by (simp add: x field_def)
  have fk: "field rest key = None" using none by (simp add: field_def)
  let ?ecs = "if key \<notin> set INTERNAL_KEYS then set_field key v ecs else ecs"
  have step: "map_of ?ecs k = (if k = key \<and> key \<notin> set INTERNAL_KEYS \<and> v \<noteq> None then v else map_of ecs k)"
    by (simp add: set_field_get split: option.split)
  have "map_of (foldl (\<lambda>ecs (key, value). if key \<notin> set INTERNAL_KEYS then set_field key value ecs else ecs) ecs (x # rest)) k =
      (if k \<notin> set INTERNAL_KEYS \<and> field rest k \<noteq> None then field rest k else map_of ?ecs k)"
    using Cons.IH [of ?ecs] Cons.prems by (simp add: x)
  then show ?case unfolding step f using fk by auto
qed

lemma map_of_filter_key: "P k \<Longrightarrow> map_of (filter (\<lambda>(k, _). P k) m) k = map_of m k"
  by (induction m) auto

text \<open>A field of the entry that is not internal appears in its JSON form with its value.\<close>

lemma ecs_keeps_fields:
  assumes "distinct (map fst (le_fields e))" "k \<notin> set INTERNAL_KEYS" "field (le_fields e) k = Some v"
  shows "map_of (ecs_record now e) k = Some v"
proof -
  let ?rest = "filter (\<lambda>(k, _). k \<notin> {''level'', ''message'', ''context'', ''trace''}) (le_fields e)"
  have d: "distinct (map fst ?rest)" using assms(1) by (simp add: distinct_map_filter)
  have "k \<notin> {''level'', ''message'', ''context'', ''trace''}" using assms(2) by (auto simp: INTERNAL_KEYS_def)
  then have "map_of ?rest k = map_of (le_fields e) k"
    by (rule map_of_filter_key [where P = "\<lambda>k. k \<notin> {''level'', ''message'', ''context'', ''trace''}"])
  then have "field ?rest k = Some v" using assms(3) by (simp add: field_def)
  then have "k \<notin> set INTERNAL_KEYS \<and> field ?rest k \<noteq> None" using assms(2) by simp
  then show ?thesis
    unfolding ecs_record_def Let_def fold_fields_get [OF d] \<open>field ?rest k = Some v\<close> by (rule if_P)
qed

end
