(* ===== verification/Ui_Tabs.thy ===== *)
theory Ui_Tabs
  imports Json
begin

text \<open>
  The tabs of the log viewer (apps/ui/src/hooks/useTabs.ts), used by the live-stream page and the
  history page. A handler closes over the active tab of the render it was made in; React renders
  again after each event, so an event sees the current state. \<open>None\<close> as a result is a \<open>TypeError\<close>;
  as the data of a tab, it is \<open>undefined\<close>.
\<close>

section \<open>State\<close>

record tab =
  tb_id :: string
  tb_label :: string
  tb_data :: "json option"

record tabs_state =
  ts_tabs :: "tab list"
  ts_activeTabId :: "string option"

section \<open>Operations\<close>

definition openTab :: "int \<Rightarrow> tab \<Rightarrow> tabs_state \<Rightarrow> tabs_state" where
  "openTab maxTabs t s =
     (let prev = ts_tabs s in
      if find (\<lambda>u. tb_id u = tb_id t) prev \<noteq> None then s\<lparr>ts_activeTabId := Some (tb_id t)\<rparr>
      else
        (let next = prev @ [t];
             next' = (if int (length next) > maxTabs
                      then (case find (\<lambda>u. Some (tb_id u) \<noteq> ts_activeTabId s) next of
                              None \<Rightarrow> next
                            | Some oldestInactive \<Rightarrow> filter (\<lambda>u. tb_id u \<noteq> tb_id oldestInactive) next)
                      else next)
         in \<lparr>ts_tabs = next', ts_activeTabId = Some (tb_id t)\<rparr>))"

fun find_index :: "('a \<Rightarrow> bool) \<Rightarrow> 'a list \<Rightarrow> nat option" where
  "find_index P [] = None"
| "find_index P (x # xs) = (if P x then Some 0 else map_option Suc (find_index P xs))"

text \<open>Without the tab \<open>findIndex\<close> is -1 and \<open>next[-1].id\<close> throws.\<close>

definition closeTab :: "string \<Rightarrow> tabs_state \<Rightarrow> tabs_state option" where
  "closeTab tabId s =
     (let prev = ts_tabs s;
          next = filter (\<lambda>u. tb_id u \<noteq> tabId) prev
      in if Some tabId = ts_activeTabId s \<and> next \<noteq> [] then
           (case find_index (\<lambda>u. tb_id u = tabId) prev of
              None \<Rightarrow> None
            | Some idx \<Rightarrow> Some \<lparr>ts_tabs = next, ts_activeTabId = Some (tb_id (next ! min idx (length next - 1)))\<rparr>)
         else if next = [] then Some \<lparr>ts_tabs = [], ts_activeTabId = None\<rparr>
         else Some (s\<lparr>ts_tabs := next\<rparr>))"

definition updateTabLabel :: "string \<Rightarrow> string \<Rightarrow> tabs_state \<Rightarrow> tabs_state" where
  "updateTabLabel tabId label s =
     s\<lparr>ts_tabs := map (\<lambda>t. if tb_id t = tabId then t\<lparr>tb_label := label\<rparr> else t) (ts_tabs s)\<rparr>"

section \<open>Persistence\<close>

definition tab_json :: "tab \<Rightarrow> json" where
  "tab_json t =
     JObj ([(''id'', JStr (tb_id t)), (''label'', JStr (tb_label t))] @
           (case tb_data t of None \<Rightarrow> [] | Some d \<Rightarrow> [(''data'', d)]))"

definition state_json :: "tabs_state \<Rightarrow> json" where
  "state_json s =
     JObj [(''tabs'', JArr (map tab_json (ts_tabs s))),
           (''activeTabId'', case ts_activeTabId s of None \<Rightarrow> JNull | Some i \<Rightarrow> JStr i)]"

text \<open>The storage holds what \<open>saveState\<close> wrote last; \<open>writable\<close> is false where \<open>setItem\<close> throws.\<close>

definition saveState :: "bool \<Rightarrow> tabs_state \<Rightarrow> string option \<Rightarrow> string option" where
  "saveState writable s storage = (if writable then Some (json_stringify (state_json s)) else storage)"

text \<open>A stored tab is taken as it is, by the cast to \<open>PersistedState\<close>, also one without data. An id or a label
  it lacks is read as the empty text, which is displayed alike.\<close>

definition tab_of :: "json \<Rightarrow> tab" where
  "tab_of v =
     \<lparr>tb_id = nullish_default (string_prop v ''id'') [], tb_label = nullish_default (string_prop v ''label'') [],
      tb_data = json_prop v ''data''\<rparr>"

definition loadState :: "json_parser \<Rightarrow> string option \<Rightarrow> (tab list \<times> string option) option" where
  "loadState parse raw =
     (if truthy raw then
        (case parse (nullish_default raw []) of
           None \<Rightarrow> None
         | Some parsed \<Rightarrow>
             (case json_prop parsed ''tabs'' of
                Some (JArr ts) \<Rightarrow> Some (map tab_of ts, string_prop parsed ''activeTabId'')
              | _ \<Rightarrow> None))
      else None)"

definition initial_tabs :: "json_parser \<Rightarrow> string option option \<Rightarrow> tab list \<Rightarrow> string option \<Rightarrow> tabs_state" where
  "initial_tabs parse stored initialTabs initialActiveTabId =
     (let initial = (case stored of None \<Rightarrow> None | Some raw \<Rightarrow> loadState parse raw) in
      \<lparr>ts_tabs = (case initial of None \<Rightarrow> initialTabs | Some (ts, _) \<Rightarrow> ts),
       ts_activeTabId = nullish (case initial of None \<Rightarrow> None | Some (_, a) \<Rightarrow> a) initialActiveTabId\<rparr>)"

section \<open>The machine\<close>

text \<open>The tab bar offers the tabs that exist.\<close>

datatype tab_event = OpenTab tab | CloseTab string | SelectTab string | RelabelTab string string

fun tab_step :: "int \<Rightarrow> tab_event \<Rightarrow> tabs_state \<Rightarrow> tabs_state option" where
  "tab_step maxTabs (OpenTab t) s = Some (openTab maxTabs t s)"
| "tab_step maxTabs (CloseTab i) s = (if i \<in> tb_id ` set (ts_tabs s) then closeTab i s else Some s)"
| "tab_step maxTabs (SelectTab i) s =
     (if i \<in> tb_id ` set (ts_tabs s) then Some (s\<lparr>ts_activeTabId := Some i\<rparr>) else Some s)"
| "tab_step maxTabs (RelabelTab i l) s = Some (updateTabLabel i l s)"

fun tab_run :: "int \<Rightarrow> tab_event list \<Rightarrow> tabs_state \<Rightarrow> tabs_state option" where
  "tab_run maxTabs [] s = Some s"
| "tab_run maxTabs (e # es) s = (case tab_step maxTabs e s of None \<Rightarrow> None | Some s' \<Rightarrow> tab_run maxTabs es s')"

section \<open>The invariant\<close>

definition tabs_ok :: "int \<Rightarrow> tabs_state \<Rightarrow> bool" where
  "tabs_ok maxTabs s \<longleftrightarrow>
     distinct (map tb_id (ts_tabs s)) \<and> int (length (ts_tabs s)) \<le> maxTabs \<and>
     (case ts_activeTabId s of None \<Rightarrow> ts_tabs s = [] | Some i \<Rightarrow> i \<in> tb_id ` set (ts_tabs s))"

lemma find_None_id: "find (\<lambda>u. tb_id u = i) ts = None \<longleftrightarrow> i \<notin> tb_id ` set ts"
  by (auto simp: find_None_iff)

lemma length_filter_id:
  "distinct (map tb_id ts) \<Longrightarrow> i \<in> tb_id ` set ts \<Longrightarrow> length (filter (\<lambda>u. tb_id u \<noteq> i) ts) = length ts - 1"
proof (induction ts)
  case (Cons t ts)
  show ?case
  proof (cases "tb_id t = i")
    case True
    with Cons.prems have "filter (\<lambda>u. tb_id u \<noteq> i) ts = ts"
      unfolding filter_id_conv by (metis distinct.simps(2) image_eqI image_set list.simps(9))
    with True show ?thesis by simp
  next
    case False
    with Cons have "length (filter (\<lambda>u. tb_id u \<noteq> i) ts) = length ts - 1" "0 < length ts" by auto
    with False show ?thesis by simp
  qed
qed simp

lemma find_index_Some: "find_index P xs = Some i \<Longrightarrow> i < length xs \<and> P (xs ! i)"
  by (induction xs arbitrary: i) (auto split: if_splits)

lemma find_index_None: "find_index P xs = None \<longleftrightarrow> (\<forall>x \<in> set xs. \<not> P x)"
  by (induction xs) auto

text \<open>With two tabs or more allowed there is always an old tab to give up, never the active one.\<close>

lemma evicted_tab:
  assumes "tabs_ok m s" "2 \<le> m" "tb_id t \<notin> tb_id ` set (ts_tabs s)" "m < int (length (ts_tabs s @ [t]))"
  obtains o' where "find (\<lambda>u. Some (tb_id u) \<noteq> ts_activeTabId s) (ts_tabs s @ [t]) = Some o'"
    "o' \<in> set (ts_tabs s)" "Some (tb_id o') \<noteq> ts_activeTabId s"
proof -
  have two: "2 \<le> length (ts_tabs s)" using assms(2,4) by simp
  then obtain a b ts where ab: "ts_tabs s = a # b # ts" by (cases "ts_tabs s"; cases "tl (ts_tabs s)") auto
  with assms(1) have "tb_id a \<noteq> tb_id b" by (auto simp: tabs_ok_def)
  then have "Some (tb_id a) \<noteq> ts_activeTabId s \<or> Some (tb_id b) \<noteq> ts_activeTabId s" by (metis option.inject)
  then show ?thesis using that [of a] that [of b] ab by (cases "Some (tb_id a) \<noteq> ts_activeTabId s") auto
qed

lemma tabs_ok_openTab:
  assumes ok: "tabs_ok m s" and m: "2 \<le> m"
  shows "tabs_ok m (openTab m t s)"
proof (cases "tb_id t \<in> tb_id ` set (ts_tabs s)")
  case True
  with ok show ?thesis by (auto simp: openTab_def tabs_ok_def find_None_id Let_def)
next
  case False
  let ?next = "ts_tabs s @ [t]"
  have dist: "distinct (map tb_id ?next)" using ok False by (auto simp: tabs_ok_def)
  show ?thesis
  proof (cases "m < int (length ?next)")
    case big: True
    from evicted_tab [OF ok m False big] obtain o' where
      o': "find (\<lambda>u. Some (tb_id u) \<noteq> ts_activeTabId s) ?next = Some o'" "o' \<in> set (ts_tabs s)" by metis
    then have "tb_id o' \<in> tb_id ` set ?next" "tb_id o' \<noteq> tb_id t"
      using False by (auto, metis image_eqI)
    with dist have "length (filter (\<lambda>u. tb_id u \<noteq> tb_id o') ?next) = length ?next - 1"
      by (intro length_filter_id) auto
    moreover have "distinct (map tb_id (filter (\<lambda>u. tb_id u \<noteq> tb_id o') ?next))" using dist by (rule distinct_map_filter)
    ultimately show ?thesis
      using False big o' ok \<open>tb_id o' \<noteq> tb_id t\<close> by (simp add: openTab_def tabs_ok_def find_None_id Let_def)
  next
    case False
    with \<open>tb_id t \<notin> tb_id ` set (ts_tabs s)\<close> dist show ?thesis
      by (simp add: openTab_def tabs_ok_def find_None_id Let_def)
  qed
qed

lemma tabs_ok_closeTab:
  assumes ok: "tabs_ok m s" and i: "i \<in> tb_id ` set (ts_tabs s)"
  obtains s' where "closeTab i s = Some s'" "tabs_ok m s'"
proof -
  let ?next = "filter (\<lambda>u. tb_id u \<noteq> i) (ts_tabs s)"
  have dist: "distinct (map tb_id ?next)" using ok by (simp add: tabs_ok_def distinct_map_filter)
  have len: "int (length ?next) \<le> m" using ok length_filter_le [of "\<lambda>u. tb_id u \<noteq> i" "ts_tabs s"]
    unfolding tabs_ok_def by linarith
  obtain idx where idx: "find_index (\<lambda>u. tb_id u = i) (ts_tabs s) = Some idx"
    using i by (cases "find_index (\<lambda>u. tb_id u = i) (ts_tabs s)") (auto simp: find_index_None)
  have mem: "?next \<noteq> [] \<Longrightarrow> ?next ! min idx (length ?next - 1) \<in> set ?next"
    by (intro nth_mem) (auto simp: min_less_iff_disj)
  show ?thesis
  proof (cases "?next = []")
    case True
    with that show ?thesis using len ok by (simp add: closeTab_def Let_def tabs_ok_def)
  next
    case False
    note nxt = mem [OF False]
    show ?thesis
    proof (cases "Some i = ts_activeTabId s")
      case True
      then have "closeTab i s = Some \<lparr>ts_tabs = ?next, ts_activeTabId = Some (tb_id (?next ! min idx (length ?next - 1)))\<rparr>"
        using False idx by (simp add: closeTab_def Let_def)
      with that show ?thesis using dist len nxt by (simp add: tabs_ok_def)
    next
      case inactive: False
      then have c: "closeTab i s = Some (s\<lparr>ts_tabs := ?next\<rparr>)" using False by (simp add: closeTab_def Let_def)
      have "ts_tabs s \<noteq> []" using i by auto
      then have "tabs_ok m (s\<lparr>ts_tabs := ?next\<rparr>)"
        using ok inactive dist len by (auto simp: tabs_ok_def split: option.splits)
      with that c show ?thesis by blast
    qed
  qed
qed

lemma tabs_ok_step:
  assumes "tabs_ok m s" "2 \<le> m"
  obtains s' where "tab_step m e s = Some s'" "tabs_ok m s'"
proof (cases e)
  case (CloseTab i)
  with assms that show ?thesis by (cases "i \<in> tb_id ` set (ts_tabs s)") (auto elim: tabs_ok_closeTab)
next
  case (RelabelTab i l)
  have ids: "map tb_id (ts_tabs (updateTabLabel i l s)) = map tb_id (ts_tabs s)"
    by (simp add: updateTabLabel_def comp_def if_distrib)
  have "length (ts_tabs (updateTabLabel i l s)) = length (ts_tabs s)"
    "tb_id ` set (ts_tabs (updateTabLabel i l s)) = tb_id ` set (ts_tabs s)"
    "ts_tabs (updateTabLabel i l s) = [] \<longleftrightarrow> ts_tabs s = []"
    using ids by (metis length_map, metis list.set_map, metis map_is_Nil_conv)
  moreover have "ts_activeTabId (updateTabLabel i l s) = ts_activeTabId s" by (simp add: updateTabLabel_def)
  ultimately have "tabs_ok m (updateTabLabel i l s)"
    using assms(1) ids by (simp add: tabs_ok_def split: option.splits)
  with RelabelTab that show ?thesis by simp
next
  case (OpenTab t)
  with that tabs_ok_openTab [OF assms] show ?thesis by simp
next
  case (SelectTab i)
  from assms(1) have "i \<in> tb_id ` set (ts_tabs s) \<Longrightarrow> tabs_ok m (s\<lparr>ts_activeTabId := Some i\<rparr>)"
    by (simp add: tabs_ok_def)
  with SelectTab assms(1) that show ?thesis by (cases "i \<in> tb_id ` set (ts_tabs s)") auto
qed

section \<open>Properties\<close>

text \<open>The tabs stay consistent. With two tabs or more allowed, no sequence of opening, closing,
  selecting and relabelling throws, and after it the ids are distinct, there are at most \<open>maxTabs\<close>
  tabs, and the active tab is one of them, or there is none.\<close>

theorem tabs_stay_consistent:
  assumes "tabs_ok maxTabs s" and "2 \<le> maxTabs"
  shows "\<exists>s'. tab_run maxTabs es s = Some s' \<and> distinct (map tb_id (ts_tabs s')) \<and>
    int (length (ts_tabs s')) \<le> maxTabs \<and>
    (case ts_activeTabId s' of None \<Rightarrow> ts_tabs s' = [] | Some i \<Rightarrow> \<exists>u \<in> set (ts_tabs s'). tb_id u = i)"
proof -
  have "\<exists>s'. tab_run maxTabs es s = Some s' \<and> tabs_ok maxTabs s'"
    using assms(1)
  proof (induction es arbitrary: s)
    case (Cons e es)
    obtain s1 where "tab_step maxTabs e s = Some s1" "tabs_ok maxTabs s1"
      using tabs_ok_step [OF Cons.prems assms(2)] .
    with Cons.IH show ?case by simp
  qed simp
  then obtain s' where "tab_run maxTabs es s = Some s'" "tabs_ok maxTabs s'" by blast
  then show ?thesis by (auto simp: tabs_ok_def split: option.splits)
qed

definition demo_tab :: "string \<Rightarrow> tab" where
  "demo_tab i = \<lparr>tb_id = i, tb_label = i, tb_data = Some JNull\<rparr>"

lemma tabs_stay_consistent_witness:
  "\<exists>s'. tab_run 2 [OpenTab (demo_tab ''a''), OpenTab (demo_tab ''b''), OpenTab (demo_tab ''c''), CloseTab ''c'']
       \<lparr>ts_tabs = [], ts_activeTabId = None\<rparr> = Some s' \<and> length (ts_tabs s') \<le> 2"
proof -
  have "tabs_ok 2 \<lparr>ts_tabs = [], ts_activeTabId = None\<rparr>" by (simp add: tabs_ok_def)
  from tabs_stay_consistent [OF this, of "[OpenTab (demo_tab ''a''), OpenTab (demo_tab ''b''),
      OpenTab (demo_tab ''c''), CloseTab ''c'']"] show ?thesis by auto
qed

text \<open>Opening a tab shows it and never gives up the one the user is looking at. The opened tab is
  active and present, the tab that was active is still there, an id that was open keeps the list as it
  is, and at most one tab, inactive, is given up for a new one.\<close>

theorem open_tab_shows:
  assumes "tabs_ok maxTabs s" and "2 \<le> maxTabs"
  shows "let s' = openTab maxTabs t s in
    ts_activeTabId s' = Some (tb_id t) \<and> tb_id t \<in> tb_id ` set (ts_tabs s') \<and>
    (\<forall>i. ts_activeTabId s = Some i \<longrightarrow> i \<in> tb_id ` set (ts_tabs s')) \<and>
    (if tb_id t \<in> tb_id ` set (ts_tabs s) then ts_tabs s' = ts_tabs s
     else \<exists>given :: tab list. length given \<le> 1 \<and> ts_tabs s' = filter (\<lambda>u. tb_id u \<notin> tb_id ` set given) (ts_tabs s) @ [t])"
proof -
  let ?s' = "openTab maxTabs t s"
  have active: "i \<in> tb_id ` set (ts_tabs s)" if "ts_activeTabId s = Some i" for i
    using that assms(1) by (simp add: tabs_ok_def)
  show ?thesis
  proof (cases "tb_id t \<in> tb_id ` set (ts_tabs s)")
    case True
    with active show ?thesis by (simp add: openTab_def find_None_id Let_def)
  next
    case False
    have "\<exists>given :: tab list. length given \<le> 1 \<and> ts_tabs ?s' = filter (\<lambda>u. tb_id u \<notin> tb_id ` set given) (ts_tabs s) @ [t] \<and>
        (\<forall>g \<in> set given. Some (tb_id g) \<noteq> ts_activeTabId s)"
    proof (cases "maxTabs < int (length (ts_tabs s @ [t]))")
      case True
      from evicted_tab [OF assms False True] obtain o' where
        o': "find (\<lambda>u. Some (tb_id u) \<noteq> ts_activeTabId s) (ts_tabs s @ [t]) = Some o'"
          "o' \<in> set (ts_tabs s)" "Some (tb_id o') \<noteq> ts_activeTabId s" .
      then have "tb_id t \<noteq> tb_id o'" using False by (metis image_eqI)
      then have "ts_tabs ?s' = filter (\<lambda>u. tb_id u \<notin> tb_id ` set [o']) (ts_tabs s) @ [t]"
        using False True o'(1) by (simp add: openTab_def find_None_id Let_def)
      with o'(3) have "length [o'] \<le> 1 \<and> ts_tabs ?s' = filter (\<lambda>u. tb_id u \<notin> tb_id ` set [o']) (ts_tabs s) @ [t] \<and>
          (\<forall>g \<in> set [o']. Some (tb_id g) \<noteq> ts_activeTabId s)" by simp
      then show ?thesis by blast
    next
      case fits: False
      then have "ts_tabs ?s' = ts_tabs s @ [t]" using False by (simp add: openTab_def find_None_id Let_def)
      then show ?thesis by (intro exI [of _ "[]"]) simp
    qed
    then obtain given :: "tab list" where given: "length given \<le> 1" "\<forall>g \<in> set given. Some (tb_id g) \<noteq> ts_activeTabId s"
      "ts_tabs ?s' = filter (\<lambda>u. tb_id u \<notin> tb_id ` set given) (ts_tabs s) @ [t]" by blast
    then have "i \<in> tb_id ` set (ts_tabs ?s')" if "ts_activeTabId s = Some i" for i
      using active [OF that] that by fastforce
    moreover have "ts_activeTabId ?s' = Some (tb_id t)" using False by (simp add: openTab_def find_None_id Let_def)
    ultimately show ?thesis using False given(1,3) unfolding Let_def by auto
  qed
qed

lemma open_tab_shows_witness:
  "ts_activeTabId (openTab 2 (demo_tab ''c'') \<lparr>ts_tabs = [demo_tab ''a'', demo_tab ''b''], ts_activeTabId = Some ''a''\<rparr>) = Some ''c'' \<and>
   ''a'' \<in> tb_id ` set (ts_tabs (openTab 2 (demo_tab ''c'') \<lparr>ts_tabs = [demo_tab ''a'', demo_tab ''b''], ts_activeTabId = Some ''a''\<rparr>))"
proof -
  have "tabs_ok 2 \<lparr>ts_tabs = [demo_tab ''a'', demo_tab ''b''], ts_activeTabId = Some ''a''\<rparr>"
    by (simp add: tabs_ok_def demo_tab_def)
  note shown = open_tab_shows [OF this, of "demo_tab ''c''", unfolded Let_def, simplified (no_asm_use)]
  show ?thesis using shown [THEN conjunct1] shown [THEN conjunct2, THEN conjunct2, THEN conjunct1]
    by (simp add: demo_tab_def)
qed

text \<open>C29: the tabs survive a reload. With a parser that reads back what \<open>JSON.stringify\<close> wrote, the
  page that opens after \<open>saveState\<close> has the same tabs, labels and data, and the same active tab; only a
  page without an active tab falls back on the default.\<close>

theorem tabs_survive_reload:
  assumes "parse (json_stringify (state_json s)) = Some (state_json s)"
  shows "initial_tabs parse (Some (saveState True s storage)) initialTabs initialActiveTabId =
    s\<lparr>ts_activeTabId := nullish (ts_activeTabId s) initialActiveTabId\<rparr>"
proof -
  have "tab_of (tab_json t) = t" for t by (cases t) (simp add: tab_of_def tab_json_def string_prop_def json_prop_def split: option.split)
  then have "map (tab_of \<circ> tab_json) ts = ts" for ts by (simp add: map_idI)
  moreover have "json_stringify (state_json s) \<noteq> []" by (simp add: state_json_def)
  then have "truthy (Some (json_stringify (state_json s)))" by (simp add: truthy_def)
  ultimately show ?thesis
    using assms by (simp add: initial_tabs_def saveState_def loadState_def state_json_def string_prop_def json_prop_def
        split: option.split)
qed

lemma tabs_survive_reload_witness:
  "initial_tabs (\<lambda>_. Some (state_json \<lparr>ts_tabs = [demo_tab ''a''], ts_activeTabId = Some ''a''\<rparr>))
     (Some (saveState True \<lparr>ts_tabs = [demo_tab ''a''], ts_activeTabId = Some ''a''\<rparr> None)) [] None =
   \<lparr>ts_tabs = [demo_tab ''a''], ts_activeTabId = Some ''a''\<rparr>"
  using tabs_survive_reload [of "\<lambda>_. Some (state_json \<lparr>ts_tabs = [demo_tab ''a''], ts_activeTabId = Some ''a''\<rparr>)"
      "\<lparr>ts_tabs = [demo_tab ''a''], ts_activeTabId = Some ''a''\<rparr>" None "[]" None] by simp

end
