(* ===== verification/Ui_Log_Buffer.thy ===== *)
theory Ui_Log_Buffer
  imports Text_Order
begin

text \<open>
  The buffer of a live log (apps/ui/src/hooks/useLogBuffer.ts): lines are collected in a batch and
  moved to the list once for each animation frame; the list keeps the newest lines. \<open>stamp\<close> reads the
  timestamp of a line. The number of lines kept is a natural number; \<open>slice(-0)\<close> is the whole array.
\<close>

record 'a log_buffer =
  lb_logs :: "'a list"
  lb_batch :: "'a list"
  lb_raf :: bool
  lb_batchStart :: nat

definition empty_buffer :: "'a log_buffer" where
  "empty_buffer = \<lparr>lb_logs = [], lb_batch = [], lb_raf = False, lb_batchStart = 0\<rparr>"

definition slice_last :: "nat \<Rightarrow> 'a list \<Rightarrow> 'a list" where
  "slice_last n xs = (if n = 0 then xs else drop (length xs - n) xs)"

definition flushBatch ::
  "nat \<Rightarrow> bool \<Rightarrow> (string \<Rightarrow> string \<Rightarrow> int) \<Rightarrow> ('a \<Rightarrow> string) \<Rightarrow> 'a log_buffer \<Rightarrow> 'a log_buffer" where
  "flushBatch maxLines sortByTimestamp localeCompare stamp s =
     (let batch = lb_batch s; prev = lb_logs s in
      if batch = [] then s\<lparr>lb_raf := False\<rparr>
      else
        (let next0 = prev @ batch;
             late = (sortByTimestamp \<and> prev \<noteq> [] \<and>
                     (\<exists>e \<in> set batch. js_compare (stamp e) (stamp (last prev)) < 0));
             next = (if late then js_sort (\<lambda>a b. localeCompare (stamp a) (stamp b)) next0 else next0);
             start = (if late then length next else length prev)
         in if length next > maxLines
            then \<lparr>lb_logs = slice_last maxLines next, lb_batch = [], lb_raf = False,
                  lb_batchStart = start - (length next - maxLines)\<rparr>
            else \<lparr>lb_logs = next, lb_batch = [], lb_raf = False, lb_batchStart = start\<rparr>))"

definition addLog :: "'a \<Rightarrow> 'a log_buffer \<Rightarrow> 'a log_buffer" where
  "addLog log s = s\<lparr>lb_batch := lb_batch s @ [log], lb_raf := True\<rparr>"

definition clearLogs :: "'a log_buffer \<Rightarrow> 'a log_buffer" where
  "clearLogs s = \<lparr>lb_logs = [], lb_batch = [], lb_raf = False, lb_batchStart = 0\<rparr>"

text \<open>A frame comes only when one has been requested.\<close>

datatype 'a buffer_event = AddLog 'a | Frame | ClearLogs

fun buffer_step ::
  "nat \<Rightarrow> bool \<Rightarrow> (string \<Rightarrow> string \<Rightarrow> int) \<Rightarrow> ('a \<Rightarrow> string) \<Rightarrow> 'a buffer_event \<Rightarrow> 'a log_buffer \<Rightarrow> 'a log_buffer" where
  "buffer_step m srt lc stamp (AddLog l) s = addLog l s"
| "buffer_step m srt lc stamp Frame s = (if lb_raf s then flushBatch m srt lc stamp s else s)"
| "buffer_step m srt lc stamp ClearLogs s = clearLogs s"

section \<open>The tail of a sorted list\<close>

text \<open>A list that was sorted before more was appended sorts to what all of it does.\<close>

context comparator
begin

lemma insert_commute: "\<not> cmp x y \<le> 0 \<Longrightarrow> insert_by cmp y (insert_by cmp x zs) = insert_by cmp x (insert_by cmp y zs)"
proof (induction zs)
  case Nil
  then show ?case using cmp_total by auto
next
  case (Cons z zs)
  then have "cmp y x \<le> 0" using cmp_total by blast
  with Cons cmp_trans [of y x z] cmp_trans [of x y z] show ?case by auto
qed

lemma foldr_insert_by: "foldr (insert_by cmp) (insert_by cmp x ys) zs = insert_by cmp x (foldr (insert_by cmp) ys zs)"
  by (induction ys) (auto intro: insert_commute)

lemma js_sort_append: "js_sort cmp (js_sort cmp xs @ ys) = js_sort cmp (xs @ ys)"
proof -
  have "foldr (insert_by cmp) (js_sort cmp xs) zs = foldr (insert_by cmp) xs zs" for zs
    by (induction xs) (simp_all add: foldr_insert_by)
  then show ?thesis by (simp add: js_sort_def)
qed

text \<open>An element that is before enough others is not among the last of them.\<close>

lemma insert_by_last:
  assumes "m \<le> length (filter (\<lambda>y. cmp x y \<le> 0) ys)"
  shows "drop (Suc (length ys) - m) (insert_by cmp x ys) = drop (length ys - m) ys"
  using assms
proof (induction ys)
  case (Cons y ys)
  show ?case
  proof (cases "cmp x y \<le> 0")
    case True
    have "length (filter (\<lambda>y. cmp x y \<le> 0) (y # ys)) \<le> length (y # ys)" by (rule length_filter_le)
    with Cons.prems have "Suc (length (y # ys)) - m = Suc (length (y # ys) - m)" by (simp add: Suc_diff_le)
    with True show ?thesis by simp
  next
    case False
    with Cons.prems have m: "m \<le> length (filter (\<lambda>y. cmp x y \<le> 0) ys)" by simp
    then have "m \<le> length ys" using length_filter_le le_trans by blast
    then have "Suc (length (y # ys)) - m = Suc (Suc (length ys) - m)" "length (y # ys) - m = Suc (length ys - m)"
      by (simp_all add: Suc_diff_le)
    with False Cons.IH [OF m] show ?thesis by simp
  qed
qed simp

lemma sorted_last:
  assumes "sorted_by (ps @ prev)" and "m \<le> length prev"
  shows "drop (length (ps @ prev @ ys) - m) (js_sort cmp (ps @ prev @ ys)) = drop (length (prev @ ys) - m) (js_sort cmp (prev @ ys))"
  using assms(1)
proof (induction ps)
  case (Cons p ps)
  let ?rest = "ps @ prev @ ys"
  have "length prev = length (filter (\<lambda>y. cmp p y \<le> 0) prev)" using Cons.prems by (simp add: filter_id_conv)
  also have "\<dots> \<le> length (filter (\<lambda>y. cmp p y \<le> 0) ?rest)" by simp
  also have "\<dots> = length (filter (\<lambda>y. cmp p y \<le> 0) (js_sort cmp ?rest))"
    by (metis mset_filter mset_js_sort size_mset)
  finally have "m \<le> length (filter (\<lambda>y. cmp p y \<le> 0) (js_sort cmp ?rest))" using assms(2) by simp
  from insert_by_last [OF this] Cons show ?case by simp
qed simp

text \<open>So a list of the last \<open>m\<close> elements is kept by sorting new ones into it alone.\<close>

lemma last_of_sorted:
  assumes "0 < m" and "prev = drop (length shown - m) (js_sort cmp shown)"
  shows "drop (length (prev @ batch) - m) (js_sort cmp (prev @ batch)) =
    drop (length (shown @ batch) - m) (js_sort cmp (shown @ batch))"
proof -
  let ?ps = "take (length shown - m) (js_sort cmp shown)"
  have all: "?ps @ prev = js_sort cmp shown" by (simp add: assms(2))
  have whole: "js_sort cmp (shown @ batch) = js_sort cmp (?ps @ prev @ batch)"
    using js_sort_append [of shown batch] all by (metis append_assoc)
  have length: "length (shown @ batch) = length (?ps @ prev @ batch)"
    by (simp add: assms(2))
  show ?thesis
  proof (cases "length shown \<le> m")
    case True
    then have "?ps = []" by simp
    with whole length show ?thesis by simp
  next
    case False
    then have "length prev = m" by (simp add: assms(2))
    moreover have "sorted_by (?ps @ prev)" unfolding all by (rule sorted_js_sort)
    ultimately show ?thesis unfolding whole length using sorted_last [of ?ps prev m batch] by simp
  qed
qed

end

lemma js_sort_cong:
  "(\<And>x y. x \<in> set xs \<Longrightarrow> y \<in> set xs \<Longrightarrow> c x y \<le> 0 \<longleftrightarrow> d x y \<le> 0) \<Longrightarrow> js_sort c xs = js_sort d xs"
proof (induction xs)
  case (Cons x xs)
  have "insert_by c x ys = insert_by d x ys" if "set ys \<subseteq> set xs" for ys
    using that Cons.prems by (induction ys) auto
  with Cons show ?case by simp
qed simp

section \<open>The specification\<close>

text \<open>What has been shown since the last clearing, and what waits for a frame.\<close>

fun spec_step :: "'a buffer_event \<Rightarrow> 'a list \<times> 'a list \<Rightarrow> 'a list \<times> 'a list" where
  "spec_step (AddLog l) (shown, waiting) = (shown, waiting @ [l])"
| "spec_step Frame (shown, waiting) = (shown @ waiting, [])"
| "spec_step ClearLogs (shown, waiting) = ([], [])"

definition refines :: "nat \<Rightarrow> 'a log_buffer \<Rightarrow> 'a list \<times> 'a list \<Rightarrow> bool" where
  "refines m s a \<longleftrightarrow> lb_logs s = drop (length (fst a) - m) (fst a) \<and> lb_batch s = snd a \<and>
     (lb_raf s \<longleftrightarrow> snd a \<noteq> [])"

lemma drop_drop_append:
  "m < length xs + length ys \<Longrightarrow> drop (length (drop (length xs - m) xs @ ys) - m) (drop (length xs - m) xs @ ys) =
     drop (length (xs @ ys) - m) (xs @ ys)"
  by (cases "length xs \<le> m") (auto simp: add.commute)

lemma refines_step:
  assumes "refines m s a" "0 < m"
  shows "refines m (buffer_step m False lc stamp e s) (spec_step e a)"
proof (cases e)
  case Frame
  obtain shown waiting where a: "a = (shown, waiting)" by (cases a)
  show ?thesis
  proof (cases "waiting = []")
    case True
    with assms Frame a show ?thesis by (simp add: refines_def)
  next
    case False
    let ?next = "drop (length shown - m) shown @ waiting"
    have flush: "lb_logs (flushBatch m False lc stamp s) = (if length ?next > m then drop (length ?next - m) ?next else ?next)"
      "lb_batch (flushBatch m False lc stamp s) = []" "\<not> lb_raf (flushBatch m False lc stamp s)"
      using assms False a by (simp_all add: refines_def flushBatch_def slice_last_def Let_def)
    have "lb_logs (flushBatch m False lc stamp s) = drop (length (shown @ waiting) - m) (shown @ waiting)"
    proof (cases "m < length shown + length waiting")
      case True
      have "?next = drop (length shown - m) (shown @ waiting)" by simp
      with True drop_drop_append [OF True] show ?thesis
        unfolding flush(1) by (cases "length ?next > m") (auto simp: add.commute simp del: drop_append)
    qed (simp add: flush(1))
    with assms False a Frame flush(2,3) show ?thesis by (simp add: refines_def)
  qed
qed (use assms in \<open>cases a; simp add: refines_def addLog_def clearLogs_def\<close>)+

lemma refines_run:
  "refines m s a \<Longrightarrow> 0 < m \<Longrightarrow> refines m (fold (buffer_step m False lc stamp) es s) (fold spec_step es a)"
  by (induction es arbitrary: s a) (simp_all add: refines_step)

text \<open>The lines of each frame are in the order of their stamps; \<open>waiting\<close> are those collected so far.\<close>

fun frames_ordered :: "('a \<Rightarrow> string) \<Rightarrow> 'a buffer_event list \<Rightarrow> 'a list \<Rightarrow> bool" where
  "frames_ordered stamp [] waiting = True"
| "frames_ordered stamp (AddLog l # es) waiting = frames_ordered stamp es (waiting @ [l])"
| "frames_ordered stamp (Frame # es) waiting \<longleftrightarrow>
     sorted_wrt (\<lambda>a b. js_compare (stamp a) (stamp b) \<le> 0) waiting \<and> frames_ordered stamp es []"
| "frames_ordered stamp (ClearLogs # es) waiting = frames_ordered stamp es []"

definition compare_alike :: "(string \<Rightarrow> string \<Rightarrow> int) \<Rightarrow> string set \<Rightarrow> bool" where
  "compare_alike lc stamps \<longleftrightarrow> (\<forall>u \<in> stamps. \<forall>v \<in> stamps. lc u v \<le> 0 \<longleftrightarrow> js_compare u v \<le> 0)"

lemma compare_alike_mono: "compare_alike lc stamps \<Longrightarrow> s \<subseteq> stamps \<Longrightarrow> compare_alike lc s"
  by (auto simp: compare_alike_def)

definition by_stamp :: "('a \<Rightarrow> string) \<Rightarrow> 'a list \<Rightarrow> 'a list" where
  "by_stamp stamp = js_sort (\<lambda>a b. js_compare (stamp a) (stamp b))"

definition refines_sorted :: "nat \<Rightarrow> ('a \<Rightarrow> string) \<Rightarrow> 'a log_buffer \<Rightarrow> 'a list \<times> 'a list \<Rightarrow> bool" where
  "refines_sorted m stamp s a \<longleftrightarrow> lb_logs s = drop (length (fst a) - m) (by_stamp stamp (fst a)) \<and> lb_batch s = snd a \<and>
     (lb_raf s \<longleftrightarrow> snd a \<noteq> [])"

interpretation by_stamp: comparator "\<lambda>a b. js_compare (stamp a) (stamp b)" for stamp :: "'a \<Rightarrow> string"
  using text_order.cmp_refl text_order.cmp_total text_order.cmp_trans by unfold_locales blast+

lemma flush_sorts:
  assumes prev: "sorted_wrt (\<lambda>a b. js_compare (stamp a) (stamp b) \<le> 0) (lb_logs s)" and m: "0 < m" and new: "lb_batch s \<noteq> []"
    and batch: "sorted_wrt (\<lambda>a b. js_compare (stamp a) (stamp b) \<le> 0) (lb_batch s)"
    and alike: "compare_alike lc (stamp ` (set (lb_logs s) \<union> set (lb_batch s)))"
  shows "lb_logs (flushBatch m True lc stamp s) =
    drop (length (lb_logs s @ lb_batch s) - m) (by_stamp stamp (lb_logs s @ lb_batch s))"
proof -
  let ?c = "\<lambda>a b. js_compare (stamp a) (stamp b)" and ?all = "lb_logs s @ lb_batch s"
  let ?late = "lb_logs s \<noteq> [] \<and> (\<exists>e \<in> set (lb_batch s). ?c e (last (lb_logs s)) < 0)"
  let ?next = "if ?late then js_sort (\<lambda>a b. lc (stamp a) (stamp b)) ?all else ?all"
  have "js_sort (\<lambda>a b. lc (stamp a) (stamp b)) ?all = by_stamp stamp ?all"
    unfolding by_stamp_def by (rule js_sort_cong) (use alike in \<open>auto simp: compare_alike_def\<close>)
  moreover have "?all = by_stamp stamp ?all" if "\<not> ?late"
  proof (cases "lb_logs s = []")
    case True
    with batch show ?thesis by (simp add: by_stamp_def by_stamp.js_sort_sorted)
  next
    case False
    have "?c x y \<le> 0" if "x \<in> set (lb_logs s)" "y \<in> set (lb_batch s)" for x y
    proof -
      have "lb_logs s = butlast (lb_logs s) @ [last (lb_logs s)]" using False by simp
      then have "\<forall>x \<in> set (butlast (lb_logs s)). ?c x (last (lb_logs s)) \<le> 0"
        using prev by (metis (no_types, lifting) list.set_intros(1) sorted_wrt_append)
      moreover have "x \<in> set (butlast (lb_logs s)) \<or> x = last (lb_logs s)"
        using that(1) False by (metis append_butlast_last_id in_set_conv_decomp insert_iff list.set(2) rotate1.simps(2) set_rotate1)
      ultimately have "?c x (last (lb_logs s)) \<le> 0" using by_stamp.cmp_refl by auto
      moreover have "?c (last (lb_logs s)) y \<le> 0"
        using \<open>\<not> ?late\<close> False that(2) js_compare_antisym [of "stamp (last (lb_logs s))" "stamp y"] by force
      ultimately show ?thesis by (rule js_compare_trans)
    qed
    then show ?thesis using prev batch unfolding by_stamp_def by (intro by_stamp.js_sort_sorted [symmetric]) (simp add: sorted_wrt_append)
  qed
  ultimately have "?next = by_stamp stamp ?all" by simp
  then have "lb_logs (flushBatch m True lc stamp s) =
      (if length (by_stamp stamp ?all) > m then slice_last m (by_stamp stamp ?all) else by_stamp stamp ?all)"
    using new by (auto simp: flushBatch_def Let_def)
  also have "\<dots> = drop (length (by_stamp stamp ?all) - m) (by_stamp stamp ?all)"
    using m by (simp add: slice_last_def)
  finally show ?thesis by (simp add: by_stamp_def)
qed

lemma sorted_flush:
  assumes r: "refines_sorted m stamp s (shown, waiting)" and m: "0 < m" and new: "waiting \<noteq> []"
    and ordered: "sorted_wrt (\<lambda>a b. js_compare (stamp a) (stamp b) \<le> 0) waiting"
    and alike: "compare_alike lc (stamp ` (set shown \<union> set waiting))"
  shows "refines_sorted m stamp (flushBatch m True lc stamp s) (shown @ waiting, [])"
proof -
  have prev: "lb_logs s = drop (length shown - m) (js_sort (\<lambda>a b. js_compare (stamp a) (stamp b)) shown)" and batch: "lb_batch s = waiting"
    using r by (simp_all add: refines_sorted_def by_stamp_def)
  have "sorted_wrt (\<lambda>a b. js_compare (stamp a) (stamp b) \<le> 0) (lb_logs s)"
    unfolding prev by (rule sorted_wrt_drop) (rule by_stamp.sorted_js_sort)
  moreover have "set (lb_logs s) \<subseteq> set shown" unfolding prev by (metis set_drop_subset set_js_sort)
  with alike have "compare_alike lc (stamp ` (set (lb_logs s) \<union> set (lb_batch s)))"
    unfolding batch by (elim compare_alike_mono) blast
  ultimately have "lb_logs (flushBatch m True lc stamp s) =
      drop (length (lb_logs s @ waiting) - m) (js_sort (\<lambda>a b. js_compare (stamp a) (stamp b)) (lb_logs s @ waiting))"
    using flush_sorts [of stamp s m lc] m new ordered by (simp add: batch by_stamp_def)
  also have "\<dots> = drop (length (shown @ waiting) - m) (js_sort (\<lambda>a b. js_compare (stamp a) (stamp b)) (shown @ waiting))"
    by (rule by_stamp.last_of_sorted [OF m prev])
  finally have "lb_logs (flushBatch m True lc stamp s) = drop (length (shown @ waiting) - m) (by_stamp stamp (shown @ waiting))"
    by (simp only: by_stamp_def)
  moreover have "lb_batch (flushBatch m True lc stamp s) = []" "\<not> lb_raf (flushBatch m True lc stamp s)"
    using new batch by (simp_all add: flushBatch_def Let_def)
  ultimately show ?thesis by (simp add: refines_sorted_def)
qed

lemma sorted_run:
  assumes "refines_sorted m stamp s (shown, waiting)" and "0 < m" and "frames_ordered stamp es waiting"
    and "compare_alike lc (stamp ` (set shown \<union> set waiting \<union> {l. AddLog l \<in> set es}))"
  shows "refines_sorted m stamp (fold (buffer_step m True lc stamp) es s) (fold spec_step es (shown, waiting))"
  using assms(1,3,4)
proof (induction es arbitrary: s shown waiting)
  case (Cons e es)
  show ?case
  proof (cases e)
    case (AddLog l)
    have "refines_sorted m stamp (addLog l s) (shown, waiting @ [l])"
      using Cons.prems(1) by (simp add: refines_sorted_def addLog_def)
    moreover have "compare_alike lc (stamp ` (set shown \<union> set (waiting @ [l]) \<union> {l. AddLog l \<in> set es}))"
      by (rule compare_alike_mono [OF Cons.prems(3)]) (use AddLog in auto)
    ultimately show ?thesis using Cons.IH Cons.prems(2) AddLog by simp
  next
    case Frame
    have alike: "compare_alike lc (stamp ` (set (shown @ waiting) \<union> set [] \<union> {l. AddLog l \<in> set es}))"
      "compare_alike lc (stamp ` (set shown \<union> set waiting))"
      by (rule compare_alike_mono [OF Cons.prems(3)]; use Frame in auto)+
    have "refines_sorted m stamp (buffer_step m True lc stamp Frame s) (shown @ waiting, [])"
    proof (cases "waiting = []")
      case True
      with Cons.prems(1) show ?thesis by (simp add: refines_sorted_def)
    next
      case False
      moreover from False Cons.prems(1) have "lb_raf s" by (simp add: refines_sorted_def)
      ultimately show ?thesis using sorted_flush [OF Cons.prems(1) assms(2) False _ alike(2)] Cons.prems(2) Frame by simp
    qed
    with Cons.IH [OF this _ alike(1)] Cons.prems(2) Frame show ?thesis by simp
  next
    case ClearLogs
    have "refines_sorted m stamp (clearLogs s) ([], [])" by (simp add: refines_sorted_def clearLogs_def by_stamp_def)
    moreover have "compare_alike lc (stamp ` (set [] \<union> set [] \<union> {l. AddLog l \<in> set es}))"
      by (rule compare_alike_mono [OF Cons.prems(3)]) (use ClearLogs in auto)
    ultimately show ?thesis using Cons.IH Cons.prems(2) ClearLogs by simp
  qed
qed simp

text \<open>C30: the buffer shows the newest lines. After any sequence of lines, frames and clearings, the
  list of a buffer that does not sort is the tail, of at most \<open>maxLines\<close> lines, of what has been shown since
  the last clearing, in the order of arrival. That of a buffer that sorts is the tail of the same lines ordered by their
  stamps, and by their arrival where stamps are equal, if the lines of each frame came in the order of their stamps and
  \<open>localeCompare\<close> agrees with \<open><\<close> on the stamps; so a line that comes late is sorted in, and one that is
  older than all of a full list is not kept. In both, what has not been shown yet waits in the batch, and a
  frame is requested exactly when something waits.\<close>

theorem buffer_keeps_the_newest:
  assumes "0 < maxLines" and "fold spec_step es ([], []) = (shown, waiting)"
    and "s = fold (buffer_step maxLines False localeCompare stamp) es empty_buffer"
    and "s' = fold (buffer_step maxLines True localeCompare stamp) es empty_buffer"
  shows "lb_logs s = drop (length shown - maxLines) shown \<and> length (lb_logs s) \<le> maxLines \<and>
    lb_batch s = waiting \<and> (lb_raf s \<longleftrightarrow> waiting \<noteq> []) \<and>
    (frames_ordered stamp es [] \<and> compare_alike localeCompare (stamp ` {l. AddLog l \<in> set es}) \<longrightarrow>
       lb_logs s' = drop (length shown - maxLines) (js_sort (\<lambda>a b. js_compare (stamp a) (stamp b)) shown) \<and>
       length (lb_logs s') \<le> maxLines \<and> lb_batch s' = waiting \<and> (lb_raf s' \<longleftrightarrow> waiting \<noteq> []))"
proof -
  have "refines maxLines empty_buffer ([], [])" by (simp add: refines_def empty_buffer_def)
  from refines_run [OF this assms(1)] assms(2,3) have unsorted: "refines maxLines s (shown, waiting)" by metis
  have start: "refines_sorted maxLines stamp empty_buffer ([], [])"
    by (simp add: refines_sorted_def empty_buffer_def by_stamp_def)
  have "refines_sorted maxLines stamp s' (shown, waiting)"
    if "frames_ordered stamp es []" "compare_alike localeCompare (stamp ` {l. AddLog l \<in> set es})"
    using sorted_run [OF start assms(1) that(1), of localeCompare] that(2) assms(2,4) by simp
  with unsorted show ?thesis by (auto simp: refines_def refines_sorted_def by_stamp_def)
qed

lemma buffer_keeps_the_newest_witness:
  "lb_logs (fold (buffer_step 2 False js_compare id) [AddLog ''a'', AddLog ''c'', Frame, AddLog ''b'', Frame] empty_buffer) =
     [''c'', ''b''] \<and>
   lb_logs (fold (buffer_step 2 True js_compare id) [AddLog ''a'', AddLog ''c'', Frame, AddLog ''b'', Frame] empty_buffer) =
     [''b'', ''c'']"
proof -
  let ?es = "[AddLog ''a'', AddLog ''c'', Frame, AddLog ''b'', Frame]"
  have "fold spec_step ?es ([], []) = ([''a'', ''c'', ''b''], [])" by simp
  note newest = buffer_keeps_the_newest [OF _ this refl refl, of 2 js_compare id]
  have "frames_ordered id ?es []" by simp
  moreover have "compare_alike js_compare (id ` {l. AddLog l \<in> set ?es})" by (simp add: compare_alike_def)
  ultimately show ?thesis using newest by simp
qed

section \<open>Sorting and the animation\<close>

text \<open>The lines animated after a frame are exactly the ones it brought; after sorting, none is.\<close>

lemma animated_lines:
  assumes "lb_batch s \<noteq> []" "0 < m"
  shows "let s' = flushBatch m srt lc stamp s in
    drop (lb_batchStart s') (lb_logs s') = drop (length (lb_batch s) - m) (lb_batch s) \<or>
    drop (lb_batchStart s') (lb_logs s') = []"
proof -
  have "m - length (lb_batch s) + length (lb_batch s) - m = length (lb_batch s) - m" by linarith
  with assms show ?thesis by (auto simp: flushBatch_def slice_last_def Let_def)
qed

text \<open>A line that arrives late is sorted in, with everything else.\<close>

lemma late_line_sorts:
  assumes "comparator lc" "lb_logs s \<noteq> []" "e \<in> set (lb_batch s)"
    "js_compare (stamp e) (stamp (last (lb_logs s))) < 0"
  shows "sorted_wrt (\<lambda>a b. lc (stamp a) (stamp b) \<le> 0) (lb_logs (flushBatch m True lc stamp s))"
proof -
  let ?next = "js_sort (\<lambda>a b. lc (stamp a) (stamp b)) (lb_logs s @ lb_batch s)"
  have sorted: "sorted_wrt (\<lambda>a b. lc (stamp a) (stamp b) \<le> 0) ?next" by (rule sorted_by_key [OF assms(1)])
  have "lb_batch s \<noteq> []" using assms(3) by auto
  then have "lb_logs (flushBatch m True lc stamp s) = (if length ?next > m then slice_last m ?next else ?next)"
    using assms(2-4) by (auto simp: flushBatch_def Let_def)
  with sorted show ?thesis by (simp add: slice_last_def sorted_wrt_drop)
qed

text \<open>The first batch, and a batch that is only out of order within itself, stay unsorted.\<close>

lemma batch_stays_unsorted:
  "lb_logs (fold (buffer_step 5000 True js_compare id) [AddLog ''2'', AddLog ''1'', Frame] empty_buffer) = [''2'', ''1'']"
  by (simp add: flushBatch_def addLog_def empty_buffer_def)

end
