(* ===== verification/Ui_Log_Search.thy ===== *)
theory Ui_Log_Search
  imports JS_Prelude
begin

text \<open>
  Searching the lines shown (apps/ui/src/hooks/useLogSearch.ts, useLogFilter.ts) and marking the
  matches (apps/ui/src/utils/highlight-html.ts). The hooks see the messages of the lines. The loop of
  \<open>countMatches\<close> has no bound of its own: it is a partial function, \<open>None\<close> standing for a loop that
  does not end.
\<close>

section \<open>Counting matches\<close>

partial_function (option) count_loop :: "string \<Rightarrow> string \<Rightarrow> nat \<Rightarrow> nat \<Rightarrow> nat option" where
  "count_loop lowerText lowerQuery pos n =
     (case index_of lowerText lowerQuery pos of
        None \<Rightarrow> Some n
      | Some p \<Rightarrow> count_loop lowerText lowerQuery (p + length lowerQuery) (n + 1))"

definition countMatches :: "string \<Rightarrow> string \<Rightarrow> nat option" where
  "countMatches text query =
     (if query = [] then Some 0 else count_loop (js_lower text) (js_lower query) 0 0)"

section \<open>The search hook\<close>

datatype SearchMode = FilterMode | FindMode

record log_search =
  sc_query :: string
  sc_debounced :: string
  sc_mode :: SearchMode
  sc_currentMatchIndex :: nat

definition trimmedQuery :: "log_search \<Rightarrow> string" where
  "trimmedQuery s = js_trim (sc_debounced s)"

definition isSearching :: "log_search \<Rightarrow> bool" where
  "isSearching s \<longleftrightarrow> 0 < length (trimmedQuery s)"

definition filteredLogs :: "('a \<Rightarrow> string) \<Rightarrow> log_search \<Rightarrow> 'a list \<Rightarrow> 'a list" where
  "filteredLogs message s logs =
     (if sc_mode s \<noteq> FilterMode \<or> \<not> isSearching s then logs
      else (let lower = js_lower (trimmedQuery s) in filter (\<lambda>l. js_includes (js_lower (message l)) lower) logs))"

fun find_matches :: "('a \<Rightarrow> string) \<Rightarrow> string \<Rightarrow> nat \<Rightarrow> 'a list \<Rightarrow> (nat \<times> nat) list option" where
  "find_matches message q i [] = Some []"
| "find_matches message q i (l # logs) =
     (case countMatches (message l) q of
        None \<Rightarrow> None
      | Some mc \<Rightarrow>
          map_option (\<lambda>ms. if mc > 0 then (i, mc) # ms else ms) (find_matches message q (i + 1) logs))"

definition matches :: "('a \<Rightarrow> string) \<Rightarrow> log_search \<Rightarrow> 'a list \<Rightarrow> (nat \<times> nat) list option" where
  "matches message s logs =
     (if sc_mode s \<noteq> FindMode \<or> \<not> isSearching s then Some [] else find_matches message (trimmedQuery s) 0 logs)"

definition totalMatches :: "(nat \<times> nat) list \<Rightarrow> nat" where
  "totalMatches ms = foldl (\<lambda>sum m. sum + snd m) 0 ms"

definition clampedIndex :: "(nat \<times> nat) list \<Rightarrow> nat \<Rightarrow> nat" where
  "clampedIndex ms current = (if totalMatches ms > 0 then min current (totalMatches ms - 1) else 0)"

text \<open>The loop that finds the line of the current match; \<open>None\<close> when it runs off the end.\<close>

fun locate :: "(nat \<times> nat) list \<Rightarrow> nat \<Rightarrow> (nat \<times> nat) option" where
  "locate [] remaining = None"
| "locate (m # ms) remaining =
     (if remaining < snd m then Some (fst m, remaining) else locate ms (remaining - snd m))"

definition currentMatch :: "(nat \<times> nat) list \<Rightarrow> nat \<Rightarrow> (nat \<times> nat) option" where
  "currentMatch ms current =
     (if totalMatches ms = 0 \<or> ms = [] then None
      else (case locate ms (clampedIndex ms current) of
              Some r \<Rightarrow> Some r
            | None \<Rightarrow> Some (fst (last ms), snd (last ms) - 1)))"

definition next_match :: "nat \<Rightarrow> nat \<Rightarrow> nat" where
  "next_match tot current = (if tot = 0 then current else (current + 1) mod tot)"

text \<open>\<open>(prev - 1 + totalMatches) % totalMatches\<close>, which is negative in no case since there is a match.\<close>

definition prev_match :: "nat \<Rightarrow> nat \<Rightarrow> nat" where
  "prev_match tot current = (if tot = 0 then current else (current + tot - 1) mod tot)"

text \<open>The search box: a new trimmed query or another mode starts again at the first match.\<close>

definition set_debounced :: "string \<Rightarrow> log_search \<Rightarrow> log_search" where
  "set_debounced q s =
     (let s' = s\<lparr>sc_debounced := q\<rparr> in
      if trimmedQuery s' \<noteq> trimmedQuery s then s'\<lparr>sc_currentMatchIndex := 0\<rparr> else s')"

definition set_mode :: "SearchMode \<Rightarrow> log_search \<Rightarrow> log_search" where
  "set_mode m s = (if m \<noteq> sc_mode s then s\<lparr>sc_mode := m, sc_currentMatchIndex := 0\<rparr> else s)"

definition useLogFilter :: "('a \<Rightarrow> string) \<Rightarrow> string \<Rightarrow> 'a list \<Rightarrow> 'a list" where
  "useLogFilter message debouncedGrep logs =
     (let isGrepping = 0 < length (js_trim debouncedGrep) in
      if isGrepping then filter (\<lambda>l. js_includes (js_lower (message l)) (js_lower (js_trim debouncedGrep))) logs
      else logs)"

section \<open>The debounced query\<close>

text \<open>
  \<open>useDebouncedValue\<close> (apps/ui/src/hooks/useDebouncedValue.ts): each change of the value clears the
  timer and sets a new one, which copies the value it was set for.
\<close>

record debounced =
  db_value :: string
  db_debounced :: string
  db_timer :: "(int \<times> string) option"

definition debounce_mount :: "int \<Rightarrow> int \<Rightarrow> string \<Rightarrow> debounced" where
  "debounce_mount delay now v = \<lparr>db_value = v, db_debounced = v, db_timer = Some (now + delay, v)\<rparr>"

definition debounce_change :: "int \<Rightarrow> int \<Rightarrow> string \<Rightarrow> debounced \<Rightarrow> debounced" where
  "debounce_change delay now v s =
     (if v = db_value s then s else s\<lparr>db_value := v, db_timer := Some (now + delay, v)\<rparr>)"

definition debounce_fire :: "int \<Rightarrow> debounced \<Rightarrow> debounced" where
  "debounce_fire now s =
     (case db_timer s of
        None \<Rightarrow> s
      | Some (due, v) \<Rightarrow> if due \<le> now then s\<lparr>db_debounced := v, db_timer := None\<rparr> else s)"

section \<open>Marking the matches\<close>

text \<open>\<open>html.split(/(<[^>]*>)/)\<close>: texts and tags in turn; a \<open><\<close> that is never closed is text.\<close>

function split_tags :: "string \<Rightarrow> string list" where
  "split_tags html =
     (let t = takeWhile (\<lambda>c. c \<noteq> CHR ''<'') html; rest = dropWhile (\<lambda>c. c \<noteq> CHR ''<'') html;
          body = takeWhile (\<lambda>c. c \<noteq> CHR ''>'') rest; after = dropWhile (\<lambda>c. c \<noteq> CHR ''>'') rest
      in if after = [] then [html] else t # (body @ ''>'') # split_tags (tl after))"
  by auto
termination
proof (relation "measure length")
  fix html t rest body after :: string
  assume "rest = dropWhile (\<lambda>c. c \<noteq> CHR ''<'') html" "after = dropWhile (\<lambda>c. c \<noteq> CHR ''>'') rest" "after \<noteq> []"
  then have "length after \<le> length html" "0 < length after"
    by (meson le_trans length_dropWhile_le, simp)
  then show "(tl after, html) \<in> measure length" by (cases after) auto
qed simp

declare split_tags.simps [simp del]

text \<open>
  The regular expression made of the query, without regard to case. On Latin-1 the case folding of
  regular expressions relates the same characters as \<open>toLowerCase\<close>.
\<close>

definition ci_starts :: "string \<Rightarrow> string \<Rightarrow> bool" where
  "ci_starts q s = starts_with (js_lower q) (js_lower s)"

definition escape_html :: "string \<Rightarrow> string" where
  "escape_html m =
     concat (map (\<lambda>c. if c = CHR ''&'' then ''&amp;'' else if c = CHR ''<'' then ''&lt;''
                      else if c = CHR ''>'' then ''&gt;'' else [c]) m)"

definition mark :: "nat option \<Rightarrow> nat \<Rightarrow> string \<Rightarrow> string" where
  "mark currentPosition globalIndex m =
     ''<mark class=\"'' @ (if currentPosition = Some globalIndex then ''match-highlight-current'' else ''match-highlight'') @
     ''\">'' @ escape_html m @ ''</mark>''"

function replace_matches :: "string \<Rightarrow> nat option \<Rightarrow> string \<Rightarrow> nat \<Rightarrow> string \<times> nat" where
  "replace_matches q cur [] i = ([], i)"
| "replace_matches q cur (c # s) i =
     (if ci_starts q (c # s)
      then (let (out, i') = replace_matches q cur (drop (length q - 1) s) (i + 1)
            in (mark cur i (take (length q) (c # s)) @ out, i'))
      else (let (out, i') = replace_matches q cur s i in (c # out, i')))"
  by pat_completeness auto
termination by (relation "measure (\<lambda>(q, cur, s, i). length s)") auto

definition is_tag :: "string \<Rightarrow> bool" where
  "is_tag part \<longleftrightarrow> part \<noteq> [] \<and> hd part = CHR ''<'' \<and> last part = CHR ''>''"

fun highlight_parts :: "string \<Rightarrow> nat option \<Rightarrow> string list \<Rightarrow> nat \<Rightarrow> string \<times> nat" where
  "highlight_parts q cur [] i = ([], i)"
| "highlight_parts q cur (part # parts) i =
     (let (out, i1) = (if is_tag part then (part, i) else replace_matches q cur part i);
          (outs, i2) = highlight_parts q cur parts i1
      in (out @ outs, i2))"

definition highlightHtml :: "string \<Rightarrow> string \<Rightarrow> nat option \<Rightarrow> string \<times> nat" where
  "highlightHtml html query currentPosition =
     (if query = [] then (html, 0) else highlight_parts query currentPosition (split_tags html) 0)"

end
