(* ===== verification/Ui_Log_Search_Properties.thy ===== *)
theory Ui_Log_Search_Properties
  imports Ui_Log_Search
begin

text \<open>
  The counting loop ends and counts the occurrences, the find mode walks through all of them and its
  lines are those of the filter mode, and the highlighter wraps matches without changing anything else.
\<close>

section \<open>Occurrences\<close>

text \<open>The occurrences of a text, from the left, without overlap.\<close>

function occ :: "string \<Rightarrow> string \<Rightarrow> nat" where
  "occ q [] = 0"
| "occ q (c # s) = (if starts_with q (c # s) then 1 + occ q (drop (length q - 1) s) else occ q s)"
  by pat_completeness auto
termination by (relation "measure (\<lambda>(q, s). length s)") auto

lemma find_from_shift: "find_from q s i = map_option (\<lambda>k. i + k) (find_from q s 0)"
proof (induction s arbitrary: i)
  case (Cons c s)
  show ?case
    using Cons.IH [of "Suc i"] Cons.IH [of "Suc 0"] by (auto simp: option.map_comp comp_def)
qed simp

lemma find_from_occ:
  "q \<noteq> [] \<Longrightarrow> occ q s = (case find_from q s 0 of None \<Rightarrow> 0 | Some k \<Rightarrow> 1 + occ q (drop (k + length q) s))"
proof (induction s)
  case (Cons c s)
  obtain d q' where q: "q = d # q'" using Cons.prems by (cases q) auto
  show ?case
  proof (cases "starts_with q (c # s)")
    case True
    then show ?thesis by (simp add: q)
  next
    case False
    then show ?thesis
      using Cons by (simp add: find_from_shift [of q s "Suc 0"] split: option.split)
  qed
qed simp

lemma find_from_bound: "q \<noteq> [] \<Longrightarrow> find_from q s 0 = Some k \<Longrightarrow> k + length q \<le> length s"
proof (induction s arbitrary: k)
  case (Cons c s)
  show ?case
  proof (cases "starts_with q (c # s)")
    case True
    have "length q \<le> length (c # s)" using True by (metis length_take min.absorb_iff2 min.commute starts_with_def)
    with True Cons.prems show ?thesis by simp
  next
    case False
    with Cons.prems obtain k' where "find_from q s 0 = Some k'" "k = Suc k'"
      by (auto simp: find_from_shift [of q s "Suc 0"])
    with Cons.IH [OF Cons.prems(1)] show ?thesis by simp
  qed
qed simp

lemma count_loop_occ:
  "q \<noteq> [] \<Longrightarrow> pos \<le> length s \<Longrightarrow> count_loop s q pos n = Some (n + occ q (drop pos s))"
proof (induction "length s - pos" arbitrary: pos n rule: less_induct)
  case less
  have idx: "index_of s q pos = map_option (\<lambda>k. pos + k) (find_from q (drop pos s) 0)"
    using less.prems(2) find_from_shift [of q "drop pos s" pos] by (simp add: index_of_def)
  show ?case
  proof (cases "find_from q (drop pos s) 0")
    case None
    with idx find_from_occ [OF less.prems(1), of "drop pos s"] show ?thesis by (subst count_loop.simps) simp
  next
    case (Some k)
    have b: "k + length q \<le> length s - pos" using find_from_bound [OF less.prems(1) Some] by simp
    moreover have "0 < length q" using less.prems(1) by simp
    moreover from calculation have "length s - (pos + k + length q) < length s - pos" by arith
    ultimately have "count_loop s q (pos + k + length q) (n + 1) = Some (n + 1 + occ q (drop (pos + k + length q) s))"
      using less.prems by (intro less.hyps) auto
    moreover have "occ q (drop pos s) = 1 + occ q (drop (k + length q) (drop pos s))"
      using find_from_occ [OF less.prems(1), of "drop pos s"] Some by simp
    moreover have "drop (k + length q) (drop pos s) = drop (pos + k + length q) s" by (simp add: add.commute add.left_commute)
    ultimately show ?thesis using Some idx by (subst count_loop.simps) simp
  qed
qed

lemma countMatches_occ:
  "countMatches text query = Some (if query = [] then 0 else occ (js_lower query) (js_lower text))"
proof (cases "query = []")
  case False
  then have "js_lower query \<noteq> []" by (simp add: js_lower_def)
  from count_loop_occ [OF this, of 0 "js_lower text" 0] False show ?thesis by (simp add: countMatches_def)
qed (simp add: countMatches_def)

lemma occ_bound: "occ q s * length q \<le> length s"
proof (induction q s rule: occ.induct)
  case (2 q c s)
  show ?case
  proof (cases "starts_with q (c # s) \<and> q \<noteq> []")
    case True
    then have "length q \<le> Suc (length s)" by (metis length_Cons length_take min.cobounded2 starts_with_def min.commute)
    with 2 True show ?thesis by (auto simp: Suc_le_eq)
  qed (use 2 in auto)
qed simp

text \<open>C33: the search for matches in a line ends, for every text and query, and its result is the number
  of occurrences of the query, without regard to case and without overlap; none for an empty query.
  So there are never more than fit into the line.\<close>

theorem counting_ends:
  "\<exists>n. countMatches text query = Some n \<and> n = (if query = [] then 0 else occ (js_lower query) (js_lower text)) \<and>
     n * length query \<le> length text"
  using occ_bound [of "js_lower query" "js_lower text"] by (simp add: countMatches_occ)

lemma occ_pos: "q \<noteq> [] \<Longrightarrow> 0 < occ q s \<longleftrightarrow> js_includes s q"
  using find_from_occ [of q s] by (auto simp: js_includes_def index_of_def split: option.split)

section \<open>The two modes\<close>

lemma js_trim_idem_nonempty: "0 < length (js_trim q) \<Longrightarrow> js_trim q \<noteq> []"
  by auto

lemma find_matches_list:
  "find_matches message q i logs = Some (filter (\<lambda>m. 0 < snd m)
     (zip [i..<i + length logs] (map (\<lambda>l. if q = [] then 0 else occ (js_lower q) (js_lower (message l))) logs)))"
proof (induction logs arbitrary: i)
  case (Cons l logs)
  have "[i..<i + length (l # logs)] = i # [i + 1..<i + 1 + length logs]" by (simp add: upt_rec)
  with Cons [of "i + 1"] show ?case by (simp add: countMatches_occ del: upt_Suc)
qed simp

lemma nth_matching:
  "map (\<lambda>m. (pre @ logs) ! fst m) (filter (\<lambda>m. 0 < snd m) (zip [length pre..<length pre + length logs] (map g logs))) =
     filter (\<lambda>l. 0 < (g l :: nat)) logs"
proof (induction logs arbitrary: pre)
  case (Cons l logs)
  have up: "[length pre..<length pre + length (l # logs)] = length pre # [length (pre @ [l])..<length (pre @ [l]) + length logs]"
    by (simp add: upt_rec)
  from Cons [of "pre @ [l]"] show ?case unfolding up by (simp del: upt_Suc)
qed simp

text \<open>The filter mode and the find mode agree. For the same query the filter mode shows exactly the
  lines in which the find mode has a match, in the same order; without a query both show all lines;
  and the older filter hook shows what the filter mode shows.\<close>

theorem modes_agree:
  assumes "sc_mode f = FilterMode" and "sc_mode s = FindMode" and "sc_debounced f = sc_debounced s"
  shows "\<exists>ms. matches message s logs = Some ms \<and>
      (if isSearching s then filteredLogs message f logs = map (\<lambda>m. logs ! fst m) ms
       else filteredLogs message f logs = logs \<and> ms = []) \<and>
    (\<forall>(i, n) \<in> set ms. 0 < n \<and> i < length logs) \<and> filteredLogs message s logs = logs \<and>
    useLogFilter message (sc_debounced f) logs = filteredLogs message f logs"
proof -
  let ?q = "trimmedQuery s"
  have q: "trimmedQuery f = ?q" using assms(3) by (simp add: trimmedQuery_def)
  have hook: "useLogFilter message (sc_debounced f) logs = filteredLogs message f logs"
    using assms(1) by (simp add: useLogFilter_def filteredLogs_def isSearching_def trimmedQuery_def Let_def)
  have all: "filteredLogs message s logs = logs" using assms(2) by (simp add: filteredLogs_def)
  show ?thesis
  proof (cases "isSearching s")
    case False
    with assms all hook q show ?thesis by (simp add: matches_def filteredLogs_def isSearching_def)
  next
    case True
    then have ne: "?q \<noteq> []" "js_lower ?q \<noteq> []" by (auto simp: isSearching_def js_lower_def)
    let ?g = "\<lambda>l. occ (js_lower ?q) (js_lower (message l))"
    let ?ms = "filter (\<lambda>m. 0 < snd m) (zip [0..<length logs] (map ?g logs))"
    have ms: "matches message s logs = Some ?ms"
      using True assms(2) ne(1) find_matches_list [of message ?q 0 logs] by (simp add: matches_def)
    have "filteredLogs message f logs = filter (\<lambda>l. 0 < ?g l) logs"
      using True assms(1) q ne(2) by (simp add: filteredLogs_def isSearching_def occ_pos Let_def)
    then have "filteredLogs message f logs = map (\<lambda>m. logs ! fst m) ?ms"
      using nth_matching [of "[]" logs ?g] by simp
    moreover have "\<forall>(i, n) \<in> set ?ms. 0 < n \<and> i < length logs"
      by (auto dest: set_zip_leftD)
    moreover obtain M where "M = ?ms" by simp
    ultimately show ?thesis using ms all hook True by auto
  qed
qed

lemma modes_agree_witness:
  "\<exists>ms. matches id \<lparr>sc_query = ''err'', sc_debounced = ''err'', sc_mode = FindMode, sc_currentMatchIndex = 0\<rparr>
        [''ok'', ''ERR err''] = Some ms \<and>
     filteredLogs id \<lparr>sc_query = ''err'', sc_debounced = ''err'', sc_mode = FilterMode, sc_currentMatchIndex = 0\<rparr>
        [''ok'', ''ERR err''] = map (\<lambda>m. [''ok'', ''ERR err''] ! fst m) ms"
proof -
  have "js_trim ''err'' = ''err''" by (simp add: js_trim_eq js_ws_def)
  then have "isSearching \<lparr>sc_query = ''err'', sc_debounced = ''err'', sc_mode = FindMode, sc_currentMatchIndex = 0\<rparr>"
    by (simp add: isSearching_def trimmedQuery_def)
  with modes_agree [of "\<lparr>sc_query = ''err'', sc_debounced = ''err'', sc_mode = FilterMode, sc_currentMatchIndex = 0\<rparr>"
      "\<lparr>sc_query = ''err'', sc_debounced = ''err'', sc_mode = FindMode, sc_currentMatchIndex = 0\<rparr>" id "[''ok'', ''ERR err'']"]
  show ?thesis by auto
qed

section \<open>Walking through the matches\<close>

lemma totalMatches_sum: "totalMatches ms = sum_list (map snd ms)"
proof -
  have "foldl (\<lambda>sum m. sum + snd m) k ms = k + sum_list (map snd ms)" for k
    by (induction ms arbitrary: k) auto
  then show ?thesis by (simp add: totalMatches_def)
qed

lemma locate_found:
  "i < sum_list (map snd ms) \<Longrightarrow>
     \<exists>a l n b p. ms = a @ (l, n) # b \<and> locate ms i = Some (l, p) \<and> p < n \<and> i = sum_list (map snd a) + p"
proof (induction ms arbitrary: i)
  case (Cons m ms)
  obtain l n where m: "m = (l, n)" by (cases m)
  show ?case
  proof (cases "i < n")
    case True
    with m show ?thesis by (intro exI [of _ "[]"] exI [of _ l] exI [of _ n] exI [of _ ms] exI [of _ i]) simp
  next
    case False
    with Cons.prems m have "i - n < sum_list (map snd ms)" by simp
    from Cons.IH [OF this] obtain a l' n' b p where
      "ms = a @ (l', n') # b" "locate ms (i - n) = Some (l', p)" "p < n'" "i - n = sum_list (map snd a) + p" by blast
    with False m show ?thesis
      by (intro exI [of _ "m # a"] exI [of _ l'] exI [of _ n'] exI [of _ b] exI [of _ p]) simp
  qed
qed simp

text \<open>The find mode walks through all matches. Where there are matches, the current one is the
  match with its number: as many matches lie before it in the lines above and in its own line as the
  index says, and the position is one of its line's matches. \<open>next\<close> and \<open>prev\<close> undo each other, and
  as many steps as there are matches lead back to the same one.\<close>

theorem find_walks_through:
  assumes "i < totalMatches ms"
  shows "(\<exists>a l n b p. ms = a @ (l, n) # b \<and> currentMatch ms i = Some (l, p) \<and> p < n \<and>
       i = totalMatches a + p) \<and>
    prev_match (totalMatches ms) (next_match (totalMatches ms) i) = i \<and>
    next_match (totalMatches ms) (prev_match (totalMatches ms) i) = i \<and>
    (next_match (totalMatches ms) ^^ totalMatches ms) i = i \<and>
    next_match (totalMatches ms) i < totalMatches ms"
proof -
  let ?t = "totalMatches ms"
  have "?t \<noteq> 0" "ms \<noteq> []" using assms by (auto simp: totalMatches_def)
  have clamp: "clampedIndex ms i = i" using assms by (simp add: clampedIndex_def)
  from locate_found [of i ms] assms obtain a l n b p where
    loc: "ms = a @ (l, n) # b" "locate ms i = Some (l, p)" "p < n" "i = totalMatches a + p"
    by (auto simp: totalMatches_sum)
  have "currentMatch ms i = Some (l, p)"
    using \<open>?t \<noteq> 0\<close> \<open>ms \<noteq> []\<close> by (simp add: currentMatch_def clamp loc(2))
  moreover have "(next_match ?t ^^ k) i = (i + k) mod ?t" for k
    using assms by (induction k) (simp_all add: next_match_def mod_Suc_eq)
  moreover have "prev_match ?t (next_match ?t i) = i"
    using assms by (cases "i + 1 = ?t") (simp_all add: next_match_def prev_match_def)
  moreover have "next_match ?t (prev_match ?t i) = i"
  proof (cases i)
    case 0
    with assms show ?thesis by (simp add: next_match_def prev_match_def)
  next
    case (Suc j)
    then have "(i + ?t - 1) mod ?t = j" using assms by simp
    with Suc assms show ?thesis by (simp add: next_match_def prev_match_def)
  qed
  moreover have "next_match ?t i < ?t" using assms by (simp add: next_match_def)
  ultimately show ?thesis using loc assms by auto
qed

lemma find_walks_through_witness:
  "prev_match 3 (next_match 3 2) = 2 \<and> (\<exists>p. currentMatch [(4, 2), (7, 1)] 2 = Some (7, p))"
proof -
  have t: "totalMatches [(4, 2), (7::nat, 1)] = 3" by (simp add: totalMatches_def)
  then have "2 < totalMatches [(4, 2), (7::nat, 1)]" by simp
  from find_walks_through [OF this, unfolded t]
  have "prev_match 3 (next_match 3 2) = 2" by blast
  moreover have "currentMatch [(4, 2), (7::nat, 1)] 2 = Some (7, 0)"
    by (simp add: currentMatch_def clampedIndex_def totalMatches_def)
  ultimately show ?thesis by blast
qed

section \<open>Debouncing\<close>

text \<open>
  A state of the debounced value is settled or has a timer for its value, so that once the time of the last
  timer has come, the debounced value is the value; before it, a run of changes leaves it alone.
\<close>

definition debounce_ok :: "debounced \<Rightarrow> bool" where
  "debounce_ok s \<longleftrightarrow> (case db_timer s of None \<Rightarrow> db_debounced s = db_value s | Some (due, v) \<Rightarrow> v = db_value s)"

lemma debounce_ok_steps:
  "debounce_ok (debounce_mount delay now v)"
  "debounce_ok s \<Longrightarrow> debounce_ok (debounce_change delay now v s)"
  "debounce_ok s \<Longrightarrow> debounce_ok (debounce_fire now s)"
  by (auto simp: debounce_ok_def debounce_mount_def debounce_change_def debounce_fire_def split: option.splits)

lemma debounce_settles:
  "debounce_ok s \<Longrightarrow> (\<forall>due v. db_timer s = Some (due, v) \<longrightarrow> due \<le> now) \<Longrightarrow> db_debounced (debounce_fire now s) = db_value s"
  by (auto simp: debounce_ok_def debounce_fire_def split: option.splits)

lemma debounce_waits:
  "db_debounced (fold (\<lambda>(now, v). debounce_change delay now v) changes s) = db_debounced s"
  by (induction changes arbitrary: s) (auto simp: debounce_change_def)

section \<open>Marking\<close>

lemma concat_split_tags: "concat (split_tags html) = html"
proof (induction html rule: split_tags.induct)
  case (1 html)
  let ?t = "takeWhile (\<lambda>c. c \<noteq> CHR ''<'') html" and ?rest = "dropWhile (\<lambda>c. c \<noteq> CHR ''<'') html"
  let ?body = "takeWhile (\<lambda>c. c \<noteq> CHR ''>'') ?rest" and ?after = "dropWhile (\<lambda>c. c \<noteq> CHR ''>'') ?rest"
  show ?case
  proof (cases "?after = []")
    case True
    then show ?thesis by (simp add: split_tags.simps [of html])
  next
    case False
    have "hd ?after = CHR ''>''" using hd_dropWhile [OF False] by simp
    then have "CHR ''>'' # tl ?after = ?after" using False by (cases ?after) auto
    moreover have "concat (split_tags (tl ?after)) = tl ?after" using 1 [OF refl refl refl refl False] .
    ultimately have "concat (split_tags html) = ?t @ ?body @ ?after"
      using False by (simp add: split_tags.simps [of html] Let_def)
    then show ?thesis by (metis takeWhile_dropWhile_id)
  qed
qed

text \<open>What the highlighter makes of a text: pieces kept and pieces marked, numbered in order.\<close>

datatype piece = Kept string | Marked nat string

fun piece_in :: "piece \<Rightarrow> string" where
  "piece_in (Kept s) = s" | "piece_in (Marked k s) = s"

fun piece_out :: "nat option \<Rightarrow> piece \<Rightarrow> string" where
  "piece_out cur (Kept s) = s" | "piece_out cur (Marked k s) = mark cur k s"

fun piece_nr :: "piece \<Rightarrow> nat list" where
  "piece_nr (Kept s) = []" | "piece_nr (Marked k s) = [k]"

fun piece_ok :: "string \<Rightarrow> piece \<Rightarrow> bool" where
  "piece_ok q (Kept s) = True" | "piece_ok q (Marked k s) = (js_lower s = js_lower q)"

definition pieces_of :: "string \<Rightarrow> nat option \<Rightarrow> string \<Rightarrow> nat \<Rightarrow> string \<times> nat \<Rightarrow> piece list \<Rightarrow> bool" where
  "pieces_of q cur s i r ps \<longleftrightarrow>
     concat (map piece_in ps) = s \<and> fst r = concat (map (piece_out cur) ps) \<and>
     concat (map piece_nr ps) = [i..<snd r] \<and> i \<le> snd r \<and> list_all (piece_ok q) ps"

lemma pieces_of_append:
  assumes "pieces_of q cur s i (out, k) ps" and "pieces_of q cur s' k (out', k') ps'"
  shows "pieces_of q cur (s @ s') i (out @ out', k') (ps @ ps')"
  using assms upt_add_eq_append [of i k "k' - k"] by (auto simp: pieces_of_def)

lemma pieces_of_kept: "pieces_of q cur s i (s, i) [Kept s]"
  by (simp add: pieces_of_def)

lemma ci_starts_take: "ci_starts q s \<Longrightarrow> js_lower (take (length q) s) = js_lower q"
  by (simp add: ci_starts_def starts_with_def js_lower_def take_map)

lemma replace_matches_pieces: "q \<noteq> [] \<Longrightarrow> \<exists>ps. pieces_of q cur s i (replace_matches q cur s i) ps"
proof (induction q cur s i rule: replace_matches.induct)
  case (1 q cur i)
  show ?case by (intro exI [of _ "[]"]) (simp add: pieces_of_def)
next
  case (2 q cur c s i)
  show ?case
  proof (cases "ci_starts q (c # s)")
    case True
    let ?m = "take (length q) (c # s)"
    obtain out k where r: "replace_matches q cur (drop (length q - 1) s) (i + 1) = (out, k)" by fastforce
    with 2 True obtain ps where "pieces_of q cur (drop (length q - 1) s) (i + 1) (out, k) ps" by fastforce
    moreover have "pieces_of q cur ?m i (mark cur i ?m, i + 1) [Marked i ?m]"
      using ci_starts_take [OF True] by (simp add: pieces_of_def)
    moreover have "c # s = ?m @ drop (length q - 1) s" using 2(3) by (cases q) simp_all
    ultimately have "pieces_of q cur (c # s) i (mark cur i ?m @ out, k) (Marked i ?m # ps)"
      using pieces_of_append by fastforce
    with True r show ?thesis by auto
  next
    case False
    obtain out k where r: "replace_matches q cur s i = (out, k)" by fastforce
    with 2 False obtain ps where "pieces_of q cur s i (out, k) ps" by auto
    from pieces_of_append [OF pieces_of_kept [of q cur "[c]" i] this]
    have "pieces_of q cur (c # s) i (c # out, k) (Kept [c] # ps)" by simp
    with False r show ?thesis by auto
  qed
qed

lemma replace_matches_count: "snd (replace_matches q cur s i) = i + occ (js_lower q) (js_lower s)"
proof (induction q cur s i rule: replace_matches.induct)
  case (1 q cur i)
  show ?case by (simp add: js_lower_def)
next
  case (2 q cur c s i)
  then show ?case
    by (auto simp: ci_starts_def js_lower_def drop_map split: prod.splits)
qed

lemma highlight_parts_pieces: "q \<noteq> [] \<Longrightarrow> \<exists>ps. pieces_of q cur (concat parts) i (highlight_parts q cur parts i) ps"
proof (induction parts arbitrary: i)
  case Nil
  show ?case by (intro exI [of _ "[]"]) (simp add: pieces_of_def)
next
  case (Cons part parts)
  obtain out k where r: "(if is_tag part then (part, i) else replace_matches q cur part i) = (out, k)" by fastforce
  obtain ps where ps: "pieces_of q cur part i (out, k) ps"
    using r pieces_of_kept [of q cur part i] replace_matches_pieces [OF Cons.prems, of cur part i]
    by (auto split: if_splits)
  obtain out' k' where r': "highlight_parts q cur parts k = (out', k')" by fastforce
  from Cons.IH [OF Cons.prems, of k] r' obtain ps' where "pieces_of q cur (concat parts) k (out', k') ps'" by auto
  from pieces_of_append [OF ps this] r r' show ?case by (auto simp: Let_def)
qed

lemma highlight_parts_count:
  "snd (highlight_parts q cur parts i) =
     i + sum_list (map (\<lambda>p. occ (js_lower q) (js_lower p)) (filter (\<lambda>p. \<not> is_tag p) parts))"
proof (induction parts arbitrary: i)
  case (Cons part parts)
  show ?case
    using Cons [of i] Cons [of "snd (replace_matches q cur part i)"] replace_matches_count [of q cur part i]
    by (auto simp: case_prod_unfold Let_def)
qed simp

text \<open>C35: the highlighter changes nothing but the matches. The line falls into pieces whose texts
  together are the line: the output is the same pieces, each marked one (it is the query but for case)
  wrapped and escaped and the others as they are; the marked ones are numbered from 0, only the one
  with the current number has the current class, and the count returned is the number of occurrences
  in the parts between the tags.\<close>

theorem highlight_wraps_matches:
  assumes "query \<noteq> []"
  shows "\<exists>ps. concat (map piece_in ps) = html \<and>
      fst (highlightHtml html query cur) = concat (map (piece_out cur) ps) \<and>
      list_all (piece_ok query) ps \<and>
      concat (map piece_nr ps) = [0..<snd (highlightHtml html query cur)] \<and>
      snd (highlightHtml html query cur) =
        sum_list (map (\<lambda>p. occ (js_lower query) (js_lower p)) (filter (\<lambda>p. \<not> is_tag p) (split_tags html)))"
proof -
  obtain ps where "pieces_of query cur html 0 (highlight_parts query cur (split_tags html) 0) ps"
    using highlight_parts_pieces [OF assms, of cur "split_tags html" 0] by (auto simp: concat_split_tags)
  then show ?thesis
    using assms highlight_parts_count [of query cur "split_tags html" 0]
    by (intro exI [of _ ps]) (auto simp: pieces_of_def highlightHtml_def)
qed

lemma highlight_wraps_matches_witness:
  "\<exists>ps. concat (map piece_in ps) = ''<b>ab</b>'' \<and>
     fst (highlightHtml ''<b>ab</b>'' ''b'' None) = concat (map (piece_out None) ps) \<and> snd (highlightHtml ''<b>ab</b>'' ''b'' None) = 1"
proof -
  have "split_tags ''<b>ab</b>'' = [[], ''<b>'', ''ab'', ''</b>'', []]"
    by (simp add: split_tags.simps)
  then have "snd (highlightHtml ''<b>ab</b>'' ''b'' None) = 1"
    by (simp add: highlightHtml_def is_tag_def ci_starts_def starts_with_def js_lower_def lower_char_def)
  with highlight_wraps_matches [of "''b''" "''<b>ab</b>''" None] show ?thesis by auto
qed

text \<open>
  The lines handed to the highlighter are already HTML, in which the characters less-than and ampersand
  of the log are entities. A query is looked for in the entity too, so that its letters match where the
  log has none and the entity is broken.
\<close>

lemma highlight_breaks_entities:
  "highlightHtml ''&lt;'' ''lt'' None = (''&<mark class=\"match-highlight\">lt</mark>;'', 1)"
  by (simp add: highlightHtml_def split_tags.simps is_tag_def ci_starts_def starts_with_def js_lower_def
      lower_char_def mark_def escape_html_def)

end
