(* ===== verification/Ui_Session.thy ===== *)
theory Ui_Session
  imports Json "HOL-Library.Word"
begin

text \<open>
  The session of the log viewer in the browser (apps/ui/src/features/auth/token.ts, AuthContext.tsx,
  AuthGuard.tsx, apps/ui/src/App.tsx, apps/ui/src/lib/apollo.ts). Local storage is a map and is taken to be writable; the
  time is an argument. An asynchronous handler is cut where it waits: a first part up to the request,
  a second part that takes the answer, so that the events between the two are visible. A refresh
  answer is the tokens, or \<open>None\<close> where the request fails or the data is null.
\<close>

section \<open>Tokens of the browser\<close>

record token_response =
  tr_accessToken :: string
  tr_refreshToken :: string
  tr_expiresIn :: int

record ui_user =
  uu_loginId :: string
  uu_name :: string
  uu_userType :: string
  uu_roleType :: string

record jwt_payload =
  jp_sub :: string
  jp_loginId :: string
  jp_name :: string
  jp_userType :: string
  jp_roleType :: string
  jp_customerNo :: string

text \<open>\<open>us_timer\<close> is the time at which the pending timer fires; a timer that has fired is no longer there.\<close>

record ui_session =
  us_storage :: "string \<Rightarrow> string option"
  us_timer :: "int option"
  us_isAuthenticated :: bool
  us_isLoading :: bool
  us_user :: "ui_user option"
  us_path :: string

definition ACCESS_TOKEN_KEY :: string where "ACCESS_TOKEN_KEY = ''access_token''"
definition REFRESH_TOKEN_KEY :: string where "REFRESH_TOKEN_KEY = ''refresh_token''"
definition TOKEN_EXPIRY_KEY :: string where "TOKEN_EXPIRY_KEY = ''token_expiry''"

definition setItem :: "string \<Rightarrow> string \<Rightarrow> ui_session \<Rightarrow> ui_session" where
  "setItem k v s = s\<lparr>us_storage := (us_storage s)(k \<mapsto> v)\<rparr>"

definition removeItem :: "string \<Rightarrow> ui_session \<Rightarrow> ui_session" where
  "removeItem k s = s\<lparr>us_storage := (us_storage s)(k := None)\<rparr>"

definition getAccessToken :: "ui_session \<Rightarrow> string option" where
  "getAccessToken s = us_storage s ACCESS_TOKEN_KEY"

definition getRefreshToken :: "ui_session \<Rightarrow> string option" where
  "getRefreshToken s = us_storage s REFRESH_TOKEN_KEY"

definition saveTokens :: "int \<Rightarrow> token_response \<Rightarrow> ui_session \<Rightarrow> ui_session" where
  "saveTokens now t s =
     setItem TOKEN_EXPIRY_KEY (show_int (now + tr_expiresIn t * 1000))
       (setItem REFRESH_TOKEN_KEY (tr_refreshToken t) (setItem ACCESS_TOKEN_KEY (tr_accessToken t) s))"

definition stopRefreshTimer :: "ui_session \<Rightarrow> ui_session" where
  "stopRefreshTimer s = s\<lparr>us_timer := None\<rparr>"

definition clearTokens :: "ui_session \<Rightarrow> ui_session" where
  "clearTokens s =
     stopRefreshTimer (removeItem TOKEN_EXPIRY_KEY (removeItem REFRESH_TOKEN_KEY (removeItem ACCESS_TOKEN_KEY s)))"

text \<open>\<open>NaN\<close>, for an expiry that is not a number, is \<open>None\<close>; no time is past it.\<close>

definition isAccessTokenExpired :: "int \<Rightarrow> ui_session \<Rightarrow> bool" where
  "isAccessTokenExpired now s =
     (let expiry = us_storage s TOKEN_EXPIRY_KEY in
      if \<not> truthy expiry then True
      else (case js_number (the expiry) of None \<Rightarrow> False | Some e \<Rightarrow> e \<le> now))"

definition getTimeUntilExpiry :: "int \<Rightarrow> ui_session \<Rightarrow> int option" where
  "getTimeUntilExpiry now s =
     (let expiry = us_storage s TOKEN_EXPIRY_KEY in
      if \<not> truthy expiry then Some 0
      else map_option (\<lambda>e. max 0 (e - now)) (js_number (the expiry)))"

text \<open>\<open>setTimeout\<close> takes its delay as a signed 32-bit integer: \<open>NaN\<close> is 0, larger ones wrap, negative ones are 0.\<close>

definition timer_delay :: "int option \<Rightarrow> int" where
  "timer_delay d = (case d of None \<Rightarrow> 0 | Some n \<Rightarrow> max 0 (sint (word_of_int n :: 32 word)))"

definition startRefreshTimer :: "int \<Rightarrow> ui_session \<Rightarrow> ui_session" where
  "startRefreshTimer now s =
     (let s1 = stopRefreshTimer s;
          timeUntilExpiry = getTimeUntilExpiry now s1;
          refreshIn = map_option (\<lambda>t. max 0 (t - 10 * 60 * 1000)) timeUntilExpiry
      in s1\<lparr>us_timer := Some (now + timer_delay refreshIn)\<rparr>)"

section \<open>Reading the payload of an access token\<close>

text \<open>\<open>atob\<close>: characters of the alphabet, an optional padding, four of them for three bytes.\<close>

definition b64_value :: "char \<Rightarrow> nat option" where
  "b64_value c =
     (let n = code c in
      if 65 \<le> n \<and> n \<le> 90 then Some (n - 65) else if 97 \<le> n \<and> n \<le> 122 then Some (n - 71)
      else if 48 \<le> n \<and> n \<le> 57 then Some (n + 4) else if c = CHR ''+'' then Some 62
      else if c = CHR ''/'' then Some 63 else None)"

fun sextets_to_bytes :: "nat list \<Rightarrow> nat list" where
  "sextets_to_bytes (a # b # c # d # ss) =
     (a * 4 + b div 16) # (b mod 16 * 16 + c div 4) # (c mod 4 * 64 + d) # sextets_to_bytes ss"
| "sextets_to_bytes [a, b, c] = [a * 4 + b div 16, b mod 16 * 16 + c div 4]"
| "sextets_to_bytes [a, b] = [a * 4 + b div 16]"
| "sextets_to_bytes ss = []"

fun those_of :: "'a option list \<Rightarrow> 'a list option" where
  "those_of [] = Some []"
| "those_of (None # xs) = None"
| "those_of (Some x # xs) = map_option (Cons x) (those_of xs)"

definition atob_ws :: "char \<Rightarrow> bool" where
  "atob_ws c \<longleftrightarrow> code c \<in> {9, 10, 12, 13, 32}"

definition strip_padding :: "string \<Rightarrow> string" where
  "strip_padding s =
     (if length s mod 4 \<noteq> 0 then s
      else if drop (length s - 2) s = ''=='' then take (length s - 2) s
      else if drop (length s - 1) s = ''='' then take (length s - 1) s else s)"

definition atob :: "string \<Rightarrow> string option" where
  "atob input =
     (let data = strip_padding (filter (\<lambda>c. \<not> atob_ws c) input) in
      if length data mod 4 = 1 then None
      else map_option (\<lambda>ss. map char_of (sextets_to_bytes ss)) (those_of (map b64_value data)))"

definition from_base64url :: "string \<Rightarrow> string" where
  "from_base64url s = map (\<lambda>c. if c = CHR ''_'' then CHR ''/'' else c) (map (\<lambda>c. if c = CHR ''-'' then CHR ''+'' else c) s)"

text \<open>
  \<open>read_json\<close> stands for the UTF-8 decoder and \<open>JSON.parse\<close> on the bytes; \<open>None\<close> where it throws. The
  field of \<open>null\<close> throws too, which is caught.
\<close>

definition parseJwtPayload :: "json_parser \<Rightarrow> string \<Rightarrow> jwt_payload option" where
  "parseJwtPayload read_json token =
     (case split_on (CHR ''.'') token of
        _ # part # _ \<Rightarrow>
          (case atob (from_base64url part) of
             None \<Rightarrow> None
           | Some binary \<Rightarrow>
               (case read_json binary of
                  None \<Rightarrow> None
                | Some JNull \<Rightarrow> None
                | Some payload \<Rightarrow>
                    Some \<lparr>jp_sub = nullish_default (string_prop payload ''sub'') [],
                      jp_loginId = nullish_default (string_prop payload ''loginId'') [],
                      jp_name = nullish_default (string_prop payload ''name'') [],
                      jp_userType = nullish_default (string_prop payload ''userType'') [],
                      jp_roleType = nullish_default (string_prop payload ''roleType'') [],
                      jp_customerNo = nullish_default (string_prop payload ''customerNo'') []\<rparr>))
      | _ \<Rightarrow> None)"

section \<open>The authentication provider\<close>

definition user_of :: "jwt_payload option \<Rightarrow> ui_user option" where
  "user_of payload =
     map_option (\<lambda>p. \<lparr>uu_loginId = jp_loginId p, uu_name = jp_name p, uu_userType = jp_userType p,
       uu_roleType = jp_roleType p\<rparr>) payload"

text \<open>The state before the first effect runs; the storage is what earlier visits left.\<close>

definition mounted :: "(string \<Rightarrow> string option) \<Rightarrow> string \<Rightarrow> ui_session" where
  "mounted storage path =
     \<lparr>us_storage = storage, us_timer = None, us_isAuthenticated = False, us_isLoading = True, us_user = None,
      us_path = path\<rparr>"

text \<open>Logging out up to \<open>await client.clearStore()\<close>, and the navigation after it.\<close>

definition handleLogout :: "ui_session \<Rightarrow> ui_session" where
  "handleLogout s = (stopRefreshTimer (clearTokens s))\<lparr>us_isAuthenticated := False, us_user := None\<rparr>"

definition logout_done :: "ui_session \<Rightarrow> ui_session" where
  "logout_done s = s\<lparr>us_path := ''/admin/login''\<rparr>"

text \<open>The refresh up to its request (the refresh token sent, if any), and its continuation.\<close>

definition doRefresh :: "ui_session \<Rightarrow> string option \<times> ui_session" where
  "doRefresh s = (if \<not> truthy (getRefreshToken s) then (None, handleLogout s) else (getRefreshToken s, s))"

definition refresh_answer :: "int \<Rightarrow> token_response option \<Rightarrow> ui_session \<Rightarrow> ui_session" where
  "refresh_answer now ans s =
     (case ans of None \<Rightarrow> handleLogout s | Some t \<Rightarrow> startRefreshTimer now (saveTokens now t s))"

definition session_login :: "json_parser \<Rightarrow> int \<Rightarrow> token_response \<Rightarrow> ui_session \<Rightarrow> ui_session" where
  "session_login read_json now t s =
     startRefreshTimer now
       ((saveTokens now t s)\<lparr>us_user := user_of (parseJwtPayload read_json (tr_accessToken t)), us_isAuthenticated := True\<rparr>)"

text \<open>The first effect: the stored session is taken up, refreshed first when its access token has expired.\<close>

definition init_start :: "json_parser \<Rightarrow> int \<Rightarrow> ui_session \<Rightarrow> string option \<times> ui_session" where
  "init_start read_json now s =
     (let at = getAccessToken s in
      if \<not> truthy at then (None, s\<lparr>us_isLoading := False\<rparr>)
      else if isAccessTokenExpired now s then
        (let rt = getRefreshToken s in
         if \<not> truthy rt then (None, (clearTokens s)\<lparr>us_isLoading := False\<rparr>) else (rt, s))
      else
        (None, (startRefreshTimer now
           (s\<lparr>us_user := user_of (parseJwtPayload read_json (the at)), us_isAuthenticated := True\<rparr>))\<lparr>us_isLoading := False\<rparr>))"

definition init_answer :: "json_parser \<Rightarrow> int \<Rightarrow> token_response option \<Rightarrow> ui_session \<Rightarrow> ui_session" where
  "init_answer read_json now ans s =
     (case ans of
        None \<Rightarrow> clearTokens s
      | Some t \<Rightarrow> session_login read_json now t s)\<lparr>us_isLoading := False\<rparr>"

section \<open>What is shown\<close>

datatype view = Spinner | Redirect string | Content | LoginForm | NotFound | Empty

definition AUTHENTICATED_PATHS :: "string list" where
  "AUTHENTICATED_PATHS = [''/admin/live-stream'', ''/admin/history'']"

definition AuthGuard :: "ui_session \<Rightarrow> view" where
  "AuthGuard s =
     (if us_isLoading s then Spinner else if \<not> us_isAuthenticated s then Redirect ''/admin/login'' else Content)"

text \<open>The route that matches the path, and beside it the guarded pages on their paths.\<close>

definition route_element :: "ui_session \<Rightarrow> view" where
  "route_element s =
     (if us_path s = ''/admin/login'' then
        (if \<not> us_isLoading s \<and> us_isAuthenticated s then Redirect ''/admin/live-stream'' else LoginForm)
      else if us_path s = ''/admin/live-stream'' \<or> us_path s = ''/admin/history'' then Empty
      else if us_path s = ''/admin'' \<or> us_path s = ''/'' then Redirect ''/admin/login''
      else NotFound)"

definition AppRoutes :: "ui_session \<Rightarrow> view list" where
  "AppRoutes s = route_element s # (if us_path s \<in> set AUTHENTICATED_PATHS then [AuthGuard s] else [])"

text \<open>One rendering: a redirect among the elements changes the path.\<close>

fun follow :: "view list \<Rightarrow> ui_session \<Rightarrow> ui_session" where
  "follow [] s = s"
| "follow (Redirect p # vs) s = follow vs (s\<lparr>us_path := p\<rparr>)"
| "follow (v # vs) s = follow vs s"

definition render :: "ui_session \<Rightarrow> ui_session" where
  "render s = follow (AppRoutes s) s"

section \<open>The requests\<close>

text \<open>A header of \<open>existing\<close> replaces one of the same name and keeps its place, as an object spread does.\<close>

definition header_spread :: "(string \<times> string) list \<Rightarrow> (string \<times> string) list \<Rightarrow> (string \<times> string) list" where
  "header_spread a b = foldl (\<lambda>acc (k, v). AList.update k v acc) a b"

definition authLink :: "string \<Rightarrow> string \<Rightarrow> ui_session \<Rightarrow> (string \<times> string) list \<Rightarrow> (string \<times> string) list" where
  "authLink API_KEY AUTH_USER_TYPE s existing =
     (let token = getAccessToken s; twoFactorToken = us_storage s ''twoFactorToken'';
          authHeaders = [(''X-API-Key'', API_KEY), (''X-User-Type'', AUTH_USER_TYPE)] @
            (if truthy token then [(''Authorization'', ''Bearer '' @ the token)] else []) @
            (if truthy twoFactorToken then [(''X-2FA-Token'', the twoFactorToken)] else [])
      in header_spread authHeaders existing)"

definition connectionParams :: "string \<Rightarrow> ui_session \<Rightarrow> (string \<times> string) list" where
  "connectionParams API_KEY s =
     (let token = getAccessToken s in
      (''X-API-Key'', API_KEY) # (if truthy token then [(''authorization'', ''Bearer '' @ the token)] else []))"

datatype link = WsLink | HttpLink

text \<open>\<open>kind\<close> and \<open>operation\<close> of the main definition of a document, a parameter.\<close>

definition splitLink :: "string \<Rightarrow> string \<Rightarrow> link" where
  "splitLink kind operation = (if kind = ''OperationDefinition'' \<and> operation = ''subscription'' then WsLink else HttpLink)"

end
