(* ===== verification/Ui_Session_Properties.thy ===== *)
theory Ui_Session_Properties
  imports Ui_Session
begin

text \<open>
  The events of a browser session as a step relation, its invariant, and the payload of access tokens.
\<close>

section \<open>Facts about the storage\<close>

lemma token_keys [simp]:
  "ACCESS_TOKEN_KEY \<noteq> REFRESH_TOKEN_KEY" "ACCESS_TOKEN_KEY \<noteq> TOKEN_EXPIRY_KEY" "REFRESH_TOKEN_KEY \<noteq> TOKEN_EXPIRY_KEY"
  "REFRESH_TOKEN_KEY \<noteq> ACCESS_TOKEN_KEY" "TOKEN_EXPIRY_KEY \<noteq> ACCESS_TOKEN_KEY" "TOKEN_EXPIRY_KEY \<noteq> REFRESH_TOKEN_KEY"
  by (simp_all add: ACCESS_TOKEN_KEY_def REFRESH_TOKEN_KEY_def TOKEN_EXPIRY_KEY_def)

lemmas session_ops =
  getAccessToken_def getRefreshToken_def saveTokens_def setItem_def removeItem_def stopRefreshTimer_def
  clearTokens_def handleLogout_def logout_done_def startRefreshTimer_def session_login_def Let_def

lemma saved_tokens [simp]:
  "getAccessToken (saveTokens now t s) = Some (tr_accessToken t)"
  "getRefreshToken (saveTokens now t s) = Some (tr_refreshToken t)"
  "us_storage (saveTokens now t s) TOKEN_EXPIRY_KEY = Some (show_int (now + tr_expiresIn t * 1000))"
  by (simp_all add: session_ops)

lemma timer_delay_small: "0 \<le> d \<Longrightarrow> d < 2 ^ 31 \<Longrightarrow> timer_delay (Some d) = d"
  by (simp add: timer_delay_def sint_sbintrunc' signed_take_bit_int_eq_self)

lemma saved_time_left: "getTimeUntilExpiry now (saveTokens now t s) = Some (max 0 (tr_expiresIn t * 1000))"
  by (simp add: getTimeUntilExpiry_def truthy_def Let_def)

section \<open>Events\<close>

record ui_run =
  ur_session :: ui_session
  ur_refreshes :: nat
  ur_init :: bool

datatype ui_event =
  EvLogin token_response | EvLogout | EvLogoutDone | EvTimer | EvRefresh "token_response option"
| EvInit "token_response option" | EvNavigate string | EvRender

abbreviation with_session :: "ui_run \<Rightarrow> (ui_session \<Rightarrow> ui_session) \<Rightarrow> ui_run" where
  "with_session r f \<equiv> r\<lparr>ur_session := f (ur_session r)\<rparr>"

text \<open>
  The timer fires when it is due and is then gone; a request is answered once. Requests that wait
  are only counted: what they sent does not matter to the answer taken.
\<close>

inductive ui_step :: "json_parser \<Rightarrow> int \<Rightarrow> ui_event \<Rightarrow> ui_run \<Rightarrow> ui_run \<Rightarrow> bool" for rj now where
  login: "ui_step rj now (EvLogin t) r (with_session r (session_login rj now t))"
| logout: "ui_step rj now EvLogout r (with_session r handleLogout)"
| logout_done: "ui_step rj now EvLogoutDone r (with_session r logout_done)"
| timer: "us_timer (ur_session r) = Some due \<Longrightarrow> due \<le> now \<Longrightarrow>
    doRefresh ((ur_session r)\<lparr>us_timer := None\<rparr>) = (request, s) \<Longrightarrow>
    ui_step rj now EvTimer r (r\<lparr>ur_session := s, ur_refreshes := ur_refreshes r + (if request = None then 0 else 1)\<rparr>)"
| refresh: "0 < ur_refreshes r \<Longrightarrow>
    ui_step rj now (EvRefresh ans) r (with_session r (refresh_answer now ans)\<lparr>ur_refreshes := ur_refreshes r - 1\<rparr>)"
| init: "ur_init r \<Longrightarrow>
    ui_step rj now (EvInit ans) r (with_session r (init_answer rj now ans)\<lparr>ur_init := False\<rparr>)"
| navigate: "ui_step rj now (EvNavigate p) r (with_session r (us_path_update (\<lambda>_. p)))"
| render: "ui_step rj now EvRender r (with_session r render)"

definition started :: "json_parser \<Rightarrow> int \<Rightarrow> (string \<Rightarrow> string option) \<Rightarrow> string \<Rightarrow> ui_run" where
  "started rj now storage path =
     (let (request, s) = init_start rj now (mounted storage path)
      in \<lparr>ur_session = s, ur_refreshes = 0, ur_init = request \<noteq> None\<rparr>)"

text \<open>
  The order the code relies on: a login comes after the stored session has been looked at and not on
  top of another one, nobody logs out while a refresh is waiting, and tokens are not empty.
\<close>

fun orderly :: "ui_event \<Rightarrow> ui_run \<Rightarrow> bool" where
  "orderly (EvLogin t) r \<longleftrightarrow>
     \<not> us_isLoading (ur_session r) \<and> \<not> us_isAuthenticated (ur_session r) \<and> tr_accessToken t \<noteq> []"
| "orderly EvLogout r \<longleftrightarrow> ur_refreshes r = 0 \<and> \<not> us_isLoading (ur_session r)"
| "orderly (EvRefresh ans) r \<longleftrightarrow> (case ans of None \<Rightarrow> True | Some t \<Rightarrow> tr_accessToken t \<noteq> [])"
| "orderly (EvInit ans) r \<longleftrightarrow> (case ans of None \<Rightarrow> True | Some t \<Rightarrow> tr_accessToken t \<noteq> [])"
| "orderly _ r \<longleftrightarrow> True"

inductive orderly_run :: "json_parser \<Rightarrow> ui_run \<Rightarrow> bool" for rj where
  start: "orderly_run rj (started rj now storage path)"
| step: "orderly_run rj r \<Longrightarrow> ui_step rj now e r r' \<Longrightarrow> orderly e r \<Longrightarrow> orderly_run rj r'"

definition session_ok :: "ui_run \<Rightarrow> bool" where
  "session_ok r \<longleftrightarrow>
     (let s = ur_session r in
      us_isLoading s = ur_init r \<and> (us_isLoading s \<longrightarrow> \<not> us_isAuthenticated s) \<and>
      (if us_isAuthenticated s
       then truthy (getAccessToken s) \<and> us_storage s TOKEN_EXPIRY_KEY \<noteq> None \<and>
         (us_timer s \<noteq> None \<and> ur_refreshes r = 0 \<or> us_timer s = None \<and> ur_refreshes r = 1)
       else us_timer s = None \<and> ur_refreshes r = 0 \<and> (\<not> us_isLoading s \<longrightarrow> \<not> truthy (getAccessToken s))))"

lemma session_ok_started: "session_ok (started rj now storage path)"
  by (auto simp: session_ok_def started_def init_start_def mounted_def isAccessTokenExpired_def session_ops truthy_def
      split: option.splits)

lemma render_keeps:
  "us_storage (render s) = us_storage s \<and> us_timer (render s) = us_timer s \<and>
   us_isLoading (render s) = us_isLoading s \<and> us_isAuthenticated (render s) = us_isAuthenticated s"
proof -
  have "us_storage (follow vs s) = us_storage s \<and> us_timer (follow vs s) = us_timer s \<and>
    us_isLoading (follow vs s) = us_isLoading s \<and> us_isAuthenticated (follow vs s) = us_isAuthenticated s" for vs
    by (induction vs s rule: follow.induct) auto
  then show ?thesis by (simp add: render_def)
qed

lemma session_ok_step:
  assumes "session_ok r" and "ui_step rj now e r r'" and "orderly e r"
  shows "session_ok r'"
  using assms(2)
proof cases
  case (login t)
  with assms show ?thesis by (simp add: session_ok_def session_ops truthy_def)
next
  case logout
  with assms show ?thesis by (auto simp: session_ok_def session_ops truthy_def)
next
  case logout_done
  with assms show ?thesis by (auto simp: session_ok_def Let_def logout_done_def getAccessToken_def)
next
  case (timer due request s)
  with assms(1) show ?thesis
    by (auto simp: session_ok_def doRefresh_def session_ops truthy_def split: if_splits)
next
  case (refresh ans)
  with assms show ?thesis
    by (cases ans) (auto simp: session_ok_def refresh_answer_def session_ops truthy_def split: if_splits)
next
  case (init ans)
  with assms show ?thesis
    by (cases ans) (auto simp: session_ok_def init_answer_def session_ops truthy_def split: if_splits)
next
  case (navigate p)
  with assms show ?thesis by (auto simp: session_ok_def Let_def getAccessToken_def)
next
  case render
  with assms render_keeps [of "ur_session r"] show ?thesis by (auto simp: session_ok_def Let_def getAccessToken_def)
qed

lemma session_ok_run: "orderly_run rj r \<Longrightarrow> session_ok r"
  by (induction rule: orderly_run.induct) (auto intro: session_ok_started session_ok_step)

lemma render_path:
  "render s = s\<lparr>us_path :=
     (if us_path s = ''/admin/login'' then
        (if \<not> us_isLoading s \<and> us_isAuthenticated s then ''/admin/live-stream'' else us_path s)
      else if us_path s = ''/admin/live-stream'' \<or> us_path s = ''/admin/history'' then
        (if \<not> us_isLoading s \<and> \<not> us_isAuthenticated s then ''/admin/login'' else us_path s)
      else if us_path s = ''/admin'' \<or> us_path s = ''/'' then ''/admin/login'' else us_path s)\<rparr>"
  by (simp add: render_def AppRoutes_def AuthGuard_def route_element_def AUTHENTICATED_PATHS_def)

lemma render_settles: "render (render (render s)) = render (render s)"
proof -
  consider "us_path s = ''/admin/login''" | "us_path s = ''/admin/live-stream''" | "us_path s = ''/admin/history''"
    | "us_path s = ''/admin''" | "us_path s = ''/''"
    | "us_path s \<notin> {''/admin/login'', ''/admin/live-stream'', ''/admin/history'', ''/admin'', ''/''}"
    by blast
  then show ?thesis
    by cases (cases "us_isLoading s"; cases "us_isAuthenticated s"; simp add: render_path)+
qed

lemma authLink_bearer:
  "map_of (authLink key ty s []) ''Authorization'' =
     (if truthy (getAccessToken s) then Some (''Bearer '' @ the (getAccessToken s)) else None)"
  by (simp add: authLink_def header_spread_def Let_def)

text \<open>C22: the session of the browser and what is stored stay in step, in whatever order logins, logouts,
  timers, answers and navigations come, as long as a login waits for the stored session to be looked at
  and a logout for a refresh under way. While the user counts as logged in, requests carry the stored
  access token and exactly one of a timer and a refresh request is there to renew it; afterwards no access
  token is stored, no request carries one and no timer runs. The guarded pages are shown only to a user
  who is logged in, and two renderings settle every redirect.\<close>

theorem session_stays_consistent:
  assumes "orderly_run rj r"
  defines "s \<equiv> ur_session r"
  shows "(us_isAuthenticated s \<longrightarrow>
      (\<exists>t. getAccessToken s = Some t \<and> map_of (authLink key ty s []) ''Authorization'' = Some (''Bearer '' @ t)) \<and>
      (us_timer s \<noteq> None) \<noteq> (ur_refreshes r = 1) \<and> ur_refreshes r \<le> 1) \<and>
    (\<not> us_isLoading s \<and> \<not> us_isAuthenticated s \<longrightarrow>
      map_of (authLink key ty s []) ''Authorization'' = None \<and> us_timer s = None \<and> ur_refreshes r = 0) \<and>
    (Content \<in> set (AppRoutes s) \<longleftrightarrow>
      us_isAuthenticated s \<and> us_path s \<in> {''/admin/live-stream'', ''/admin/history''}) \<and>
    render (render (render s)) = render (render s)"
proof -
  have ok: "session_ok r" using session_ok_run [OF assms(1)] .
  then have auth: "us_isAuthenticated s \<Longrightarrow> \<not> us_isLoading s \<and> truthy (getAccessToken s) \<and>
      (us_timer s \<noteq> None) \<noteq> (ur_refreshes r = 1) \<and> ur_refreshes r \<le> 1"
    by (auto simp: session_ok_def s_def Let_def)
  from ok have out: "\<not> us_isLoading s \<Longrightarrow> \<not> us_isAuthenticated s \<Longrightarrow>
      \<not> truthy (getAccessToken s) \<and> us_timer s = None \<and> ur_refreshes r = 0"
    by (simp add: session_ok_def s_def Let_def)
  have "Content \<in> set (AppRoutes s) \<longleftrightarrow> us_isAuthenticated s \<and> us_path s \<in> {''/admin/live-stream'', ''/admin/history''}"
    using auth by (auto simp: AppRoutes_def AuthGuard_def route_element_def AUTHENTICATED_PATHS_def)
  moreover have "us_isAuthenticated s \<Longrightarrow> \<exists>t. getAccessToken s = Some t \<and>
      map_of (authLink key ty s []) ''Authorization'' = Some (''Bearer '' @ t)"
    using auth by (auto simp: authLink_bearer truthy_iff)
  moreover have "\<not> truthy (getAccessToken s) \<Longrightarrow> map_of (authLink key ty s []) ''Authorization'' = None"
    by (simp add: authLink_bearer)
  ultimately show ?thesis using auth out render_settles [of s] by blast
qed

definition no_json :: json_parser where
  "no_json s = None"

definition example_login :: ui_run where
  "example_login = with_session (started no_json 0 Map.empty ''/admin/login'')
     (session_login no_json 5 \<lparr>tr_accessToken = ''a'', tr_refreshToken = ''r'', tr_expiresIn = 3600\<rparr>)"

lemma example_login_run: "orderly_run no_json example_login"
proof -
  let ?r = "started no_json 0 Map.empty ''/admin/login''"
  let ?t = "\<lparr>tr_accessToken = ''a'', tr_refreshToken = ''r'', tr_expiresIn = 3600\<rparr>"
  have "orderly (EvLogin ?t) ?r"
    by (simp add: started_def init_start_def mounted_def getAccessToken_def truthy_def)
  then show ?thesis
    unfolding example_login_def by (blast intro: orderly_run.step [OF orderly_run.start] ui_step.login)
qed

lemma session_stays_consistent_witness:
  "map_of (authLink ''k'' ''ADMIN_BO'' (ur_session example_login) []) ''Authorization'' = Some ''Bearer a'' \<and>
   us_timer (ur_session example_login) = Some (5 + 3000 * 1000)"
proof -
  have s: "us_isAuthenticated (ur_session example_login)" "getAccessToken (ur_session example_login) = Some ''a''"
    by (simp_all add: example_login_def session_ops)
  have "us_timer (ur_session example_login) = Some (5 + 3000 * 1000)"
    by (simp add: example_login_def session_ops getTimeUntilExpiry_def truthy_def timer_delay_small)
  with s session_stays_consistent [OF example_login_run, of "''k''" "''ADMIN_BO''"] show ?thesis by auto
qed

section \<open>Two races\<close>

text \<open>
  Without the order the invariant fails. A refresh answered after the logout stores new tokens
  and starts the timer again, for a user who is logged out; and a refresh at start that fails
  after the user has logged in through the form throws the new tokens away, and leaves the user
  counted as logged in with nothing stored.
\<close>

lemma refresh_survives_logout:
  assumes "0 < ur_refreshes r"
  shows "\<exists>r1 r2. ui_step rj now EvLogout r r1 \<and> ui_step rj now (EvRefresh (Some t)) r1 r2 \<and>
    \<not> us_isAuthenticated (ur_session r2) \<and> getAccessToken (ur_session r2) = Some (tr_accessToken t) \<and>
    us_timer (ur_session r2) \<noteq> None"
proof -
  let ?r1 = "with_session r handleLogout"
  have "ui_step rj now (EvRefresh (Some t)) ?r1 (with_session ?r1 (refresh_answer now (Some t))\<lparr>ur_refreshes := ur_refreshes ?r1 - 1\<rparr>)"
    using assms by (intro ui_step.refresh) simp
  with ui_step.logout [of rj now r] show ?thesis
    by (intro exI conjI) (assumption+, simp_all add: refresh_answer_def session_ops)
qed

lemma failed_start_ends_new_login:
  assumes "ur_init r"
  shows "\<exists>r1 r2. ui_step rj now (EvLogin t) r r1 \<and> ui_step rj now (EvInit None) r1 r2 \<and>
    us_isAuthenticated (ur_session r2) \<and> getAccessToken (ur_session r2) = None \<and> us_timer (ur_session r2) = None"
proof -
  let ?r1 = "with_session r (session_login rj now t)"
  have "ui_step rj now (EvInit None) ?r1 (with_session ?r1 (init_answer rj now None)\<lparr>ur_init := False\<rparr>)"
    using assms by (intro ui_step.init) simp
  with ui_step.login [of rj now t r] show ?thesis
    by (intro exI conjI) (assumption+, simp_all add: init_answer_def session_ops)
qed

end
