(* ===== verification/Ui_Jwt_Payload.thy ===== *)
theory Ui_Jwt_Payload
  imports Ui_Session
begin

text \<open>
  The payload of an access token, as the browser reads it, against the encoding that signed tokens use.
\<close>

section \<open>The payload of a token\<close>

text \<open>The encoding that signed tokens use (RFC 7515, without padding), as the reference.\<close>

definition b64_char :: "nat \<Rightarrow> char" where
  "b64_char n =
     (if n < 26 then char_of (n + 65) else if n < 52 then char_of (n + 71) else if n < 62 then char_of (n - 4)
      else if n = 62 then CHR ''-'' else CHR ''_'')"

fun bytes_to_sextets :: "nat list \<Rightarrow> nat list" where
  "bytes_to_sextets (x # y # z # bs) =
     (x div 4) # (x mod 4 * 16 + y div 16) # (y mod 16 * 4 + z div 64) # (z mod 64) # bytes_to_sextets bs"
| "bytes_to_sextets [x, y] = [x div 4, x mod 4 * 16 + y div 16, y mod 16 * 4]"
| "bytes_to_sextets [x] = [x div 4, x mod 4 * 16]"
| "bytes_to_sextets [] = []"

definition base64url :: "string \<Rightarrow> string" where
  "base64url bs = map b64_char (bytes_to_sextets (map of_char bs))"

lemma sextets_bound: "\<forall>x \<in> set bs. x < 256 \<Longrightarrow> \<forall>n \<in> set (bytes_to_sextets bs). n < 64"
  by (induction bs rule: bytes_to_sextets.induct) auto

lemma sextets_roundtrip: "\<forall>x \<in> set bs. x < 256 \<Longrightarrow> sextets_to_bytes (bytes_to_sextets bs) = bs"
proof (induction bs rule: bytes_to_sextets.induct)
  case (1 x y z bs)
  then have "x < 256" "y < 256" "z < 256" "sextets_to_bytes (bytes_to_sextets bs) = bs" by auto
  then show ?case by simp
next
  case (2 x y)
  then have "x < 256" "y < 256" by auto
  then show ?case by simp
next
  case (3 x)
  then have "x < 256" by auto
  then show ?case by simp
qed simp

lemma sextets_length: "length (bytes_to_sextets bs) mod 4 \<noteq> 1"
  by (induction bs rule: bytes_to_sextets.induct) auto

text \<open>The letter of a sextet, in the alphabet of \<open>atob\<close>.\<close>

definition b64_std :: "nat \<Rightarrow> char" where
  "b64_std n = (if n = 62 then CHR ''+'' else if 62 < n then CHR ''/'' else b64_char n)"

lemma code_b64_char:
  "n < 64 \<Longrightarrow> code (b64_char n) =
     (if n < 26 then n + 65 else if n < 52 then n + 71 else if n < 62 then n - 4 else if n = 62 then 45 else 95)"
  by (auto simp: b64_char_def)

lemma code_b64_std:
  "n < 64 \<Longrightarrow> code (b64_std n) =
     (if n < 26 then n + 65 else if n < 52 then n + 71 else if n < 62 then n - 4 else if n = 62 then 43 else 47)"
  by (auto simp: b64_std_def code_b64_char)

lemma char_codes:
  "c = CHR ''-'' \<longleftrightarrow> code c = 45" "c = CHR ''_'' \<longleftrightarrow> code c = 95" "c = CHR ''+'' \<longleftrightarrow> code c = 43"
  "c = CHR ''/'' \<longleftrightarrow> code c = 47" "c = CHR ''='' \<longleftrightarrow> code c = 61" "c = CHR ''.'' \<longleftrightarrow> code c = 46"
  by (simp_all flip: of_char_eq_iff [where ?'a = nat])

lemma b64_dash: "n < 64 \<Longrightarrow> b64_char n = CHR ''-'' \<longleftrightarrow> n = 62" "n < 64 \<Longrightarrow> b64_char n = CHR ''_'' \<longleftrightarrow> n = 63"
  by (auto simp: char_codes code_b64_char)

lemma b64_letters:
  assumes "n < 64"
  shows "from_base64url [b64_char n] = [b64_std n]" and "b64_value (b64_std n) = Some n"
    and "\<not> atob_ws (b64_std n)" and "b64_std n \<noteq> CHR ''=''" and "b64_char n \<noteq> CHR ''.''"
  using assms
  by (auto simp: from_base64url_def b64_std_def b64_dash, auto simp: b64_value_def atob_ws_def Let_def
      char_codes code_b64_char code_b64_std split: if_splits)

lemma from_base64url_map: "\<forall>n \<in> set ns. n < 64 \<Longrightarrow> from_base64url (map b64_char ns) = map b64_std ns"
  using b64_letters(1) by (induction ns) (auto simp: from_base64url_def)

lemma those_of_map: "\<forall>x \<in> set xs. f (g x) = Some (h x) \<Longrightarrow> those_of (map f (map g xs)) = Some (map h xs)"
  by (induction xs) auto

lemma strip_padding_none: "CHR ''='' \<notin> set s \<Longrightarrow> strip_padding s = s"
proof -
  assume no: "CHR ''='' \<notin> set s"
  have "CHR ''='' \<in> set s" if "drop k s = CHR ''='' # xs" for k xs
    using that by (metis in_set_dropD list.set_intros(1))
  with no have "drop (length s - 2) s \<noteq> ''==''" "drop (length s - 1) s \<noteq> ''=''" by blast+
  then show ?thesis by (simp add: strip_padding_def)
qed

lemma atob_base64url: "atob (from_base64url (base64url bytes)) = Some bytes"
proof -
  let ?bs = "map of_char bytes :: nat list" and ?ss = "bytes_to_sextets (map of_char bytes)"
  have "\<forall>x \<in> set ?bs. x < 256" by (auto simp: code_less_256)
  then have b: "\<forall>n \<in> set ?ss. n < 64" and rt: "sextets_to_bytes ?ss = ?bs"
    using sextets_bound sextets_roundtrip by blast+
  have std: "from_base64url (base64url bytes) = map b64_std ?ss"
    using from_base64url_map [OF b] by (simp add: base64url_def)
  moreover have "map char_of ?bs = bytes" by (simp add: comp_def)
  moreover have "filter (\<lambda>c. \<not> atob_ws c) (map b64_std ?ss) = map b64_std ?ss"
    using b b64_letters(3) by (simp add: filter_id_conv)
  moreover have "strip_padding (map b64_std ?ss) = map b64_std ?ss"
    using b b64_letters(4) by (intro strip_padding_none) (metis imageE list.set_map)
  moreover have "those_of (map b64_value (map b64_std ?ss)) = Some (map id ?ss)"
    using b b64_letters(2) by (intro those_of_map) simp
  ultimately show ?thesis
    using sextets_length [of ?bs] rt by (simp add: atob_def Let_def del: map_map)
qed

text \<open>C36: the browser reads the payload of every token signed the usual way: whatever the bytes of the
  payload, of a token made of header, payload and signature in the encoding of signed tokens the
  decoder gets exactly these bytes. So the user shown is the one of the claims, and bytes that are no
  JSON, or the value null, give no user.\<close>

theorem payload_is_read:
  assumes "CHR ''.'' \<notin> set header"
  shows "parseJwtPayload read_json (header @ ''.'' @ base64url bytes @ ''.'' @ signature) =
      (case read_json bytes of
         None \<Rightarrow> None | Some JNull \<Rightarrow> None
       | Some payload \<Rightarrow>
           (let field = (\<lambda>k. nullish_default (string_prop payload k) []) in
            Some \<lparr>jp_sub = field ''sub'', jp_loginId = field ''loginId'', jp_name = field ''name'',
              jp_userType = field ''userType'', jp_roleType = field ''roleType'',
              jp_customerNo = field ''customerNo''\<rparr>))"
proof -
  have "\<forall>n \<in> set (bytes_to_sextets (map of_char bytes)). n < 64"
    using sextets_bound [of "map of_char bytes"] by (auto simp: code_less_256)
  then have "CHR ''.'' \<notin> set (base64url bytes)"
    using b64_letters(5) unfolding base64url_def by (metis imageE list.set_map)
  then have "split_on (CHR ''.'') (header @ ''.'' @ base64url bytes @ ''.'' @ signature) =
      header # base64url bytes # split_on (CHR ''.'') signature"
    using assms by (simp add: split_on_append)
  then show ?thesis
    by (simp add: parseJwtPayload_def atob_base64url Let_def split: option.split json.split)
qed

lemma payload_is_read_witness:
  "parseJwtPayload (\<lambda>s. if s = ''{}'' then Some (JObj [(''loginId'', JStr ''kim'')]) else None) ''h.e30.sig'' =
     Some \<lparr>jp_sub = [], jp_loginId = ''kim'', jp_name = [], jp_userType = [], jp_roleType = [], jp_customerNo = []\<rparr>"
proof -
  have "base64url ''{}'' = ''e30''" by code_simp
  with payload_is_read [of "''h''" "\<lambda>s. if s = ''{}'' then Some (JObj [(''loginId'', JStr ''kim'')]) else None" "''{}''" "''sig''"]
  show ?thesis by (simp add: nullish_default_def)
qed

end
