(* ===== verification/Ui_Live_Stream.thy ===== *)
theory Ui_Live_Stream
  imports Ui_Tabs Ui_Log_Buffer Ui_Log_Search
begin

text \<open>
  The live-stream page (apps/ui/src/features/live-stream): the list of containers with its favourites,
  the selection that opens tabs, the viewer of a service with its replicas and their colours, and the
  scrolling that follows a log (apps/ui/src/hooks/useAutoScroll.ts). Markup is left out.
\<close>

section \<open>The list of containers\<close>

record ui_container =
  uc_id :: string
  uc_name :: string
  uc_image :: string
  uc_status :: string
  uc_state :: string
  uc_created :: int
  uc_ports :: "string list"
  uc_serviceName :: "string option"
  uc_taskSlot :: "string option"
  uc_nodeName :: "string option"

record service_group =
  sg_serviceName :: string
  sg_containers :: "ui_container list"

text \<open>The favourites are a \<open>Set\<close> in insertion order; what \<open>JSON.parse\<close> gives is taken as it is.\<close>

definition loadFavorites :: "json_parser \<Rightarrow> string option \<Rightarrow> json list" where
  "loadFavorites parse raw =
     (if \<not> truthy raw then []
      else (case parse (the raw) of
              Some (JArr vs) \<Rightarrow> set_of_list vs
            | Some (JStr s) \<Rightarrow> set_of_list (map (\<lambda>c. JStr [c]) s)
            | _ \<Rightarrow> []))"

definition saveFavorites :: "bool \<Rightarrow> json list \<Rightarrow> string option \<Rightarrow> string option" where
  "saveFavorites writable favorites storage =
     (if writable then Some (json_stringify (JArr favorites)) else storage)"

definition toggleFavorite :: "string \<Rightarrow> json list \<Rightarrow> json list" where
  "toggleFavorite i prev =
     (if JStr i \<in> set prev then filter (\<lambda>v. v \<noteq> JStr i) prev else set_add (JStr i) prev)"

text \<open>The handler: the state and what is stored change together.\<close>

definition toggle_and_save :: "bool \<Rightarrow> string \<Rightarrow> json list \<times> string option \<Rightarrow> json list \<times> string option" where
  "toggle_and_save writable i s =
     (let next = toggleFavorite i (fst s) in (next, saveFavorites writable next (snd s)))"

text \<open>The lists of the map grow in place, and so does the entry of the association list.\<close>

definition group_step ::
  "ui_container \<Rightarrow> (string \<times> ui_container list) list \<times> ui_container list \<Rightarrow>
     (string \<times> ui_container list) list \<times> ui_container list" where
  "group_step c acc =
     (let (serviceMap, standalone) = acc in
      if truthy (uc_serviceName c) then
        (let n = the (uc_serviceName c); l = nullish_default (map_of serviceMap n) []
         in (AList.update n (l @ [c]) serviceMap, standalone))
      else (serviceMap, standalone @ [c]))"

definition groupByService :: "ui_container list \<Rightarrow> service_group list \<times> ui_container list" where
  "groupByService containers =
     (let (serviceMap, standalone) = fold group_step containers ([], [])
      in (map (\<lambda>(n, ctrs). \<lparr>sg_serviceName = n, sg_containers = ctrs\<rparr>) serviceMap, standalone))"

definition filter_containers :: "string \<Rightarrow> ui_container list \<Rightarrow> ui_container list" where
  "filter_containers searchQuery containers =
     (let q = js_lower (js_trim searchQuery) in
      if q = [] then containers
      else filter (\<lambda>c. js_includes (js_lower (uc_name c)) q \<or>
             (case uc_serviceName c of None \<Rightarrow> False | Some n \<Rightarrow> js_includes (js_lower n) q)) containers)"

datatype item_type = ServiceItem | ContainerItem

fun type_name :: "item_type \<Rightarrow> string" where
  "type_name ServiceItem = ''service''"
| "type_name ContainerItem = ''container''"

definition makeFavoriteId :: "item_type \<Rightarrow> string \<Rightarrow> string" where
  "makeFavoriteId ty key = type_name ty @ ''-'' @ key"

definition favorited :: "json list \<Rightarrow> item_type \<Rightarrow> string \<Rightarrow> bool" where
  "favorited favorites ty key \<longleftrightarrow> JStr (makeFavoriteId ty key) \<in> set favorites"

definition favorite_rank :: "json list \<Rightarrow> ('a \<Rightarrow> item_type \<times> string) \<Rightarrow> 'a \<Rightarrow> int" where
  "favorite_rank favorites getKey a = (case getKey a of (t, k) \<Rightarrow> if favorited favorites t k then 0 else 1)"

definition sortByFavorite :: "json list \<Rightarrow> ('a \<Rightarrow> item_type \<times> string) \<Rightarrow> 'a list \<Rightarrow> 'a list" where
  "sortByFavorite favorites getKey items =
     js_sort (\<lambda>a b. favorite_rank favorites getKey a - favorite_rank favorites getKey b) items"

definition listed ::
  "string \<Rightarrow> json list \<Rightarrow> bool \<Rightarrow> ui_container list \<Rightarrow> service_group list \<times> ui_container list" where
  "listed searchQuery favorites showFavoritesOnly containers =
     (let (allServices, allStandalone) = groupByService (filter_containers searchQuery containers)
      in (sortByFavorite favorites (\<lambda>s. (ServiceItem, sg_serviceName s))
            (if showFavoritesOnly then filter (\<lambda>s. favorited favorites ServiceItem (sg_serviceName s)) allServices
             else allServices),
          sortByFavorite favorites (\<lambda>c. (ContainerItem, uc_id c))
            (if showFavoritesOnly then filter (\<lambda>c. favorited favorites ContainerItem (uc_id c)) allStandalone
             else allStandalone)))"

section \<open>Selecting\<close>

definition MAX_TABS :: int where "MAX_TABS = 10"

definition makeTabId :: "item_type \<Rightarrow> string \<Rightarrow> string" where
  "makeTabId ty key = type_name ty @ ''-'' @ key"

text \<open>An optional field of an answer is \<open>null\<close> where it has no value.\<close>

definition opt_json :: "string option \<Rightarrow> json" where
  "opt_json v = (case v of None \<Rightarrow> JNull | Some s \<Rightarrow> JStr s)"

definition container_json :: "ui_container \<Rightarrow> json" where
  "container_json c =
     JObj [(''id'', JStr (uc_id c)), (''name'', JStr (uc_name c)), (''image'', JStr (uc_image c)),
           (''status'', JStr (uc_status c)), (''state'', JStr (uc_state c)), (''created'', JNum (uc_created c)),
           (''ports'', JArr (map JStr (uc_ports c))), (''serviceName'', opt_json (uc_serviceName c)),
           (''taskSlot'', opt_json (uc_taskSlot c)), (''nodeName'', opt_json (uc_nodeName c))]"

definition handleSelectContainer :: "ui_container \<Rightarrow> tabs_state \<Rightarrow> tabs_state" where
  "handleSelectContainer c s =
     openTab MAX_TABS \<lparr>tb_id = makeTabId ContainerItem (uc_id c), tb_label = uc_name c,
       tb_data = Some (JObj [(''type'', JStr ''container''), (''container'', container_json c)])\<rparr> s"

definition handleSelectService :: "service_group \<Rightarrow> tabs_state \<Rightarrow> tabs_state" where
  "handleSelectService g s =
     openTab MAX_TABS \<lparr>tb_id = makeTabId ServiceItem (sg_serviceName g), tb_label = sg_serviceName g,
       tb_data = Some (JObj [(''type'', JStr ''service''),
         (''service'', JObj [(''serviceName'', JStr (sg_serviceName g)),
            (''containers'', JArr (map container_json (sg_containers g)))])])\<rparr> s"

definition activeTab :: "tabs_state \<Rightarrow> tab option" where
  "activeTab s = find (\<lambda>t. Some (tb_id t) = ts_activeTabId s) (ts_tabs s)"

text \<open>What the page and its viewers read of a tab when they render. Without its data, or the part of the data that
  its type asks for, that is a \<open>TypeError\<close>, and nothing is rendered.\<close>

definition tab_data :: "tab \<Rightarrow> json" where
  "tab_data t = nullish_default (tb_data t) JNull"

definition renders :: "tab \<Rightarrow> bool" where
  "renders t \<longleftrightarrow>
     (if string_prop (tab_data t) ''type'' = Some ''service''
      then (case Option.bind (json_prop (tab_data t) ''service'') (\<lambda>s. json_prop s ''containers'') of
              Some (JArr cs) \<Rightarrow> JNull \<notin> set cs
            | _ \<Rightarrow> False)
      else (case json_prop (tab_data t) ''container'' of None \<Rightarrow> False | Some c \<Rightarrow> c \<noteq> JNull))"

definition selectedId :: "tabs_state \<Rightarrow> string option" where
  "selectedId s =
     (case activeTab s of None \<Rightarrow> None
      | Some t \<Rightarrow> if string_prop (tab_data t) ''type'' = Some ''container''
                 then Option.bind (json_prop (tab_data t) ''container'') (\<lambda>c. string_prop c ''id'') else None)"

definition selectedServiceName :: "tabs_state \<Rightarrow> string option" where
  "selectedServiceName s =
     (case activeTab s of None \<Rightarrow> None
      | Some t \<Rightarrow> if string_prop (tab_data t) ''type'' = Some ''service''
                 then Option.bind (json_prop (tab_data t) ''service'') (\<lambda>c. string_prop c ''serviceName'') else None)"

section \<open>The viewer of a service\<close>

definition REPLICA_COLORS :: "string list" where
  "REPLICA_COLORS =
     [''text-cyan-400'', ''text-yellow-400'', ''text-green-400'', ''text-pink-400'', ''text-orange-400'', ''text-indigo-400'']"

record service_log_entry =
  se_containerId :: string
  se_timestamp :: string
  se_message :: string
  se_stream :: string
  se_serviceName :: string
  se_event :: "string option"

record service_viewer =
  sv_active :: "(string \<times> string option) list"
  sv_colors :: "(string \<times> string) list"
  sv_colorIndex :: nat
  sv_paused :: bool
  sv_buffer :: "service_log_entry log_buffer"

definition replica_color :: "nat \<Rightarrow> string" where
  "replica_color i = REPLICA_COLORS ! (i mod length REPLICA_COLORS)"

definition open_viewer :: "service_group \<Rightarrow> service_viewer" where
  "open_viewer service =
     \<lparr>sv_active = fold (\<lambda>c m. AList.update (uc_id c) (uc_nodeName c) m) (sg_containers service) [],
      sv_colors = fold (\<lambda>(c, i) m. AList.update (uc_id c) (replica_color i) m)
        (zip (sg_containers service) [0..<length (sg_containers service)]) [],
      sv_colorIndex = length (sg_containers service), sv_paused = False, sv_buffer = empty_buffer\<rparr>"

definition getContainerColor :: "string \<Rightarrow> service_viewer \<Rightarrow> service_viewer" where
  "getContainerColor containerId s =
     (if map_of (sv_colors s) containerId \<noteq> None then s
      else s\<lparr>sv_colors := AList.update containerId (replica_color (sv_colorIndex s)) (sv_colors s),
             sv_colorIndex := sv_colorIndex s + 1\<rparr>)"

definition ensureActiveContainer :: "string \<Rightarrow> string option \<Rightarrow> service_viewer \<Rightarrow> service_viewer" where
  "ensureActiveContainer containerId nodeName s =
     (if containerId = [] then s
      else (let s1 = getContainerColor containerId s; prev = sv_active s1; current = map_of prev containerId in
            if current \<noteq> None \<and> (\<not> truthy nodeName \<or> the current = nodeName) then s1
            else s1\<lparr>sv_active := AList.update containerId
                   (nullish nodeName (case current of None \<Rightarrow> None | Some n \<Rightarrow> n)) prev\<rparr>))"

text \<open>The answer to the query of \<open>syncServiceContainers\<close>; a failed query changes nothing.\<close>

definition sync_answer :: "string \<Rightarrow> ui_container list option \<Rightarrow> service_viewer \<Rightarrow> service_viewer" where
  "sync_answer serviceName containers s =
     (let mine = filter (\<lambda>c. uc_serviceName c = Some serviceName) (nullish_default containers []);
          s1 = fold (\<lambda>c. getContainerColor (uc_id c)) mine s
      in s1\<lparr>sv_active := fold (\<lambda>c m. AList.update (uc_id c) (uc_nodeName c) m) mine []\<rparr>)"

text \<open>The second result says whether the containers are queried.\<close>

definition resumeStream :: "service_viewer \<Rightarrow> bool \<times> service_viewer" where
  "resumeStream s = (True, s\<lparr>sv_paused := False\<rparr>)"

definition togglePause :: "service_viewer \<Rightarrow> bool \<times> service_viewer" where
  "togglePause s = (if sv_paused s then resumeStream s else (False, s\<lparr>sv_paused := True\<rparr>))"

definition on_service_log :: "service_log_entry option \<Rightarrow> service_viewer \<Rightarrow> service_viewer" where
  "on_service_log entry s =
     (case entry of
        None \<Rightarrow> s
      | Some e \<Rightarrow>
          (let s1 = (if se_event e = Some ''container_started'' then ensureActiveContainer (se_containerId e) None s
                     else if se_event e = Some ''container_stopped''
                     then s\<lparr>sv_active := AList.delete (se_containerId e) (sv_active s)\<rparr>
                     else ensureActiveContainer (se_containerId e) None s)
           in s1\<lparr>sv_buffer := addLog e (sv_buffer s1)\<rparr>))"

text \<open>Rendering asks for the colours of the lines in view.\<close>

definition render_colors :: "string list \<Rightarrow> service_viewer \<Rightarrow> service_viewer" where
  "render_colors ids s = fold getContainerColor ids s"

datatype viewer_event =
  ServiceLog "service_log_entry option" | SyncAnswer "ui_container list option" | TogglePause
| Rendered "string list" | ViewerFrame | ViewerClear

text \<open>A paused viewer is not subscribed, and gets no log.\<close>

fun viewer_step :: "string \<Rightarrow> (string \<Rightarrow> string \<Rightarrow> int) \<Rightarrow> viewer_event \<Rightarrow> service_viewer \<Rightarrow> service_viewer" where
  "viewer_step name lc (ServiceLog e) s = (if sv_paused s then s else on_service_log e s)"
| "viewer_step name lc (SyncAnswer cs) s = sync_answer name cs s"
| "viewer_step name lc TogglePause s = snd (togglePause s)"
| "viewer_step name lc (Rendered ids) s = render_colors ids s"
| "viewer_step name lc ViewerFrame s = s\<lparr>sv_buffer := buffer_step 5000 True lc se_timestamp Frame (sv_buffer s)\<rparr>"
| "viewer_step name lc ViewerClear s = s\<lparr>sv_buffer := clearLogs (sv_buffer s)\<rparr>"

section \<open>The viewer of one container\<close>

record 'a container_viewer =
  cv_paused :: bool
  cv_buffer :: "'a log_buffer"

definition cv_togglePause :: "'a container_viewer \<Rightarrow> 'a container_viewer" where
  "cv_togglePause s = s\<lparr>cv_paused := \<not> cv_paused s\<rparr>"

definition on_container_log :: "'a option \<Rightarrow> 'a container_viewer \<Rightarrow> 'a container_viewer" where
  "on_container_log entry s =
     (case entry of None \<Rightarrow> s | Some e \<Rightarrow> s\<lparr>cv_buffer := addLog e (cv_buffer s)\<rparr>)"

section \<open>Keys and scrolling\<close>

datatype key_action = NextMatch | PrevMatch

definition handleKeyDown :: "bool \<Rightarrow> bool \<Rightarrow> string option \<Rightarrow> string \<Rightarrow> bool \<Rightarrow> key_action option" where
  "handleKeyDown isFindMode isGrepping tag key shift =
     (if \<not> isFindMode \<or> \<not> isGrepping then None
      else if tag \<in> {Some ''INPUT'', Some ''TEXTAREA'', Some ''SELECT''} then None
      else if key = ''n'' \<and> \<not> shift then Some NextMatch
      else if key = ''N'' \<and> shift then Some PrevMatch else None)"

definition getMatchPositionForLog :: "bool \<Rightarrow> bool \<Rightarrow> (nat \<times> nat) option \<Rightarrow> nat \<Rightarrow> nat option" where
  "getMatchPositionForLog isFindMode isGrepping current logIndex =
     (if \<not> isFindMode \<or> \<not> isGrepping then None
      else (case current of None \<Rightarrow> None | Some (l, p) \<Rightarrow> if logIndex \<noteq> l then None else Some p))"

record auto_scroll =
  as_following :: bool
  as_programmatic :: bool

text \<open>The effect scrolls to the last item; the second result is the index scrolled to.\<close>

definition follow_effect :: "bool \<Rightarrow> bool \<Rightarrow> int \<Rightarrow> auto_scroll \<Rightarrow> auto_scroll \<times> int option" where
  "follow_effect isPaused enabled itemCount s =
     (if isPaused then (s, None)
      else if as_following s \<and> enabled \<and> 0 < itemCount
      then (s\<lparr>as_programmatic := True\<rparr>, Some (itemCount - 1)) else (s, None))"

definition scroll_frame :: "auto_scroll \<Rightarrow> auto_scroll" where
  "scroll_frame s = s\<lparr>as_programmatic := False\<rparr>"

definition handleScroll :: "bool \<Rightarrow> (int \<times> int \<times> int) option \<Rightarrow> auto_scroll \<Rightarrow> auto_scroll" where
  "handleScroll isPaused el s =
     (if isPaused \<or> as_programmatic s then s
      else (case el of
              None \<Rightarrow> s
            | Some (scrollHeight, scrollTop, clientHeight) \<Rightarrow>
                s\<lparr>as_following := scrollHeight - scrollTop - clientHeight < 50\<rparr>))"

definition scrollToBottom :: "int \<Rightarrow> auto_scroll \<Rightarrow> auto_scroll \<times> int option" where
  "scrollToBottom itemCount s = (s\<lparr>as_following := True\<rparr>, Some (itemCount - 1))"

text \<open>The buttons of the two viewers resume the stream first; that of a service queries the containers when it was paused.\<close>

definition sv_scrollToBottom :: "int \<Rightarrow> service_viewer \<times> auto_scroll \<Rightarrow> bool \<times> service_viewer \<times> auto_scroll" where
  "sv_scrollToBottom itemCount vs =
     (let (query, s) = (if sv_paused (fst vs) then resumeStream (fst vs) else (False, fst vs))
      in (query, s, fst (scrollToBottom itemCount (snd vs))))"

definition cv_scrollToBottom :: "int \<Rightarrow> 'a container_viewer \<times> auto_scroll \<Rightarrow> 'a container_viewer \<times> auto_scroll" where
  "cv_scrollToBottom itemCount vs =
     ((fst vs)\<lparr>cv_paused := False\<rparr>, fst (scrollToBottom itemCount (snd vs)))"

end
