(* ===== verification/Ui_Live_Stream_Properties.thy ===== *)
theory Ui_Live_Stream_Properties
  imports Ui_Live_Stream
begin

text \<open>
  The list of containers loses and repeats none and puts favourites first, a click selects what was
  clicked, and the replicas of a service keep their colours.
\<close>

section \<open>Groups\<close>

definition group_of :: "string \<Rightarrow> ui_container list \<Rightarrow> ui_container list" where
  "group_of n cs = filter (\<lambda>c. truthy (uc_serviceName c) \<and> uc_serviceName c = Some n) cs"

definition grouped :: "(string \<times> ui_container list) list \<times> ui_container list \<Rightarrow> ui_container list \<Rightarrow> bool" where
  "grouped acc cs \<longleftrightarrow>
     wf_map (fst acc) \<and> snd acc = filter (\<lambda>c. \<not> truthy (uc_serviceName c)) cs \<and>
     (\<forall>n. map_of (fst acc) n = (if group_of n cs = [] then None else Some (group_of n cs)))"

lemma grouped_step:
  assumes "grouped acc cs"
  shows "grouped (group_step c acc) (cs @ [c])"
proof -
  obtain m st where acc: "acc = (m, st)" by (cases acc)
  show ?thesis
  proof (cases "truthy (uc_serviceName c)")
    case True
    then obtain n where n: "uc_serviceName c = Some n" "n \<noteq> []" by (auto simp: truthy_iff)
    have "group_of k (cs @ [c]) = group_of k cs @ (if k = n then [c] else [])" for k
      using n True by (simp add: group_of_def)
    with assms acc n True show ?thesis
      by (auto simp: grouped_def group_step_def Let_def js_map.wf_put js_map.get_put)
  next
    case False
    then have "group_of k (cs @ [c]) = group_of k cs" for k by (auto simp: group_of_def)
    with assms acc False show ?thesis by (simp add: grouped_def group_step_def)
  qed
qed

lemma grouped_fold: "grouped acc cs \<Longrightarrow> grouped (fold group_step ds acc) (cs @ ds)"
proof (induction ds arbitrary: acc cs)
  case (Cons d ds)
  from Cons.IH [OF grouped_step [OF Cons.prems, of d]] show ?case by simp
qed simp

lemma grouped_all: "grouped (fold group_step cs ([], [])) cs"
proof -
  have "grouped ([], []) []" by (simp add: grouped_def wf_map_def group_of_def)
  from grouped_fold [OF this] show ?thesis by simp
qed

lemma mset_groups:
  "distinct ns \<Longrightarrow> mset (concat (map (\<lambda>n. group_of n cs) ns)) =
     mset (filter (\<lambda>c. truthy (uc_serviceName c) \<and> uc_serviceName c \<in> Some ` set ns) cs)"
proof (induction ns)
  case (Cons n ns)
  have "mset (filter (\<lambda>c. truthy (uc_serviceName c) \<and> uc_serviceName c \<in> Some ` set (n # ns)) cs) =
    mset (filter (\<lambda>c. truthy (uc_serviceName c) \<and> uc_serviceName c = Some n) cs) +
    mset (filter (\<lambda>c. truthy (uc_serviceName c) \<and> uc_serviceName c \<in> Some ` set ns) cs)"
    using Cons.prems by (induction cs) auto
  with Cons show ?case by (simp add: group_of_def)
qed simp

lemma groups_partition:
  fixes cs defines "g \<equiv> groupByService cs"
  shows "distinct (map sg_serviceName (fst g))"
    and "\<forall>s \<in> set (fst g). sg_containers s = group_of (sg_serviceName s) cs \<and> sg_containers s \<noteq> []"
    and "mset (concat (map sg_containers (fst g))) + mset (snd g) = mset cs"
    and "snd g = filter (\<lambda>c. \<not> truthy (uc_serviceName c)) cs"
proof -
  obtain m st where acc: "fold group_step cs ([], []) = (m, st)" by fastforce
  have ok: "grouped (m, st) cs" using grouped_all [of cs] by (simp add: acc)
  have g: "fst g = map (\<lambda>(n, ctrs). \<lparr>sg_serviceName = n, sg_containers = ctrs\<rparr>) m" "snd g = st"
    by (simp_all add: g_def groupByService_def acc)
  have names: "map sg_serviceName (fst g) = map fst m" by (simp add: g(1) case_prod_unfold comp_def)
  then show dist: "distinct (map sg_serviceName (fst g))" using ok by (simp add: grouped_def wf_map_def)
  have entry: "ctrs = group_of n cs \<and> ctrs \<noteq> []" if "(n, ctrs) \<in> set m" for n ctrs
  proof -
    have "distinct (map fst m)" using ok by (simp add: grouped_def wf_map_def)
    from map_of_is_SomeI [OF this that] have "map_of m n = Some ctrs" .
    with ok show ?thesis by (auto simp: grouped_def split: if_splits)
  qed
  then show "\<forall>s \<in> set (fst g). sg_containers s = group_of (sg_serviceName s) cs \<and> sg_containers s \<noteq> []"
    by (auto simp: g(1))
  show st: "snd g = filter (\<lambda>c. \<not> truthy (uc_serviceName c)) cs" using ok g(2) by (simp add: grouped_def)
  have "map sg_containers (fst g) = map (\<lambda>n. group_of n cs) (map fst m)"
    using entry by (auto simp: g(1))
  moreover have all: "uc_serviceName c \<in> Some ` set (map fst m)" if "c \<in> set cs" "truthy (uc_serviceName c)" for c
  proof -
    from that obtain n where n: "uc_serviceName c = Some n" by (auto simp: truthy_iff)
    with that have "c \<in> set (group_of n cs)" by (simp add: group_of_def)
    then have "group_of n cs \<noteq> []" by auto
    with ok have "map_of m n = Some (group_of n cs)" by (simp add: grouped_def)
    then have "n \<in> set (map fst m)" by (force dest: map_of_SomeD)
    with n show ?thesis by simp
  qed
  moreover have "filter (\<lambda>c. truthy (uc_serviceName c) \<and> uc_serviceName c \<in> Some ` set (map fst m)) cs =
      filter (\<lambda>c. truthy (uc_serviceName c)) cs"
    using all by (auto intro: filter_cong)
  ultimately have "mset (concat (map sg_containers (fst g))) = mset (filter (\<lambda>c. truthy (uc_serviceName c)) cs)"
    using mset_groups [of "map fst m" cs] dist names by simp
  then show "mset (concat (map sg_containers (fst g))) + mset (snd g) = mset cs"
    unfolding st by simp
qed

lemma mset_concat_map: "mset (concat (map f xs)) = \<Sum>\<^sub># (image_mset (\<lambda>x. mset (f x)) (mset xs))"
  by (induction xs) auto

section \<open>Favourites first\<close>

lemma insert_rank:
  assumes "\<forall>x. r x = 0 \<or> r x = (1::int)"
  shows "insert_by (\<lambda>a b. r a - r b) x (filter (\<lambda>y. r y = 0) xs @ filter (\<lambda>y. r y \<noteq> 0) xs) =
    filter (\<lambda>y. r y = 0) (x # xs) @ filter (\<lambda>y. r y \<noteq> 0) (x # xs)"
proof (cases "r x = 0")
  case True
  have "r x - r y \<le> 0" for y using assms [rule_format, of y] True by auto
  then have "insert_by (\<lambda>a b. r a - r b) x ys = x # ys" for ys by (cases ys) simp_all
  with True show ?thesis by simp
next
  case False
  then have r1: "r x = 1" using assms by metis
  have ins: "insert_by (\<lambda>a b. r a - r b) x (as @ bs) = as @ x # bs"
    if "\<forall>a \<in> set as. r a = 0" "\<forall>b \<in> set bs. r b \<noteq> 0" for as bs
    using that
  proof (induction as)
    case Nil
    have "r x - r b \<le> 0" if "r b \<noteq> 0" for b using assms [rule_format, of b] that r1 by auto
    with Nil show ?case by (cases bs) simp_all
  next
    case (Cons a as)
    then show ?case using r1 by simp
  qed
  have "insert_by (\<lambda>a b. r a - r b) x (filter (\<lambda>y. r y = 0) xs @ filter (\<lambda>y. r y \<noteq> 0) xs) =
      filter (\<lambda>y. r y = 0) xs @ x # filter (\<lambda>y. r y \<noteq> 0) xs"
    by (rule ins) simp_all
  then show ?thesis using False by (simp only: filter.simps if_False not_False_eq_True if_True)
qed

lemma sortByFavorite_split:
  "sortByFavorite favorites getKey items =
     filter (\<lambda>a. case getKey a of (t, k) \<Rightarrow> favorited favorites t k) items @
     filter (\<lambda>a. \<not> (case getKey a of (t, k) \<Rightarrow> favorited favorites t k)) items"
proof -
  let ?r = "favorite_rank favorites getKey"
  have r: "\<forall>x. ?r x = 0 \<or> ?r x = 1" by (simp add: favorite_rank_def split: prod.split)
  have "js_sort (\<lambda>a b. ?r a - ?r b) items = filter (\<lambda>y. ?r y = 0) items @ filter (\<lambda>y. ?r y \<noteq> 0) items"
    by (induction items) (simp_all only: js_sort_simps insert_rank [OF r] filter.simps append_Nil)
  moreover have "?r y = 0 \<longleftrightarrow> (case getKey y of (t, k) \<Rightarrow> favorited favorites t k)" for y
    by (simp add: favorite_rank_def split: prod.split)
  ultimately show ?thesis by (simp add: sortByFavorite_def)
qed

text \<open>The list shows every container that matches once. Without the restriction to favourites, the
  containers of the services and the single ones together are those that match the search; each
  service appears once, with its containers in the order of the answer; and favourites come first
  without changing the order otherwise. The restriction keeps just the favourites.\<close>

theorem containers_listed:
  fixes q favorites cs
  defines "shown \<equiv> filter_containers q cs"
  defines "p \<equiv> listed q favorites False cs"
  shows "mset (concat (map sg_containers (fst p))) + mset (snd p) = mset shown \<and>
    distinct (map sg_serviceName (fst p)) \<and>
    map sg_containers (fst p) =
      map (\<lambda>s. filter (\<lambda>c. truthy (uc_serviceName c) \<and> uc_serviceName c = Some (sg_serviceName s)) shown) (fst p) \<and>
    listed q favorites True cs =
      (filter (\<lambda>s. favorited favorites ServiceItem (sg_serviceName s)) (fst p),
       filter (\<lambda>c. favorited favorites ContainerItem (uc_id c)) (snd p)) \<and>
    snd p = filter (\<lambda>c. favorited favorites ContainerItem (uc_id c)) (snd p) @
      filter (\<lambda>c. \<not> favorited favorites ContainerItem (uc_id c)) (snd p)"
proof -
  let ?g = "groupByService shown"
  note part = groups_partition [of shown]
  let ?s = "\<lambda>s. favorited favorites ServiceItem (sg_serviceName s)"
  let ?c = "\<lambda>c. favorited favorites ContainerItem (uc_id c)"
  have p: "fst p = filter ?s (fst ?g) @ filter (\<lambda>s. \<not> ?s s) (fst ?g)"
      "snd p = filter ?c (snd ?g) @ filter (\<lambda>c. \<not> ?c c) (snd ?g)"
    by (simp_all add: p_def listed_def shown_def sortByFavorite_split case_prod_unfold Let_def)
  have ms: "mset (fst p) = mset (fst ?g)" "mset (snd p) = mset (snd ?g)" unfolding p by simp_all
  then have "mset (map sg_serviceName (fst p)) = mset (map sg_serviceName (fst ?g))" by simp
  then have "distinct (map sg_serviceName (fst p))" using part(1) mset_eq_imp_distinct_iff by blast
  moreover have "mset (concat (map sg_containers (fst p))) = mset (concat (map sg_containers (fst ?g)))"
    using ms(1) by (simp add: mset_concat_map)
  moreover have "map sg_containers (fst p) =
      map (\<lambda>s. filter (\<lambda>c. truthy (uc_serviceName c) \<and> uc_serviceName c = Some (sg_serviceName s)) shown) (fst p)"
    using part(2) mset_eq_setD [OF ms(1)] by (simp add: group_of_def)
  moreover have "listed q favorites True cs = (filter ?s (fst p), filter ?c (snd p))"
    unfolding p by (simp add: listed_def shown_def sortByFavorite_split case_prod_unfold Let_def)
  moreover have "snd p = filter ?c (snd p) @ filter (\<lambda>c. \<not> ?c c) (snd p)" unfolding p by simp
  moreover from calculation(2) have "mset (concat (map sg_containers (fst p))) + mset (snd p) = mset shown"
    using part(3) ms(2) by (simp only:)
  ultimately show ?thesis by blast
qed

lemma favourites_toggle: "JStr i \<in> set (toggleFavorite i fs) \<longleftrightarrow> JStr i \<notin> set fs"
  "v \<noteq> JStr i \<Longrightarrow> v \<in> set (toggleFavorite i fs) \<longleftrightarrow> v \<in> set fs"
  by (auto simp: toggleFavorite_def)

text \<open>What is stored is what is shown, and is read back after a reload, given a parser that reads it.\<close>

lemma favourites_survive_reload:
  assumes "toggle_and_save True i s = (fs, storage)" and "distinct fs"
    and "parse (json_stringify (JArr fs)) = Some (JArr fs)"
  shows "loadFavorites parse storage = fs"
proof -
  have storage: "storage = Some (json_stringify (JArr fs))"
    using assms(1) by (auto simp: toggle_and_save_def saveFavorites_def Let_def)
  have "foldl (\<lambda>acc x. set_add x acc) acc xs = acc @ xs" if "distinct (acc @ xs)" for acc xs :: "json list"
    using that by (induction xs arbitrary: acc) (auto simp: set_add_def)
  then have "set_of_list fs = fs" using assms(2) by (simp add: set_of_list_def)
  with assms(3) show ?thesis by (simp add: loadFavorites_def storage truthy_def)
qed

lemma example_groups:
  "groupByService [\<lparr>uc_id = ''1'', uc_name = ''a'', uc_image = [], uc_status = [], uc_state = ''running'', uc_created = 0,
     uc_ports = [], uc_serviceName = None, uc_taskSlot = None, uc_nodeName = None\<rparr>] =
   ([], [\<lparr>uc_id = ''1'', uc_name = ''a'', uc_image = [], uc_status = [], uc_state = ''running'', uc_created = 0,
     uc_ports = [], uc_serviceName = None, uc_taskSlot = None, uc_nodeName = None\<rparr>])"
  by (simp add: groupByService_def group_step_def truthy_def)

section \<open>Selecting\<close>

lemma makeTabId_inj: "makeTabId ty k = makeTabId ty' k' \<longleftrightarrow> ty = ty' \<and> k = k'"
  by (cases ty; cases ty') (simp_all add: makeTabId_def)

text \<open>What the data of a tab says it shows; the tabs of the page show what their ids say.\<close>

definition tab_target :: "tab \<Rightarrow> (item_type \<times> string) option" where
  "tab_target t =
     (if string_prop (tab_data t) ''type'' = Some ''container''
      then map_option (Pair ContainerItem) (Option.bind (json_prop (tab_data t) ''container'') (\<lambda>c. string_prop c ''id''))
      else if string_prop (tab_data t) ''type'' = Some ''service''
      then map_option (Pair ServiceItem) (Option.bind (json_prop (tab_data t) ''service'') (\<lambda>c. string_prop c ''serviceName''))
      else None)"

definition live_tabs :: "tabs_state \<Rightarrow> bool" where
  "live_tabs s \<longleftrightarrow> (\<forall>t \<in> set (ts_tabs s). \<exists>ty k. tab_target t = Some (ty, k) \<and> tb_id t = makeTabId ty k)"

lemma set_openTab: "set (ts_tabs (openTab m t s)) \<subseteq> insert t (set (ts_tabs s))"
  by (auto simp: openTab_def Let_def split: option.splits)

lemma live_tabs_open:
  "live_tabs s \<Longrightarrow> tab_target t = Some (ty, k) \<Longrightarrow> tb_id t = makeTabId ty k \<Longrightarrow> live_tabs (openTab m t s)"
  using set_openTab [of m t s] by (auto simp: live_tabs_def)

lemma selected_target:
  assumes "live_tabs s" and "ts_activeTabId s = Some (makeTabId ty k)" and "makeTabId ty k \<in> tb_id ` set (ts_tabs s)"
  shows "selectedId s = (if ty = ContainerItem then Some k else None) \<and>
    selectedServiceName s = (if ty = ServiceItem then Some k else None)"
proof -
  obtain t where t: "activeTab s = Some t"
    using assms(2,3) by (cases "activeTab s") (auto simp: activeTab_def find_None_iff)
  then have "t \<in> set (ts_tabs s)" and id: "tb_id t = makeTabId ty k"
    using assms(2) by (auto simp: activeTab_def find_Some_iff)
  with assms(1) obtain ty' k' where "tab_target t = Some (ty', k')" "tb_id t = makeTabId ty' k'"
    unfolding live_tabs_def by blast
  with id have "tab_target t = Some (ty, k)" by (simp add: makeTabId_inj)
  then show ?thesis
    by (auto simp: selectedId_def selectedServiceName_def t tab_target_def split: if_splits)
qed

text \<open>A click on a container or service shows it. With tabs that show what their ids say, which
  every click keeps, the container or service clicked is the one the list marks afterwards, and no
  other; a second click on it changes nothing.\<close>

theorem selection_follows_click:
  assumes "tabs_ok MAX_TABS s" and "live_tabs s"
  shows "live_tabs (handleSelectContainer c s) \<and> selectedId (handleSelectContainer c s) = Some (uc_id c) \<and>
    selectedServiceName (handleSelectContainer c s) = None \<and>
    handleSelectContainer c (handleSelectContainer c s) = handleSelectContainer c s \<and>
    live_tabs (handleSelectService g s) \<and> selectedServiceName (handleSelectService g s) = Some (sg_serviceName g) \<and>
    selectedId (handleSelectService g s) = None \<and>
    handleSelectService g (handleSelectService g s) = handleSelectService g s"
proof -
  have two: "2 \<le> MAX_TABS" by (simp add: MAX_TABS_def)
  have shown: "ts_activeTabId (openTab MAX_TABS t s) = Some (tb_id t) \<and> tb_id t \<in> tb_id ` set (ts_tabs (openTab MAX_TABS t s))" for t
    using open_tab_shows [OF assms(1) two, of t] by (simp add: Let_def)
  have again: "openTab MAX_TABS t (openTab MAX_TABS t s) = openTab MAX_TABS t s" for t
    using shown [of t] find_None_id [of "tb_id t" "ts_tabs (openTab MAX_TABS t s)"]
    by (simp add: openTab_def [of MAX_TABS t "openTab MAX_TABS t s"] Let_def)
  let ?c = "\<lparr>tb_id = makeTabId ContainerItem (uc_id c), tb_label = uc_name c,
       tb_data = Some (JObj [(''type'', JStr ''container''), (''container'', container_json c)])\<rparr>"
  let ?g = "\<lparr>tb_id = makeTabId ServiceItem (sg_serviceName g), tb_label = sg_serviceName g,
       tb_data = Some (JObj [(''type'', JStr ''service''),
         (''service'', JObj [(''serviceName'', JStr (sg_serviceName g)),
            (''containers'', JArr (map container_json (sg_containers g)))])])\<rparr>"
  have tgt: "tab_target ?c = Some (ContainerItem, uc_id c)" "tab_target ?g = Some (ServiceItem, sg_serviceName g)"
    by (simp_all add: tab_target_def tab_data_def container_json_def)
  have c: "handleSelectContainer c s = openTab MAX_TABS ?c s" and g: "handleSelectService g s = openTab MAX_TABS ?g s" for s
    by (simp_all add: handleSelectContainer_def handleSelectService_def)
  have live: "live_tabs (openTab MAX_TABS ?c s)" "live_tabs (openTab MAX_TABS ?g s)"
    using live_tabs_open [OF assms(2) tgt(1)] live_tabs_open [OF assms(2) tgt(2)] by simp_all
  from selected_target [OF live(1), of ContainerItem "uc_id c"] selected_target [OF live(2), of ServiceItem "sg_serviceName g"]
  show ?thesis unfolding c g using shown [of ?c] shown [of ?g] again live by simp
qed

lemma selection_follows_click_witness:
  "selectedServiceName (handleSelectService \<lparr>sg_serviceName = ''api'', sg_containers = []\<rparr>
     \<lparr>ts_tabs = [], ts_activeTabId = None\<rparr>) = Some ''api''"
proof -
  have "tabs_ok MAX_TABS \<lparr>ts_tabs = [], ts_activeTabId = None\<rparr>" by (simp add: tabs_ok_def MAX_TABS_def)
  moreover have "live_tabs \<lparr>ts_tabs = [], ts_activeTabId = None\<rparr>" by (simp add: live_tabs_def)
  ultimately show ?thesis
    using selection_follows_click [of "\<lparr>ts_tabs = [], ts_activeTabId = None\<rparr>" _ "\<lparr>sg_serviceName = ''api'', sg_containers = []\<rparr>"]
    by simp
qed

section \<open>Replicas and their colours\<close>

lemma update_new: "k \<notin> fst ` set m \<Longrightarrow> AList.update k v m = m @ [(k, v)]"
  by (induction m) auto

lemma keys_update_set: "fst ` set (AList.update k v m) = insert k (fst ` set m)"
  using arg_cong [OF map_fst_update [of k v m], of set] by auto

lemma keys_delete_set: "fst ` set (AList.delete k m) = fst ` set m - {k}"
  using arg_cong [OF map_fst_delete [of k m], of set] by auto

definition viewer_ok :: "service_viewer \<Rightarrow> bool" where
  "viewer_ok s \<longleftrightarrow>
     wf_map (sv_colors s) \<and> length (sv_colors s) = sv_colorIndex s \<and>
     map snd (sv_colors s) = map replica_color [0..<length (sv_colors s)] \<and>
     wf_map (sv_active s) \<and> fst ` set (sv_active s) \<subseteq> fst ` set (sv_colors s)"

lemma getContainerColor_grows:
  "\<exists>more. sv_colors (getContainerColor k s) = sv_colors s @ more"
  "sv_active (getContainerColor k s) = sv_active s"
  "k \<in> fst ` set (sv_colors (getContainerColor k s))"
proof -
  have known: "map_of (sv_colors s) k = None \<longleftrightarrow> k \<notin> fst ` set (sv_colors s)" by (simp add: map_of_eq_None_iff)
  show "\<exists>more. sv_colors (getContainerColor k s) = sv_colors s @ more" "k \<in> fst ` set (sv_colors (getContainerColor k s))"
    using known by (auto simp: getContainerColor_def update_new)
  show "sv_active (getContainerColor k s) = sv_active s" by (simp add: getContainerColor_def)
qed

lemma viewer_ok_color: "viewer_ok s \<Longrightarrow> viewer_ok (getContainerColor k s)"
  by (auto simp: viewer_ok_def getContainerColor_def update_new map_of_eq_None_iff js_map.wf_put wf_map_def)

lemma fold_colors:
  "viewer_ok s \<Longrightarrow>
     viewer_ok (fold getContainerColor ks s) \<and> (\<exists>more. sv_colors (fold getContainerColor ks s) = sv_colors s @ more) \<and>
     sv_active (fold getContainerColor ks s) = sv_active s \<and>
     set ks \<subseteq> fst ` set (sv_colors (fold getContainerColor ks s))"
proof (induction ks arbitrary: s)
  case (Cons k ks)
  obtain m1 where m1: "sv_colors (getContainerColor k s) = sv_colors s @ m1" using getContainerColor_grows(1) by blast
  from Cons.IH [OF viewer_ok_color [OF Cons.prems, of k]] obtain m2 where
    m2: "sv_colors (fold getContainerColor ks (getContainerColor k s)) = sv_colors (getContainerColor k s) @ m2" by blast
  then have "k \<in> fst ` set (sv_colors (fold getContainerColor ks (getContainerColor k s)))"
    using getContainerColor_grows(3) [of k s] by auto
  with Cons.IH [OF viewer_ok_color [OF Cons.prems, of k]] m1 m2 getContainerColor_grows(2) [of k s] show ?case by auto
qed simp

lemma fold_update_keys:
  "wf_map m \<Longrightarrow> wf_map (fold (\<lambda>c m. AList.update (f c) (g c) m) cs m) \<and>
     fst ` set (fold (\<lambda>c m. AList.update (f c) (g c) m) cs m) = fst ` set m \<union> f ` set cs"
proof (induction cs arbitrary: m)
  case (Cons c cs)
  from Cons.IH [OF js_map.wf_put [OF Cons.prems, of "f c" "g c"]] show ?case by (auto simp: keys_update_set)
qed simp

lemma viewer_ok_active:
  "viewer_ok s \<Longrightarrow> wf_map a \<Longrightarrow> fst ` set a \<subseteq> fst ` set (sv_colors s) \<Longrightarrow> viewer_ok (s\<lparr>sv_active := a\<rparr>)"
  by (simp add: viewer_ok_def)

lemma viewer_ok_ensure:
  assumes "viewer_ok s"
  shows "viewer_ok (ensureActiveContainer k n s) \<and>
    (\<exists>more. sv_colors (ensureActiveContainer k n s) = sv_colors s @ more)"
proof (cases "k = []")
  case True
  with assms show ?thesis by (simp add: ensureActiveContainer_def)
next
  case False
  let ?s = "getContainerColor k s"
  have ok: "viewer_ok ?s" by (rule viewer_ok_color [OF assms])
  have keys: "fst ` set (AList.update k v (sv_active ?s)) \<subseteq> fst ` set (sv_colors ?s)" for v
    using ok getContainerColor_grows(3) [of k s] by (simp add: viewer_ok_def keys_update_set)
  have wf: "wf_map (AList.update k v (sv_active ?s))" for v
    by (rule js_map.wf_put) (use ok in \<open>simp add: viewer_ok_def\<close>)
  from viewer_ok_active [OF ok wf keys] ok getContainerColor_grows(1) [of k s] False show ?thesis
    by (auto simp: ensureActiveContainer_def Let_def)
qed

lemma viewer_step_ok:
  assumes "viewer_ok s"
  shows "viewer_ok (viewer_step name lc e s) \<and> (\<exists>more. sv_colors (viewer_step name lc e s) = sv_colors s @ more)"
proof (cases e)
  case (ServiceLog x)
  have del: "viewer_ok (s\<lparr>sv_active := AList.delete k (sv_active s)\<rparr>)" for k
    using assms js_map.wf_del [of "sv_active s" k]
    by (intro viewer_ok_active) (auto simp: viewer_ok_def keys_delete_set)
  have buf: "viewer_ok (t\<lparr>sv_buffer := b\<rparr>) = viewer_ok t" for t b by (simp add: viewer_ok_def)
  from ServiceLog assms show ?thesis
    using viewer_ok_ensure [OF assms] del
    by (cases x) (auto simp: on_service_log_def Let_def buf)
next
  case (SyncAnswer cs)
  define mine where "mine = filter (\<lambda>c. uc_serviceName c = Some name) (nullish_default cs [])"
  have "fold (\<lambda>c. getContainerColor (uc_id c)) mine s = fold getContainerColor (map uc_id mine) s"
    by (simp add: fold_map comp_def)
  moreover from fold_colors [OF assms, of "map uc_id mine"]
  have ok: "viewer_ok (fold getContainerColor (map uc_id mine) s)"
    and more: "\<exists>more. sv_colors (fold getContainerColor (map uc_id mine) s) = sv_colors s @ more"
    and known: "uc_id ` set mine \<subseteq> fst ` set (sv_colors (fold getContainerColor (map uc_id mine) s))" by auto
  moreover have "wf_map []" by (simp add: wf_map_def)
  note fold_update_keys [OF this, of uc_id uc_nodeName mine]
  ultimately show ?thesis
    using SyncAnswer viewer_ok_active [OF ok] known
    by (simp add: sync_answer_def Let_def mine_def [symmetric])
next
  case TogglePause
  with assms show ?thesis by (simp add: togglePause_def resumeStream_def viewer_ok_def)
next
  case (Rendered ids)
  with fold_colors [OF assms, of ids] show ?thesis by (simp add: render_colors_def)
qed (use assms in \<open>simp_all add: viewer_ok_def\<close>)

interpretation replicas: machine "viewer_step name lc" viewer_ok for name lc
  by unfold_locales (use viewer_step_ok in blast)

lemma colors_grow:
  "viewer_ok s \<Longrightarrow> \<exists>more. sv_colors (fold (viewer_step name lc) es s) = sv_colors s @ more"
proof (induction es arbitrary: s)
  case (Cons e es)
  from viewer_step_ok [OF Cons.prems, of name lc e] obtain m where
    "viewer_ok (viewer_step name lc e s)" "sv_colors (viewer_step name lc e s) = sv_colors s @ m" by blast
  with Cons.IH [of "viewer_step name lc e s"] show ?case by auto
qed simp

lemma open_viewer_ok:
  assumes "distinct (map uc_id (sg_containers service))"
  shows "viewer_ok (open_viewer service)"
proof -
  let ?cs = "sg_containers service"
  have app: "fold (\<lambda>(c, i) m. AList.update (uc_id c) (replica_color i) m) zs m = m @ map (\<lambda>(c, i). (uc_id c, replica_color i)) zs"
    if "distinct (map (uc_id \<circ> fst) zs)" "fst ` set m \<inter> (uc_id \<circ> fst) ` set zs = {}" for zs m
    using that
  proof (induction zs arbitrary: m)
    case (Cons z zs)
    obtain c i where z: "z = (c, i)" by (cases z)
    with Cons.prems have "uc_id c \<notin> fst ` set m" by auto
    then have "AList.update (uc_id c) (replica_color i) m = m @ [(uc_id c, replica_color i)]" by (rule update_new)
    moreover have "fst ` set (m @ [(uc_id c, replica_color i)]) \<inter> (uc_id \<circ> fst) ` set zs = {}"
      using Cons.prems z by auto
    ultimately show ?case using Cons.IH [of "m @ [(uc_id c, replica_color i)]"] Cons.prems(1) z by simp
  qed simp
  have "map (uc_id \<circ> fst) (zip ?cs [0..<length ?cs]) = map uc_id ?cs"
    by (simp flip: map_map)
  with assms have col: "sv_colors (open_viewer service) = map (\<lambda>(c, i). (uc_id c, replica_color i)) (zip ?cs [0..<length ?cs])"
    by (simp add: open_viewer_def app)
  then have len: "length (sv_colors (open_viewer service)) = length ?cs" by simp
  have fsts: "map fst (sv_colors (open_viewer service)) = map uc_id ?cs"
    unfolding col by (simp add: case_prod_unfold comp_def) (simp flip: map_map comp_def [of uc_id fst] add: map_fst_zip)
  have snds: "map snd (sv_colors (open_viewer service)) = map replica_color [0..<length ?cs]"
    unfolding col by (simp add: case_prod_unfold comp_def) (simp flip: map_map comp_def [of replica_color snd] add: map_snd_zip)
  have "wf_map []" by (simp add: wf_map_def)
  from fold_update_keys [OF this, of uc_id uc_nodeName ?cs]
  have "wf_map (sv_active (open_viewer service))" "fst ` set (sv_active (open_viewer service)) = uc_id ` set ?cs"
    by (simp_all add: open_viewer_def)
  moreover have "fst ` set (sv_colors (open_viewer service)) = uc_id ` set ?cs"
    using arg_cong [OF fsts, of set] by simp
  moreover have "sv_colorIndex (open_viewer service) = length ?cs" by (simp add: open_viewer_def)
  ultimately show ?thesis using fsts snds len assms by (simp add: viewer_ok_def wf_map_def)
qed

lemma first_colors_differ: "n \<le> 6 \<Longrightarrow> distinct (map replica_color [0..<n])"
proof -
  assume n: "n \<le> 6"
  have "distinct (map replica_color [0..<6])" by (simp add: upt_rec replica_color_def REPLICA_COLORS_def)
  then have "distinct (take n (map replica_color [0..<6]))" by (rule distinct_take)
  with n show ?thesis by (simp add: take_map min_def)
qed

text \<open>The replicas of a service keep their colours. Whatever logs, events, answers, pauses and
  renderings come, each container that counts as active has a colour, no container changes the
  colour it has, the colours go round in their order, and as long as at most six containers have been
  seen, no two have the same.\<close>

theorem replicas_keep_colours:
  fixes name lc es es' service
  assumes "distinct (map uc_id (sg_containers service))"
  defines "s \<equiv> fold (viewer_step name lc) es (open_viewer service)"
  defines "s' \<equiv> fold (viewer_step name lc) es' s"
  shows "fst ` set (sv_active s) \<subseteq> dom (map_of (sv_colors s)) \<and> map_of (sv_colors s) \<subseteq>\<^sub>m map_of (sv_colors s') \<and>
    map snd (sv_colors s) = map replica_color [0..<length (sv_colors s)] \<and>
    (length (sv_colors s) \<le> 6 \<longrightarrow> distinct (map snd (sv_colors s)))"
proof -
  have ok: "viewer_ok s" unfolding s_def by (rule replicas.inv_run [OF open_viewer_ok [OF assms(1)]])
  obtain more where "sv_colors s' = sv_colors s @ more" using colors_grow [OF ok] unfolding s'_def by blast
  then have "map_of (sv_colors s) \<subseteq>\<^sub>m map_of (sv_colors s')" by (auto simp: map_add_def map_le_def)
  with ok show ?thesis by (auto simp: viewer_ok_def dom_map_of_conv_image_fst first_colors_differ)
qed

lemma replicas_keep_colours_witness:
  "map snd (sv_colors (fold (viewer_step ''api'' js_compare) [Rendered [''a'', ''b'']]
     (open_viewer \<lparr>sg_serviceName = ''api'', sg_containers = []\<rparr>))) = map replica_color [0..<2]"
proof -
  let ?v = "\<lparr>sg_serviceName = ''api'', sg_containers = []\<rparr>"
  let ?s = "fold (viewer_step ''api'' js_compare) [Rendered [''a'', ''b'']] (open_viewer ?v)"
  have "length (sv_colors ?s) = 2"
    by (simp add: open_viewer_def render_colors_def getContainerColor_def)
  moreover have "map snd (sv_colors ?s) = map replica_color [0..<length (sv_colors ?s)]"
    using replicas_keep_colours [of ?v "''api''" js_compare "[Rendered [''a'', ''b'']]" "[]"] by simp
  ultimately show ?thesis by (simp only:)
qed

section \<open>One line carries the mark, and following survives its own scrolling\<close>

lemma one_marked_line:
  "getMatchPositionForLog True True (Some (l, p)) i = (if i = l then Some p else None)"
  by (simp add: getMatchPositionForLog_def)

lemma own_scroll_keeps_following:
  "follow_effect False en n s = (s', Some i) \<Longrightarrow> handleScroll False el s' = s' \<and> as_following s' = as_following s \<and> i = n - 1"
  by (auto simp: follow_effect_def handleScroll_def split: if_splits)

end
