(* ===== verification/Ui_Format.thy ===== *)
theory Ui_Format
  imports JS_Prelude
begin

text \<open>
  How the browser displays times and sizes (apps/ui/src/lib/utils.ts). dayjs and the date formats of
  the platform are parameters; sizes are whole numbers of bytes, and a division by a power of 1024 is
  exact. \<open>Math.floor(Math.log(bytes) / Math.log(1024))\<close> is a parameter too, for logarithms are only
  approximated.
\<close>

section \<open>Times\<close>

text \<open>\<open>/Z|[+-]\d{2}:\d{2}|[+-]\d{4}$/\<close>: only the last alternative is tied to the end.\<close>

definition is_sign :: "char \<Rightarrow> bool" where
  "is_sign c \<longleftrightarrow> c = CHR ''+'' \<or> c = CHR ''-''"

definition colon_offset :: "string \<Rightarrow> bool" where
  "colon_offset s \<longleftrightarrow>
     (case s of a # b # c # d # e # _ \<Rightarrow> is_digit a \<and> is_digit b \<and> c = CHR '':'' \<and> is_digit d \<and> is_digit e | _ \<Rightarrow> False)"

definition plain_offset :: "string \<Rightarrow> bool" where
  "plain_offset s \<longleftrightarrow> length s = 4 \<and> list_all is_digit s"

fun hasTimezone :: "string \<Rightarrow> bool" where
  "hasTimezone [] = False"
| "hasTimezone (c # s) \<longleftrightarrow>
     c = CHR ''Z'' \<or> (is_sign c \<and> (colon_offset s \<or> plain_offset s)) \<or> hasTimezone s"

text \<open>\<open>dayjs(timestamp).tz(KST).format(DISPLAY_FORMAT)\<close>, \<open>None\<close> where the date is not valid.\<close>

definition toKST :: "(string \<Rightarrow> string option) \<Rightarrow> string option \<Rightarrow> string" where
  "toKST kst timestamp =
     (if \<not> truthy timestamp then ''-''
      else if hasTimezone (the timestamp) then (case kst (the timestamp) of Some t \<Rightarrow> t | None \<Rightarrow> the timestamp)
      else the timestamp)"

text \<open>\<open>toLocaleTimeString\<close> may throw.\<close>

definition formatTime :: "(string \<Rightarrow> string option) \<Rightarrow> string \<Rightarrow> string" where
  "formatTime localTime timestamp = (case localTime timestamp of Some t \<Rightarrow> t | None \<Rightarrow> timestamp)"

section \<open>Sizes\<close>

definition UNITS :: "string list" where
  "UNITS = [''B'', ''KB'', ''MB'', ''GB'', ''TB'']"

text \<open>
  Rounding to the nearest, a half upwards: \<open>round_quot k a b\<close> is the nearest whole number to
  \<open>k * a / b\<close>.
\<close>

definition round_quot :: "nat \<Rightarrow> nat \<Rightarrow> nat \<Rightarrow> nat" where
  "round_quot k a b = (2 * k * a + b) div (2 * b)"

text \<open>\<open>value.toFixed(1).replace(/\.0$/, '')\<close>.\<close>

definition fixed1 :: "nat \<Rightarrow> nat \<Rightarrow> string" where
  "fixed1 a b =
     (let n = round_quot 10 a b
      in if n mod 10 = 0 then show_nat (n div 10) else show_nat (n div 10) @ ''.'' @ show_nat (n mod 10))"

definition formatBytes :: "(nat \<Rightarrow> nat) \<Rightarrow> nat \<Rightarrow> string" where
  "formatBytes log1024 bytes =
     (if bytes = 0 then ''0B''
      else (let i = log1024 bytes; d = 1024 ^ i
            in (if 100 * d \<le> bytes then show_nat (round_quot 1 bytes d) else fixed1 bytes d) @
               (if i < length UNITS then UNITS ! i else ''undefined'')))"

section \<open>Properties\<close>

text \<open>
  What is displayed is displayed as it is when it is displayed again: dayjs formats to digits and
  separators, which name no zone.
\<close>

definition display_format :: "string \<Rightarrow> bool" where
  "display_format t \<longleftrightarrow>
     length t = 23 \<and> (\<forall>i < 23. if i \<in> {4, 7} then t ! i = CHR ''-'' else if i = 10 then t ! i = CHR '' ''
       else if i \<in> {13, 16} then t ! i = CHR '':'' else if i = 19 then t ! i = CHR ''.'' else is_digit (t ! i))"

lemma hasTimezone_pos:
  "hasTimezone t \<Longrightarrow> \<exists>i < length t. t ! i = CHR ''Z'' \<or>
     (is_sign (t ! i) \<and> (colon_offset (drop (Suc i) t) \<or> plain_offset (drop (Suc i) t)))"
proof (induction t)
  case (Cons c s)
  show ?case
  proof (cases "hasTimezone s")
    case True
    with Cons.IH obtain i where "i < length s" "s ! i = CHR ''Z'' \<or>
      (is_sign (s ! i) \<and> (colon_offset (drop (Suc i) s) \<or> plain_offset (drop (Suc i) s)))" by blast
    then show ?thesis by (intro exI [of _ "Suc i"]) simp
  next
    case False
    with Cons.prems show ?thesis by (intro exI [of _ 0]) simp
  qed
qed simp

lemma colon_offset_nth: "colon_offset s \<Longrightarrow> 5 \<le> length s \<and> s ! 2 = CHR '':''"
  by (auto simp: colon_offset_def split: list.splits)

lemma display_has_no_zone:
  assumes "display_format t" shows "\<not> hasTimezone t"
proof
  have nth: "if i \<in> {4, 7} then t ! i = CHR ''-'' else if i = 10 then t ! i = CHR '' ''
       else if i \<in> {13, 16} then t ! i = CHR '':'' else if i = 19 then t ! i = CHR ''.'' else is_digit (t ! i)"
    if "i < 23" for i using assms that by (simp add: display_format_def)
  have len: "length t = 23" using assms by (simp add: display_format_def)
  have digits: "\<not> is_digit (CHR ''Z'')" "\<not> is_digit (CHR ''+'')" "\<not> is_digit (CHR ''-'')" "\<not> is_digit (CHR '':'')"
    by (simp_all add: is_digit_def)
  assume "hasTimezone t"
  from hasTimezone_pos [OF this] obtain i where i: "i < 23" and at: "t ! i = CHR ''Z'' \<or>
     (is_sign (t ! i) \<and> (colon_offset (drop (Suc i) t) \<or> plain_offset (drop (Suc i) t)))"
    unfolding len by blast
  from at nth [OF i] have "i = 4 \<or> i = 7"
    by (auto simp: is_sign_def digits split: if_splits)
  moreover from this at nth [OF i] have "colon_offset (drop (Suc i) t) \<or> plain_offset (drop (Suc i) t)" by auto
  moreover have "\<not> plain_offset (drop (Suc i) t)" using calculation(1) len by (auto simp: plain_offset_def)
  ultimately have "i = 4 \<or> i = 7" "drop (Suc i) t ! 2 = CHR '':''" using colon_offset_nth by blast+
  then have "t ! 7 = CHR '':'' \<or> t ! 10 = CHR '':''" using len by (auto simp: eval_nat_numeral)
  with nth [of 7] nth [of 10] show False by simp
qed

lemma toKST_idempotent:
  assumes "\<And>s t. kst s = Some t \<Longrightarrow> display_format t" and "truthy ts" and "hasTimezone (the ts)" and "kst (the ts) \<noteq> None"
  shows "toKST kst (Some (toKST kst ts)) = toKST kst ts"
proof -
  obtain t where t: "kst (the ts) = Some t" using assms(4) by blast
  then have "display_format t" by (rule assms(1))
  then have "t \<noteq> []" "\<not> hasTimezone t" by (auto simp: display_format_def display_has_no_zone)
  with assms(2,3) t show ?thesis by (simp add: toKST_def truthy_def)
qed

text \<open>
  The pattern takes a date that ends in a year for a time with a zone: the text is handed to dayjs.
\<close>

lemma year_taken_for_zone: "hasTimezone ''15-01-2024''" "\<not> hasTimezone ''2024-01-15 10:30:45.123''"
  by code_simp+

text \<open>The number before the unit, in tenths, is as near to the size as the digits shown allow.\<close>

lemma round_quot_near: "0 < b \<Longrightarrow> 2 * k * a \<le> 2 * b * round_quot k a b + b \<and> 2 * b * round_quot k a b \<le> 2 * k * a + b"
proof -
  assume b: "0 < b"
  have "2 * b * ((2 * k * a + b) div (2 * b)) \<le> 2 * k * a + b" by simp
  moreover have "2 * k * a + b < 2 * b * ((2 * k * a + b) div (2 * b)) + 2 * b"
    using mult_div_mod_eq [of "2 * b" "2 * k * a + b"] mod_less_divisor [of "2 * b" "2 * k * a + b"] b by linarith
  ultimately show ?thesis by (simp add: round_quot_def)
qed

definition exact_log :: "(nat \<Rightarrow> nat) \<Rightarrow> bool" where
  "exact_log l \<longleftrightarrow> (\<forall>b > 0. 1024 ^ l b \<le> b \<and> b < 1024 ^ Suc (l b))"

lemma format_bytes_units:
  assumes "exact_log l" and "0 < b" and "b < 1024 ^ 5"
  shows "\<exists>i n. i < 5 \<and> formatBytes l b = n @ UNITS ! i \<and> 1024 ^ i \<le> b \<and> b < 1024 ^ Suc i \<and>
    (if 100 * 1024 ^ i \<le> b
     then \<exists>m. n = show_nat m \<and> 100 \<le> m \<and> m \<le> 1024 \<and> 2 * b \<le> 1024 ^ i * (2 * m + 1) \<and> 1024 ^ i * (2 * m) \<le> 2 * b + 1024 ^ i
     else \<exists>m. n = show_nat (m div 10) @ (if m mod 10 = 0 then [] else ''.'' @ show_nat (m mod 10)) \<and>
        10 \<le> m \<and> m \<le> 1000 \<and> 20 * b \<le> 1024 ^ i * (2 * m + 1) \<and> 1024 ^ i * (2 * m) \<le> 20 * b + 1024 ^ i)"
proof -
  define i and d :: nat where "i = l b" and "d = 1024 ^ l b"
  have d: "0 < d" "d \<le> b" "b < 1024 * d" using assms(1,2) by (auto simp: exact_log_def d_def)
  have "(1024::nat) ^ i < 1024 ^ 5" using assms(3) d(2) by (simp add: d_def i_def)
  then have i: "i < 5" by (simp only: power_strict_increasing_iff [of "1024::nat"]) 
  have lo: "round_quot k b d \<ge> m" if "m * d \<le> k * b" for k m
  proof -
    have "m * (2 * d) \<le> 2 * k * b + d" using that by simp
    then show ?thesis unfolding round_quot_def using d(1) by (simp add: less_eq_div_iff_mult_less_eq)
  qed
  have hi: "round_quot k b d \<le> m" if "k * b \<le> m * d" for k m
  proof -
    have "2 * k * b + d < (m + 1) * (2 * d)" using that d(1) by simp
    then have "round_quot k b d < m + 1" unfolding round_quot_def using d(1) by (simp add: div_less_iff_less_mult)
    then show ?thesis by simp
  qed
  show ?thesis
  proof (cases "100 * d \<le> b")
    case True
    then show ?thesis
      using i d lo [of 100 1] hi [of 1 1024] round_quot_near [OF d(1), of 1 b] assms(2)
      by (intro exI [of _ i] exI [of _ "show_nat (round_quot 1 b d)"])
        (auto simp: formatBytes_def Let_def UNITS_def d_def i_def algebra_simps)
  next
    case False
    then show ?thesis
      using i d lo [of 10 10] hi [of 10 1000] round_quot_near [OF d(1), of 10 b] assms(2)
      by (intro exI [of _ i] exI [of _ "fixed1 b d"])
        (auto simp: formatBytes_def fixed1_def Let_def UNITS_def d_def i_def algebra_simps intro!: exI [of _ "round_quot 10 b d"])
  qed
qed

text \<open>At the upper end of a unit the number is rounded up to 1024, and from 1024 TB on there is no unit.\<close>

lemma rounds_up_to_1024: "formatBytes (\<lambda>b. if b < 1048576 then 1 else 2) 1048575 = ''1024KB''"
  by (simp add: formatBytes_def Let_def round_quot_def UNITS_def show_nat.simps digit_char_def char_of_def bit_simps bit_Suc_0_iff)

lemma no_unit: "formatBytes (\<lambda>b. 5) (1024 ^ 5) = ''1undefined''"
  by (simp add: formatBytes_def Let_def fixed1_def round_quot_def UNITS_def show_nat.simps digit_char_def char_of_def bit_simps bit_Suc_0_iff)

end
