(* ===== verification/Ui_Login.thy ===== *)
theory Ui_Login
  imports Ui_Session_Properties
begin

text \<open>
  The login form (apps/ui/src/features/auth/LoginPage.tsx) and the messages it shows
  (apps/ui/src/features/auth/error-message.ts). A handler of the form is cut at its request, as those
  of the session are; the outcome of a request is what the mutation hook returns, or what it throws.
  An error is the object the GraphQL client makes; a message that is no string, which its declared
  type excludes, counts as missing.
\<close>

section \<open>Messages\<close>

definition isRecord :: "json option \<Rightarrow> bool" where
  "isRecord v = (case v of Some (JObj _) \<Rightarrow> True | Some (JArr _) \<Rightarrow> True | _ \<Rightarrow> False)"

definition firstMessage :: "json option \<Rightarrow> string option" where
  "firstMessage errors =
     (case errors of
        Some (JArr es) \<Rightarrow>
          (case find (\<lambda>e. isRecord (Some e) \<and> string_prop e ''message'' \<noteq> None) es of
             None \<Rightarrow> None | Some e \<Rightarrow> string_prop e ''message'')
      | _ \<Rightarrow> None)"

text \<open>\<open>/data.*undefined/i\<close>: both words on one line, in this order.\<close>

definition data_undefined :: "string \<Rightarrow> bool" where
  "data_undefined s \<longleftrightarrow>
     (\<exists>line \<in> set (concat (map (split_on (char_of (13::nat))) (split_on (char_of (10::nat)) (js_lower s)))).
        case index_of line ''data'' 0 of None \<Rightarrow> False | Some i \<Rightarrow> index_of line ''undefined'' (i + 4) \<noteq> None)"

definition technical :: "string \<Rightarrow> bool" where
  "technical s \<longleftrightarrow>
     data_undefined s \<or> js_includes (js_lower s) ''cannot read properties'' \<or> js_includes (js_lower s) ''backend service error''"

definition unreachable :: "string \<Rightarrow> bool" where
  "unreachable s \<longleftrightarrow>
     js_includes (js_lower s) ''backend service unavailable'' \<or> js_includes (js_lower s) ''failed to fetch'' \<or>
     js_includes (js_lower s) ''networkerror''"

definition slow :: "string \<Rightarrow> bool" where
  "slow s \<longleftrightarrow> js_includes (js_lower s) ''backend service timeout'' \<or> js_includes (js_lower s) ''timeout''"

definition UNREACHABLE_MESSAGE :: string where
  "UNREACHABLE_MESSAGE = ''%uC778%uC99D %uC11C%uBC84%uC5D0 %uC5F0%uACB0%uD560 %uC218 %uC5C6%uC2B5%uB2C8%uB2E4.''"

definition SLOW_MESSAGE :: string where
  "SLOW_MESSAGE = ''%uC778%uC99D %uC11C%uBC84 %uC751%uB2F5%uC774 %uC9C0%uC5F0%uB418%uACE0 %uC788%uC2B5%uB2C8%uB2E4. %uC7A0%uC2DC %uD6C4 %uB2E4%uC2DC %uC2DC%uB3C4%uD574%uC8FC%uC138%uC694.''"

definition sanitizeMessage :: "string option \<Rightarrow> string \<Rightarrow> string" where
  "sanitizeMessage message fallback =
     (let trimmed = map_option js_trim message in
      if \<not> truthy trimmed then fallback
      else if unreachable (the trimmed) then UNREACHABLE_MESSAGE
      else if slow (the trimmed) then SLOW_MESSAGE
      else if technical (the trimmed) then fallback
      else the trimmed)"

definition opt_prop :: "json option \<Rightarrow> string \<Rightarrow> json option" where
  "opt_prop v k = (case v of None \<Rightarrow> None | Some w \<Rightarrow> json_prop w k)"

definition getAuthErrorMessage :: "json option \<Rightarrow> string \<Rightarrow> string" where
  "getAuthErrorMessage err fallback =
     (if \<not> isRecord err then fallback
      else (let networkError = opt_prop err ''networkError'';
                message =
                  nullish (firstMessage (opt_prop err ''errors''))
                  (nullish (firstMessage (opt_prop err ''graphQLErrors''))
                   (nullish (firstMessage (opt_prop (opt_prop networkError ''result'') ''errors''))
                    (nullish (string_prop (the err) ''message'')
                     (case networkError of None \<Rightarrow> None | Some n \<Rightarrow> string_prop n ''message''))))
            in sanitizeMessage message fallback))"

section \<open>The form\<close>

datatype Step = Credentials | Otp

record login_page =
  lp_step :: Step
  lp_loginId :: string
  lp_password :: string
  lp_otpCode :: string
  lp_twoFactorToken :: string
  lp_error :: string

record login_data =
  ld_requiresTwoFactor :: bool
  ld_tokens :: "token_response option"
  ld_twoFactorToken :: "string option"

datatype 'd outcome = Answered "json option" "'d option" | Thrown json

definition LOGIN_FAILED :: string where
  "LOGIN_FAILED = ''%uB85C%uADF8%uC778%uC5D0 %uC2E4%uD328%uD588%uC2B5%uB2C8%uB2E4.''"
definition NO_TWO_FACTOR_TOKEN :: string where
  "NO_TWO_FACTOR_TOKEN = ''2%uB2E8%uACC4 %uC778%uC99D %uD1A0%uD070%uC744 %uBC1B%uC9C0 %uBABB%uD588%uC2B5%uB2C8%uB2E4.''"
definition BAD_LOGIN_RESPONSE :: string where
  "BAD_LOGIN_RESPONSE = ''%uB85C%uADF8%uC778 %uC751%uB2F5%uC774 %uC62C%uBC14%uB974%uC9C0 %uC54A%uC2B5%uB2C8%uB2E4.''"
definition VERIFY_FAILED :: string where
  "VERIFY_FAILED = ''%uC778%uC99D%uC5D0 %uC2E4%uD328%uD588%uC2B5%uB2C8%uB2E4.''"
definition WRONG_CODE :: string where
  "WRONG_CODE = ''%uC778%uC99D %uCF54%uB4DC%uAC00 %uC62C%uBC14%uB974%uC9C0 %uC54A%uC2B5%uB2C8%uB2E4.''"

type_synonym page_state = "login_page \<times> ui_session"

definition setError :: "string \<Rightarrow> page_state \<Rightarrow> page_state" where
  "setError m ps = (fst ps\<lparr>lp_error := m\<rparr>, snd ps)"

text \<open>Submitting the first form: the request's variables, and what its outcome does.\<close>

definition login_submit :: "page_state \<Rightarrow> (string \<times> string) \<times> page_state" where
  "login_submit ps = ((lp_loginId (fst ps), lp_password (fst ps)), setError [] ps)"

definition page_login ::
  "json_parser \<Rightarrow> int \<Rightarrow> string \<Rightarrow> token_response \<Rightarrow> page_state \<Rightarrow> page_state" where
  "page_login rj now from t ps = (fst ps, (session_login rj now t (snd ps))\<lparr>us_path := from\<rparr>)"

definition login_outcome ::
  "json_parser \<Rightarrow> int \<Rightarrow> string \<Rightarrow> login_data outcome \<Rightarrow> page_state \<Rightarrow> page_state" where
  "login_outcome rj now from out ps =
     (case out of
        Thrown err \<Rightarrow> setError (getAuthErrorMessage (Some err) LOGIN_FAILED) ps
      | Answered err data \<Rightarrow>
          (let authError = getAuthErrorMessage err [] in
           if authError \<noteq> [] then setError authError ps
           else (case data of
               None \<Rightarrow> setError LOGIN_FAILED ps
             | Some login \<Rightarrow>
                 if ld_requiresTwoFactor login then
                   (if \<not> truthy (ld_twoFactorToken login) then setError NO_TWO_FACTOR_TOKEN ps
                    else (let token2fa = the (ld_twoFactorToken login) in
                      (fst ps\<lparr>lp_twoFactorToken := token2fa, lp_step := Otp\<rparr>,
                       setItem ''twoFactorToken'' token2fa (snd ps))))
                 else (case ld_tokens login of
                         None \<Rightarrow> setError BAD_LOGIN_RESPONSE ps
                       | Some tokens \<Rightarrow> page_login rj now from tokens ps))))"

text \<open>Submitting the code: the variable and the headers the request asks for on top of the usual ones.\<close>

definition verify_submit :: "page_state \<Rightarrow> (string \<times> (string \<times> string) list) \<times> page_state" where
  "verify_submit ps =
     ((lp_otpCode (fst ps),
       if lp_twoFactorToken (fst ps) \<noteq> [] then [(''X-2FA-Token'', lp_twoFactorToken (fst ps))] else []), setError [] ps)"

definition clear_code :: "page_state \<Rightarrow> page_state" where
  "clear_code ps = (fst ps\<lparr>lp_otpCode := []\<rparr>, snd ps)"

definition verify_outcome ::
  "json_parser \<Rightarrow> int \<Rightarrow> string \<Rightarrow> token_response outcome \<Rightarrow> page_state \<Rightarrow> page_state" where
  "verify_outcome rj now from out ps =
     (case out of
        Thrown err \<Rightarrow> clear_code (setError (getAuthErrorMessage (Some err) WRONG_CODE) ps)
      | Answered err data \<Rightarrow>
          (let authError = getAuthErrorMessage err [] in
           if authError \<noteq> [] then clear_code (setError authError ps)
           else (case data of
               None \<Rightarrow> setError VERIFY_FAILED ps
             | Some tokens \<Rightarrow> page_login rj now from tokens (fst ps, removeItem ''twoFactorToken'' (snd ps)))))"

definition handleBack :: "page_state \<Rightarrow> page_state" where
  "handleBack ps =
     (fst ps\<lparr>lp_step := Credentials, lp_otpCode := [], lp_twoFactorToken := [], lp_error := []\<rparr>,
      removeItem ''twoFactorToken'' (snd ps))"

definition login_disabled :: "bool \<Rightarrow> login_page \<Rightarrow> bool" where
  "login_disabled loading p \<longleftrightarrow> loading \<or> lp_loginId p = [] \<or> lp_password p = []"

definition verify_disabled :: "bool \<Rightarrow> login_page \<Rightarrow> bool" where
  "verify_disabled loading p \<longleftrightarrow> loading \<or> length (lp_otpCode p) < 6"

section \<open>Messages shown\<close>

lemma sanitizeMessage_cases:
  "sanitizeMessage m fallback \<in> {fallback, UNREACHABLE_MESSAGE, SLOW_MESSAGE} \<or>
   (\<exists>s. m = Some s \<and> sanitizeMessage m fallback = js_trim s \<and> js_trim s \<noteq> [] \<and>
      \<not> technical (js_trim s) \<and> \<not> unreachable (js_trim s) \<and> \<not> slow (js_trim s))"
  by (cases m) (auto simp: sanitizeMessage_def Let_def truthy_def)

lemma getAuthErrorMessage_cases:
  "getAuthErrorMessage err fallback \<in> {fallback, UNREACHABLE_MESSAGE, SLOW_MESSAGE} \<or>
   (\<exists>s. getAuthErrorMessage err fallback = js_trim s \<and> js_trim s \<noteq> [] \<and>
      \<not> technical (js_trim s) \<and> \<not> unreachable (js_trim s) \<and> \<not> slow (js_trim s))"
  using sanitizeMessage_cases unfolding getAuthErrorMessage_def Let_def by (metis insertI1)

lemma getAuthErrorMessage_nonempty: "fallback \<noteq> [] \<Longrightarrow> getAuthErrorMessage err fallback \<noteq> []"
  using getAuthErrorMessage_cases [of err fallback] by (auto simp: UNREACHABLE_MESSAGE_def SLOW_MESSAGE_def)

lemma getAuthErrorMessage_None [simp]: "getAuthErrorMessage None fallback = fallback"
  by (simp add: getAuthErrorMessage_def isRecord_def)

text \<open>The error of a request that was answered with one GraphQL error.\<close>

lemma getAuthErrorMessage_single:
  "getAuthErrorMessage (Some (JObj [(''errors'', JArr [JObj ((''message'', JStr m) # rest)])])) fallback =
     sanitizeMessage (Some m) fallback"
  by (simp add: getAuthErrorMessage_def isRecord_def opt_prop_def firstMessage_def)

lemma messages_nonempty [simp]:
  "LOGIN_FAILED \<noteq> []" "NO_TWO_FACTOR_TOKEN \<noteq> []" "BAD_LOGIN_RESPONSE \<noteq> []" "VERIFY_FAILED \<noteq> []" "WRONG_CODE \<noteq> []"
  by (simp_all add: LOGIN_FAILED_def NO_TWO_FACTOR_TOKEN_def BAD_LOGIN_RESPONSE_def VERIFY_FAILED_def WRONG_CODE_def)

section \<open>The two steps\<close>

lemma setError_parts [simp]:
  "snd (setError m ps) = snd ps" "lp_error (fst (setError m ps)) = m" "lp_step (fst (setError m ps)) = lp_step (fst ps)"
  by (simp_all add: setError_def)

lemma clear_code_parts [simp]:
  "snd (clear_code ps) = snd ps" "lp_error (fst (clear_code ps)) = lp_error (fst ps)"
  "lp_step (fst (clear_code ps)) = lp_step (fst ps)"
  by (simp_all add: clear_code_def)

text \<open>What an outcome means: the tokens to log in with, a token for the second step, or neither.\<close>

definition no_error :: "json option \<Rightarrow> bool" where
  "no_error err \<longleftrightarrow> getAuthErrorMessage err [] = []"

fun grants :: "login_data outcome \<Rightarrow> token_response option" where
  "grants (Answered err (Some d)) =
     (if no_error err \<and> \<not> ld_requiresTwoFactor d then ld_tokens d else None)"
| "grants _ = None"

fun second_step :: "login_data outcome \<Rightarrow> string option" where
  "second_step (Answered err (Some d)) =
     (if no_error err \<and> ld_requiresTwoFactor d \<and> truthy (ld_twoFactorToken d) then ld_twoFactorToken d else None)"
| "second_step _ = None"

fun verifies :: "token_response outcome \<Rightarrow> token_response option" where
  "verifies (Answered err d) = (if no_error err then d else None)"
| "verifies (Thrown e) = None"

lemma verify_headers:
  assumes "t \<noteq> []"
  shows "map_of (authLink key ty s [(''X-2FA-Token'', t)]) ''X-2FA-Token'' = Some t"
  by (simp add: authLink_def header_spread_def Let_def js_map.get_put)

lemma no_two_factor_header:
  "us_storage s ''twoFactorToken'' = None \<Longrightarrow> map_of (authLink key ty s []) ''X-2FA-Token'' = None"
  by (simp add: authLink_def header_spread_def Let_def truthy_def)

text \<open>What the user sees when a step has failed: a message, never a technical one.\<close>

definition fails_with_message :: "page_state \<Rightarrow> page_state \<Rightarrow> bool" where
  "fails_with_message ps ps' \<longleftrightarrow>
     snd ps' = snd ps \<and> lp_step (fst ps') = lp_step (fst ps) \<and> lp_error (fst ps') \<noteq> [] \<and>
     (lp_error (fst ps') \<in> {LOGIN_FAILED, NO_TWO_FACTOR_TOKEN, BAD_LOGIN_RESPONSE, VERIFY_FAILED, WRONG_CODE,
        UNREACHABLE_MESSAGE, SLOW_MESSAGE} \<or> \<not> technical (lp_error (fst ps')))"

lemma login_outcome_cases:
  "(case grants out of
      Some t \<Rightarrow> login_outcome rj now target out ps = page_login rj now target t ps
    | None \<Rightarrow>
        (case second_step out of
           Some t \<Rightarrow> login_outcome rj now target out ps =
             (fst ps\<lparr>lp_twoFactorToken := t, lp_step := Otp\<rparr>, setItem ''twoFactorToken'' t (snd ps))
         | None \<Rightarrow> fails_with_message ps (login_outcome rj now target out ps)))"
proof (cases out)
  case (Thrown e)
  then show ?thesis
    using getAuthErrorMessage_cases [of "Some e" LOGIN_FAILED] getAuthErrorMessage_nonempty [of LOGIN_FAILED "Some e"]
    by (auto simp: login_outcome_def fails_with_message_def)
next
  case (Answered e d)
  then show ?thesis
    using getAuthErrorMessage_cases [of e "[]"]
    by (cases d) (auto simp: login_outcome_def fails_with_message_def no_error_def Let_def truthy_iff split: option.splits)
qed

lemma verify_outcome_cases:
  "(case verifies out of
      Some t \<Rightarrow> verify_outcome rj now target out ps =
        page_login rj now target t (fst ps, removeItem ''twoFactorToken'' (snd ps))
    | None \<Rightarrow> fails_with_message ps (verify_outcome rj now target out ps))"
proof (cases out)
  case (Thrown e)
  then show ?thesis
    using getAuthErrorMessage_cases [of "Some e" WRONG_CODE] getAuthErrorMessage_nonempty [of WRONG_CODE "Some e"]
    by (auto simp: verify_outcome_def fails_with_message_def)
next
  case (Answered e d)
  then show ?thesis
    using getAuthErrorMessage_cases [of e "[]"]
    by (cases d) (auto simp: verify_outcome_def fails_with_message_def no_error_def Let_def)
qed

lemma page_login_session:
  "us_isAuthenticated (snd (page_login rj now target t ps))"
  "getAccessToken (snd (page_login rj now target t ps)) = Some (tr_accessToken t)"
  "us_path (snd (page_login rj now target t ps)) = target"
  "us_storage (snd (page_login rj now target t ps)) ''twoFactorToken'' = us_storage (snd ps) ''twoFactorToken''"
  by (simp_all add: page_login_def session_ops ACCESS_TOKEN_KEY_def REFRESH_TOKEN_KEY_def TOKEN_EXPIRY_KEY_def)

text \<open>A page and a session as a login with the given tokens leaves them.\<close>

definition logged_in_with :: "token_response \<Rightarrow> string \<Rightarrow> page_state \<Rightarrow> bool" where
  "logged_in_with t target ps \<longleftrightarrow>
     us_isAuthenticated (snd ps) \<and> getAccessToken (snd ps) = Some (tr_accessToken t) \<and> us_path (snd ps) = target"

text \<open>The login form lets a user in only with tokens from the server, and where a second factor is
  asked for only through the second step. An outcome without error that carries tokens logs in with
  them and goes to the page asked for. One that asks for the second factor leads to the second step without
  logging in: the request made there carries the token just received, tokens answered to it log in and
  remove the second-factor token from the storage, anything else leaves the user in the second step.
  Every other outcome leaves the session as it is. A step that fails shows a message, and not a
  technical one.\<close>

theorem login_form_steps:
  "case grants out of
     Some t \<Rightarrow> logged_in_with t target (login_outcome rj now target out ps)
   | None \<Rightarrow>
       (case second_step out of
          None \<Rightarrow> fails_with_message ps (login_outcome rj now target out ps)
        | Some t2 \<Rightarrow>
            (let p = login_outcome rj now target out ps;
                 ((code, headers), p') = verify_submit p;
                 q = verify_outcome rj later target out2 p'
             in lp_step (fst p) = Otp \<and> us_isAuthenticated (snd p) = us_isAuthenticated (snd ps) \<and>
                code = lp_otpCode (fst ps) \<and>
                map_of (authLink key ty (snd p') headers) ''X-2FA-Token'' = Some t2 \<and>
                (case verifies out2 of
                   Some t \<Rightarrow> logged_in_with t target q \<and> map_of (authLink key ty (snd q) []) ''X-2FA-Token'' = None
                 | None \<Rightarrow> fails_with_message p' q)))"
proof (cases "grants out")
  case (Some t)
  with login_outcome_cases [where out = out and rj = rj and now = now and ps = ps] show ?thesis by (simp add: logged_in_with_def page_login_session)
next
  case None
  note g = None
  show ?thesis
  proof (cases "second_step out")
    case None
    with g login_outcome_cases [where out = out and rj = rj and now = now and ps = ps] show ?thesis by simp
  next
    case (Some t2)
    then have ne: "t2 \<noteq> []" by (cases out rule: second_step.cases) (auto simp: truthy_iff split: if_splits)
    let ?p = "(fst ps\<lparr>lp_twoFactorToken := t2, lp_step := Otp\<rparr>, setItem ''twoFactorToken'' t2 (snd ps))"
    let ?p' = "snd (verify_submit ?p)"
    have p: "login_outcome rj now target out ps = ?p" using g Some login_outcome_cases [where out = out and rj = rj and now = now and ps = ps] by simp
    have sub: "fst (verify_submit ?p) = (lp_otpCode (fst ps), [(''X-2FA-Token'', t2)])" "snd ?p' = snd ?p"
      using ne by (simp_all add: verify_submit_def)
    have "case verifies out2 of
        Some t \<Rightarrow> logged_in_with t target (verify_outcome rj later target out2 ?p') \<and>
          map_of (authLink key ty (snd (verify_outcome rj later target out2 ?p')) []) ''X-2FA-Token'' = None
      | None \<Rightarrow> fails_with_message ?p' (verify_outcome rj later target out2 ?p')"
      using verify_outcome_cases [where out = out2 and rj = rj and now = later and ps = ?p']
      by (auto simp: logged_in_with_def page_login_session no_two_factor_header removeItem_def split: option.splits)
    moreover have "us_isAuthenticated (snd ?p) = us_isAuthenticated (snd ps)" by (simp add: setItem_def)
    ultimately show ?thesis
      using g Some p sub verify_headers [OF ne, of key ty "snd ?p"] by (simp add: Let_def split_beta)
  qed
qed

text \<open>
  Going back removes the token of the second step; a logout, or a later login without a second step, does
  not, and the requests of the next session still carry it.
\<close>

lemma back_forgets_token: "map_of (authLink key ty (snd (handleBack ps)) []) ''X-2FA-Token'' = None"
  by (simp add: handleBack_def no_two_factor_header removeItem_def)

lemma logout_keeps_two_factor_token:
  "us_storage (handleLogout s) ''twoFactorToken'' = us_storage s ''twoFactorToken''"
  by (simp add: session_ops ACCESS_TOKEN_KEY_def REFRESH_TOKEN_KEY_def TOKEN_EXPIRY_KEY_def)

end
