(* ===== verification/Ui_Markup.thy ===== *)
theory Ui_Markup
  imports JS_Prelude
begin

text \<open>
  What the components of the browser render: a tree of elements with their properties, as JSX writes
  it, and what a click in it calls. The type parameter stands for the calls that the handlers of a
  component make. Class names are given where they depend on the state; those that do not are left
  out, and so are icons without a meaning of their own. Texts next to each other are one text.
\<close>

section \<open>Elements\<close>

text \<open>
  Properties of an element: \<open>OnStop\<close> is a click handler that first calls \<open>stopPropagation\<close>. A handler
  that does nothing in some state has no calls there. \<open>Inert\<close> is the style \<open>pointerEvents: none\<close>, which
  keeps clicks from the element and from all it holds, but for a \<open>Portal\<close>: such an element stands elsewhere in
  the document, outside the elements it is written in, though its events go on to them.
\<close>

datatype 'a attribute =
  Attr string string | Disabled bool | OnClick "'a list" | OnStop "'a list" | OnSubmit "'a list"
| OnChange "string \<Rightarrow> 'a list" | OnKeyDown "string \<Rightarrow> 'a list" | OnSelect "string \<Rightarrow> 'a list"
| Open bool | Inert bool | Portal | OnOpenChange "bool \<Rightarrow> 'a list"

datatype 'a node = Txt string | Elem string "'a attribute list" "'a node list"

text \<open>\<open>{b && <node/>}\<close>; false renders nothing.\<close>

definition show_if :: "bool \<Rightarrow> 'a node list \<Rightarrow> 'a node list" where
  "show_if b ns = (if b then ns else [])"

text \<open>What is displayed, in order: texts, and what is set as inner HTML.\<close>

fun inner_html :: "'a attribute list \<Rightarrow> string list" where
  "inner_html [] = []"
| "inner_html (Attr k v # ps) = (if k = ''dangerouslySetInnerHTML'' then v # inner_html ps else inner_html ps)"
| "inner_html (p # ps) = inner_html ps"

fun texts :: "'a node \<Rightarrow> string list" where
  "texts (Txt s) = [s]"
| "texts (Elem t ps ks) = inner_html ps @ concat (map texts ks)"

fun nodes :: "'a node \<Rightarrow> 'a node list" where
  "nodes (Txt s) = [Txt s]"
| "nodes (Elem t ps ks) = Elem t ps ks # concat (map nodes ks)"

fun tag :: "'a node \<Rightarrow> string option" where
  "tag (Txt s) = None"
| "tag (Elem t ps ks) = Some t"

fun props :: "'a node \<Rightarrow> 'a attribute list" where
  "props (Txt s) = []"
| "props (Elem t ps ks) = ps"

definition tagged :: "string \<Rightarrow> 'a node \<Rightarrow> 'a node list" where
  "tagged t n = filter (\<lambda>m. tag m = Some t) (nodes n)"

definition disabled :: "'a attribute list \<Rightarrow> bool" where
  "disabled ps \<longleftrightarrow> Disabled True \<in> set ps"

definition inert :: "'a attribute list \<Rightarrow> bool" where
  "inert ps \<longleftrightarrow> Inert True \<in> set ps"

definition portal :: "'a attribute list \<Rightarrow> bool" where
  "portal ps \<longleftrightarrow> Portal \<in> set ps"

section \<open>Clicks\<close>

text \<open>The calls of an element's own click handlers, and whether they stop the event.\<close>

fun own_click :: "'a attribute list \<Rightarrow> 'a list \<times> bool" where
  "own_click [] = ([], False)"
| "own_click (OnClick as # ps) = (as @ fst (own_click ps), snd (own_click ps))"
| "own_click (OnStop as # ps) = (as @ fst (own_click ps), True)"
| "own_click (p # ps) = own_click ps"

text \<open>Whether the way to an element goes through a portal.\<close>

fun leaves :: "nat list \<Rightarrow> 'a node \<Rightarrow> bool" where
  "leaves p (Txt s) = False"
| "leaves p (Elem t ps ks) \<longleftrightarrow>
     portal ps \<or> (case p of [] \<Rightarrow> False | i # q \<Rightarrow> i < length ks \<and> leaves q (ks ! i))"

text \<open>
  A click on the element at a path: the handlers run from the inside out until one stops the event;
  those of a disabled element do not run. An inert element takes only clicks in the portals it holds.
\<close>

fun click :: "nat list \<Rightarrow> 'a node \<Rightarrow> 'a list \<times> bool" where
  "click p (Txt s) = ([], False)"
| "click p (Elem t ps ks) =
     (let (as, stopped) = (case p of [] \<Rightarrow> ([], False)
                           | i # q \<Rightarrow> if i < length ks then click q (ks ! i) else ([], False));
          elsewhere = (case p of [] \<Rightarrow> False | i # q \<Rightarrow> i < length ks \<and> leaves q (ks ! i))
      in if inert ps \<and> \<not> elsewhere then ([], False)
         else if stopped \<or> disabled ps then (as, stopped) else (as @ fst (own_click ps), snd (own_click ps)))"

text \<open>
  The calls that clicks make, where the element itself may be clicked; \<open>behind\<close> are those that clicks in
  portals make, where it may not.
\<close>

fun has_portal :: "'a node \<Rightarrow> bool" where
  "has_portal (Txt s) = False"
| "has_portal (Elem t ps ks) \<longleftrightarrow> portal ps \<or> list_ex has_portal ks"

fun offers :: "bool \<Rightarrow> 'a node \<Rightarrow> 'a list" where
  "offers reached (Txt s) = []"
| "offers reached (Elem t ps ks) =
     (let here = (reached \<or> portal ps) \<and> \<not> inert ps
      in (if disabled ps \<or> \<not> (here \<or> list_ex has_portal ks) then [] else fst (own_click ps)) @ concat (map (offers here) ks))"

abbreviation offered :: "'a node \<Rightarrow> 'a list" where
  "offered \<equiv> offers True"

abbreviation behind :: "'a node \<Rightarrow> 'a list" where
  "behind \<equiv> offers False"

text \<open>
  A form is submitted by its submit button, or by Enter in one of its fields, and by neither where the
  first submit button is disabled.
\<close>

definition submit_button :: "'a node \<Rightarrow> 'a node option" where
  "submit_button n = find (\<lambda>m. Attr ''type'' ''submit'' \<in> set (props m)) (nodes n)"

fun on_submit :: "'a attribute list \<Rightarrow> 'a list" where
  "on_submit [] = []"
| "on_submit (OnSubmit as # ps) = as @ on_submit ps"
| "on_submit (p # ps) = on_submit ps"

definition submit :: "'a node \<Rightarrow> 'a list" where
  "submit form =
     (case submit_button form of
        Some b \<Rightarrow> if disabled (props b) then [] else on_submit (props form)
      | None \<Rightarrow> on_submit (props form))"

text \<open>
  The handlers that get what is typed, pressed or chosen; the keyboard reaches an element that takes no
  clicks.
\<close>

fun own_inputs :: "'a attribute list \<Rightarrow> (string \<Rightarrow> 'a list) list" where
  "own_inputs [] = []"
| "own_inputs (OnChange f # ps) = f # own_inputs ps"
| "own_inputs (OnKeyDown f # ps) = f # own_inputs ps"
| "own_inputs (OnSelect f # ps) = f # own_inputs ps"
| "own_inputs (OnOpenChange f # ps) = (\<lambda>v. f (v \<noteq> [])) # own_inputs ps"
| "own_inputs (p # ps) = own_inputs ps"

fun inputs :: "'a node \<Rightarrow> (string \<Rightarrow> 'a list) list" where
  "inputs (Txt s) = []"
| "inputs (Elem t ps ks) = (if disabled ps then [] else own_inputs ps) @ concat (map inputs ks)"

text \<open>What a user can make a view call.\<close>

definition can_call :: "'a node \<Rightarrow> 'a \<Rightarrow> bool" where
  "can_call n a \<longleftrightarrow>
     a \<in> set (offered n) \<or> (\<exists>h \<in> set (inputs n). \<exists>v. a \<in> set (h v)) \<or> (\<exists>m \<in> set (nodes n). a \<in> set (submit m))"

text \<open>
  A page in use: calls that its current view allows, each with what its handler may do, and other
  events. \<open>None\<close> is an exception in a handler.
\<close>

inductive page_run ::
  "('s \<Rightarrow> 'a node) \<Rightarrow> ('a \<Rightarrow> 's \<Rightarrow> 's option \<Rightarrow> bool) \<Rightarrow> ('s \<Rightarrow> 's \<Rightarrow> bool) \<Rightarrow> 's \<Rightarrow> 's option \<Rightarrow> bool"
  for view call other s where
  opened: "page_run view call other s (Some s)"
| used: "page_run view call other s (Some t) \<Longrightarrow> can_call (view t) a \<Longrightarrow> call a t r \<Longrightarrow> page_run view call other s r"
| happened: "page_run view call other s (Some t) \<Longrightarrow> other t u \<Longrightarrow> page_run view call other s (Some u)"

locale page =
  fixes view :: "'s \<Rightarrow> 'a node" and call :: "'a \<Rightarrow> 's \<Rightarrow> 's option \<Rightarrow> bool" and other :: "'s \<Rightarrow> 's \<Rightarrow> bool"
    and inv :: "'s \<Rightarrow> bool"
  assumes inv_call: "inv s \<Longrightarrow> can_call (view s) a \<Longrightarrow> call a s r \<Longrightarrow> \<exists>t. r = Some t \<and> inv t"
    and inv_other: "inv s \<Longrightarrow> other s t \<Longrightarrow> inv t"
begin

lemma inv_page_run: "page_run view call other s r \<Longrightarrow> inv s \<Longrightarrow> \<exists>t. r = Some t \<and> inv t"
  by (induction rule: page_run.induct) (auto dest: inv_call inv_other)

end

section \<open>Lemmas\<close>

lemma show_if_simps [simp]: "show_if True ns = ns" "show_if False ns = []"
  by (simp_all add: show_if_def)

lemma concat_map_show_if [simp]: "concat (map f (show_if b ns)) = (if b then concat (map f ns) else [])"
  by (simp add: show_if_def)

lemma texts_show_if [simp]: "set (show_if b ns) = (if b then set ns else {})"
  by (simp add: show_if_def)

lemma disabled_simps [simp]:
  "\<not> disabled []" "disabled (Disabled b # ps) \<longleftrightarrow> b \<or> disabled ps"
  "disabled (Attr k v # ps) = disabled ps" "disabled (OnClick as # ps) = disabled ps"
  "disabled (OnStop as # ps) = disabled ps" "disabled (OnSubmit as # ps) = disabled ps"
  "disabled (OnChange f # ps) = disabled ps" "disabled (OnKeyDown g # ps) = disabled ps"
  "disabled (OnSelect f # ps) = disabled ps" "disabled (Open b # ps) = disabled ps"
  "disabled (OnOpenChange h # ps) = disabled ps" "disabled (Inert b # ps) = disabled ps" "disabled (Portal # ps) = disabled ps"
  by (auto simp: disabled_def)

lemma inert_simps [simp]:
  "\<not> inert []" "inert (Inert b # ps) \<longleftrightarrow> b \<or> inert ps"
  "inert (Attr k v # ps) = inert ps" "inert (OnClick as # ps) = inert ps" "inert (OnStop as # ps) = inert ps"
  "inert (OnSubmit as # ps) = inert ps" "inert (OnChange f # ps) = inert ps" "inert (OnKeyDown g # ps) = inert ps"
  "inert (OnSelect f # ps) = inert ps" "inert (Open b # ps) = inert ps" "inert (OnOpenChange h # ps) = inert ps"
  "inert (Disabled b # ps) = inert ps" "inert (Portal # ps) = inert ps"
  by (auto simp: inert_def)

lemma portal_simps [simp]:
  "\<not> portal []" "portal (Portal # ps)" "portal (Inert b # ps) = portal ps"
  "portal (Attr k v # ps) = portal ps" "portal (OnClick as # ps) = portal ps" "portal (OnStop as # ps) = portal ps"
  "portal (OnSubmit as # ps) = portal ps" "portal (OnChange f # ps) = portal ps" "portal (OnKeyDown g # ps) = portal ps"
  "portal (OnSelect f # ps) = portal ps" "portal (Open b # ps) = portal ps" "portal (OnOpenChange h # ps) = portal ps"
  "portal (Disabled b # ps) = portal ps"
  by (auto simp: portal_def)

text \<open>What is offered is what clicks can call.\<close>

lemma leaves_portal: "leaves p n \<Longrightarrow> has_portal n"
proof (induction p n rule: leaves.induct)
  case (2 p t ps ks)
  show ?case
  proof (cases p)
    case (Cons i q)
    with 2 show ?thesis by (auto simp: list_ex_iff)
  qed (use 2 in simp)
qed simp

lemma behind_none: "\<not> has_portal n \<Longrightarrow> behind n = []"
proof (induction n)
  case (Elem t ps ks)
  then show ?case by (auto simp: list_ex_iff)
qed simp

lemma click_offers: "reached \<or> leaves p n \<Longrightarrow> set (fst (click p n)) \<subseteq> set (offers reached n)"
proof (induction p n arbitrary: reached rule: click.induct)
  case (2 p t ps ks)
  let ?here = "(reached \<or> portal ps) \<and> \<not> inert ps"
  show ?case
  proof (cases p)
    case (Cons i q)
    show ?thesis
    proof (cases "i < length ks")
      case True
      show ?thesis
      proof (cases "?here \<or> leaves q (ks ! i)")
        case visible: True
        have "set (fst (click q (ks ! i))) \<subseteq> set (offers ?here (ks ! i))" by (rule 2(1) [OF Cons True visible])
        also have "\<dots> \<subseteq> (\<Union>x\<in>set ks. set (offers ?here x))" using True by (auto intro: nth_mem)
        finally have kid: "set (fst (click q (ks ! i))) \<subseteq> (\<Union>x\<in>set ks. set (offers ?here x))" .
        have "?here \<or> list_ex has_portal ks"
          using visible True leaves_portal [of q "ks ! i"] by (auto simp: list_ex_length)
        with kid show ?thesis using Cons True by (auto simp: Let_def split: prod.splits if_splits)
      next
        case False
        with 2(2) Cons True show ?thesis by (auto simp: Let_def split: prod.splits)
      qed
    qed (use 2(2) Cons in \<open>auto simp: Let_def\<close>)
  qed (use 2(2) in \<open>auto simp: Let_def\<close>)
qed simp

lemma click_offered: "set (fst (click p n)) \<subseteq> set (offered n)"
  by (rule click_offers) simp

lemma leaves_behind: "leaves p n \<Longrightarrow> set (fst (click p n)) \<subseteq> set (behind n)"
  by (rule click_offers) simp

lemma offered_click: "a \<in> set (offered n) \<Longrightarrow> \<not> has_portal n \<Longrightarrow> \<exists>p. a \<in> set (fst (click p n))"
proof (induction n)
  case (Elem t ps ks)
  have plain: "\<not> list_ex has_portal ks" using Elem.prems(2) by simp
  have kids: "\<not> has_portal k" if "k \<in> set ks" for k using plain that by (auto simp: list_ex_iff)
  have "inert ps \<Longrightarrow> offered (Elem t ps ks) = []" using plain kids by (auto simp: behind_none)
  with Elem.prems(1) have live: "\<not> inert ps" by auto
  show ?case
  proof (cases "a \<in> set (if disabled ps then [] else fst (own_click ps))")
    case True
    with live have "a \<in> set (fst (click [] (Elem t ps ks)))" by (auto split: if_splits)
    then show ?thesis by blast
  next
    case False
    with Elem.prems(1) live obtain k where k: "k \<in> set ks" "a \<in> set (offered k)" by (auto simp: Let_def split: if_splits)
    then obtain i where i: "i < length ks" "ks ! i = k" by (auto simp: in_set_conv_nth)
    from Elem.IH [OF k kids [OF k(1)]] obtain q where "a \<in> set (fst (click q k))" by blast
    with i live have "a \<in> set (fst (click (i # q) (Elem t ps ks)))" by (auto split: prod.splits)
    then show ?thesis by blast
  qed
qed simp

theorem clicks_are_offers: "\<not> has_portal n \<Longrightarrow> (\<exists>p. a \<in> set (fst (click p n))) \<longleftrightarrow> a \<in> set (offered n)"
  by (rule iffI) (blast intro: subsetD [OF click_offered], rule offered_click)

lemma clicks_are_offers_witness:
  "(\<exists>p. a \<in> set (fst (click p (Elem ''p'' [] [Elem ''button'' [OnClick [''go'']] []])))) \<longleftrightarrow> a = ''go''"
  using clicks_are_offers [of "Elem ''p'' [] [Elem ''button'' [OnClick [''go'']] []]" a] by simp

text \<open>
  A view in which a click makes at most one call: where an element has a click handler, those inside it
  stop their events. \<open>contained\<close>: a click inside calls nothing that goes on to the elements around.
\<close>

fun contained :: "'a node \<Rightarrow> bool" where
  "contained (Txt s) = True"
| "contained (Elem t ps ks) \<longleftrightarrow>
     (disabled ps \<or> fst (own_click ps) = [] \<or> snd (own_click ps)) \<and> list_all contained ks"

fun calm :: "'a node \<Rightarrow> bool" where
  "calm (Txt s) = True"
| "calm (Elem t ps ks) \<longleftrightarrow>
     list_all calm ks \<and> (disabled ps \<or> fst (own_click ps) = [] \<or> (length (fst (own_click ps)) \<le> 1 \<and> list_all contained ks))"

lemma contained_click: "contained n \<Longrightarrow> snd (click p n) \<or> fst (click p n) = []"
proof (induction p n rule: click.induct)
  case (2 p t ps ks)
  have kid: "snd (click q (ks ! i)) \<or> fst (click q (ks ! i)) = []" if "p = i # q" "i < length ks" for i q
    using 2 that by (auto simp: list_all_length)
  show ?case
    using 2(2) kid by (cases p) (auto simp: Let_def split: prod.splits)
qed simp

lemma calm_click: "calm n \<Longrightarrow> length (fst (click p n)) \<le> 1"
proof (induction p n rule: click.induct)
  case (2 p t ps ks)
  have kid: "length (fst (click q (ks ! i))) \<le> 1" if "p = i # q" "i < length ks" for i q
    using 2 that by (auto simp: list_all_length)
  have quiet: "snd (click q (ks ! i)) \<or> fst (click q (ks ! i)) = []"
    if "list_all contained ks" "i < length ks" for i q
    using that contained_click by (auto simp: list_all_length)
  show ?case
  proof (cases p)
    case Nil
    then show ?thesis using 2(2) by (auto simp: Let_def)
  next
    case (Cons i q)
    then show ?thesis using 2(2) kid [OF Cons] quiet [of i q] by (auto simp: Let_def split: prod.splits)
  qed
qed simp

text \<open>A component inside another one: its calls become calls of the outer one.\<close>

lemma own_click_map: "own_click (map (map_attribute f) ps) = (map f (fst (own_click ps)), snd (own_click ps))"
proof (induction ps)
  case (Cons p ps)
  then show ?case by (cases p) simp_all
qed simp

lemma disabled_map [simp]: "disabled (map (map_attribute f) ps) = disabled ps"
proof (induction ps)
  case (Cons p ps)
  then show ?case by (cases p) simp_all
qed simp

lemma inert_map [simp]: "inert (map (map_attribute f) ps) = inert ps"
proof (induction ps)
  case (Cons p ps)
  then show ?case by (cases p) simp_all
qed simp

lemma portal_map [simp]: "portal (map (map_attribute f) ps) = portal ps"
proof (induction ps)
  case (Cons p ps)
  then show ?case by (cases p) simp_all
qed simp

lemma has_portal_map [simp]: "has_portal (map_node f n) = has_portal n"
  by (induction n) (auto simp: list_ex_iff)

lemma offered_map: "offers reached (map_node f n) = map f (offers reached n)"
proof (induction n arbitrary: reached)
  case (Elem t ps ks)
  have "list_ex has_portal (map (map_node f) ks) = list_ex has_portal ks" by (simp add: list_ex_iff)
  moreover have "concat (map (offers b) (map (map_node f) ks)) = map f (concat (map (offers b) ks))" for b
    using Elem.IH by (auto simp: map_concat intro!: arg_cong [where f = concat])
  ultimately show ?case by (auto simp: own_click_map Let_def simp del: map_map)
qed simp

lemma leaves_map [simp]: "leaves p (map_node f n) = leaves p n"
  by (induction p n rule: leaves.induct) (auto split: list.split)

lemma click_map: "click p (map_node f n) = map_prod (map f) id (click p n)"
proof (induction p n rule: click.induct)
  case (2 p t ps ks)
  show ?case
  proof (cases p)
    case (Cons i q)
    then show ?thesis using 2 [OF Cons] by (auto simp: own_click_map Let_def map_prod_def split: prod.splits)
  qed (simp add: own_click_map Let_def map_prod_def split: prod.splits)
qed simp

text \<open>The calls that a click somewhere can make, and those that one in a portal can.\<close>

definition reach :: "'a node \<Rightarrow> 'a set" where
  "reach n = {a. \<exists>p. a \<in> set (fst (click p n))}"

definition reach_out :: "'a node \<Rightarrow> 'a set" where
  "reach_out n = {a. \<exists>p. a \<in> set (fst (click p n)) \<and> leaves p n}"

lemma reach_Txt [simp]: "reach (Txt s) = {}" "reach_out (Txt s) = {}"
  by (simp_all add: reach_def reach_out_def)

lemma reach_offered: "reach n \<subseteq> set (offered n)"
  using click_offered by (fastforce simp: reach_def)

lemma reach_behind: "reach_out n \<subseteq> set (behind n)"
  using leaves_behind by (fastforce simp: reach_out_def)

lemma reach_out_reach: "reach_out n \<subseteq> reach n"
  by (auto simp: reach_def reach_out_def)

lemma reach_out_portal: "portal ps \<Longrightarrow> reach_out (Elem t ps ks) = reach (Elem t ps ks)"
  by (simp add: reach_def reach_out_def)

lemma reach_out_free: "\<not> has_portal n \<Longrightarrow> reach_out n = {}"
  using leaves_portal by (auto simp: reach_out_def)

lemma reach_map: "reach (map_node f n) = f ` reach n" "reach_out (map_node f n) = f ` reach_out n"
  by (auto simp: reach_def reach_out_def click_map)

lemma click_through:
  assumes "fst (own_click ps) = []"
  shows "fst (click p (Elem t ps ks)) =
    (case p of [] \<Rightarrow> []
     | i # q \<Rightarrow> if i < length ks \<and> (inert ps \<longrightarrow> leaves q (ks ! i)) then fst (click q (ks ! i)) else [])"
  using assms by (auto simp: Let_def split: list.split prod.split)

lemma UN_nth: "\<Union> (f ` set ks) = (\<Union>i<length ks. f (ks ! i))"
  by (auto simp: set_conv_nth)

lemma click_child:
  assumes "fst (own_click ps) = []"
  shows "(\<exists>p. a \<in> set (fst (click p (Elem t ps ks))) \<and> (out \<longrightarrow> leaves p (Elem t ps ks))) \<longleftrightarrow>
    (\<exists>i<length ks. \<exists>q. a \<in> set (fst (click q (ks ! i))) \<and> (inert ps \<or> out \<and> \<not> portal ps \<longrightarrow> leaves q (ks ! i)))"
    (is "?l \<longleftrightarrow> ?r")
proof
  assume ?l
  then obtain p where p: "a \<in> set (fst (click p (Elem t ps ks)))" "out \<longrightarrow> leaves p (Elem t ps ks)" by blast
  then obtain i q where q: "p = i # q" "i < length ks" "inert ps \<longrightarrow> leaves q (ks ! i)" "a \<in> set (fst (click q (ks ! i)))"
    unfolding click_through [OF assms] by (cases p) (simp_all split: if_splits)
  with p(2) have "inert ps \<or> out \<and> \<not> portal ps \<longrightarrow> leaves q (ks ! i)" by auto
  with q show ?r by blast
next
  assume ?r
  then obtain i q where q: "i < length ks" "a \<in> set (fst (click q (ks ! i)))"
    "inert ps \<or> out \<and> \<not> portal ps \<longrightarrow> leaves q (ks ! i)" by blast
  then have "a \<in> set (fst (click (i # q) (Elem t ps ks)))" unfolding click_through [OF assms] by simp
  moreover have "out \<longrightarrow> leaves (i # q) (Elem t ps ks)" using q(1,3) by auto
  ultimately show ?l by blast
qed

lemma reach_plain:
  assumes "fst (own_click ps) = []"
  shows "reach (Elem t ps ks) = (if inert ps then \<Union> (reach_out ` set ks) else \<Union> (reach ` set ks))"
  using click_child [OF assms, of _ t ks False] by (auto simp: reach_def reach_out_def UN_nth simp del: click.simps leaves.simps)

lemma reach_out_plain:
  assumes "fst (own_click ps) = []" and "\<not> portal ps"
  shows "reach_out (Elem t ps ks) = \<Union> (reach_out ` set ks)"
  using click_child [OF assms(1), of _ t ks True] assms(2) by (auto simp: reach_out_def UN_nth simp del: click.simps leaves.simps)

lemma reach_button:
  assumes "\<not> inert ps" "\<not> disabled ps" "concat (map offered ks) = []"
  shows "reach (Elem t ps ks) = set (fst (own_click ps))"
proof
  have "offered (Elem t ps ks) = fst (own_click ps)" using assms by (simp add: Let_def)
  then show "reach (Elem t ps ks) \<subseteq> set (fst (own_click ps))" using reach_offered [of "Elem t ps ks"] by simp
  have "fst (click [] (Elem t ps ks)) = fst (own_click ps)" using assms(1,2) by simp
  then show "set (fst (own_click ps)) \<subseteq> reach (Elem t ps ks)" unfolding reach_def by (metis (mono_tags) mem_Collect_eq subsetI)
qed

lemma inner_html_map [simp]: "inner_html (map (map_attribute f) ps) = inner_html ps"
proof (induction ps)
  case (Cons p ps)
  then show ?case by (cases p) simp_all
qed simp

lemma own_inputs_map: "own_inputs (map (map_attribute f) ps) = map (\<lambda>h v. map f (h v)) (own_inputs ps)"
proof (induction ps)
  case (Cons p ps)
  then show ?case by (cases p) (simp_all add: comp_def)
qed simp

lemma inputs_map: "inputs (map_node f n) = map (\<lambda>h v. map f (h v)) (inputs n)"
  by (induction n) (auto simp: own_inputs_map map_concat intro!: arg_cong [where f = concat])

lemma submit_plain: "on_submit ps = [] \<Longrightarrow> submit (Elem t ps ks) = []"
  by (simp add: submit_def split: option.split)

lemma submit_Txt [simp]: "submit (Txt s) = []"
  by (simp add: submit_def split: option.split)

text \<open>A view without a form submits nothing.\<close>

fun formless :: "'a node \<Rightarrow> bool" where
  "formless (Txt s) = True"
| "formless (Elem t ps ks) \<longleftrightarrow> on_submit ps = [] \<and> list_all formless ks"

lemma formless_submit: "formless n \<Longrightarrow> m \<in> set (nodes n) \<Longrightarrow> submit m = []"
  by (induction n) (auto simp: list_all_iff submit_plain)

lemma on_submit_map [simp]: "on_submit (map (map_attribute f) ps) = map f (on_submit ps)"
proof (induction ps)
  case (Cons p ps)
  then show ?case by (cases p) simp_all
qed simp

lemma formless_map [simp]: "formless (map_node f n) = formless n"
  by (induction n) (auto simp: list_all_iff)

lemma can_call_formless:
  "formless n \<Longrightarrow> can_call n a \<longleftrightarrow> a \<in> set (offered n) \<or> (\<exists>h \<in> set (inputs n). \<exists>v. a \<in> set (h v))"
  by (auto simp: can_call_def formless_submit)

lemma contained_map [simp]: "contained (map_node f n) = contained n"
  by (induction n) (auto simp: own_click_map list_all_iff)

lemma calm_map [simp]: "calm (map_node f n) = calm n"
  by (induction n) (auto simp: own_click_map list_all_iff)

lemma texts_map: "texts (map_node f n) = texts n"
  by (induction n) (auto intro!: arg_cong [where f = concat])

text \<open>The nodes of a kind, found child by child.\<close>

definition nodes_where :: "('a node \<Rightarrow> bool) \<Rightarrow> 'a node \<Rightarrow> 'a node list" where
  "nodes_where P n = filter P (nodes n)"

lemma nodes_where_simps [simp]:
  "nodes_where P (Txt s) = (if P (Txt s) then [Txt s] else [])"
  "nodes_where P (Elem t ps ks) =
     (if P (Elem t ps ks) then [Elem t ps ks] else []) @ concat (map (nodes_where P) ks)"
  by (simp_all add: nodes_where_def [abs_def] filter_concat comp_def)

lemma concat_map_concat: "concat (map g (concat (map f xs))) = concat (map (\<lambda>x. concat (map g (f x))) xs)"
  by (induction xs) auto

lemma concat_map_Nil [simp]: "concat (map (\<lambda>x. []) xs) = []"
  by (induction xs) auto

lemma nodes_map: "nodes (map_node f n) = map (map_node f) (nodes n)"
  by (induction n) (auto simp: map_concat intro!: arg_cong [where f = concat])

lemma tag_map [simp]: "tag (map_node f n) = tag n"
  by (cases n) simp_all

lemma nodes_where_map:
  "(\<And>m. P (map_node f m) = Q m) \<Longrightarrow> nodes_where P (map_node f n) = map (map_node f) (nodes_where Q n)"
  by (simp add: nodes_where_def nodes_map filter_map comp_def)

end
