(* ===== verification/Ui_Login_View.thy ===== *)
theory Ui_Login_View
  imports Ui_Login Ui_Markup
begin

text \<open>
  What the login page renders and calls (apps/ui/src/features/auth/LoginPage.tsx), and the page in use:
  both forms are always rendered, the one not due being moved out of sight. The loading flags are those
  of the mutation hooks: a mutation is loading from its call to its outcome.
\<close>

section \<open>The view\<close>

datatype login_act =
  SetLoginId string | SetPassword string | ToggleShowPassword | SubmitLogin | SetOtpCode string | SubmitOtp | GoBack

definition credentials_form :: "bool \<Rightarrow> bool \<Rightarrow> login_page \<Rightarrow> login_act node" where
  "credentials_form showPassword loginLoading p =
     Elem ''form'' [OnSubmit [SubmitLogin]]
       [Elem ''div'' []
          [Elem ''Label'' [Attr ''htmlFor'' ''loginId''] [Txt ''%uC0AC%uC6A9%uC790 ID''],
           Elem ''Input'' [Attr ''id'' ''loginId'', Attr ''type'' ''text'', Attr ''value'' (lp_loginId p),
             OnChange (\<lambda>v. [SetLoginId v]), Attr ''required'' ''true'', Attr ''autoComplete'' ''username'',
             Attr ''placeholder'' ''%uC0AC%uC6A9%uC790 ID %uC785%uB825''] []],
        Elem ''div'' []
          [Elem ''Label'' [Attr ''htmlFor'' ''password''] [Txt ''Password''],
           Elem ''div'' []
             [Elem ''Input'' [Attr ''id'' ''password'', Attr ''type'' (if showPassword then ''text'' else ''password''),
                Attr ''value'' (lp_password p), OnChange (\<lambda>v. [SetPassword v]), Attr ''required'' ''true'',
                Attr ''autoComplete'' ''current-password'', Attr ''placeholder'' ''%uBE44%uBC00%uBC88%uD638 %uC785%uB825''] [],
              Elem ''button'' [Attr ''type'' ''button'', OnClick [ToggleShowPassword],
                Attr ''aria-label'' (if showPassword then ''%uBE44%uBC00%uBC88%uD638 %uC228%uAE30%uAE30'' else ''%uBE44%uBC00%uBC88%uD638 %uD45C%uC2DC'')]
                [Elem (if showPassword then ''EyeOff'' else ''Eye'') [] []]]],
        Elem ''Button'' [Attr ''type'' ''submit'', Disabled (login_disabled loginLoading p)]
          (show_if loginLoading [Elem ''Loader2'' [] []] @ [Txt ''%uB85C%uADF8%uC778''])]"

definition otp_form :: "bool \<Rightarrow> login_page \<Rightarrow> login_act node" where
  "otp_form verifyLoading p =
     Elem ''form'' [OnSubmit [SubmitOtp]]
       [Elem ''InputOTP'' [Attr ''maxLength'' ''6'', Attr ''value'' (lp_otpCode p), OnChange (\<lambda>v. [SetOtpCode v]),
          Disabled verifyLoading]
          [Elem ''InputOTPGroup'' [] (map (\<lambda>i. Elem ''InputOTPSlot'' [Attr ''index'' (show_nat i)] []) [0, 1, 2]),
           Elem ''InputOTPSeparator'' [] [],
           Elem ''InputOTPGroup'' [] (map (\<lambda>i. Elem ''InputOTPSlot'' [Attr ''index'' (show_nat i)] []) [3, 4, 5])],
        Elem ''Button'' [Attr ''type'' ''submit'', Disabled (verify_disabled verifyLoading p)]
          (show_if verifyLoading [Elem ''Loader2'' [] []] @ [Txt ''%uC778%uC99D%uD558%uAE30'']),
        Elem ''Button'' [Attr ''type'' ''button'', OnClick [GoBack]] [Txt ''%u2190 %uB3CC%uC544%uAC00%uAE30'']]"

definition LoginPage :: "bool \<Rightarrow> bool \<Rightarrow> bool \<Rightarrow> login_page \<Rightarrow> login_act node" where
  "LoginPage showPassword loginLoading verifyLoading p =
     Elem ''div'' [] [Elem ''div'' []
       [Elem ''Card'' [Attr ''data-testid'' ''login-card'']
          [Elem ''CardContent'' []
             ([Elem ''div'' []
                 [Elem ''div'' [Attr ''class'' (if lp_step p = Credentials then ''opacity-100 translate-x-0''
                                                else ''opacity-0 -translate-x-full absolute inset-0'')]
                    [Elem ''div'' [] [Elem ''div'' [] [Elem ''Lock'' [] []], Elem ''h2'' [] [Txt ''%uC2DC%uC2A4%uD15C %uB85C%uADF8%uC778'']],
                     credentials_form showPassword loginLoading p],
                  Elem ''div'' [Attr ''class'' (if lp_step p = Otp then ''opacity-100 translate-x-0''
                                                else ''opacity-0 translate-x-full absolute inset-0'')]
                    [Elem ''div'' []
                       [Elem ''div'' [] [Elem ''ShieldCheck'' [] []], Elem ''h2'' [] [Txt ''2%uB2E8%uACC4 %uC778%uC99D''],
                        Elem ''p'' [] [Txt ''Google OTP %uC571%uC758 6%uC790%uB9AC %uCF54%uB4DC%uB97C %uC785%uB825%uD558%uC138%uC694'']],
                     otp_form verifyLoading p]]] @
              show_if (lp_error p \<noteq> []) [Elem ''p'' [] [Txt (lp_error p)]])]]]"

section \<open>The page in use\<close>

datatype login_request = LoginRequest string string | VerifyRequest string "(string \<times> string) list"

text \<open>\<open>lv_granted\<close> is a ghost: the tokens of the outcomes that grant them.\<close>

record login_view =
  lv_page :: login_page
  lv_session :: ui_session
  lv_show :: bool
  lv_loginLoading :: bool
  lv_verifyLoading :: bool
  lv_requests :: "login_request list"
  lv_granted :: "token_response list"

definition open_login :: "ui_session \<Rightarrow> login_view" where
  "open_login s =
     \<lparr>lv_page = \<lparr>lp_step = Credentials, lp_loginId = [], lp_password = [], lp_otpCode = [], lp_twoFactorToken = [], lp_error = []\<rparr>,
      lv_session = s, lv_show = False, lv_loginLoading = False, lv_verifyLoading = False, lv_requests = [], lv_granted = []\<rparr>"

definition view_login :: "login_view \<Rightarrow> login_act node" where
  "view_login s = LoginPage (lv_show s) (lv_loginLoading s) (lv_verifyLoading s) (lv_page s)"

definition with_page :: "page_state \<Rightarrow> login_view \<Rightarrow> login_view" where
  "with_page ps s = s\<lparr>lv_page := fst ps, lv_session := snd ps\<rparr>"

fun login_call :: "login_act \<Rightarrow> login_view \<Rightarrow> login_view" where
  "login_call (SetLoginId v) s = s\<lparr>lv_page := (lv_page s)\<lparr>lp_loginId := v\<rparr>\<rparr>"
| "login_call (SetPassword v) s = s\<lparr>lv_page := (lv_page s)\<lparr>lp_password := v\<rparr>\<rparr>"
| "login_call ToggleShowPassword s = s\<lparr>lv_show := \<not> lv_show s\<rparr>"
| "login_call SubmitLogin s =
     (let ((loginId, password), ps) = login_submit (lv_page s, lv_session s)
      in (with_page ps s)\<lparr>lv_loginLoading := True, lv_requests := lv_requests s @ [LoginRequest loginId password]\<rparr>)"
| "login_call (SetOtpCode v) s = s\<lparr>lv_page := (lv_page s)\<lparr>lp_otpCode := v\<rparr>\<rparr>"
| "login_call SubmitOtp s =
     (let ((code, headers), ps) = verify_submit (lv_page s, lv_session s)
      in (with_page ps s)\<lparr>lv_verifyLoading := True, lv_requests := lv_requests s @ [VerifyRequest code headers]\<rparr>)"
| "login_call GoBack s = with_page (handleBack (lv_page s, lv_session s)) s"

text \<open>The outcome of a request that is waiting.\<close>

definition login_answered :: "json_parser \<Rightarrow> int \<Rightarrow> string \<Rightarrow> login_data outcome \<Rightarrow> login_view \<Rightarrow> login_view" where
  "login_answered rj now from out s =
     (with_page (login_outcome rj now from out (lv_page s, lv_session s)) s)
       \<lparr>lv_loginLoading := False, lv_granted := lv_granted s @ (case grants out of None \<Rightarrow> [] | Some t \<Rightarrow> [t])\<rparr>"

definition verify_answered :: "json_parser \<Rightarrow> int \<Rightarrow> string \<Rightarrow> token_response outcome \<Rightarrow> login_view \<Rightarrow> login_view" where
  "verify_answered rj now from out s =
     (with_page (verify_outcome rj now from out (lv_page s, lv_session s)) s)
       \<lparr>lv_verifyLoading := False, lv_granted := lv_granted s @ (case verifies out of None \<Rightarrow> [] | Some t \<Rightarrow> [t])\<rparr>"

definition login_calls :: "login_act \<Rightarrow> login_view \<Rightarrow> login_view option \<Rightarrow> bool" where
  "login_calls a s r \<longleftrightarrow> r = Some (login_call a s)"

definition login_reports :: "login_view \<Rightarrow> login_view \<Rightarrow> bool" where
  "login_reports s t \<longleftrightarrow>
     (\<exists>rj now from. (lv_loginLoading s \<and> (\<exists>out. t = login_answered rj now from out s)) \<or>
       (lv_verifyLoading s \<and> (\<exists>out. t = verify_answered rj now from out s)))"

section \<open>What the page offers\<close>

lemma form_submits:
  "submit (credentials_form show loading p) = (if login_disabled loading p then [] else [SubmitLogin])"
  "submit (otp_form loading p) = (if verify_disabled loading p then [] else [SubmitOtp])"
  by (simp_all add: credentials_form_def otp_form_def submit_def submit_button_def)

lemma all_submits: "(\<exists>m \<in> set (nodes n). a \<in> set (submit m)) \<longleftrightarrow> a \<in> set (concat (map submit (nodes n)))"
  by auto

lemma credentials_submits:
  "concat (map submit (nodes (credentials_form show loading p))) = submit (credentials_form show loading p)"
  by (simp add: credentials_form_def submit_plain show_if_def)

lemma otp_submits: "concat (map submit (nodes (otp_form verifying p))) = submit (otp_form verifying p)"
  by (simp add: otp_form_def submit_plain show_if_def)

lemma login_page_submits:
  "(\<exists>m \<in> set (nodes (LoginPage show loading verifying p)). a \<in> set (submit m)) \<longleftrightarrow>
     (a = SubmitLogin \<and> \<not> login_disabled loading p) \<or> (a = SubmitOtp \<and> \<not> verify_disabled verifying p)"
  unfolding all_submits
  by (simp add: LoginPage_def submit_plain credentials_submits otp_submits form_submits show_if_def)

lemma login_page_offers:
  "offered (LoginPage show loading verifying p) = [ToggleShowPassword, GoBack]"
  by (simp add: LoginPage_def credentials_form_def otp_form_def show_if_def)

lemma login_page_inputs:
  "inputs (LoginPage show loading verifying p) =
     [\<lambda>v. [SetLoginId v], \<lambda>v. [SetPassword v]] @ (if verifying then [] else [\<lambda>v. [SetOtpCode v]])"
  by (simp add: LoginPage_def credentials_form_def otp_form_def show_if_def)

lemma login_can_call:
  "can_call (LoginPage show loading verifying p) SubmitLogin \<longleftrightarrow> \<not> login_disabled loading p"
  "can_call (LoginPage show loading verifying p) SubmitOtp \<longleftrightarrow> \<not> verify_disabled verifying p"
  by (auto simp: can_call_def login_page_submits login_page_offers login_page_inputs)

text \<open>The form of the second step can be sent in the first, without a token; nothing but its place hides it.\<close>

lemma hidden_form_stays_usable:
  assumes "lp_step p = Credentials" and "length (lp_otpCode p) = 6" and "lp_twoFactorToken p = []"
  shows "can_call (LoginPage show loading False p) SubmitOtp" and "snd (fst (verify_submit (p, s))) = []"
  using assms by (simp_all add: login_can_call verify_disabled_def verify_submit_def)

section \<open>The page keeps its promises\<close>

fun login_request_ok :: "login_request \<Rightarrow> bool" where
  "login_request_ok (LoginRequest i p) \<longleftrightarrow> i \<noteq> [] \<and> p \<noteq> []"
| "login_request_ok (VerifyRequest c h) \<longleftrightarrow> 6 \<le> length c \<and> (h = [] \<or> (\<exists>t. t \<noteq> [] \<and> h = [(''X-2FA-Token'', t)]))"

text \<open>
  What the page has made of the session it found, if nothing else changes it. Without tokens granted it is the
  same but for the token of the second step; with tokens it is logged in with the last of them, and
  the storage is the same but for the keys of the tokens.
\<close>

definition session_of :: "ui_session \<Rightarrow> token_response list \<Rightarrow> ui_session \<Rightarrow> bool" where
  "session_of s0 granted s \<longleftrightarrow>
     (\<forall>k. k \<noteq> ''twoFactorToken'' \<and> (granted = [] \<or> k \<notin> {ACCESS_TOKEN_KEY, REFRESH_TOKEN_KEY, TOKEN_EXPIRY_KEY}) \<longrightarrow>
        us_storage s k = us_storage s0 k) \<and>
     us_isLoading s = us_isLoading s0 \<and>
     (if granted = []
      then us_isAuthenticated s = us_isAuthenticated s0 \<and> us_user s = us_user s0 \<and> us_timer s = us_timer s0 \<and> us_path s = us_path s0
      else us_isAuthenticated s \<and> us_timer s \<noteq> None \<and> getAccessToken s = Some (tr_accessToken (last granted)) \<and>
        getRefreshToken s = Some (tr_refreshToken (last granted)))"

definition login_view_ok :: "ui_session \<Rightarrow> login_view \<Rightarrow> bool" where
  "login_view_ok s0 s \<longleftrightarrow>
     list_all login_request_ok (lv_requests s) \<and>
     (lp_step (lv_page s) = Otp \<longrightarrow> lp_twoFactorToken (lv_page s) \<noteq> []) \<and>
     session_of s0 (lv_granted s) (lv_session s)"

lemma session_start: "session_of s0 [] s0"
  by (simp add: session_of_def)

lemma session_kept:
  assumes "session_of s0 g s"
  shows "session_of s0 g (setItem ''twoFactorToken'' v s)" "session_of s0 g (removeItem ''twoFactorToken'' s)"
  using assms
  by (cases "g = []"; simp add: session_of_def setItem_def removeItem_def getAccessToken_def getRefreshToken_def
      ACCESS_TOKEN_KEY_def REFRESH_TOKEN_KEY_def)+

lemma session_granted:
  assumes "session_of s0 g s"
  shows "session_of s0 (g @ [t]) (snd (page_login rj now target t (p, s)))"
  using assms
  by (auto simp: session_of_def page_login_def session_ops startRefreshTimer_def ACCESS_TOKEN_KEY_def REFRESH_TOKEN_KEY_def TOKEN_EXPIRY_KEY_def
      Let_def)

lemma login_call_ok:
  assumes "login_view_ok s0 s" and "can_call (view_login s) a" and "login_calls a s r"
  shows "\<exists>t. r = Some t \<and> login_view_ok s0 t"
proof (cases a)
  case SubmitLogin
  with assms show ?thesis
    by (auto simp: view_login_def login_can_call login_disabled_def login_calls_def login_submit_def setError_def
        with_page_def login_view_ok_def)
next
  case SubmitOtp
  with assms show ?thesis
    by (auto simp: view_login_def login_can_call verify_disabled_def login_calls_def verify_submit_def setError_def
        with_page_def login_view_ok_def Let_def)
next
  case GoBack
  with assms show ?thesis
    by (auto simp: login_calls_def handleBack_def with_page_def login_view_ok_def session_kept)
qed (use assms in \<open>auto simp: login_calls_def login_view_ok_def\<close>)

lemma outcome_keeps_token:
  "grants out = None \<Longrightarrow> second_step out = None \<Longrightarrow>
     lp_twoFactorToken (fst (login_outcome rj now target out ps)) = lp_twoFactorToken (fst ps)"
  by (cases out) (auto simp: login_outcome_def setError_def no_error_def Let_def split: option.splits if_splits)

lemma verify_keeps_token:
  "lp_twoFactorToken (fst (verify_outcome rj now target out ps)) = lp_twoFactorToken (fst ps)"
  by (cases out) (simp_all add: verify_outcome_def setError_def clear_code_def page_login_def Let_def split: option.split)

lemma page_login_token: "lp_step (fst (page_login rj now target t ps)) = lp_step (fst ps)"
  "lp_twoFactorToken (fst (page_login rj now target t ps)) = lp_twoFactorToken (fst ps)"
  by (simp_all add: page_login_def)

lemma login_answered_ok:
  assumes "login_view_ok s0 s" shows "login_view_ok s0 (login_answered rj now target out s)"
proof (cases "grants out")
  case (Some t)
  with login_outcome_cases [where out = out and rj = rj and now = now and target = target and ps = "(lv_page s, lv_session s)"]
  have "login_outcome rj now target out (lv_page s, lv_session s) = page_login rj now target t (lv_page s, lv_session s)" by simp
  with assms Some show ?thesis
    by (simp add: login_answered_def login_view_ok_def with_page_def session_granted session_kept page_login_token)
next
  case None
  note g = None
  show ?thesis
  proof (cases "second_step out")
    case (Some t2)
    with g login_outcome_cases [where out = out and rj = rj and now = now and target = target and ps = "(lv_page s, lv_session s)"]
    have "login_outcome rj now target out (lv_page s, lv_session s) =
      (lv_page s\<lparr>lp_twoFactorToken := t2, lp_step := Otp\<rparr>, setItem ''twoFactorToken'' t2 (lv_session s))" by simp
    moreover have "t2 \<noteq> []" using Some by (cases out rule: second_step.cases) (auto simp: truthy_iff split: if_splits)
    ultimately show ?thesis
      using assms g by (simp add: login_answered_def login_view_ok_def with_page_def session_kept ACCESS_TOKEN_KEY_def)
  next
    case None
    let ?ps' = "login_outcome rj now target out (lv_page s, lv_session s)"
    from g None login_outcome_cases [where out = out and rj = rj and now = now and target = target and ps = "(lv_page s, lv_session s)"]
    have "fails_with_message (lv_page s, lv_session s) ?ps'" by simp
    then have "snd ?ps' = lv_session s" "lp_step (fst ?ps') = lp_step (lv_page s)"
      by (simp_all add: fails_with_message_def)
    with assms g outcome_keeps_token [OF g None, where rj = rj and now = now and target = target and ps = "(lv_page s, lv_session s)"]
    show ?thesis by (simp add: login_answered_def login_view_ok_def with_page_def)
  qed
qed

lemma verify_answered_ok:
  assumes "login_view_ok s0 s" shows "login_view_ok s0 (verify_answered rj now target out s)"
proof -
  let ?ps = "(lv_page s, lv_session s)"
  note c = verify_outcome_cases [where out = out and rj = rj and now = now and target = target and ps = ?ps]
  note k = verify_keeps_token [where out = out and rj = rj and now = now and target = target and ps = ?ps]
  show ?thesis
  proof (cases "verifies out")
    case (Some t)
    with c have "verify_outcome rj now target out ?ps =
      page_login rj now target t (lv_page s, removeItem ''twoFactorToken'' (lv_session s))" by simp
    with assms Some show ?thesis
      by (simp add: verify_answered_def login_view_ok_def with_page_def session_granted session_kept page_login_token)
  next
    case None
    with c have f: "fails_with_message ?ps (verify_outcome rj now target out ?ps)" by simp
    then have "snd (verify_outcome rj now target out ?ps) = lv_session s"
      "lp_step (fst (verify_outcome rj now target out ?ps)) = lp_step (lv_page s)" by (simp_all add: fails_with_message_def)
    with assms None k show ?thesis by (simp add: verify_answered_def login_view_ok_def with_page_def)
  qed
qed

lemma login_report_ok: "login_view_ok s0 s \<Longrightarrow> login_reports s t \<Longrightarrow> login_view_ok s0 t"
  using login_answered_ok verify_answered_ok by (auto simp: login_reports_def)

interpretation login: page view_login login_calls login_reports "login_view_ok s0" for s0
  by unfold_locales (use login_call_ok login_report_ok in blast)+

text \<open>C18: the login page in use. Whatever the user types, presses and clicks, and whatever the server
  answers to the requests that wait: every request for a login carries an id and a password, every one
  for a verification at least six characters and no header but the second-factor token, which is not
  empty in the second step. In a session that nothing else changes meanwhile (the refresh of a stored
  session at the start could), the page changes nothing but the token of the second step until an answer
  grants tokens; from then on the session is logged in with the access and refresh tokens granted last,
  and nothing but they and the token of the second step has changed in the storage. A form can be sent
  exactly if it is complete and none of its requests is waiting, and a click never sends one by itself.\<close>

theorem login_page_works:
  assumes "page_run view_login login_calls login_reports (open_login s0) r"
  shows "\<exists>s. r = Some s \<and> list_all login_request_ok (lv_requests s) \<and>
    (lp_step (lv_page s) = Otp \<longrightarrow> lp_twoFactorToken (lv_page s) \<noteq> []) \<and>
    session_of s0 (lv_granted s) (lv_session s) \<and>
    (can_call (view_login s) SubmitLogin \<longleftrightarrow> \<not> lv_loginLoading s \<and> lp_loginId (lv_page s) \<noteq> [] \<and> lp_password (lv_page s) \<noteq> []) \<and>
    (can_call (view_login s) SubmitOtp \<longleftrightarrow> \<not> lv_verifyLoading s \<and> 6 \<le> length (lp_otpCode (lv_page s))) \<and>
    (\<forall>p. set (fst (click p (view_login s))) \<subseteq> {ToggleShowPassword, GoBack})"
proof -
  have "login_view_ok s0 (open_login s0)" by (simp add: login_view_ok_def open_login_def session_start)
  from login.inv_page_run [OF assms this] obtain s where s: "r = Some s" "login_view_ok s0 s" by blast
  have "set (fst (click p (view_login s))) \<subseteq> {ToggleShowPassword, GoBack}" for p
    using click_offered [of p "view_login s"] by (simp add: view_login_def login_page_offers)
  with s show ?thesis
    by (auto simp: login_view_ok_def view_login_def login_can_call login_disabled_def verify_disabled_def)
qed

lemma login_page_works_witness:
  "\<exists>s. login_call (SetLoginId ''kim'') (open_login (mounted (\<lambda>k. None) ''/admin/login'')) = s \<and>
     \<not> can_call (view_login s) SubmitLogin"
proof -
  let ?s0 = "mounted (\<lambda>k. None) ''/admin/login''"
  have "[SetLoginId ''kim''] = (\<lambda>v. [SetLoginId v]) ''kim''" by simp
  then have "can_call (view_login (open_login ?s0)) (SetLoginId ''kim'')"
    by (auto simp: can_call_def view_login_def login_page_inputs intro!: exI [of _ "''kim''"])
  then have "page_run view_login login_calls login_reports (open_login ?s0)
      (Some (login_call (SetLoginId ''kim'') (open_login ?s0)))"
    by (rule page_run.used [OF page_run.opened]) (simp add: login_calls_def)
  from login_page_works [OF this] have "\<not> can_call (view_login (login_call (SetLoginId ''kim'') (open_login ?s0))) SubmitLogin"
    by (simp add: open_login_def)
  then show ?thesis by blast
qed

end
