(* ===== verification/Ui_Live_View.thy ===== *)
theory Ui_Live_View
  imports Ui_Live_Stream Ui_Format Ui_Markup
begin

text \<open>
  What the live-stream page renders: the list of containers (ContainerList.tsx), the rows of a log
  (LogRow.tsx, HighlightedAnsiText.tsx), the viewers of a container and of a service (LogViewer.tsx,
  ServiceLogViewer.tsx), the bar of the tabs (TabBar.tsx) and the page (LiveStreamPage.tsx).
  ansi-to-html, the clock format of the platform and the rows in view, which the virtualizer chooses, are
  parameters; so is the arithmetic of the processor loads, which are floating-point numbers.
\<close>

record 'n live_lib =
  lv_toHtml :: "string \<Rightarrow> string"
  lv_time :: "string \<Rightarrow> string option"
  lv_log1024 :: "nat \<Rightarrow> nat"
  lv_zero :: 'n
  lv_add :: "'n \<Rightarrow> 'n \<Rightarrow> 'n"
  lv_fixed1 :: "'n \<Rightarrow> string"

section \<open>The list of containers\<close>

datatype list_act =
  SetSearch string | ToggleFavoritesOnly | Refetch | SelectService service_group | SelectContainer ui_container
| ToggleFavorite string

definition row_star :: "json list \<Rightarrow> string \<Rightarrow> list_act node" where
  "row_star favorites favId =
     (let isFav = (JStr favId \<in> set favorites) in
      Elem ''span''
        [Attr ''role'' ''button'', OnStop [ToggleFavorite favId],
         Attr ''class'' (if isFav then ''text-yellow-400'' else ''text-muted-foreground/40 hover:text-yellow-400'')]
        [Elem ''Star'' [Attr ''fill'' (if isFav then ''currentColor'' else ''none'')] []])"

definition dot_class :: "ui_container \<Rightarrow> string" where
  "dot_class c = (if uc_state c = ''running'' then ''bg-green-500'' else ''bg-gray-500'')"

definition container_title :: "ui_container \<Rightarrow> string" where
  "container_title c =
     uc_name c @ '' ('' @ uc_id c @ '')'' @ (if truthy (uc_nodeName c) then '' @ '' @ the (uc_nodeName c) else [])"

definition service_item :: "json list \<Rightarrow> string option \<Rightarrow> service_group \<Rightarrow> list_act node" where
  "service_item favorites selService svc =
     (let image = uc_image (sg_containers svc ! 0) in
      Elem ''li'' [Attr ''key'' (sg_serviceName svc)]
        [Elem ''button''
           [OnClick [SelectService svc],
            Attr ''class'' (if selService = Some (sg_serviceName svc)
                            then ''bg-secondary border-l-2 border-l-purple-500'' else [])]
           [Elem ''div'' []
              [Elem ''span'' [Attr ''title'' (sg_serviceName svc)] [Txt (sg_serviceName svc)],
               row_star favorites (makeFavoriteId ServiceItem (sg_serviceName svc)),
               Elem ''Badge'' [] [Txt (show_nat (length (sg_containers svc)) @ '' replicas'')]],
            Elem ''p'' [Attr ''title'' image] [Txt image],
            Elem ''div'' []
              (map (\<lambda>c. Elem ''span'' [Attr ''key'' (uc_id c), Attr ''class'' (dot_class c), Attr ''title'' (container_title c)] [])
                 (sg_containers svc))]])"

definition container_item :: "json list \<Rightarrow> string option \<Rightarrow> ui_container \<Rightarrow> list_act node" where
  "container_item favorites selId c =
     Elem ''li'' [Attr ''key'' (uc_id c)]
       [Elem ''button''
          [OnClick [SelectContainer c],
           Attr ''class'' (if selId = Some (uc_id c) then ''bg-secondary border-l-2 border-l-blue-500'' else [])]
          [Elem ''div'' []
             [Elem ''span'' [Attr ''class'' (dot_class c)] [],
              Elem ''span'' [Attr ''title'' (uc_name c)] [Txt (uc_name c)],
              row_star favorites (makeFavoriteId ContainerItem (uc_id c))],
           Elem ''p'' [Attr ''title'' (uc_image c)] [Txt (uc_image c)],
           Elem ''p'' [] [Txt (uc_status c)]]]"

definition list_skeleton :: "'a node" where
  "list_skeleton =
     Elem ''div'' []
       (map (\<lambda>i. Elem ''div'' [Attr ''key'' (show_nat i)]
          [Elem ''div'' [] [Elem ''Skeleton'' [] [], Elem ''Skeleton'' [] [], Elem ''Skeleton'' [] []],
           Elem ''Skeleton'' [] [],
           Elem ''div'' [] [Elem ''Skeleton'' [] [], Elem ''Skeleton'' [] []]]) [0..<6])"

text \<open>The hook's \<open>data\<close> (\<open>None\<close> before the first answer), \<open>loading\<close> and \<open>error\<close> are arguments.\<close>

definition ContainerList ::
  "string \<Rightarrow> json list \<Rightarrow> bool \<Rightarrow> bool \<Rightarrow> ui_container list option \<Rightarrow> string option \<Rightarrow>
   string option \<Rightarrow> string option \<Rightarrow> list_act node" where
  "ContainerList searchQuery favorites showFavoritesOnly loading data error selId selService =
     (let containers = nullish_default data []; filtered = filter_containers searchQuery containers in
      if loading \<and> data = None then list_skeleton
      else if error \<noteq> None then
        Elem ''div'' []
          [Elem ''p'' [] [Txt ''Failed to load containers''], Elem ''p'' [] [Txt (the error)],
           Elem ''Button'' [OnClick [Refetch]] [Txt ''Retry'']]
      else if containers = [] then Elem ''div'' [] [Txt ''No containers found'']
      else
        (let (services, standalone) = listed searchQuery favorites showFavoritesOnly containers in
         Elem ''div'' []
           [Elem ''div'' []
              ([Elem ''Search'' [] [],
                Elem ''Input'' [Attr ''value'' searchQuery, OnChange (\<lambda>v. [SetSearch v]),
                  Attr ''placeholder'' ''Search containers...''] []] @
               show_if (searchQuery \<noteq> []) [Elem ''button'' [OnClick [SetSearch []]] [Elem ''X'' [] []]]),
            Elem ''div'' []
              [Elem ''span'' []
                 [Txt (if length filtered = length containers then show_nat (length containers) @ '' containers''
                       else show_nat (length filtered) @ '' / '' @ show_nat (length containers) @ '' containers'')],
               Elem ''div'' []
                 [Elem ''Button'' [OnClick [ToggleFavoritesOnly], Attr ''class'' (if showFavoritesOnly then ''text-yellow-400'' else [])]
                    [Elem ''Star'' [Attr ''fill'' (if showFavoritesOnly then ''currentColor'' else ''none'')] []],
                  Elem ''Button'' [OnClick [Refetch]] [Elem ''RefreshCw'' [] [], Txt ''Refresh'']]],
            Elem ''ul'' []
              (map (service_item favorites selService) services @ map (container_item favorites selId) standalone)]))"

section \<open>Rows\<close>

record log_entry =
  le_containerId :: string
  le_timestamp :: string
  le_message :: string
  le_stream :: string

definition HighlightedAnsiText :: "'n live_lib \<Rightarrow> string \<Rightarrow> string option \<Rightarrow> nat option \<Rightarrow> 'a node" where
  "HighlightedAnsiText lib s query position =
     (let base = lv_toHtml lib s in
      Elem ''span''
        [Attr ''dangerouslySetInnerHTML'' (if truthy query then fst (highlightHtml base (the query) position) else base)] [])"

definition row_class :: "string \<Rightarrow> string" where
  "row_class stream = (if stream = ''stderr'' then ''text-red-400'' else ''text-gray-300'')"

definition stream_span :: "string \<Rightarrow> 'a node" where
  "stream_span stream =
     Elem ''span'' [Attr ''class'' (if stream = ''stderr'' then ''text-red-500'' else ''text-blue-500'')] [Txt stream]"

definition LogRow :: "'n live_lib \<Rightarrow> log_entry \<Rightarrow> string option \<Rightarrow> nat option \<Rightarrow> 'a node" where
  "LogRow lib log query position =
     Elem ''div'' [Attr ''class'' (row_class (le_stream log))]
       [Elem ''span'' [] [Txt (formatTime (lv_time lib) (le_timestamp log))], stream_span (le_stream log),
        HighlightedAnsiText lib (le_message log) query position]"

definition ServiceLogRow ::
  "'n live_lib \<Rightarrow> service_log_entry \<Rightarrow> string \<Rightarrow> string \<Rightarrow> string option \<Rightarrow> nat option \<Rightarrow> 'a node" where
  "ServiceLogRow lib log replicaColor nodeName query position =
     Elem ''div'' [Attr ''class'' (row_class (se_stream log))]
       [Elem ''span'' [] [Txt (formatTime (lv_time lib) (se_timestamp log))],
        Elem ''span'' [Attr ''class'' replicaColor]
          ([Txt (take 8 (se_containerId log))] @ show_if (nodeName \<noteq> []) [Elem ''span'' [] [Txt (''@'' @ nodeName)]]),
        stream_span (se_stream log),
        HighlightedAnsiText lib (se_message log) query position]"

definition ServiceEventRow :: "'n live_lib \<Rightarrow> service_log_entry \<Rightarrow> 'a node" where
  "ServiceEventRow lib log =
     Elem ''div'' []
       [Elem ''span'' [] [Txt (formatTime (lv_time lib) (se_timestamp log))],
        Elem ''span'' [] [Txt (''--- '' @ se_message log @ '' ---'')]]"


section \<open>Statistics\<close>

record 'n stats_data =
  sd_id :: string
  sd_name :: string
  sd_cpuPercent :: 'n
  sd_memUsage :: nat
  sd_memLimit :: nat

text \<open>The query of the statistics: the containers asked for every ten seconds, \<open>None\<close> where it is skipped.\<close>

definition container_stats_query :: "bool \<Rightarrow> string \<Rightarrow> (string list \<times> nat) option" where
  "container_stats_query isActive containerId = (if \<not> isActive then None else Some ([containerId], 10000))"

definition service_stats_query :: "bool \<Rightarrow> service_viewer \<Rightarrow> (string list \<times> nat) option" where
  "service_stats_query isActive s =
     (let containerIds = map fst (sv_active s)
      in if \<not> isActive \<or> containerIds = [] then None else Some (containerIds, 10000))"

definition stats_map :: "'n stats_data list option \<Rightarrow> (string \<times> 'n stats_data) list" where
  "stats_map data = fold (\<lambda>s m. AList.update (sd_id s) s m) (nullish_default data []) []"

definition memory_text :: "'n live_lib \<Rightarrow> nat \<Rightarrow> nat \<Rightarrow> string" where
  "memory_text lib usage limit =
     formatBytes (lv_log1024 lib) usage @ (if limit > 0 then ''/'' @ formatBytes (lv_log1024 lib) limit else [])"

definition middle_dot :: string where
  "middle_dot = '' '' @ [CHR 0xB7] @ '' ''"

section \<open>What both viewers have\<close>

datatype viewer_act =
  ToggleMode | SetQuery string | ToggleStream | FollowLog | ClearLog

text \<open>What the search hook returns: the lines displayed, the matches, and the current one.\<close>

definition displayedLogs :: "('a \<Rightarrow> string) \<Rightarrow> log_search \<Rightarrow> 'a list \<Rightarrow> 'a list" where
  "displayedLogs message s logs = (if sc_mode s = FindMode then logs else filteredLogs message s logs)"

definition hook_matches :: "('a \<Rightarrow> string) \<Rightarrow> log_search \<Rightarrow> 'a list \<Rightarrow> (nat \<times> nat) list" where
  "hook_matches message s logs = nullish_default (matches message s logs) []"

definition toolbar :: "log_search \<Rightarrow> viewer_act node" where
  "toolbar s =
     (let isFindMode = (sc_mode s = FindMode) in
      Elem ''div'' []
        [Elem ''button''
           [OnClick [ToggleMode], Attr ''title'' (if isFindMode then ''Switch to filter mode'' else ''Switch to find mode'')]
           [Elem (if isFindMode then ''Search'' else ''ListFilter'') [] []],
         Elem ''div'' []
           ([Elem ''Input'' [Attr ''value'' (sc_query s), OnChange (\<lambda>v. [SetQuery v]),
               Attr ''placeholder'' (if isFindMode then ''find...'' else ''grep...'')] []] @
            show_if (sc_query s \<noteq> []) [Elem ''button'' [OnClick [SetQuery []]] [Elem ''X'' [] []]])])"

definition count_label :: "('a \<Rightarrow> string) \<Rightarrow> log_search \<Rightarrow> 'a list \<Rightarrow> string" where
  "count_label message s logs =
     (let ms = hook_matches message s logs; total = totalMatches ms in
      if sc_mode s = FindMode \<and> isSearching s
      then show_nat (if total > 0 then clampedIndex ms (sc_currentMatchIndex s) + 1 else 0) @ ''/'' @ show_nat total @ '' matches''
      else if isSearching s then show_nat (length (filteredLogs message s logs)) @ ''/'' @ show_nat (length logs) @ '' lines''
      else show_nat (length logs) @ '' lines'')"

definition stream_buttons :: "bool \<Rightarrow> bool \<Rightarrow> string \<Rightarrow> viewer_act node" where
  "stream_buttons isPaused isFollowing label =
     Elem ''div'' []
       ([Elem ''span'' [] [Txt label],
         Elem ''Button'' [Attr ''variant'' (if isPaused then ''secondary'' else ''ghost''), OnClick [ToggleStream]]
           [Elem (if isPaused then ''Play'' else ''Pause'') [] [], Txt (if isPaused then ''Resume'' else ''Pause'')]] @
        show_if (\<not> isFollowing) [Elem ''Button'' [OnClick [FollowLog]] [Txt ''Follow'']] @
        [Elem ''Button'' [OnClick [ClearLog]] [Txt ''Clear'']])"

text \<open>A row in its place: the animation class of the lines of the last batch, and the query where it is highlighted.\<close>

definition placed_row :: "bool \<Rightarrow> bool \<Rightarrow> nat \<Rightarrow> nat \<Rightarrow> 'a node \<Rightarrow> 'a node" where
  "placed_row isFollowing isGrepping batchStartIndex index row =
     Elem ''div''
       ([Attr ''data-index'' (show_nat index)] @
        (if isFollowing \<and> \<not> isGrepping \<and> index \<ge> batchStartIndex then [Attr ''class'' ''animate-log-enter''] else []))
       [row]"

definition row_query :: "log_search \<Rightarrow> string option" where
  "row_query s = (if sc_mode s = FindMode \<and> isSearching s then Some (trimmedQuery s) else None)"

definition row_position :: "('a \<Rightarrow> string) \<Rightarrow> log_search \<Rightarrow> 'a list \<Rightarrow> nat \<Rightarrow> nat option" where
  "row_position message s logs index =
     getMatchPositionForLog (sc_mode s = FindMode) (isSearching s)
       (currentMatch (hook_matches message s logs) (sc_currentMatchIndex s)) index"

section \<open>The viewer of a container\<close>

definition LogViewer ::
  "'n live_lib \<Rightarrow> string \<Rightarrow> string \<Rightarrow> log_search \<Rightarrow> log_entry container_viewer \<Rightarrow> bool \<Rightarrow>
   'n stats_data list option \<Rightarrow> string option \<Rightarrow> nat list \<Rightarrow> viewer_act node" where
  "LogViewer lib containerId containerName s v isFollowing statsData error visible =
     (let logs = lb_logs (cv_buffer v); displayed = displayedLogs le_message s logs;
          stats = (case statsData of Some (d # _) \<Rightarrow> Some d | _ \<Rightarrow> None)
      in Elem ''div'' []
        ([Elem ''div'' []
            [Elem ''div'' []
               ([Elem ''h2'' [] [Txt containerName], Elem ''span'' [] [Txt (take 12 containerId)]] @
                (case stats of None \<Rightarrow> []
                 | Some d \<Rightarrow> [Elem ''span'' [] [Txt (''CPU '' @ lv_fixed1 lib (sd_cpuPercent d) @ ''%'' @ middle_dot @
                     memory_text lib (sd_memUsage d) (sd_memLimit d))]])),
             toolbar s,
             stream_buttons (cv_paused v) isFollowing (count_label le_message s logs)]] @
         (case error of None \<Rightarrow> [] | Some m \<Rightarrow> [Elem ''div'' [] [Txt (''Subscription error: '' @ m)]]) @
         [Elem ''div'' [Attr ''onScroll'' ''handleScroll'']
            [if displayed = []
             then Elem ''p'' [] [Txt (if isSearching s then ''No matching logs'' else ''Waiting for logs...'')]
             else Elem ''div'' []
               (map (\<lambda>i. placed_row isFollowing (isSearching s) (lb_batchStart (cv_buffer v)) i
                       (LogRow lib (displayed ! i) (row_query s) (row_position le_message s logs i))) visible)]]))"

section \<open>The viewer of a service\<close>

definition sum_cpu :: "'n live_lib \<Rightarrow> 'n stats_data list \<Rightarrow> 'n" where
  "sum_cpu lib ds = foldl (\<lambda>acc s. lv_add lib acc (sd_cpuPercent s)) (lv_zero lib) ds"

definition sum_nat :: "('n stats_data \<Rightarrow> nat) \<Rightarrow> 'n stats_data list \<Rightarrow> nat" where
  "sum_nat f ds = foldl (\<lambda>acc s. acc + f s) 0 ds"

definition service_stats :: "'n live_lib \<Rightarrow> (string \<times> 'n stats_data) list \<Rightarrow> 'a node list" where
  "service_stats lib statsMap =
     (let ds = map snd statsMap in
      show_if (statsMap \<noteq> [])
        [Elem ''span'' [] [Txt (''CPU '' @ lv_fixed1 lib (sum_cpu lib ds) @ ''%'' @ middle_dot @
           memory_text lib (sum_nat sd_memUsage ds) (sum_nat sd_memLimit ds))]])"

text \<open>
  Rendering asks for the colours of the replicas listed and then of the rows in view, and gives a
  container that has none the next one (\<open>render_colors\<close>); a colour does not change, so that every
  element has the colour of its container afterwards.
\<close>

definition color_of :: "string \<Rightarrow> service_viewer \<Rightarrow> string" where
  "color_of containerId s = nullish_default (map_of (sv_colors s) containerId) ''text-muted-foreground''"

definition rendered_ids :: "service_viewer \<Rightarrow> service_log_entry list \<Rightarrow> nat list \<Rightarrow> string list" where
  "rendered_ids s displayed visible =
     map fst (sv_active s) @
     map se_containerId (filter (\<lambda>l. se_stream l \<noteq> ''event'') (if displayed = [] then [] else map ((!) displayed) visible))"

definition replica_entry ::
  "'n live_lib \<Rightarrow> (string \<times> 'n stats_data) list \<Rightarrow> service_viewer \<Rightarrow> string \<times> string option \<Rightarrow> 'a node" where
  "replica_entry lib statsMap s r =
     (let (i, nodeName) = r in
      Elem ''span'' [Attr ''key'' i, Attr ''class'' (''text-xs '' @ color_of i s)]
        ([Txt (take 8 i)] @ show_if (truthy nodeName) [Elem ''span'' [] [Txt (''@'' @ the nodeName)]] @
         (case map_of statsMap i of None \<Rightarrow> []
          | Some d \<Rightarrow> [Elem ''span'' [] [Txt (lv_fixed1 lib (sd_cpuPercent d) @ ''%'' @ middle_dot @
              memory_text lib (sd_memUsage d) (sd_memLimit d))]])))"

definition service_row ::
  "'n live_lib \<Rightarrow> log_search \<Rightarrow> service_viewer \<Rightarrow> service_log_entry list \<Rightarrow> nat \<Rightarrow> 'a node" where
  "service_row lib s v displayed i =
     (let log = displayed ! i in
      if se_stream log = ''event'' then ServiceEventRow lib log
      else ServiceLogRow lib log (color_of (se_containerId log) v)
             (case map_of (sv_active v) (se_containerId log) of Some (Some n) \<Rightarrow> n | _ \<Rightarrow> [])
             (row_query s) (row_position se_message s (lb_logs (sv_buffer v)) i))"

definition ServiceLogViewer ::
  "'n live_lib \<Rightarrow> string \<Rightarrow> log_search \<Rightarrow> service_viewer \<Rightarrow> bool \<Rightarrow> 'n stats_data list option \<Rightarrow> nat list \<Rightarrow>
   viewer_act node" where
  "ServiceLogViewer lib serviceName s viewer isFollowing statsData visible =
     (let logs = lb_logs (sv_buffer viewer); displayed = displayedLogs se_message s logs; statsMap = stats_map statsData;
          v = render_colors (rendered_ids viewer displayed visible) viewer
      in Elem ''div'' []
        [Elem ''div'' []
           [Elem ''div'' []
              ([Elem ''span'' [] [], Elem ''h2'' [] [Txt serviceName],
                Elem ''Badge'' [] [Txt (show_nat (length (sv_active v)) @ '' replicas'')]] @ service_stats lib statsMap),
            toolbar s,
            stream_buttons (sv_paused v) isFollowing (count_label se_message s logs)],
         Elem ''div'' []
           (map (replica_entry lib statsMap v) (sv_active v) @
            show_if (sv_active v = []) [Elem ''span'' [] [Txt ''No active replicas'']]),
         Elem ''div'' [Attr ''onScroll'' ''handleScroll'']
           [if displayed = []
            then Elem ''p'' []
                   [Txt (if isSearching s then ''No matching logs'' else ''Waiting for logs from '' @ serviceName @ ''...'')]
            else Elem ''div'' []
              (map (\<lambda>i. placed_row isFollowing (isSearching s) (lb_batchStart (sv_buffer v)) i
                      (service_row lib s v displayed i)) visible)]])"


section \<open>A viewer in use\<close>

text \<open>The state of a mounted viewer: that of its hooks, of its kind, and what its queries and the virtualizer report.\<close>

record 'n viewer_state =
  vs_search :: log_search
  vs_scroll :: auto_scroll
  vs_log :: "log_entry container_viewer"
  vs_service :: service_viewer
  vs_stats :: "'n stats_data list option"
  vs_error :: "string option"
  vs_visible :: "nat list"

definition toggleMode :: "log_search \<Rightarrow> log_search" where
  "toggleMode s = set_mode (if sc_mode s = FindMode then FilterMode else FindMode) s"

fun log_viewer_call :: "viewer_act \<Rightarrow> 'n viewer_state \<Rightarrow> 'n viewer_state" where
  "log_viewer_call ToggleMode v = v\<lparr>vs_search := toggleMode (vs_search v)\<rparr>"
| "log_viewer_call (SetQuery q) v = v\<lparr>vs_search := (vs_search v)\<lparr>sc_query := q\<rparr>\<rparr>"
| "log_viewer_call ToggleStream v = v\<lparr>vs_log := cv_togglePause (vs_log v)\<rparr>"
| "log_viewer_call FollowLog v =
     (let (l, sc) = cv_scrollToBottom (int (length (displayedLogs le_message (vs_search v) (lb_logs (cv_buffer (vs_log v))))))
                      (vs_log v, vs_scroll v)
      in v\<lparr>vs_log := l, vs_scroll := sc\<rparr>)"
| "log_viewer_call ClearLog v = v\<lparr>vs_log := (vs_log v)\<lparr>cv_buffer := clearLogs (cv_buffer (vs_log v))\<rparr>\<rparr>"

text \<open>That of a service also says whether the containers are queried.\<close>

fun service_viewer_call :: "viewer_act \<Rightarrow> 'n viewer_state \<Rightarrow> bool \<times> 'n viewer_state" where
  "service_viewer_call ToggleMode v = (False, v\<lparr>vs_search := toggleMode (vs_search v)\<rparr>)"
| "service_viewer_call (SetQuery q) v = (False, v\<lparr>vs_search := (vs_search v)\<lparr>sc_query := q\<rparr>\<rparr>)"
| "service_viewer_call ToggleStream v =
     (let (query, s) = togglePause (vs_service v) in (query, v\<lparr>vs_service := s\<rparr>))"
| "service_viewer_call FollowLog v =
     (let (query, s, sc) = sv_scrollToBottom (int (length (displayedLogs se_message (vs_search v) (lb_logs (sv_buffer (vs_service v))))))
                             (vs_service v, vs_scroll v)
      in (query, v\<lparr>vs_service := s, vs_scroll := sc\<rparr>))"
| "service_viewer_call ClearLog v =
     (False, v\<lparr>vs_service := (vs_service v)\<lparr>sv_buffer := clearLogs (sv_buffer (vs_service v))\<rparr>\<rparr>)"

definition is_service_tab :: "tab \<Rightarrow> bool" where
  "is_service_tab t \<longleftrightarrow> string_prop (tab_data t) ''type'' = Some ''service''"

definition tab_text :: "tab \<Rightarrow> string \<Rightarrow> string \<Rightarrow> string" where
  "tab_text t part field = nullish_default (Option.bind (json_prop (tab_data t) part) (\<lambda>c. string_prop c field)) []"

definition tab_viewer :: "'n live_lib \<Rightarrow> tab \<Rightarrow> 'n viewer_state \<Rightarrow> viewer_act node" where
  "tab_viewer lib t v =
     (if is_service_tab t
      then ServiceLogViewer lib (tab_text t ''service'' ''serviceName'') (vs_search v) (vs_service v)
             (as_following (vs_scroll v)) (vs_stats v) (vs_visible v)
      else LogViewer lib (tab_text t ''container'' ''id'') (tab_text t ''container'' ''name'') (vs_search v) (vs_log v)
             (as_following (vs_scroll v)) (vs_stats v) (vs_error v) (vs_visible v))"

section \<open>The tabs and the page\<close>

datatype live_act =
  LiveTabs tab_event | InList bool list_act | InViewer nat string viewer_act | SetSheet bool

definition live_tab :: "string option \<Rightarrow> tab \<Rightarrow> live_act node" where
  "live_tab activeTabId t =
     (let isActive = (Some (tb_id t) = activeTabId) in
      Elem ''button''
        [Attr ''key'' (tb_id t), OnClick [LiveTabs (SelectTab (tb_id t))],
         Attr ''class'' (if isActive then ''bg-background text-foreground border-b-2 border-b-primary''
                         else ''text-muted-foreground hover:bg-secondary/50 hover:text-foreground'')]
        [Elem ''span''
           [Attr ''class'' (if is_service_tab t then ''bg-purple-500'' else ''bg-green-500'')] [],
         Elem ''span'' [] [Txt (tb_label t)],
         Elem ''span''
           [Attr ''role'' ''button'', OnStop [LiveTabs (CloseTab (tb_id t))],
            Attr ''class'' (if isActive then ''opacity-60 hover:opacity-100''
                            else ''opacity-0 group-hover:opacity-60 hover:opacity-100!'')]
           [Elem ''X'' [] []]])"

definition TabBar :: "tabs_state \<Rightarrow> live_act node list" where
  "TabBar s = (if ts_tabs s = [] then [] else [Elem ''div'' [] (map (live_tab (ts_activeTabId s)) (ts_tabs s))])"

text \<open>
  The main content is rendered twice, for a wide and for a narrow screen, and each copy mounts its own
  viewers: \<open>viewer k t\<close> is what copy k of the tab's viewer renders.
\<close>

definition mainContent :: "tabs_state \<Rightarrow> nat \<Rightarrow> (nat \<Rightarrow> tab \<Rightarrow> viewer_act node) \<Rightarrow> live_act node list" where
  "mainContent s k viewer =
     TabBar s @
     [if ts_tabs s = []
      then Elem ''div'' [] [Elem ''div'' []
             [Elem ''p'' [] [Txt ''Select a container or service to view logs''],
              Elem ''p'' [] [Txt ''Tap the '', Elem ''PanelLeft'' [] [], Txt '' button to browse containers'']]]
      else Elem ''div'' []
             (map (\<lambda>t. let isActive = (Some (tb_id t) = ts_activeTabId s) in
                Elem ''motion.div''
                  [Attr ''key'' (tb_id t), Attr ''opacity'' (if isActive then ''1'' else ''0''),
                   Attr ''scale'' (if isActive then ''1'' else ''0.98''), Inert (\<not> isActive)]
                  [Elem (if is_service_tab t then ''ServiceLogViewer'' else ''LogViewer'')
                     [Attr ''isActive'' (if isActive then ''true'' else ''false'')]
                     [map_node (InViewer k (tb_id t)) (viewer k t)]]) (ts_tabs s))]"

definition sidebarContent :: "list_act node \<Rightarrow> live_act node list" where
  "sidebarContent containers =
     [Elem ''div'' [] [Elem ''h2'' [] [Txt ''Containers'']], Elem ''div'' [] [map_node (InList False) containers]]"

text \<open>The content of the sheet is rendered while it is open, in a portal. The overlay that then lies over the rest of
  the page is not shown; the model leaves that to clicks.\<close>

definition LiveStreamPage ::
  "tabs_state \<Rightarrow> bool \<Rightarrow> (nat \<Rightarrow> list_act node) \<Rightarrow> (nat \<Rightarrow> tab \<Rightarrow> viewer_act node) \<Rightarrow> live_act node" where
  "LiveStreamPage s sheetOpen containers viewer =
     Elem ''div'' []
       [Elem ''ResizablePanelGroup'' []
          [Elem ''ResizablePanel'' [] (sidebarContent (containers 0)), Elem ''ResizableHandle'' [] [],
           Elem ''ResizablePanel'' [] (mainContent s 0 viewer)],
        Elem ''Sheet'' [Open sheetOpen, OnOpenChange (\<lambda>b. [SetSheet b])]
          ([Elem ''SheetTrigger'' [] [Elem ''Button'' [] [Elem ''PanelLeft'' [] []]]] @
           show_if sheetOpen
             [Elem ''SheetContent'' [Portal]
                [Elem ''SheetHeader'' [] [Elem ''SheetTitle'' [] [Txt ''Containers'']],
                 Elem ''div'' [] [map_node (InList True) (containers 1)]]]),
        Elem ''main'' [] (mainContent s 1 viewer)]"

section \<open>The page in use\<close>

text \<open>The state of one list of containers, and the answers the page's parts have.\<close>

record list_state =
  ls_search :: string
  ls_favorites :: "json list"
  ls_favoritesOnly :: bool

record 'n live_page =
  lp_tabs :: tabs_state
  lp_sheet :: bool
  lp_list :: "nat \<Rightarrow> list_state"
  lp_containers :: "bool \<times> ui_container list option \<times> string option"
  lp_stored :: "string option"
  lp_viewers :: "nat \<Rightarrow> string \<Rightarrow> 'n viewer_state"

text \<open>Where a tab does not render, nothing of the page is left.\<close>

definition live_view :: "'n live_lib \<Rightarrow> 'n live_page \<Rightarrow> live_act node" where
  "live_view lib s =
     (let (loading, data, error) = lp_containers s in
      if \<not> list_all renders (ts_tabs (lp_tabs s)) then Txt []
      else LiveStreamPage (lp_tabs s) (lp_sheet s)
        (\<lambda>k. let l = lp_list s k in
           ContainerList (ls_search l) (ls_favorites l) (ls_favoritesOnly l) loading data error
             (selectedId (lp_tabs s)) (selectedServiceName (lp_tabs s)))
        (\<lambda>k t. tab_viewer lib t (lp_viewers s k (tb_id t))))"

definition on_list :: "nat \<Rightarrow> (list_state \<Rightarrow> list_state) \<Rightarrow> 'n live_page \<Rightarrow> 'n live_page" where
  "on_list k f s = s\<lparr>lp_list := (lp_list s)(k := f (lp_list s k))\<rparr>"

text \<open>
  What the calls do. A selection opens its tab, and closes the sheet if it was made there; a query
  sent again leaves the page as it is.
\<close>

fun list_call :: "bool \<Rightarrow> bool \<Rightarrow> list_act \<Rightarrow> 'n live_page \<Rightarrow> 'n live_page" where
  "list_call writable sheet (SetSearch v) s = on_list (if sheet then 1 else 0) (\<lambda>l. l\<lparr>ls_search := v\<rparr>) s"
| "list_call writable sheet ToggleFavoritesOnly s =
     on_list (if sheet then 1 else 0) (\<lambda>l. l\<lparr>ls_favoritesOnly := \<not> ls_favoritesOnly l\<rparr>) s"
| "list_call writable sheet Refetch s = s"
| "list_call writable sheet (SelectService g) s =
     (let s1 = s\<lparr>lp_tabs := handleSelectService g (lp_tabs s)\<rparr> in if sheet then s1\<lparr>lp_sheet := False\<rparr> else s1)"
| "list_call writable sheet (SelectContainer c) s =
     (let s1 = s\<lparr>lp_tabs := handleSelectContainer c (lp_tabs s)\<rparr> in if sheet then s1\<lparr>lp_sheet := False\<rparr> else s1)"
| "list_call writable sheet (ToggleFavorite i) s =
     (let k = (if sheet then 1 else 0);
          (next, stored) = toggle_and_save writable i (ls_favorites (lp_list s k), lp_stored s)
      in (on_list k (\<lambda>l. l\<lparr>ls_favorites := next\<rparr>) s)\<lparr>lp_stored := stored\<rparr>)"

text \<open>The content of the sheet is mounted when it opens, with the favourites stored then.\<close>

definition mount_list :: "json_parser \<Rightarrow> string option \<Rightarrow> list_state" where
  "mount_list parse stored = \<lparr>ls_search = [], ls_favorites = loadFavorites parse stored, ls_favoritesOnly = False\<rparr>"

definition live_call :: "json_parser \<Rightarrow> bool \<Rightarrow> live_act \<Rightarrow> 'n live_page \<Rightarrow> 'n live_page option" where
  "live_call parse writable a s =
     (case a of
        LiveTabs e \<Rightarrow>
          map_option (\<lambda>t. s\<lparr>lp_tabs := t\<rparr>)
            (case e of
               SelectTab i \<Rightarrow> Some ((lp_tabs s)\<lparr>ts_activeTabId := Some i\<rparr>)
             | CloseTab i \<Rightarrow> closeTab i (lp_tabs s)
             | OpenTab t \<Rightarrow> Some (openTab MAX_TABS t (lp_tabs s))
             | RelabelTab i l \<Rightarrow> Some (updateTabLabel i l (lp_tabs s)))
      | InList sheet b \<Rightarrow> Some (list_call writable sheet b s)
      | InViewer k i b \<Rightarrow>
          (case find (\<lambda>t. tb_id t = i) (ts_tabs (lp_tabs s)) of
             None \<Rightarrow> Some s
           | Some t \<Rightarrow>
               (let v = lp_viewers s k i; v' = (if is_service_tab t then snd (service_viewer_call b v) else log_viewer_call b v)
                in Some (s\<lparr>lp_viewers := (lp_viewers s)(k := (lp_viewers s k)(i := v'))\<rparr>)))
      | SetSheet b \<Rightarrow>
          Some ((if b \<and> \<not> lp_sheet s then on_list 1 (\<lambda>l. mount_list parse (lp_stored s)) s else s)\<lparr>lp_sheet := b\<rparr>))"

text \<open>The page after loading, with the tabs of the last visit, and the answers to the query of the containers.\<close>

definition open_live :: "json_parser \<Rightarrow> string option \<Rightarrow> string option \<Rightarrow> (nat \<Rightarrow> string \<Rightarrow> 'n viewer_state) \<Rightarrow> 'n live_page" where
  "open_live parse storedTabs storedFavorites viewers =
     \<lparr>lp_tabs = initial_tabs parse (Some storedTabs) [] None, lp_sheet = False,
      lp_list = (\<lambda>k. mount_list parse storedFavorites), lp_containers = (True, None, None), lp_stored = storedFavorites,
      lp_viewers = viewers\<rparr>"

definition live_calls :: "live_act \<Rightarrow> 'n live_page \<Rightarrow> 'n live_page option \<Rightarrow> bool" where
  "live_calls a s r \<longleftrightarrow> (\<exists>parse writable. r = live_call parse writable a s)"

text \<open>The queries report, lines arrive, the virtualizer chooses rows, viewers are mounted.\<close>

definition live_reports :: "'n live_page \<Rightarrow> 'n live_page \<Rightarrow> bool" where
  "live_reports s t \<longleftrightarrow>
     (\<exists>answer. t = s\<lparr>lp_containers := answer\<rparr>) \<or> (\<exists>viewers. t = s\<lparr>lp_viewers := viewers\<rparr>)"

end
