(* ===== verification/Ui_Live_View_Properties.thy ===== *)
theory Ui_Live_View_Properties
  imports Ui_Live_View Ui_Live_Stream_Properties Ui_Log_Search_Properties
begin

text \<open>
  What the live-stream page shows and what can be done in it: the list offers each container and each
  service listed, a click does one thing, the rows of a viewer are the lines it displays, and no
  sequence of clicks, keys and answers breaks the tabs.
\<close>

section \<open>The list\<close>

lemma offered_star: "offered (row_star fs i) = [ToggleFavorite i]"
  by (simp add: row_star_def Let_def)

lemma offered_service_item:
  "offered (service_item fs n svc) = [SelectService svc, ToggleFavorite (makeFavoriteId ServiceItem (sg_serviceName svc))]"
  by (simp add: service_item_def Let_def offered_star comp_def)

lemma offered_container_item:
  "offered (container_item fs n c) = [SelectContainer c, ToggleFavorite (makeFavoriteId ContainerItem (uc_id c))]"
  by (simp add: container_item_def offered_star)

definition items_offered :: "service_group list \<times> ui_container list \<Rightarrow> list_act list" where
  "items_offered l =
     concat (map (\<lambda>g. [SelectService g, ToggleFavorite (makeFavoriteId ServiceItem (sg_serviceName g))]) (fst l) @
             map (\<lambda>c. [SelectContainer c, ToggleFavorite (makeFavoriteId ContainerItem (uc_id c))]) (snd l))"

lemma offered_list:
  "offered (ContainerList q fs only loading data error i n) =
     (if loading \<and> data = None then [] else if error \<noteq> None then [Refetch]
      else if nullish_default data [] = [] then []
      else (if q = [] then [] else [SetSearch []]) @ [ToggleFavoritesOnly, Refetch] @
           items_offered (listed q fs only (nullish_default data [])))"
  by (auto simp: ContainerList_def list_skeleton_def Let_def case_prod_unfold comp_def offered_service_item
      offered_container_item items_offered_def show_if_def)

lemma inputs_items [simp]: "inputs (service_item fs n svc) = []" "inputs (container_item fs m c) = []"
  by (simp_all add: service_item_def container_item_def row_star_def Let_def comp_def)

lemma formless_items [simp]: "formless (service_item fs n svc)" "formless (container_item fs m c)"
  by (simp_all add: service_item_def container_item_def row_star_def Let_def list_all_iff)

lemma formless_list [simp]: "formless (ContainerList q fs only loading data error i n)"
  by (auto simp: ContainerList_def list_skeleton_def Let_def case_prod_unfold list_all_iff show_if_def)

lemma calm_items [simp]: "calm (service_item fs n svc)" "calm (container_item fs m c)"
  by (simp_all add: service_item_def container_item_def row_star_def Let_def list_all_iff)

lemma calm_list [simp]: "calm (ContainerList q fs only loading data error i n)"
  by (auto simp: ContainerList_def list_skeleton_def Let_def case_prod_unfold list_all_iff show_if_def)

section \<open>The viewers\<close>

lemma viewer_parts:
  "offered (toolbar s) = [ToggleMode] @ (if sc_query s = [] then [] else [SetQuery []])"
  "inputs (toolbar s) = [\<lambda>v. [SetQuery v]]" "formless (toolbar s)" "calm (toolbar s)"
  "offered (stream_buttons paused following label) = [ToggleStream] @ (if following then [] else [FollowLog]) @ [ClearLog]"
  "inputs (stream_buttons paused following label) = []" "formless (stream_buttons paused following label)"
  "calm (stream_buttons paused following label)"
  by (auto simp: toolbar_def stream_buttons_def Let_def show_if_def)

lemma row_parts [simp]:
  "offered (LogRow lib l q p) = []" "inputs (LogRow lib l q p) = []" "formless (LogRow lib l q p)" "calm (LogRow lib l q p)"
  "offered (service_row lib s v d i) = []" "inputs (service_row lib s v d i) = []" "formless (service_row lib s v d i)"
  "calm (service_row lib s v d i)"
  by (auto simp: LogRow_def HighlightedAnsiText_def stream_span_def service_row_def ServiceLogRow_def ServiceEventRow_def
      Let_def show_if_def)

lemma placed_parts [simp]:
  "offered (placed_row f g b i row) = offered row" "inputs (placed_row f g b i row) = inputs row"
  "formless (placed_row f g b i row) = formless row" "calm (placed_row f g b i row) = calm row"
  by (auto simp: placed_row_def)

lemma legend_parts [simp]:
  "offered (replica_entry lib m s r) = []" "inputs (replica_entry lib m s r) = []" "formless (replica_entry lib m s r)"
  "calm (replica_entry lib m s r)"
  by (auto simp: replica_entry_def Let_def show_if_def split: prod.splits option.splits)

lemma formless_viewer [simp]: "formless (tab_viewer lib t v)"
  by (auto simp: tab_viewer_def LogViewer_def ServiceLogViewer_def service_stats_def viewer_parts Let_def show_if_def
      list_all_iff split: option.splits list.splits)

lemma calm_viewer [simp]: "calm (tab_viewer lib t v)"
  by (auto simp: tab_viewer_def LogViewer_def ServiceLogViewer_def service_stats_def viewer_parts Let_def show_if_def
      list_all_iff split: option.splits list.splits)

lemma portals_viewer [simp]: "\<not> has_portal (tab_viewer lib t v)"
proof -
  have rows: "\<not> has_portal (LogRow lib l q p)" "\<not> has_portal (service_row lib s w d i)"
    "\<not> has_portal (replica_entry lib m w r)" "\<not> has_portal (toolbar s)" "\<not> has_portal (stream_buttons x y z)"
    for l q p s w d i m r x y z
    by (auto simp: LogRow_def HighlightedAnsiText_def stream_span_def service_row_def ServiceLogRow_def ServiceEventRow_def
        replica_entry_def toolbar_def stream_buttons_def Let_def show_if_def split: prod.splits option.splits)
  have placed: "has_portal (placed_row f g b i row) = has_portal row" for f g b i and row :: "viewer_act node"
    by (simp add: placed_row_def)
  show ?thesis
    by (auto simp: tab_viewer_def LogViewer_def ServiceLogViewer_def service_stats_def rows placed Let_def show_if_def
        list_ex_iff split: option.splits list.splits)
qed

lemma viewer_reached:
  "a \<in> set (offers (x = y) (tab_viewer lib t v)) \<Longrightarrow> x = y \<and> a \<in> set (offered (tab_viewer lib t v))"
  by (cases "x = y") (auto simp: behind_none)

lemma offered_viewer:
  "set (offered (tab_viewer lib t v)) \<subseteq> {ToggleMode, SetQuery [], ToggleStream, FollowLog, ClearLog}"
  by (auto simp: tab_viewer_def LogViewer_def ServiceLogViewer_def service_stats_def viewer_parts Let_def show_if_def
      comp_def split: option.splits list.splits if_splits)

section \<open>The page\<close>

lemma live_tab_parts [simp]:
  "offered (live_tab a t) = [LiveTabs (SelectTab (tb_id t)), LiveTabs (CloseTab (tb_id t))]" "inputs (live_tab a t) = []"
  "formless (live_tab a t)" "calm (live_tab a t)"
  by (simp_all add: live_tab_def Let_def)

lemma formless_page [simp]: "formless (live_view lib s)"
proof -
  have "list_all formless (mainContent u k (\<lambda>k t. tab_viewer lib t (w k t)))" for u k w
    by (simp add: mainContent_def TabBar_def Let_def list_all_iff)
  then show ?thesis
    by (simp add: live_view_def LiveStreamPage_def sidebarContent_def show_if_def Let_def case_prod_unfold)
qed

lemma calm_page: "calm (live_view lib s)"
proof -
  have "list_all calm (mainContent u k (\<lambda>k t. tab_viewer lib t (w k t)))" for u k w
    by (simp add: mainContent_def TabBar_def Let_def list_all_iff)
  then show ?thesis
    by (simp add: live_view_def LiveStreamPage_def sidebarContent_def show_if_def Let_def case_prod_unfold)
qed

text \<open>What the page offers concerns the tabs that are open.\<close>

fun concerns :: "string set \<Rightarrow> live_act \<Rightarrow> bool" where
  "concerns ids (LiveTabs (SelectTab i)) \<longleftrightarrow> i \<in> ids"
| "concerns ids (LiveTabs (CloseTab i)) \<longleftrightarrow> i \<in> ids"
| "concerns ids (LiveTabs e) \<longleftrightarrow> False"
| "concerns ids (InViewer k i b) \<longleftrightarrow> i \<in> ids"
| "concerns ids (InList sheet b) \<longleftrightarrow> True"
| "concerns ids (SetSheet b) \<longleftrightarrow> True"

lemma live_can_call:
  assumes "can_call (live_view lib s) a"
  shows "concerns (tb_id ` set (ts_tabs (lp_tabs s))) a"
proof -
  have "a \<in> set (offered (live_view lib s)) \<or> (\<exists>h \<in> set (inputs (live_view lib s)). \<exists>v. a \<in> set (h v))"
    using assms by (simp add: can_call_formless)
  then show ?thesis
    by (auto simp: live_view_def LiveStreamPage_def sidebarContent_def mainContent_def TabBar_def offered_map inputs_map
        Let_def split: if_splits prod.splits)
qed

definition live_ok :: "'n live_page \<Rightarrow> bool" where
  "live_ok s \<longleftrightarrow> tabs_ok MAX_TABS (lp_tabs s) \<and> list_all renders (ts_tabs (lp_tabs s))"

lemma two_tabs: "2 \<le> MAX_TABS"
  by (simp add: MAX_TABS_def)

text \<open>The tabs the page opens render, and no other tab loses its data.\<close>

lemma renders_openTab: "list_all renders (ts_tabs s) \<Longrightarrow> renders t \<Longrightarrow> list_all renders (ts_tabs (openTab m t s))"
  using set_openTab [of m t s] by (auto simp: list_all_iff)

lemma renders_selected:
  assumes "list_all renders (ts_tabs s)"
  shows "list_all renders (ts_tabs (handleSelectService g s))" "list_all renders (ts_tabs (handleSelectContainer c s))"
  unfolding handleSelectService_def handleSelectContainer_def
  by (intro renders_openTab assms; simp add: renders_def tab_data_def image_iff container_json_def)+

lemma renders_closeTab: "closeTab i s = Some u \<Longrightarrow> list_all renders (ts_tabs s) \<Longrightarrow> list_all renders (ts_tabs u)"
  by (auto simp: closeTab_def Let_def list_all_iff split: if_splits option.splits)

lemma list_call_ok:
  assumes "live_ok s"
  shows "live_ok (list_call writable sheet a s)"
proof -
  have ok: "tabs_ok MAX_TABS (lp_tabs s)" "list_all renders (ts_tabs (lp_tabs s))"
    using assms by (simp_all add: live_ok_def)
  have "tabs_ok MAX_TABS (handleSelectService g (lp_tabs s))" "tabs_ok MAX_TABS (handleSelectContainer c (lp_tabs s))" for g c
    using tabs_ok_openTab [OF ok(1) two_tabs] by (simp_all add: handleSelectService_def handleSelectContainer_def)
  with ok renders_selected [OF ok(2)] show ?thesis
    by (cases a) (simp_all add: live_ok_def on_list_def Let_def case_prod_unfold)
qed

lemma live_call_ok:
  assumes ok: "live_ok s" and a: "can_call (live_view lib s) a" and r: "live_calls a s r"
  shows "\<exists>t. r = Some t \<and> live_ok t"
proof -
  have tabs: "tabs_ok MAX_TABS (lp_tabs s)" and data: "list_all renders (ts_tabs (lp_tabs s))" using ok by (simp_all add: live_ok_def)
  from r obtain parse writable where r: "r = live_call parse writable a s" by (auto simp: live_calls_def)
  note c = live_can_call [OF a]
  show ?thesis
  proof (cases a)
    case (LiveTabs e)
    then show ?thesis
    proof (cases e)
      case (SelectTab i)
      with LiveTabs c tabs data r show ?thesis by (auto simp: live_call_def live_ok_def tabs_ok_def)
    next
      case (CloseTab i)
      with LiveTabs c have "i \<in> tb_id ` set (ts_tabs (lp_tabs s))" by simp
      from tabs_ok_closeTab [OF tabs this] obtain u where "closeTab i (lp_tabs s) = Some u" "tabs_ok MAX_TABS u" .
      with CloseTab LiveTabs r renders_closeTab [OF _ data] show ?thesis by (simp add: live_call_def live_ok_def)
    qed (use LiveTabs c in simp_all)
  next
    case InList
    with r list_call_ok [OF ok] show ?thesis by (simp add: live_call_def)
  next
    case InViewer
    with r tabs data show ?thesis by (auto simp: live_call_def live_ok_def Let_def split: option.split)
  next
    case SetSheet
    with r tabs data show ?thesis by (auto simp: live_call_def live_ok_def on_list_def)
  qed
qed

interpretation live: page "live_view lib" live_calls live_reports live_ok for lib
  by unfold_locales (use live_call_ok in blast, auto simp: live_reports_def live_ok_def)

text \<open>Both copies of the main content mount a viewer for every tab.\<close>

definition is_viewer :: "'a node \<Rightarrow> bool" where
  "is_viewer n \<longleftrightarrow> tag n = Some ''ServiceLogViewer'' \<or> tag n = Some ''LogViewer''"

lemma is_viewer_simps [simp]:
  "\<not> is_viewer (Txt s)" "is_viewer (Elem t ps ks) \<longleftrightarrow> t = ''ServiceLogViewer'' \<or> t = ''LogViewer''"
  "is_viewer (map_node f n) = is_viewer n"
  by (auto simp: is_viewer_def)

lemma no_viewers_in_items [simp]:
  "nodes_where is_viewer (service_item fs n svc) = []" "nodes_where is_viewer (container_item fs m c) = []"
  by (simp_all add: service_item_def container_item_def row_star_def Let_def comp_def)

lemma no_viewers_in_list [simp]: "nodes_where is_viewer (ContainerList q fs only loading data error i n) = []"
  by (auto simp: ContainerList_def list_skeleton_def Let_def case_prod_unfold show_if_def)

lemma no_viewers_in_parts [simp]:
  "nodes_where is_viewer (LogRow lib l q p) = []" "nodes_where is_viewer (service_row lib s v d k) = []"
  "nodes_where is_viewer (placed_row f g b k row) = nodes_where is_viewer row"
  "nodes_where is_viewer (replica_entry lib m v r) = []" "nodes_where is_viewer (toolbar s) = []"
  "nodes_where is_viewer (stream_buttons x y z) = []"
  by (auto simp: LogRow_def HighlightedAnsiText_def stream_span_def service_row_def ServiceLogRow_def ServiceEventRow_def
      placed_row_def replica_entry_def toolbar_def stream_buttons_def Let_def show_if_def split: prod.splits option.splits)

lemma no_viewers_in_viewer [simp]: "nodes_where is_viewer (tab_viewer lib t v) = []"
  by (auto simp: tab_viewer_def LogViewer_def ServiceLogViewer_def service_stats_def Let_def show_if_def
      split: option.splits list.splits)

lemma viewers_mounted:
  "list_all renders (ts_tabs (lp_tabs s)) \<Longrightarrow>
     length (nodes_where is_viewer (live_view lib s)) = 2 * length (ts_tabs (lp_tabs s))"
proof -
  have tab: "nodes_where is_viewer (live_tab a t) = []" for a t by (simp add: live_tab_def Let_def)
  have mapped: "nodes_where is_viewer (map_node f n) = map (map_node f) (nodes_where is_viewer n)" for f and n :: "'b node"
    by (rule nodes_where_map) simp
  have either: "(if b then x else y) = x \<or> (if b then x else y) = y" for b and x y :: string by simp
  have main: "length (concat (map (nodes_where is_viewer) (mainContent u k (\<lambda>k t. tab_viewer lib t (w k t))))) = length (ts_tabs u)"
    for u k w
    by (auto simp: mainContent_def TabBar_def tab mapped either Let_def length_concat comp_def sum_list_triv)
  assume "list_all renders (ts_tabs (lp_tabs s))"
  then show ?thesis
    by (simp add: live_view_def LiveStreamPage_def sidebarContent_def mapped main case_prod_unfold Let_def)
qed

text \<open>C13: the live-stream page keeps working. From stored tabs that are consistent and have the data to be
  rendered, as those the page stores have, whatever the user
  does with what the page offers and whatever its queries and subscriptions report, no handler throws,
  and there are at most ten tabs with distinct ids, the active one among them; a click makes at most
  one call (the star of an entry does not select it, the cross of a tab does not activate it) and
  reaches into no viewer but that of the active tab; and each tab has two viewers mounted, in the
  content for wide and in that for narrow screens.\<close>

theorem live_page_works:
  assumes "tabs_ok MAX_TABS (initial_tabs parse (Some storedTabs) [] None)"
    and "list_all renders (ts_tabs (initial_tabs parse (Some storedTabs) [] None))"
    and "page_run (live_view lib) live_calls live_reports (open_live parse storedTabs storedFavorites viewers) r"
  shows "\<exists>s. r = Some s \<and> tabs_ok MAX_TABS (lp_tabs s) \<and> list_all renders (ts_tabs (lp_tabs s)) \<and>
    (\<forall>p. length (fst (click p (live_view lib s))) \<le> 1) \<and>
    (\<forall>p k i b. InViewer k i b \<in> set (fst (click p (live_view lib s))) \<longrightarrow> ts_activeTabId (lp_tabs s) = Some i) \<and>
    length (nodes_where is_viewer (live_view lib s)) = 2 * length (ts_tabs (lp_tabs s))"
proof -
  have "live_ok (open_live parse storedTabs storedFavorites viewers)"
    using assms(1,2) by (simp add: live_ok_def open_live_def)
  from live.inv_page_run [OF assms(3) this] obtain s where s: "r = Some s" "live_ok s" by blast
  have "ts_activeTabId (lp_tabs s) = Some i" if "InViewer k i b \<in> set (fst (click p (live_view lib s)))" for p k i b
  proof -
    have "InViewer k i b \<in> set (offered (live_view lib s))" using that click_offered by (rule rev_subsetD)
    then show ?thesis
      by (auto simp: live_view_def LiveStreamPage_def sidebarContent_def mainContent_def TabBar_def offered_map Let_def
          dest!: viewer_reached split: if_splits prod.splits)
  qed
  with s show ?thesis using calm_click [OF calm_page] viewers_mounted by (auto simp: live_ok_def)
qed


definition demo_live_lib :: "int live_lib" where
  "demo_live_lib =
     \<lparr>lv_toHtml = (\<lambda>s. s), lv_time = Some, lv_log1024 = (\<lambda>n. 0), lv_zero = 0, lv_add = (+), lv_fixed1 = show_int\<rparr>"

definition fresh_viewer :: "service_group \<Rightarrow> int viewer_state" where
  "fresh_viewer g =
     \<lparr>vs_search = \<lparr>sc_query = [], sc_debounced = [], sc_mode = FilterMode, sc_currentMatchIndex = 0\<rparr>,
      vs_scroll = \<lparr>as_following = True, as_programmatic = False\<rparr>,
      vs_log = \<lparr>cv_paused = False, cv_buffer = empty_buffer\<rparr>, vs_service = open_viewer g, vs_stats = None,
      vs_error = None, vs_visible = []\<rparr>"

definition demo_container :: ui_container where
  "demo_container = \<lparr>uc_id = ''c1'', uc_name = ''web'', uc_image = ''web'', uc_status = ''Up'', uc_state = ''running'',
     uc_created = 0, uc_ports = [], uc_serviceName = None, uc_taskSlot = None, uc_nodeName = None\<rparr>"

definition demo_page :: "int live_page" where
  "demo_page = open_live (\<lambda>s. None) None None (\<lambda>k i. fresh_viewer \<lparr>sg_serviceName = ''s'', sg_containers = []\<rparr>)"

definition demo_listed :: "int live_page" where
  "demo_listed = demo_page\<lparr>lp_containers := (False, Some [demo_container], None)\<rparr>"

definition demo_click :: live_act where
  "demo_click = InList False (SelectContainer demo_container)"

lemma demo_can_click: "can_call (live_view demo_live_lib demo_listed) demo_click"
proof -
  have "SelectContainer demo_container \<in> set (offered (ContainerList [] [] False False (Some [demo_container]) None i n))" for i n
    by (simp add: offered_list nullish_default_def items_offered_def listed_def filter_containers_def groupByService_def
      group_step_def demo_container_def truthy_def sortByFavorite_def js_trim_def js_lower_def case_prod_unfold Let_def)
  then show ?thesis
    by (simp add: can_call_def live_view_def LiveStreamPage_def sidebarContent_def offered_map demo_click_def demo_listed_def
      demo_page_def open_live_def mount_list_def loadFavorites_def initial_tabs_def loadState_def truthy_def Let_def)
qed

lemma demo_run:
  "page_run (live_view demo_live_lib) live_calls live_reports demo_page (live_call (\<lambda>s. None) True demo_click demo_listed)"
proof -
  have "live_reports demo_page demo_listed" unfolding live_reports_def demo_listed_def by blast
  then have "page_run (live_view demo_live_lib) live_calls live_reports demo_page (Some demo_listed)"
    by (rule page_run.happened [OF page_run.opened])
  moreover have "live_calls demo_click demo_listed (live_call (\<lambda>s. None) True demo_click demo_listed)"
    unfolding live_calls_def by blast
  ultimately show ?thesis using demo_can_click page_run.used by metis
qed

lemma live_page_works_witness:
  "\<exists>s. live_call (\<lambda>s. None) True demo_click demo_listed = Some s \<and>
     tabs_ok MAX_TABS (lp_tabs s) \<and> length (nodes_where is_viewer (live_view demo_live_lib s)) = 2"
proof -
  have start: "tabs_ok MAX_TABS (initial_tabs (\<lambda>s. None) (Some None) [] None)"
    "list_all renders (ts_tabs (initial_tabs (\<lambda>s. None) (Some None) [] None))"
    by (simp_all add: initial_tabs_def loadState_def truthy_def tabs_ok_def nullish_def MAX_TABS_def)
  obtain s where s: "live_call (\<lambda>s. None) True demo_click demo_listed = Some s"
    by (simp add: live_call_def demo_click_def)
  have one: "length (ts_tabs (openTab MAX_TABS t \<lparr>ts_tabs = [], ts_activeTabId = None\<rparr>)) = 1" for t
    by (simp add: openTab_def MAX_TABS_def)
  have "lp_tabs s = handleSelectContainer demo_container \<lparr>ts_tabs = [], ts_activeTabId = None\<rparr>"
    using s by (auto simp: live_call_def demo_click_def demo_listed_def demo_page_def open_live_def initial_tabs_def
      loadState_def truthy_def nullish_def)
  then have "length (ts_tabs (lp_tabs s)) = 1" using one by (simp only: handleSelectContainer_def)
  with live_page_works [OF start demo_run [unfolded demo_page_def]] s show ?thesis by auto
qed

text \<open>
  The two lists keep their own favourites and store them over those of the other: what was starred in
  the list of the sheet is forgotten when the other list is used.
\<close>

lemma favourites_of_other_list_lost:
  "let s = open_live (\<lambda>s. None) None None viewers;
       s1 = list_call True True (ToggleFavorite ''container-a'') s;
       s2 = list_call True False (ToggleFavorite ''container-b'') s1
   in lp_stored s2 = Some (json_stringify (JArr [JStr ''container-b'']))"
  by (simp add: open_live_def mount_list_def loadFavorites_def truthy_def toggle_and_save_def toggleFavorite_def
    saveFavorites_def set_add_def on_list_def Let_def)


section \<open>What a viewer shows\<close>

definition is_placed :: "'a node \<Rightarrow> bool" where
  "is_placed n \<longleftrightarrow> (\<exists>i. Attr ''data-index'' i \<in> set (props n))"

lemma is_placed_simps [simp]:
  "\<not> is_placed (Txt s)" "is_placed (Elem t ps ks) \<longleftrightarrow> (\<exists>i. Attr ''data-index'' i \<in> set ps)"
  by (auto simp: is_placed_def)

text \<open>The texts of a row: an event, or a line with its message as HTML, with the matches marked in find mode.\<close>

definition message_html :: "'n live_lib \<Rightarrow> log_search \<Rightarrow> string \<Rightarrow> nat option \<Rightarrow> string" where
  "message_html lib s m position =
     (if sc_mode s = FindMode \<and> isSearching s then fst (highlightHtml (lv_toHtml lib m) (trimmedQuery s) position)
      else lv_toHtml lib m)"

definition entry_texts :: "'n live_lib \<Rightarrow> log_search \<Rightarrow> service_viewer \<Rightarrow> service_log_entry list \<Rightarrow> nat \<Rightarrow> string list" where
  "entry_texts lib s v displayed i =
     (let e = displayed ! i; time = formatTime (lv_time lib) (se_timestamp e) in
      if se_stream e = ''event'' then [time, ''--- '' @ se_message e @ '' ---'']
      else [time, take 8 (se_containerId e)] @
        (case map_of (sv_active v) (se_containerId e) of Some (Some n) \<Rightarrow> if n = [] then [] else [''@'' @ n] | _ \<Rightarrow> []) @
        [se_stream e, message_html lib s (se_message e) (row_position se_message s (lb_logs (sv_buffer v)) i)])"

lemma texts_service_row: "texts (service_row lib s v displayed i) = entry_texts lib s v displayed i"
  by (auto simp: service_row_def entry_texts_def ServiceEventRow_def ServiceLogRow_def HighlightedAnsiText_def stream_span_def
      message_html_def row_query_def truthy_def isSearching_def Let_def show_if_def split: option.splits)

lemma no_placed [simp]:
  "nodes_where is_placed (service_row lib s v d i) = []" "nodes_where is_placed (replica_entry lib m v r) = []"
  "nodes_where is_placed (toolbar s) = []" "nodes_where is_placed (stream_buttons x y z) = []"
  by (auto simp: service_row_def ServiceLogRow_def ServiceEventRow_def HighlightedAnsiText_def stream_span_def
      replica_entry_def toolbar_def stream_buttons_def Let_def show_if_def split: prod.splits option.splits)

lemma placed_rows: "map texts (nodes_where is_placed (placed_row f g b i row)) = texts row # map texts (nodes_where is_placed row)"
  by (auto simp: placed_row_def)

lemma render_colors_keeps [simp]: "sv_active (render_colors ids v) = sv_active v" "sv_buffer (render_colors ids v) = sv_buffer v"
proof -
  have "sv_active (fold getContainerColor ids v) = sv_active v \<and> sv_buffer (fold getContainerColor ids v) = sv_buffer v"
    by (induction ids arbitrary: v) (simp_all add: getContainerColor_def)
  then show "sv_active (render_colors ids v) = sv_active v" "sv_buffer (render_colors ids v) = sv_buffer v"
    by (simp_all add: render_colors_def)
qed

lemma entry_texts_rendered: "entry_texts lib s (render_colors ids v) d i = entry_texts lib s v d i"
  by (simp add: entry_texts_def Let_def)

lemma viewer_rows:
  "map texts (nodes_where is_placed (ServiceLogViewer lib name s v following stats visible)) =
     (if displayedLogs se_message s (lb_logs (sv_buffer v)) = [] then []
      else map (entry_texts lib s v (displayedLogs se_message s (lb_logs (sv_buffer v)))) visible)"
proof -
  have rows: "map texts (concat (map (\<lambda>i. nodes_where is_placed (placed_row f g b i (service_row lib s u d i))) is)) =
      map (entry_texts lib s u d) is" for f g b u d "is"
    by (induction "is") (simp_all add: placed_rows texts_service_row)
  show ?thesis
    by (auto simp: ServiceLogViewer_def service_stats_def Let_def show_if_def comp_def rows entry_texts_rendered)
qed

text \<open>A viewer shows its lines. The rows in view are, in order, the lines displayed at their
  positions, each with its time, replica, node, stream and message; in filter mode these are the lines
  of the buffer that contain the query; in find mode they are all lines, and where the query occurs,
  the label counts the matches of all lines, its number is that of the one match that is marked, which
  lies in one line, and every other row in view has no current match.\<close>

theorem viewer_shows_log:
  assumes "displayedLogs se_message s (lb_logs (sv_buffer v)) \<noteq> []"
  defines "logs \<equiv> lb_logs (sv_buffer v)"
  shows "map texts (nodes_where is_placed (ServiceLogViewer lib name s v following stats visible)) =
      map (entry_texts lib s v (displayedLogs se_message s logs)) visible \<and>
    (sc_mode s = FilterMode \<and> isSearching s \<longrightarrow>
       displayedLogs se_message s logs = filter (\<lambda>e. js_includes (js_lower (se_message e)) (js_lower (trimmedQuery s))) logs) \<and>
    (sc_mode s = FindMode \<longrightarrow> displayedLogs se_message s logs = logs) \<and>
    (sc_mode s = FindMode \<and> isSearching s \<and> 0 < totalMatches (hook_matches se_message s logs) \<longrightarrow>
       (\<exists>before line n behind p. hook_matches se_message s logs = before @ (line, n) # behind \<and> p < n \<and>
          count_label se_message s logs =
            show_nat (totalMatches before + p + 1) @ ''/'' @ show_nat (totalMatches (hook_matches se_message s logs)) @ '' matches'' \<and>
          (\<forall>i. row_position se_message s logs i = (if i = line then Some p else None))))"
proof -
  let ?ms = "hook_matches se_message s logs" and ?i = "clampedIndex (hook_matches se_message s logs) (sc_currentMatchIndex s)"
  have rows: "map texts (nodes_where is_placed (ServiceLogViewer lib name s v following stats visible)) =
      map (entry_texts lib s v (displayedLogs se_message s logs)) visible"
    using assms by (simp add: viewer_rows logs_def)
  have filtered: "displayedLogs se_message s logs =
      filter (\<lambda>e. js_includes (js_lower (se_message e)) (js_lower (trimmedQuery s))) logs"
    if "sc_mode s = FilterMode" "isSearching s"
    using that by (simp add: displayedLogs_def filteredLogs_def Let_def)
  have "\<exists>before line n behind p. ?ms = before @ (line, n) # behind \<and> p < n \<and>
          count_label se_message s logs =
            show_nat (totalMatches before + p + 1) @ ''/'' @ show_nat (totalMatches ?ms) @ '' matches'' \<and>
          (\<forall>i. row_position se_message s logs i = (if i = line then Some p else None))"
    if find: "sc_mode s = FindMode" "isSearching s" and pos: "0 < totalMatches ?ms"
  proof -
    have "?i < totalMatches ?ms" using pos by (simp add: clampedIndex_def)
    from locate_found [of ?i ?ms] this obtain before line n behind p where
      loc: "?ms = before @ (line, n) # behind" "locate ?ms ?i = Some (line, p)" "p < n" "?i = totalMatches before + p"
      by (auto simp: totalMatches_sum)
    have "currentMatch ?ms (sc_currentMatchIndex s) = Some (line, p)"
      using pos loc(1,2) by (simp add: currentMatch_def)
    then have "row_position se_message s logs i = (if i = line then Some p else None)" for i
      using find by (simp add: row_position_def getMatchPositionForLog_def)
    moreover have "count_label se_message s logs =
        show_nat (totalMatches before + p + 1) @ ''/'' @ show_nat (totalMatches ?ms) @ '' matches''"
      using find pos loc(4) by (simp add: count_label_def Let_def)
    ultimately show ?thesis using loc(1,3) by blast
  qed
  with rows filtered show ?thesis by (auto simp: displayedLogs_def)
qed

definition demo_entry :: "string \<Rightarrow> service_log_entry" where
  "demo_entry m = \<lparr>se_containerId = ''c1234567890'', se_timestamp = ''10:00'', se_message = m, se_stream = ''stdout'',
     se_serviceName = ''api'', se_event = None\<rparr>"

lemma viewer_shows_log_witness:
  "map texts (nodes_where is_placed (ServiceLogViewer demo_live_lib ''api''
      \<lparr>sc_query = ''err'', sc_debounced = ''err'', sc_mode = FilterMode, sc_currentMatchIndex = 0\<rparr>
      ((open_viewer \<lparr>sg_serviceName = ''api'', sg_containers = []\<rparr>)
         \<lparr>sv_buffer := empty_buffer\<lparr>lb_logs := [demo_entry ''ok'', demo_entry ''an error'']\<rparr>\<rparr>) True None [0])) =
    [[''10:00'', ''c1234567'', ''stdout'', ''an error'']]"
proof -
  let ?s = "\<lparr>sc_query = ''err'', sc_debounced = ''err'', sc_mode = FilterMode, sc_currentMatchIndex = 0\<rparr>"
  let ?v = "(open_viewer \<lparr>sg_serviceName = ''api'', sg_containers = []\<rparr>)
     \<lparr>sv_buffer := empty_buffer\<lparr>lb_logs := [demo_entry ''ok'', demo_entry ''an error'']\<rparr>\<rparr>"
  have q: "trimmedQuery ?s = ''err''" by (simp add: trimmedQuery_def) code_simp
  have inc: "js_includes (js_lower ''ok'') (js_lower ''err'') = False" "js_includes (js_lower ''an error'') (js_lower ''err'') = True"
    by code_simp+
  have shown: "displayedLogs se_message ?s (lb_logs (sv_buffer ?v)) = [demo_entry ''an error'']"
    by (simp add: displayedLogs_def filteredLogs_def isSearching_def q demo_entry_def inc Let_def)
  then have ne: "displayedLogs se_message ?s (lb_logs (sv_buffer ?v)) \<noteq> []" by simp
  from viewer_shows_log [OF ne, of demo_live_lib "''api''" True None "[0]"] shown
  have "map texts (nodes_where is_placed (ServiceLogViewer demo_live_lib ''api'' ?s ?v True None [0])) =
    [entry_texts demo_live_lib ?s ?v [demo_entry ''an error''] 0]" by simp
  then show ?thesis
    by (simp add: entry_texts_def demo_entry_def demo_live_lib_def formatTime_def message_html_def open_viewer_def)
qed

end
