(* ===== verification/Ui_History.thy ===== *)
theory Ui_History
  imports Log_History_Properties Ui_Tabs
begin

text \<open>
  The search panel of the history page (apps/ui/src/features/history/components/SearchPanel.tsx): its
  form, the request it sends, the label of its tab, and the next page. A request goes to the gateway's
  log search, so that the panel's properties are those of the search on the request.
\<close>

section \<open>The form\<close>

record search_panel =
  pn_app :: string
  pn_appOpen :: bool
  pn_from :: string
  pn_fromTime :: string
  pn_to :: string
  pn_toTime :: string
  pn_level :: string
  pn_keyword :: string
  pn_node :: string
  pn_afterCursor :: "string option"

text \<open>\<open>today\<close> is the date when the panel is first rendered.\<close>

definition new_panel :: "string \<Rightarrow> search_panel" where
  "new_panel today =
     \<lparr>pn_app = [], pn_appOpen = False, pn_from = today, pn_fromTime = [], pn_to = today, pn_toTime = [], pn_level = [],
      pn_keyword = [], pn_node = [], pn_afterCursor = None\<rparr>"

definition panel_nodes :: "LogApp list \<Rightarrow> string list" where
  "panel_nodes appsData = set_of_list (map la_node appsData)"

definition panel_apps :: "LogApp list \<Rightarrow> string list" where
  "panel_apps appsData = js_sort js_compare (set_of_list (map la_name appsData))"

definition select_app :: "string \<Rightarrow> search_panel \<Rightarrow> search_panel" where
  "select_app value s = s\<lparr>pn_app := (if value = pn_app s then [] else value), pn_appOpen := False\<rparr>"

section \<open>Searching\<close>

text \<open>\<open>s || undefined\<close>.\<close>

definition opt_text :: "string \<Rightarrow> string option" where
  "opt_text s = (if s = [] then None else Some s)"

definition search_variables :: "string option \<Rightarrow> search_panel \<Rightarrow> LogSearchInput" where
  "search_variables cursor s =
     \<lparr>si_app = pn_app s, si_from = pn_from s, si_fromTime = opt_text (pn_fromTime s), si_to = pn_to s,
      si_toTime = opt_text (pn_toTime s), si_level = opt_text (pn_level s), si_keyword = opt_text (pn_keyword s),
      si_node = opt_text (pn_node s), si_after = (if truthy cursor then cursor else None), si_limit = Some 100\<rparr>"

text \<open>The separator of the label is a middle dot.\<close>

definition search_label :: "search_panel \<Rightarrow> string" where
  "search_label s =
     (let timeLabel = (if pn_fromTime s \<noteq> [] \<or> pn_toTime s \<noteq> []
                       then (if pn_fromTime s = [] then ''00:00'' else pn_fromTime s) @ ''~'' @
                            (if pn_toTime s = [] then ''23:59'' else pn_toTime s)
                       else []);
          dates = join '' '' (filter (\<lambda>x. x \<noteq> []) [pn_from s, timeLabel]);
          label = join ('' '' @ [CHR 0xB7] @ '' '') (filter (\<lambda>x. x \<noteq> []) [pn_app s, pn_level s, dates])
      in if label = [] then ''Search'' else label)"

text \<open>The request and the label, if the search is made.\<close>

definition handleSearch ::
  "string option \<Rightarrow> search_panel \<Rightarrow> (LogSearchInput \<times> string) option \<times> search_panel" where
  "handleSearch cursor s =
     (if pn_app s = [] then (None, s)
      else (Some (search_variables cursor s, search_label s), s\<lparr>pn_afterCursor := cursor\<rparr>))"

definition handleNextPage ::
  "LogSearchResult option \<Rightarrow> search_panel \<Rightarrow> (LogSearchInput \<times> string) option \<times> search_panel" where
  "handleNextPage result s =
     (case result of
        None \<Rightarrow> (None, s)
      | Some r \<Rightarrow>
          if sr_lines r = [] then (None, s)
          else (let lastLine = last (sr_lines r) in
                if truthy (ll_timestamp lastLine) then handleSearch (ll_timestamp lastLine) s else (None, s)))"

section \<open>The page\<close>

text \<open>HistoryPage.tsx: a tab is named after the millisecond it is made in.\<close>

definition MAX_SEARCH_TABS :: int where "MAX_SEARCH_TABS = 10"

definition createTab :: "nat \<Rightarrow> tab" where
  "createTab now = \<lparr>tb_id = ''search-'' @ show_nat now, tb_label = ''New Search'', tb_data = Some JNull\<rparr>"

definition history_start :: "nat \<Rightarrow> tabs_state" where
  "history_start now = initial_tabs (\<lambda>s. None) None [createTab now] (Some (tb_id (createTab now)))"

definition addTab :: "nat \<Rightarrow> tabs_state \<Rightarrow> tabs_state" where
  "addTab now s = openTab MAX_SEARCH_TABS (createTab now) s"

section \<open>Properties\<close>

text \<open>Tabs made at different times differ; a second one in the same millisecond is not made.\<close>

lemma createTab_ids: "tb_id (createTab m) = tb_id (createTab n) \<longleftrightarrow> m = n"
  by (auto simp: createTab_def dest: show_nat_inj)

lemma same_millisecond: "addTab now (history_start now) = history_start now"
  by (simp add: addTab_def openTab_def history_start_def initial_tabs_def)

text \<open>The list of applications does not depend on the order in which the hosts answer.\<close>

lemma panel_apps_stable: "la_name ` set ds = la_name ` set es \<Longrightarrow> panel_apps ds = panel_apps es"
  unfolding panel_apps_def by (rule text_order.js_sort_set) (simp_all add: distinct_set_of_list)

lemma panel_apps_sorted:
  "set (panel_apps ds) = la_name ` set ds" "distinct (panel_apps ds)"
  "sorted_wrt (\<lambda>a b. js_compare a b < 0) (panel_apps ds)"
proof -
  show "set (panel_apps ds) = la_name ` set ds" by (simp add: panel_apps_def)
  have "mset (panel_apps ds) = mset (set_of_list (map la_name ds))" by (simp add: panel_apps_def)
  then show dist: "distinct (panel_apps ds)" using distinct_set_of_list mset_eq_imp_distinct_iff by blast
  have "sorted_wrt (\<lambda>a b. js_compare a b \<le> 0) (panel_apps ds)"
    unfolding panel_apps_def by (rule text_order.sorted_js_sort)
  moreover have "sorted_wrt (\<lambda>a b. js_compare a b < 0) xs"
    if "distinct xs" "sorted_wrt (\<lambda>a b. js_compare a b \<le> 0) xs" for xs
    using that
  proof (induction xs)
    case (Cons a xs)
    have "js_compare a b < 0" if "b \<in> set xs" for b
      using that Cons.prems js_compare_eq [of a b] by (cases "js_compare a b = 0") auto
    with Cons show ?case by simp
  qed simp
  ultimately show "sorted_wrt (\<lambda>a b. js_compare a b < 0) (panel_apps ds)" using dist by blast
qed

text \<open>The next page continues the search shown. Where the last line of the result has a timestamp and the
  form still has an application, the request of the next page asks for what comes after that line,
  with everything else as the form says now; the gateway answers it with at most one hundred lines in
  order, and where the form is as it was for the first page, the two requests differ in the cursor only.
  A result without lines asks for no further page.\<close>

theorem next_page_continues:
  assumes "pn_app s \<noteq> []" and "sr_lines r \<noteq> []" and "ll_timestamp (last (sr_lines r)) = Some t" and "t \<noteq> []"
    and "comparator localeCompare"
    and "search localeCompare (Inr hosts) port fetchLines fetchStats (search_variables (Some t) s) = Inr r2"
  shows "fst (handleNextPage (Some r) s) = Some (search_variables (Some t) s, search_label s) \<and>
    search_variables (Some t) s = (search_variables None s)\<lparr>si_after := Some t\<rparr> \<and>
    pn_afterCursor (snd (handleNextPage (Some r) s)) = Some t \<and>
    length (sr_lines r2) \<le> 100 \<and>
    sorted_wrt (\<lambda>a b. localeCompare (nullish_default (ll_timestamp a) []) (nullish_default (ll_timestamp b) []) \<le> 0) (sr_lines r2) \<and>
    fst (handleNextPage (Some (r\<lparr>sr_lines := []\<rparr>)) s) = None"
proof -
  have limit: "0 \<le> nullish_default (si_limit (search_variables (Some t) s)) 100" by (simp add: search_variables_def)
  from search_lines(1) [OF limit assms(6)] obtain xs where
    r2: "sr_lines r2 = take 100 (js_sort (\<lambda>a b. localeCompare (ts a) (ts b)) xs)"
    by (simp add: search_variables_def)
  have "sorted_wrt (\<lambda>a b. localeCompare (ts a) (ts b) \<le> 0) (sr_lines r2)"
    unfolding r2 by (rule sorted_wrt_take [OF sorted_by_key [OF assms(5)]])
  moreover have "length (sr_lines r2) \<le> 100" by (simp add: r2)
  ultimately show ?thesis
    using assms(1-4) by (simp add: handleNextPage_def handleSearch_def search_variables_def truthy_def Let_def ts_def)
qed

lemma next_page_continues_witness:
  "pn_afterCursor (snd (handleNextPage
     (Some \<lparr>sr_lines = [demo_line ''10:01''], sr_hasMore = True, sr_summary = \<lparr>sm_totalLines = 1, sm_errorCount = 0,
        sm_warnCount = 0, sm_infoCount = 1, sm_fileCount = 1\<rparr>\<rparr>) ((new_panel ''2026-01-01'')\<lparr>pn_app := ''auth''\<rparr>))) = Some ''10:01''"
proof -
  let ?s = "(new_panel ''2026-01-01'')\<lparr>pn_app := ''auth''\<rparr>"
  let ?r = "\<lparr>sr_lines = [demo_line ''10:01''], sr_hasMore = True, sr_summary = \<lparr>sm_totalLines = 1, sm_errorCount = 0,
        sm_warnCount = 0, sm_infoCount = 1, sm_fileCount = 1\<rparr>\<rparr>"
  obtain r2 where "search js_compare (Inr [''h'']) 4003 demo_lines demo_stats (search_variables (Some ''10:01'') ?s) = Inr r2"
    by (simp add: search_eq Let_def)
  from next_page_continues [OF _ _ _ _ text_order.comparator_axioms this, of ?r] show ?thesis
    by (simp add: demo_line_def)
qed

text \<open>
  The next page is asked for with the form as it is now: where it has been changed since the search, the
  lines that follow are those of another search.
\<close>

lemma next_page_takes_the_edited_form:
  assumes "sr_lines r \<noteq> []" and "ll_timestamp (last (sr_lines r)) = Some t" and "t \<noteq> []" and "a \<noteq> []"
  shows "\<exists>l. fst (handleNextPage (Some r) (s\<lparr>pn_app := a\<rparr>)) = Some ((search_variables (Some t) s)\<lparr>si_app := a\<rparr>, l)"
  using assms by (simp add: handleNextPage_def handleSearch_def search_variables_def truthy_def)

end
