(* ===== verification/Ui_History_View.thy ===== *)
theory Ui_History_View
  imports Ui_History Ui_Format Ui_Markup
begin

text \<open>
  What the history page renders: the search panel with its form, its summary and its table
  (SearchPanel.tsx), the bar of its tabs (HistoryTabBar.tsx) and the page (HistoryPage.tsx), and what
  the elements call. \<open>AnsiText\<close> gives the text to ansi-to-html, which is a parameter, as are the
  number format of the platform and dayjs.
\<close>

record ui_lib =
  ul_toHtml :: "string \<Rightarrow> string"
  ul_number :: "int \<Rightarrow> string"
  ul_parse :: json_parser
  ul_kst :: "string \<Rightarrow> string option"

section \<open>A line of the result\<close>

datatype panel_act =
  SetAppOpen bool | SelectApp string | SetFrom string | SetFromTime string | SetTo string | SetToTime string
| SetLevel string | SetKeyword string | SetNode string | Search | NextPage | ToggleRow string

definition LEVELS :: "string list" where
  "LEVELS = [''ERROR'', ''WARN'', ''INFO'', ''DEBUG'']"

definition LEVEL_COLORS :: "(string \<times> string) list" where
  "LEVEL_COLORS =
     [(''ERROR'', ''bg-red-900/50 text-red-300 border-red-700''),
      (''WARN'', ''bg-yellow-900/50 text-yellow-300 border-yellow-700''),
      (''INFO'', ''bg-green-900/50 text-green-300 border-green-700''),
      (''DEBUG'', ''bg-secondary text-muted-foreground border-border'')]"

text \<open>\<open>null\<close> and what does not parse have no metadata.\<close>

definition parsedMetadata :: "json_parser \<Rightarrow> LogLine \<Rightarrow> json" where
  "parsedMetadata parse line =
     (if \<not> truthy (ll_metadata line) then JNull
      else (case parse (the (ll_metadata line)) of Some v \<Rightarrow> v | None \<Rightarrow> JNull))"

definition object_entries :: "json \<Rightarrow> (string \<times> json) list" where
  "object_entries v =
     (case v of
        JObj kvs \<Rightarrow> kvs
      | JArr vs \<Rightarrow> zip (map show_nat [0..<length vs]) vs
      | JStr s \<Rightarrow> zip (map show_nat [0..<length s]) (map (\<lambda>c. JStr [c]) s)
      | _ \<Rightarrow> [])"

definition metadata_text :: "json \<Rightarrow> string" where
  "metadata_text v = (case v of JStr s \<Rightarrow> s | _ \<Rightarrow> json_stringify v)"

definition AnsiText :: "ui_lib \<Rightarrow> string \<Rightarrow> 'a node" where
  "AnsiText lib s = Elem ''span'' [Attr ''dangerouslySetInnerHTML'' (ul_toHtml lib s)] []"

definition metadata_row :: "json \<Rightarrow> 'a node list" where
  "metadata_row v =
     (if json_truthy v
      then [Elem ''TableRow'' [Attr ''class'' ''bg-muted/30'']
              [Elem ''TableCell'' [Attr ''colSpan'' ''6'']
                 [Elem ''div'' []
                    (map (\<lambda>(key, value). Elem ''span'' [Attr ''key'' key]
                       [Elem ''span'' [] [Txt key], Elem ''span'' [] [Txt '': ''],
                        Elem ''span'' [] [Txt (metadata_text value)]]) (object_entries v))]]]
      else if v = JNum 0 then [Txt ''0''] else [])"

definition HistoryLogRow :: "ui_lib \<Rightarrow> bool \<Rightarrow> string \<Rightarrow> LogLine \<Rightarrow> panel_act node list" where
  "HistoryLogRow lib expanded key line =
     (let v = parsedMetadata (ul_parse lib) line; hasMetadata = (v \<noteq> JNull);
          level = nullish_default (ll_level line) [];
          levelColor = (if truthy (ll_level line) then nullish_default (map_of LEVEL_COLORS level) [] else [])
      in [Elem ''TableRow''
            [Attr ''class'' (if hasMetadata then ''cursor-pointer hover:bg-muted/50'' else []),
             OnClick (if hasMetadata then [ToggleRow key] else [])]
            [Elem ''TableCell'' []
               [Elem ''span'' []
                  (show_if hasMetadata [Elem (if expanded then ''ChevronDown'' else ''ChevronRight'') [] []] @
                   [Txt (toKST (ul_kst lib) (ll_timestamp line))])],
             Elem ''TableCell'' []
               (show_if (truthy (ll_level line)) [Elem ''Badge'' [Attr ''class'' levelColor] [Txt level]]),
             Elem ''TableCell'' [] [Txt (nullish_default (ll_source line) [])],
             Elem ''TableCell'' [] [AnsiText lib (ll_message line)],
             Elem ''TableCell'' [] [Txt (ll_node line)],
             Elem ''TableCell'' [] [Txt (ll_file line)]]] @
         show_if expanded (metadata_row v))"

text \<open>The keys of the rows; a row keeps its state as long as a row with its key is rendered.\<close>

definition row_key :: "nat \<Rightarrow> LogLine \<Rightarrow> string" where
  "row_key i line = ll_file line @ '':'' @ show_int (ll_lineNo line) @ '':'' @ show_nat i"

definition row_keys :: "LogSearchResult option \<Rightarrow> string list" where
  "row_keys result = (case result of None \<Rightarrow> [] | Some r \<Rightarrow> map2 row_key [0..<length (sr_lines r)] (sr_lines r))"

definition toggle_row :: "string \<Rightarrow> string list \<Rightarrow> string list" where
  "toggle_row key expanded = (if key \<in> set expanded then filter (\<lambda>k. k \<noteq> key) expanded else key # expanded)"

definition rows_after :: "LogSearchResult option \<Rightarrow> string list \<Rightarrow> string list" where
  "rows_after result expanded = filter (\<lambda>k. k \<in> set (row_keys result)) expanded"

section \<open>The panel\<close>

definition app_button :: "search_panel \<Rightarrow> panel_act node" where
  "app_button s =
     Elem ''Button'' [Attr ''role'' ''combobox'', Attr ''aria-expanded'' (if pn_appOpen s then ''true'' else ''false'')]
       [Txt (if pn_app s = [] then ''Select app...'' else pn_app s)]"

text \<open>The list of the applications is rendered while it is open, in a portal; so is that of the nodes, which its
  component opens and closes by itself.\<close>

definition app_field :: "LogApp list \<Rightarrow> search_panel \<Rightarrow> panel_act node" where
  "app_field appsData s =
     Elem ''div'' []
       [Elem ''Label'' [] [Txt ''App''],
        Elem ''Popover'' [Open (pn_appOpen s), OnOpenChange (\<lambda>b. [SetAppOpen b])]
          ([Elem ''PopoverTrigger'' [] [app_button s]] @
           show_if (pn_appOpen s)
            [Elem ''PopoverContent'' [Portal]
             [Elem ''Command'' []
                [Elem ''CommandInput'' [Attr ''placeholder'' ''Search app...''] [],
                 Elem ''CommandList'' []
                   [Elem ''CommandEmpty'' [] [Txt ''No app found.''],
                    Elem ''CommandGroup'' []
                      (map (\<lambda>a. Elem ''CommandItem''
                                   [Attr ''key'' a, Attr ''value'' a, OnSelect (\<lambda>value. [SelectApp value])]
                                   [Elem ''Check'' [Attr ''class'' (if pn_app s = a then ''opacity-100'' else ''opacity-0'')] [],
                                    Txt a]) (panel_apps appsData))]]]])]"

definition input_field ::
  "string \<Rightarrow> string \<Rightarrow> string \<Rightarrow> (string \<Rightarrow> panel_act) \<Rightarrow> panel_act node" where
  "input_field label ty value act =
     Elem ''div'' []
       [Elem ''Label'' [] [Txt label],
        Elem ''Input'' [Attr ''type'' ty, Attr ''value'' value, OnChange (\<lambda>v. [act v])] []]"

definition level_field :: "search_panel \<Rightarrow> panel_act node" where
  "level_field s =
     (let off = ''bg-secondary text-muted-foreground border-border hover:bg-gray-700'' in
      Elem ''div'' []
        [Elem ''Label'' [] [Txt ''Level''],
         Elem ''div'' []
           (Elem ''Button''
              [OnClick [SetLevel []],
               Attr ''class'' (if pn_level s = [] then ''bg-gray-600 text-white border-gray-500'' else off)] [Txt ''ALL''] #
            map (\<lambda>l. Elem ''Button''
                        [Attr ''key'' l, OnClick [SetLevel (if pn_level s = l then [] else l)],
                         Attr ''class'' (if pn_level s = l then nullish_default (map_of LEVEL_COLORS l) [] else off)]
                        [Txt l]) LEVELS)])"

definition keyword_field :: "search_panel \<Rightarrow> panel_act node" where
  "keyword_field s =
     Elem ''div'' []
       [Elem ''Label'' [] [Txt ''Keyword''],
        Elem ''Input'' [Attr ''value'' (pn_keyword s), OnChange (\<lambda>v. [SetKeyword v]),
          OnKeyDown (\<lambda>k. if k = ''Enter'' then [Search] else []), Attr ''placeholder'' ''Search...''] []]"

definition node_field :: "LogApp list \<Rightarrow> search_panel \<Rightarrow> panel_act node" where
  "node_field appsData s =
     Elem ''div'' []
       [Elem ''Label'' [] [Txt ''Node''],
        Elem ''Select''
          ((if pn_node s = [] then [] else [Attr ''value'' (pn_node s)]) @
           [OnChange (\<lambda>val. [SetNode (if val = ''__all__'' then [] else val)])])
          [Elem ''SelectTrigger'' [] [Elem ''SelectValue'' [Attr ''placeholder'' ''All nodes''] []],
           Elem ''SelectContent'' [Portal]
             (Elem ''SelectItem'' [Attr ''value'' ''__all__''] [Txt ''All nodes''] #
              map (\<lambda>n. Elem ''SelectItem'' [Attr ''key'' n, Attr ''value'' n] [Txt n]) (panel_nodes appsData))]]"

definition search_button :: "bool \<Rightarrow> search_panel \<Rightarrow> panel_act node" where
  "search_button loading s =
     Elem ''Button'' [OnClick [Search], Disabled (pn_app s = [] \<or> loading)]
       [Txt (if loading then ''Searching...'' else ''Search'')]"

definition summary_bar :: "ui_lib \<Rightarrow> search_panel \<Rightarrow> LogSearchResult \<Rightarrow> panel_act node" where
  "summary_bar lib s r =
     (let m = sr_summary r in
      Elem ''div'' []
        [Elem ''span'' [] [Txt (show_int (sm_fileCount m) @ '' files'')],
         Elem ''span'' [] [Txt (ul_number lib (sm_totalLines m) @ '' total lines'')],
         Elem ''span'' [] [Txt (ul_number lib (sm_errorCount m) @ '' errors'')],
         Elem ''span'' [] [Txt (ul_number lib (sm_warnCount m) @ '' warnings'')],
         Elem ''span'' [] [Txt (ul_number lib (sm_infoCount m) @ '' info'')],
         Elem ''span'' [] [Txt (''Showing '' @ show_nat (length (sr_lines r)) @ '' lines'' @
            (if truthy (pn_afterCursor s) then '' (paginated)'' else []))]])"

definition skeletons :: "'a node" where
  "skeletons =
     Elem ''div'' [] (map (\<lambda>i. Elem ''div'' [Attr ''key'' (show_nat i)] (replicate 6 (Elem ''Skeleton'' [] []))) [0..<8])"

definition result_table :: "ui_lib \<Rightarrow> string list \<Rightarrow> LogSearchResult \<Rightarrow> panel_act node" where
  "result_table lib expanded r =
     Elem ''Table'' []
       [Elem ''TableHeader'' []
          [Elem ''TableRow'' []
             (map (\<lambda>h. Elem ''TableHead'' [] [Txt h]) [''Timestamp'', ''Level'', ''Source'', ''Message'', ''Node'', ''File''])],
        Elem ''TableBody'' []
          (concat (map2 (\<lambda>i line. let key = row_key i line in HistoryLogRow lib (key \<in> set expanded) key line)
             [0..<length (sr_lines r)] (sr_lines r)))]"

definition result_area :: "ui_lib \<Rightarrow> string list \<Rightarrow> bool \<Rightarrow> LogSearchResult option \<Rightarrow> panel_act node list" where
  "result_area lib expanded loading result =
     show_if (loading \<and> result = None) [skeletons] @
     show_if (result = None \<and> \<not> loading) [Elem ''div'' [] [Elem ''p'' [] [Txt ''Select an app and date range to search logs'']]] @
     (case result of
        None \<Rightarrow> []
      | Some r \<Rightarrow>
          show_if (sr_lines r = []) [Elem ''div'' [] [Elem ''p'' [] [Txt ''No matching logs found'']]] @
          show_if (sr_lines r \<noteq> []) [result_table lib expanded r])"

definition pagination :: "bool \<Rightarrow> LogSearchResult option \<Rightarrow> panel_act node list" where
  "pagination loading result =
     show_if (case result of None \<Rightarrow> False | Some r \<Rightarrow> sr_hasMore r)
       [Elem ''div'' []
          [Elem ''Button'' [OnClick [NextPage], Disabled loading] [Txt (if loading then ''Loading...'' else ''Load more'')]]]"

definition SearchPanel ::
  "ui_lib \<Rightarrow> LogApp list \<Rightarrow> search_panel \<Rightarrow> string list \<Rightarrow> bool \<Rightarrow> LogSearchResult option \<Rightarrow> panel_act node" where
  "SearchPanel lib appsData s expanded loading result =
     Elem ''div'' []
       ([Elem ''div'' []
           [app_field appsData s,
            input_field ''From'' ''date'' (pn_from s) SetFrom, input_field ''Start'' ''time'' (pn_fromTime s) SetFromTime,
            input_field ''To'' ''date'' (pn_to s) SetTo, input_field ''End'' ''time'' (pn_toTime s) SetToTime,
            level_field s, keyword_field s, node_field appsData s, search_button loading s]] @
        show_if loading [Elem ''div'' [] [Elem ''div'' [Attr ''animation'' ''progress-indeterminate''] []]] @
        (case result of None \<Rightarrow> [] | Some r \<Rightarrow> [summary_bar lib s r]) @
        [Elem ''div'' [] (result_area lib expanded loading result)] @
        pagination loading result)"

text \<open>The calls of the elements: a change of the form, or a search with the label of its tab.\<close>

fun panel_step ::
  "LogSearchResult option \<Rightarrow> panel_act \<Rightarrow> search_panel \<times> string list \<Rightarrow>
     (LogSearchInput \<times> string) option \<times> search_panel \<times> string list" where
  "panel_step result (SetAppOpen b) (s, e) = (None, s\<lparr>pn_appOpen := b\<rparr>, e)"
| "panel_step result (SelectApp v) (s, e) = (None, select_app v s, e)"
| "panel_step result (SetFrom v) (s, e) = (None, s\<lparr>pn_from := v\<rparr>, e)"
| "panel_step result (SetFromTime v) (s, e) = (None, s\<lparr>pn_fromTime := v\<rparr>, e)"
| "panel_step result (SetTo v) (s, e) = (None, s\<lparr>pn_to := v\<rparr>, e)"
| "panel_step result (SetToTime v) (s, e) = (None, s\<lparr>pn_toTime := v\<rparr>, e)"
| "panel_step result (SetLevel v) (s, e) = (None, s\<lparr>pn_level := v\<rparr>, e)"
| "panel_step result (SetKeyword v) (s, e) = (None, s\<lparr>pn_keyword := v\<rparr>, e)"
| "panel_step result (SetNode v) (s, e) = (None, s\<lparr>pn_node := v\<rparr>, e)"
| "panel_step result Search (s, e) = (let (q, s') = handleSearch None s in (q, s', e))"
| "panel_step result NextPage (s, e) = (let (q, s') = handleNextPage result s in (q, s', e))"
| "panel_step result (ToggleRow k) (s, e) = (None, s, toggle_row k e)"

section \<open>The tabs and the page\<close>

datatype history_act = InTabs tab_event | NewTab | InPanel string panel_act

text \<open>The cross is an element inside the button of its tab, and keeps its click from it.\<close>

definition history_tab :: "string option \<Rightarrow> tab \<Rightarrow> history_act node" where
  "history_tab activeTabId t =
     (let isActive = (Some (tb_id t) = activeTabId) in
      Elem ''button''
        [Attr ''key'' (tb_id t), OnClick [InTabs (SelectTab (tb_id t))],
         Attr ''class'' (if isActive then ''bg-background text-foreground border-b-2 border-b-primary''
                         else ''text-muted-foreground hover:bg-secondary/50 hover:text-foreground'')]
        [Elem ''Search'' [] [], Elem ''span'' [] [Txt (tb_label t)],
         Elem ''span''
           [Attr ''role'' ''button'', OnStop [InTabs (CloseTab (tb_id t))],
            Attr ''class'' (if isActive then ''opacity-60 hover:opacity-100''
                            else ''opacity-0 group-hover:opacity-60 hover:opacity-100!'')]
           [Elem ''X'' [] []]])"

definition HistoryTabBar :: "tabs_state \<Rightarrow> history_act node" where
  "HistoryTabBar s =
     Elem ''div'' [Attr ''data-testid'' ''history-tab-bar'']
       (map (history_tab (ts_activeTabId s)) (ts_tabs s) @
        [Elem ''button'' [OnClick [NewTab], Disabled (MAX_SEARCH_TABS \<le> int (length (ts_tabs s)))] [Elem ''Plus'' [] []]])"

text \<open>The panels of all tabs are rendered, with the state each keeps; only that of the active tab takes clicks.\<close>

definition HistoryPage :: "tabs_state \<Rightarrow> (string \<Rightarrow> panel_act node) \<Rightarrow> history_act node" where
  "HistoryPage s panel =
     Elem ''div'' []
       [HistoryTabBar s,
        if ts_tabs s = []
        then Elem ''div'' [] [Elem ''Search'' [] [], Elem ''p'' [] [Txt ''No search tabs open''],
               Elem ''Button'' [OnClick [NewTab]] [Elem ''Plus'' [] [], Txt ''New Search'']]
        else Elem ''div'' []
               (map (\<lambda>t. let isActive = (Some (tb_id t) = ts_activeTabId s) in
                  Elem ''motion.div''
                    [Attr ''key'' (tb_id t), Attr ''opacity'' (if isActive then ''1'' else ''0''),
                     Attr ''scale'' (if isActive then ''1'' else ''0.98''), Inert (\<not> isActive)]
                    [map_node (InPanel (tb_id t)) (panel (tb_id t))]) (ts_tabs s))]"

text \<open>What the calls do to the tabs; a search gives its tab the label.\<close>

fun history_step :: "nat \<Rightarrow> history_act \<Rightarrow> string option \<Rightarrow> tabs_state \<Rightarrow> tabs_state option" where
  "history_step now (InTabs e) label s =
     (case e of
        SelectTab i \<Rightarrow> Some (s\<lparr>ts_activeTabId := Some i\<rparr>)
      | CloseTab i \<Rightarrow> closeTab i s
      | OpenTab t \<Rightarrow> Some (openTab MAX_SEARCH_TABS t s)
      | RelabelTab i l \<Rightarrow> Some (updateTabLabel i l s))"
| "history_step now NewTab label s = Some (addTab now s)"
| "history_step now (InPanel i a) label s =
     Some (case label of None \<Rightarrow> s | Some l \<Rightarrow> updateTabLabel i l s)"


section \<open>The page in use\<close>

text \<open>
  A panel with the state of its query, which the client keeps; the requests made so far, with the tab
  that made them.
\<close>

record panel_tab =
  pt_panel :: search_panel
  pt_rows :: "string list"
  pt_loading :: bool
  pt_result :: "LogSearchResult option"

record history_page =
  hp_tabs :: tabs_state
  hp_panels :: "string \<Rightarrow> panel_tab"
  hp_apps :: "LogApp list"
  hp_sent :: "(string \<times> LogSearchInput) list"

definition fresh_panel :: "string \<Rightarrow> panel_tab" where
  "fresh_panel today = \<lparr>pt_panel = new_panel today, pt_rows = [], pt_loading = False, pt_result = None\<rparr>"

definition open_history :: "nat \<Rightarrow> string \<Rightarrow> history_page" where
  "open_history now today =
     \<lparr>hp_tabs = history_start now, hp_panels = (\<lambda>i. fresh_panel today), hp_apps = [], hp_sent = []\<rparr>"

definition history_view :: "ui_lib \<Rightarrow> history_page \<Rightarrow> history_act node" where
  "history_view lib s =
     HistoryPage (hp_tabs s)
       (\<lambda>i. let p = hp_panels s i in SearchPanel lib (hp_apps s) (pt_panel p) (pt_rows p) (pt_loading p) (pt_result p))"

text \<open>A tab that is new gets a new panel.\<close>

definition history_call :: "nat \<Rightarrow> string \<Rightarrow> history_act \<Rightarrow> history_page \<Rightarrow> history_page option" where
  "history_call now today a s =
     (case a of
        InTabs e \<Rightarrow> map_option (\<lambda>t. s\<lparr>hp_tabs := t\<rparr>) (history_step now a None (hp_tabs s))
      | NewTab \<Rightarrow>
          map_option (\<lambda>t. s\<lparr>hp_tabs := t,
              hp_panels := (if tb_id (createTab now) \<in> tb_id ` set (ts_tabs (hp_tabs s)) then hp_panels s
                            else (hp_panels s)(tb_id (createTab now) := fresh_panel today))\<rparr>)
            (history_step now a None (hp_tabs s))
      | InPanel i b \<Rightarrow>
          (let p = hp_panels s i;
               (sent, panel, rows) = panel_step (pt_result p) b (pt_panel p, pt_rows p)
           in map_option (\<lambda>t. s\<lparr>hp_tabs := t, hp_panels := (hp_panels s)(i := p\<lparr>pt_panel := panel, pt_rows := rows\<rparr>),
                hp_sent := hp_sent s @ (case sent of None \<Rightarrow> [] | Some (inp, label) \<Rightarrow> [(i, inp)])\<rparr>)
              (history_step now a (map_option snd sent) (hp_tabs s))))"

text \<open>The client reports the progress of a query, or the list of applications.\<close>

definition query_reported :: "string \<Rightarrow> bool \<Rightarrow> LogSearchResult option \<Rightarrow> history_page \<Rightarrow> history_page" where
  "query_reported i loading result s =
     (let p = hp_panels s i in
      s\<lparr>hp_panels := (hp_panels s)(i := p\<lparr>pt_loading := loading, pt_result := result, pt_rows := rows_after result (pt_rows p)\<rparr>)\<rparr>)"

definition history_calls :: "history_act \<Rightarrow> history_page \<Rightarrow> history_page option \<Rightarrow> bool" where
  "history_calls a s r \<longleftrightarrow> (\<exists>now today. r = history_call now today a s)"

definition history_reports :: "history_page \<Rightarrow> history_page \<Rightarrow> bool" where
  "history_reports s t \<longleftrightarrow>
     (\<exists>i loading result. t = query_reported i loading result s) \<or> (\<exists>apps. t = s\<lparr>hp_apps := apps\<rparr>)"

end
