(* ===== verification/Ui_History_Properties.thy ===== *)
theory Ui_History_Properties
  imports Ui_History_View
begin

text \<open>
  What the history page shows and what can be done in it: the panel displays exactly the lines of its
  result and offers a search and a next page when they make sense; no sequence of clicks, keys and
  answers breaks the tabs or sends a search without an application.
\<close>

section \<open>What the panel offers\<close>

lemma offered_metadata [simp]: "n \<in> set (metadata_row v) \<Longrightarrow> offered n = []"
  by (auto simp: metadata_row_def case_prod_unfold split: if_splits)

lemma offered_HistoryLogRow:
  "concat (map offered (HistoryLogRow lib expanded key line)) =
     (if parsedMetadata (ul_parse lib) line \<noteq> JNull then [ToggleRow key] else [])"
  by (auto simp: HistoryLogRow_def Let_def AnsiText_def concat_eq_Nil_conv show_if_def)

lemma offered_skeletons [simp]: "offered (skeletons :: panel_act node) = []"
  by (auto simp: skeletons_def)

definition toggles :: "ui_lib \<Rightarrow> LogSearchResult option \<Rightarrow> panel_act list" where
  "toggles lib result =
     (case result of None \<Rightarrow> []
      | Some r \<Rightarrow> concat (map2 (\<lambda>i line. if parsedMetadata (ul_parse lib) line \<noteq> JNull then [ToggleRow (row_key i line)] else [])
          [0..<length (sr_lines r)] (sr_lines r)))"

lemma offered_summary_bar [simp]: "offered (summary_bar lib s r) = []"
  by (simp add: summary_bar_def Let_def)

lemma offered_result_area: "concat (map offered (result_area lib e loading result)) = toggles lib result"
  by (cases result)
    (auto simp: result_area_def result_table_def toggles_def show_if_def concat_map_concat Let_def comp_def
      case_prod_unfold offered_HistoryLogRow)

lemma offered_pagination:
  "concat (map offered (pagination loading result)) =
     (case result of None \<Rightarrow> [] | Some r \<Rightarrow> if sr_hasMore r \<and> \<not> loading then [NextPage] else [])"
  by (cases result) (auto simp: pagination_def show_if_def)

lemmas panel_parts =
  SearchPanel_def app_field_def input_field_def level_field_def keyword_field_def node_field_def search_button_def
  app_button_def comp_def Let_def

lemma offered_panel:
  "offered (SearchPanel lib ds s e loading result) =
     [SetLevel []] @ map (\<lambda>l. SetLevel (if pn_level s = l then [] else l)) LEVELS @
     (if pn_app s = [] \<or> loading then [] else [Search]) @ toggles lib result @
     (case result of None \<Rightarrow> [] | Some r \<Rightarrow> if sr_hasMore r \<and> \<not> loading then [NextPage] else [])"
proof -
  have summary: "concat (map offered (case result of None \<Rightarrow> [] | Some r \<Rightarrow> [summary_bar lib s r])) = []"
    by (cases result) simp_all
  show ?thesis
    by (simp add: panel_parts summary offered_result_area offered_pagination LEVELS_def)
qed

text \<open>No click in a portal of a panel calls anything: in the lists one chooses.\<close>

lemma behind_panel [simp]: "behind (SearchPanel lib ds s e loading result) = []"
proof -
  have row: "\<not> list_ex has_portal (HistoryLogRow lib x key line)" for x key line
    by (auto simp: HistoryLogRow_def metadata_row_def Let_def AnsiText_def show_if_def list_ex_iff case_prod_unfold)
  have "\<not> list_ex has_portal (result_area lib e loading result)"
    using row by (cases result)
      (auto simp: result_area_def result_table_def skeletons_def show_if_def list_ex_iff case_prod_unfold Let_def)
  then have area: "concat (map behind (result_area lib e loading result)) = []"
    by (auto simp: list_ex_iff behind_none)
  have "\<not> list_ex has_portal (pagination loading result)"
    by (cases result) (auto simp: pagination_def show_if_def)
  then have pages: "concat (map behind (pagination loading result)) = []"
    by (auto simp: list_ex_iff behind_none)
  have summary: "concat (map behind (case result of None \<Rightarrow> [] | Some r \<Rightarrow> [summary_bar lib s r])) = []"
    by (cases result) (simp_all add: summary_bar_def Let_def)
  show ?thesis
    by (simp add: panel_parts area pages summary LEVELS_def)
qed

lemma panel_reached:
  "a \<in> set (offers (x = y) (SearchPanel lib ds s e loading result)) \<Longrightarrow>
     x = y \<and> a \<in> set (offered (SearchPanel lib ds s e loading result))"
  by (cases "x = y") auto

section \<open>What is typed and chosen\<close>

lemma inputs_metadata [simp]: "n \<in> set (metadata_row v) \<Longrightarrow> inputs n = []"
  by (auto simp: metadata_row_def case_prod_unfold split: if_splits)

lemma inputs_HistoryLogRow [simp]: "n \<in> set (HistoryLogRow lib expanded key line) \<Longrightarrow> inputs n = []"
  by (auto simp: HistoryLogRow_def Let_def AnsiText_def show_if_def split: if_splits)

lemma inputs_result_area [simp]: "concat (map inputs (result_area lib e loading result)) = []"
  by (cases result)
    (auto simp: result_area_def result_table_def show_if_def map_concat Let_def comp_def case_prod_unfold skeletons_def)

lemma inputs_pagination [simp]: "concat (map inputs (pagination loading result)) = []"
  by (cases result) (auto simp: pagination_def show_if_def)

lemma inputs_panel:
  "set (inputs (SearchPanel lib ds s e loading result)) =
     {\<lambda>v. [SetAppOpen (v \<noteq> [])], \<lambda>v. [SetFrom v], \<lambda>v. [SetFromTime v], \<lambda>v. [SetTo v], \<lambda>v. [SetToTime v],
      \<lambda>v. [SetKeyword v], \<lambda>k. if k = ''Enter'' then [Search] else [],
      \<lambda>val. [SetNode (if val = ''__all__'' then [] else val)]} \<union>
     (if ds = [] \<or> \<not> pn_appOpen s then {} else {\<lambda>value. [SelectApp value]})"
proof -
  have summary: "concat (map inputs (case result of None \<Rightarrow> [] | Some r \<Rightarrow> [summary_bar lib s r])) = []"
    by (cases result) (simp_all add: summary_bar_def Let_def)
  have apps: "(\<lambda>x. f) ` set (panel_apps ds) = (if ds = [] then {} else {f})" for f :: "string \<Rightarrow> panel_act list"
    using panel_apps_sorted(1) [of ds] by (simp add: image_constant_conv)
  show ?thesis by (simp add: panel_parts summary apps LEVELS_def insert_commute)
qed

lemma formless_panel [simp]: "formless (SearchPanel lib ds s e loading result)"
proof -
  have "list_all formless (HistoryLogRow lib x key line)" for x key line
    by (auto simp: HistoryLogRow_def metadata_row_def Let_def AnsiText_def show_if_def list_all_iff case_prod_unfold)
  then have "list_all formless (result_area lib e loading result)"
    by (cases result) (auto simp: result_area_def result_table_def skeletons_def show_if_def list_all_iff case_prod_unfold Let_def)
  moreover have "list_all formless (pagination loading result)"
    by (cases result) (auto simp: pagination_def show_if_def)
  ultimately show ?thesis
    by (cases result) (simp_all add: panel_parts summary_bar_def LEVELS_def show_if_def list.pred_map list.pred_True)
qed

section \<open>What the table shows\<close>

text \<open>A row of the table that shows a line: a row of six cells.\<close>

definition is_row :: "'a node \<Rightarrow> bool" where
  "is_row n \<longleftrightarrow> (\<exists>ps ks. n = Elem ''TableRow'' ps ks \<and> map tag ks = replicate 6 (Some ''TableCell''))"

definition line_texts :: "ui_lib \<Rightarrow> LogLine \<Rightarrow> string list" where
  "line_texts lib line =
     [toKST (ul_kst lib) (ll_timestamp line)] @ (if truthy (ll_level line) then [the (ll_level line)] else []) @
     [nullish_default (ll_source line) [], ul_toHtml lib (ll_message line), ll_node line, ll_file line]"

lemma is_row_simps [simp]:
  "\<not> is_row (Txt s)" "is_row (Elem t ps ks) \<longleftrightarrow> t = ''TableRow'' \<and> map tag ks = replicate 6 (Some ''TableCell'')"
  by (auto simp: is_row_def)

lemma six: "replicate 6 x = [x, x, x, x, x, x]"
  by (simp add: eval_nat_numeral)

lemma no_rows_metadata [simp]: "n \<in> set (metadata_row v) \<Longrightarrow> nodes_where is_row n = []"
  by (auto simp: metadata_row_def case_prod_unfold six split: if_splits)

lemma rows_HistoryLogRow:
  "map texts (concat (map (nodes_where is_row) (HistoryLogRow lib expanded key line))) = [line_texts lib line]"
  by (auto simp: HistoryLogRow_def Let_def AnsiText_def six show_if_def line_texts_def nullish_default_def truthy_def
    split: option.split)

lemma rows_result_area:
  "map texts (concat (map (nodes_where is_row) (result_area lib e loading result))) =
     (case result of None \<Rightarrow> [] | Some r \<Rightarrow> map (line_texts lib) (sr_lines r))"
proof (cases result)
  case None
  then show ?thesis by (simp add: result_area_def skeletons_def show_if_def six)
next
  case (Some r)
  have "map texts (concat (map (\<lambda>x. concat (map (nodes_where is_row) (f x))) xs)) = map g xs"
    if "\<And>x. map texts (concat (map (nodes_where is_row) (f x))) = [g x]" for f :: "nat \<times> LogLine \<Rightarrow> panel_act node list" and g xs
    using that by (induction xs) auto
  from this [of "\<lambda>x. HistoryLogRow lib (row_key (fst x) (snd x) \<in> set e) (row_key (fst x) (snd x)) (snd x)" "\<lambda>x. line_texts lib (snd x)",
    OF rows_HistoryLogRow]
  have "map texts (concat (map (\<lambda>x. concat (map (nodes_where is_row)
      (HistoryLogRow lib (row_key (fst x) (snd x) \<in> set e) (row_key (fst x) (snd x)) (snd x))))
      (zip [0..<length (sr_lines r)] (sr_lines r)))) = map (\<lambda>x. line_texts lib (snd x)) (zip [0..<length (sr_lines r)] (sr_lines r))" .
  also have "\<dots> = map (line_texts lib) (map snd (zip [0..<length (sr_lines r)] (sr_lines r)))"
    by (simp only: map_map comp_def)
  also have "map snd (zip [0..<length (sr_lines r)] (sr_lines r)) = sr_lines r" by simp
  finally show ?thesis
    by (simp add: Some result_area_def result_table_def show_if_def concat_map_concat Let_def comp_def case_prod_unfold six)
qed

lemma rows_panel:
  "map texts (nodes_where is_row (SearchPanel lib ds s e loading result)) =
     (case result of None \<Rightarrow> [] | Some r \<Rightarrow> map (line_texts lib) (sr_lines r))"
proof -
  have "concat (map (nodes_where is_row) (pagination loading result)) = []"
    by (cases result) (auto simp: pagination_def show_if_def)
  then show ?thesis
    by (cases result) (auto simp: panel_parts LEVELS_def rows_result_area summary_bar_def)
qed

section \<open>From the form to the table\<close>

lemma panel_offers:
  "Search \<in> set (offered (SearchPanel lib ds s e loading result)) \<longleftrightarrow> pn_app s \<noteq> [] \<and> \<not> loading"
  "NextPage \<in> set (offered (SearchPanel lib ds s e loading result)) \<longleftrightarrow>
     (\<exists>r. result = Some r \<and> sr_hasMore r) \<and> \<not> loading"
proof -
  have t: "a \<notin> set (toggles lib result)" if "\<And>k. a \<noteq> ToggleRow k" for a
    using that by (auto simp: toggles_def split: option.splits if_splits)
  show "Search \<in> set (offered (SearchPanel lib ds s e loading result)) \<longleftrightarrow> pn_app s \<noteq> [] \<and> \<not> loading"
    unfolding offered_panel using t [of Search] by (auto split: option.split)
  show "NextPage \<in> set (offered (SearchPanel lib ds s e loading result)) \<longleftrightarrow>
     (\<exists>r. result = Some r \<and> sr_hasMore r) \<and> \<not> loading"
    unfolding offered_panel using t [of NextPage] by (auto split: option.split)
qed

lemma shown_rows_mounted: "rows_after (Some r) e = filter (\<lambda>k. k \<in> set (row_keys (Some r))) e"
  by (simp add: rows_after_def)

text \<open>C25: a search from the form to the table. With an application chosen and no query running, the
  panel offers the search; the call sends the query of the form with a limit of one hundred. When the
  gateway's answer to this query is reported, the table has exactly one row for each line of the
  answer, in its order, with time, level, source, message, node and file; with a consistent
  \<open>localeCompare\<close> the rows are in the order of their timestamps, at most one hundred, all of the chosen
  node, and every line of the hosts that is not shown is at least as late as every line that is. The
  next page is offered exactly if lines were left out or a host has more.\<close>

theorem search_to_screen:
  assumes "comparator localeCompare" and "pn_app s \<noteq> []"
    and "ds = kept (search_variables None s) (map (\<lambda>ip. fetchLines (''http://'' @ ip @ '':'' @ show_int port @ ''/api/logs/search'')
                              (search_params (search_variables None s))) hosts)"
    and "search localeCompare (Inr hosts) port fetchLines fetchStats (search_variables None s) = Inr r"
    and "shown = SearchPanel lib apps (s\<lparr>pn_afterCursor := None\<rparr>) (rows_after (Some r) e) False (Some r)"
  shows "Search \<in> set (offered (SearchPanel lib apps s e False result)) \<and>
    panel_step result Search (s, e) = (Some (search_variables None s, search_label s), s\<lparr>pn_afterCursor := None\<rparr>, e) \<and>
    map texts (nodes_where is_row shown) = map (line_texts lib) (sr_lines r) \<and>
    sorted_wrt (\<lambda>a b. localeCompare (ts a) (ts b) \<le> 0) (sr_lines r) \<and> length (sr_lines r) \<le> 100 \<and>
    (\<forall>a \<in> set (sr_lines r). pn_node s \<noteq> [] \<longrightarrow> ll_node a = pn_node s) \<and>
    (\<exists>rest. mset (sr_lines r) + mset rest = mset (concat (map lines_of ds)) \<and>
       (\<forall>a \<in> set (sr_lines r). \<forall>b \<in> set rest. localeCompare (ts a) (ts b) \<le> 0) \<and>
       (NextPage \<in> set (offered shown) \<longleftrightarrow> rest \<noteq> [] \<or> (\<exists>d \<in> set ds. lr_hasMore d)))"
proof -
  have limit: "nullish_default (si_limit (search_variables None s)) 100 = 100" by (simp add: search_variables_def)
  from log_search_merges [OF assms(1) _ assms(3,4)] limit obtain rest where
    merged: "sorted_wrt (\<lambda>a b. localeCompare (ts a) (ts b) \<le> 0) (sr_lines r)" "length (sr_lines r) \<le> 100"
      "mset (sr_lines r) + mset rest = mset (concat (map lines_of ds))"
      "\<forall>a \<in> set (sr_lines r). \<forall>b \<in> set rest. localeCompare (ts a) (ts b) \<le> 0"
      "sr_hasMore r \<longleftrightarrow> rest \<noteq> [] \<or> (\<exists>d \<in> set ds. lr_hasMore d)"
      "\<forall>a \<in> set (sr_lines r). truthy (si_node (search_variables None s)) \<longrightarrow> si_node (search_variables None s) = Some (ll_node a)"
    by auto
  have node: "ll_node a = pn_node s" if "a \<in> set (sr_lines r)" "pn_node s \<noteq> []" for a
    using merged(6) that by (auto simp: search_variables_def opt_text_def truthy_def)
  have offers: "NextPage \<in> set (offered shown) \<longleftrightarrow> sr_hasMore r"
    unfolding assms(5) panel_offers(2) by simp
  have rows: "map texts (nodes_where is_row shown) = map (line_texts lib) (sr_lines r)"
    unfolding assms(5) rows_panel by simp
  have step: "panel_step result Search (s, e) = (Some (search_variables None s, search_label s), s\<lparr>pn_afterCursor := None\<rparr>, e)"
    using assms(2) by (simp add: handleSearch_def)
  from merged node offers rows step panel_offers(1) [of lib apps s e False result] assms(2) show ?thesis
    by (intro conjI exI [of _ rest]) auto
qed

definition demo_lib :: ui_lib where
  "demo_lib = \<lparr>ul_toHtml = (\<lambda>s. s), ul_number = show_int, ul_parse = (\<lambda>s. None), ul_kst = (\<lambda>s. None)\<rparr>"

lemma search_to_screen_witness:
  "\<exists>r. search js_compare (Inr [''h'']) 4003 demo_lines demo_stats
       (search_variables None ((new_panel ''2026-01-01'')\<lparr>pn_app := ''auth'', pn_node := ''n1''\<rparr>)) = Inr r \<and>
     map texts (nodes_where is_row (SearchPanel demo_lib []
       ((new_panel ''2026-01-01'')\<lparr>pn_app := ''auth'', pn_node := ''n1'', pn_afterCursor := None\<rparr>) [] False (Some r))) =
     [[''10:00'', [], ''m'', ''n1'', ''f''], [''10:01'', [], ''m'', ''n1'', ''f'']]"
proof -
  let ?s = "(new_panel ''2026-01-01'')\<lparr>pn_app := ''auth'', pn_node := ''n1''\<rparr>"
  obtain r where r: "search js_compare (Inr [''h'']) 4003 demo_lines demo_stats (search_variables None ?s) = Inr r"
    by (simp add: search_eq Let_def)
  have lines: "sr_lines r = [(demo_line ''10:00'')\<lparr>ll_node := ''n1''\<rparr>, (demo_line ''10:01'')\<lparr>ll_node := ''n1''\<rparr>]"
    using r by (auto simp: search_eq Let_def demo_lines_def demo_line_def search_variables_def opt_text_def new_panel_def
        kept_def node_skipped_def truthy_def lines_of_def ts_def slice_to_def)
  from search_to_screen [OF text_order.comparator_axioms _ refl r refl, of demo_lib "[]" "[]" None]
  have "map texts (nodes_where is_row (SearchPanel demo_lib [] (?s\<lparr>pn_afterCursor := None\<rparr>) (rows_after (Some r) []) False (Some r))) =
    map (line_texts demo_lib) (sr_lines r)" by simp
  moreover have "map (line_texts demo_lib) (sr_lines r) = [[''10:00'', [], ''m'', ''n1'', ''f''], [''10:01'', [], ''m'', ''n1'', ''f'']]"
    unfolding lines by (simp add: line_texts_def demo_lib_def demo_line_def toKST_def truthy_def hasTimezone.simps
      is_sign_def nullish_default_def)
  ultimately show ?thesis using r by (simp add: rows_after_def)
qed

text \<open>
  A page break between lines of one timestamp loses those behind it: the log-streamer answers with
  the lines later than the cursor (\<open>matchFilters\<close> of its reader), so that the next page has none of
  the timestamp of the last line shown, though some were left out.
\<close>

lemma page_break_loses_lines:
  assumes "0 \<le> nullish_default (si_limit inp) 100" and "si_after inp = Some t"
    and "\<And>url d l. fetchLines url (search_params inp) = Inr d \<Longrightarrow> l \<in> set (lines_of d) \<Longrightarrow> js_compare (ts l) t > 0"
    and "search js_compare (Inr hosts) port fetchLines fetchStats inp = Inr r"
  shows "t \<notin> ts ` set (sr_lines r)"
proof
  assume "t \<in> ts ` set (sr_lines r)"
  then obtain l where l: "l \<in> set (sr_lines r)" "ts l = t" by auto
  with search_lines(1) [OF assms(1,4)] have "l \<in> set (concat (map lines_of (kept inp (map (\<lambda>ip. fetchLines
      (''http://'' @ ip @ '':'' @ show_int port @ ''/api/logs/search'') (search_params inp)) hosts))))"
    by (auto dest: in_set_takeD)
  then obtain d where "d \<in> set (kept inp (map (\<lambda>ip. fetchLines
      (''http://'' @ ip @ '':'' @ show_int port @ ''/api/logs/search'') (search_params inp)) hosts))" "l \<in> set (lines_of d)" by auto
  then obtain url where "fetchLines url (search_params inp) = Inr d" "l \<in> set (lines_of d)"
    by (auto simp: kept_def fulfilled_def)
  then have "js_compare (ts l) t > 0" by (rule assms(3))
  with l(2) show False using text_order.cmp_refl [of t] by simp
qed

lemma page_break_example:
  "\<exists>r. search js_compare (Inr [''h'']) 4003 (\<lambda>u p. Inr \<lparr>lr_lines = Some [demo_line ''10:00'', demo_line ''10:00''],
       lr_node = ''n1'', lr_hasMore = False\<rparr>) demo_stats demo_input = Inr r \<and>
     length (sr_lines r) = 1 \<and> sr_hasMore r \<and> ts (last (sr_lines r)) = ''10:00''"
  by (simp add: search_eq Let_def demo_input_def demo_line_def kept_def node_skipped_def truthy_def lines_of_def ts_def slice_to_def)


section \<open>The page in use\<close>

text \<open>A request of the page names an application, asks for a hundred lines, and has no empty filter.\<close>

definition request_ok :: "LogSearchInput \<Rightarrow> bool" where
  "request_ok q \<longleftrightarrow>
     si_app q \<noteq> [] \<and> si_limit q = Some 100 \<and>
     [] \<notin> Option.these {si_fromTime q, si_toTime q, si_level q, si_keyword q, si_node q, si_after q}"

definition history_ok :: "history_page \<Rightarrow> bool" where
  "history_ok s \<longleftrightarrow> tabs_ok MAX_SEARCH_TABS (hp_tabs s) \<and> (\<forall>q \<in> snd ` set (hp_sent s). request_ok q)"

lemma request_ok_search: "pn_app s \<noteq> [] \<Longrightarrow> request_ok (search_variables c s)"
  by (auto simp: request_ok_def search_variables_def opt_text_def truthy_def Option.these_def)

lemma handleSearch_request: "fst (handleSearch c s) = Some (q, label) \<Longrightarrow> request_ok q"
  using request_ok_search by (auto simp: handleSearch_def split: if_splits)

lemma handleNextPage_request: "fst (handleNextPage result s) = Some (q, label) \<Longrightarrow> request_ok q"
  using handleSearch_request by (auto simp: handleNextPage_def Let_def split: option.splits if_splits)

lemma panel_step_request: "fst (panel_step result a (s, e)) = Some (q, label) \<Longrightarrow> request_ok q"
  using handleSearch_request handleNextPage_request by (cases a) (auto simp: case_prod_unfold Let_def)

text \<open>The bar of the tabs calls only what the tabs allow, and so does the page.\<close>

lemma offered_history_tab:
  "offered (history_tab active t) = [InTabs (SelectTab (tb_id t)), InTabs (CloseTab (tb_id t))]"
  by (simp add: history_tab_def Let_def)

lemma inputs_history_tab: "inputs (history_tab active t) = []"
  by (simp add: history_tab_def Let_def)

lemma formless_history: "formless (HistoryPage s panel) \<longleftrightarrow> (\<forall>t \<in> set (ts_tabs s). formless (panel (tb_id t)))"
  by (auto simp: HistoryPage_def HistoryTabBar_def history_tab_def Let_def list_all_iff)

lemma history_can_call:
  assumes "can_call (history_view lib s) a"
  shows "a = NewTab \<or> (\<exists>i \<in> tb_id ` set (ts_tabs (hp_tabs s)). a = InTabs (SelectTab i) \<or> a = InTabs (CloseTab i) \<or> (\<exists>b. a = InPanel i b))"
proof -
  have "formless (history_view lib s)" by (simp add: history_view_def formless_history Let_def)
  with assms have "a \<in> set (offered (history_view lib s)) \<or> (\<exists>h \<in> set (inputs (history_view lib s)). \<exists>v. a \<in> set (h v))"
    by (simp add: can_call_formless)
  then show ?thesis
    by (auto simp: history_view_def HistoryPage_def HistoryTabBar_def offered_history_tab inputs_history_tab offered_map
        inputs_map Let_def split: if_splits)
qed

lemma tabs_ok_relabel: "tabs_ok m s \<Longrightarrow> 2 \<le> m \<Longrightarrow> tabs_ok m (updateTabLabel i l s)"
  using tabs_ok_step [of m s "RelabelTab i l"] by fastforce

lemma history_call_ok:
  assumes ok: "history_ok s" and a: "can_call (history_view lib s) a" and r: "history_calls a s r"
  shows "\<exists>t. r = Some t \<and> history_ok t"
proof -
  have m: "2 \<le> MAX_SEARCH_TABS" by (simp add: MAX_SEARCH_TABS_def)
  have tabs: "tabs_ok MAX_SEARCH_TABS (hp_tabs s)" using ok by (simp add: history_ok_def)
  from r obtain now today where r: "r = history_call now today a s" by (auto simp: history_calls_def)
  from history_can_call [OF a] consider (new) "a = NewTab"
    | (select) i where "i \<in> tb_id ` set (ts_tabs (hp_tabs s))" "a = InTabs (SelectTab i)"
    | (close) i where "i \<in> tb_id ` set (ts_tabs (hp_tabs s))" "a = InTabs (CloseTab i)"
    | (panel) i b where "i \<in> tb_id ` set (ts_tabs (hp_tabs s))" "a = InPanel i b" by blast
  then show ?thesis
  proof cases
    case new
    with r ok tabs_ok_openTab [OF tabs m] show ?thesis by (simp add: history_call_def history_ok_def addTab_def)
  next
    case select
    with r ok show ?thesis by (auto simp: history_call_def history_ok_def tabs_ok_def)
  next
    case close
    from tabs_ok_closeTab [OF tabs close(1)] obtain t where "closeTab i (hp_tabs s) = Some t" "tabs_ok MAX_SEARCH_TABS t" .
    with close r ok show ?thesis by (simp add: history_call_def history_ok_def)
  next
    case panel
    obtain sent s' e' where step: "panel_step (pt_result (hp_panels s i)) b (pt_panel (hp_panels s i), pt_rows (hp_panels s i)) = (sent, s', e')"
      by (metis prod.exhaust)
    then have "request_ok q" if "sent = Some (q, label)" for q label
      using that panel_step_request [of "pt_result (hp_panels s i)" b] by (metis fst_conv)
    with step ok tabs tabs_ok_relabel [OF tabs m] show ?thesis
      by (cases sent) (auto simp: r panel history_call_def history_ok_def)
  qed
qed

lemma history_report_ok: "history_ok s \<Longrightarrow> history_reports s t \<Longrightarrow> history_ok t"
  by (auto simp: history_reports_def query_reported_def history_ok_def Let_def)

interpretation history: page "history_view lib" history_calls history_reports history_ok for lib
  by unfold_locales (use history_call_ok history_report_ok in blast)+

lemma history_start_ok: "history_ok (open_history now today)"
  by (simp add: history_ok_def open_history_def history_start_def initial_tabs_def tabs_ok_def MAX_SEARCH_TABS_def)

text \<open>C28: the history page keeps working. Whatever the user does with what the page offers (clicks,
  typing, keys) and whatever the client reports, no handler throws, the ids of the tabs are distinct,
  at most ten, the active one among them; every request names an application, asks for a hundred lines
  and has no empty filter; and a click calls into a panel only if it is that of the active tab.\<close>

theorem history_page_works:
  assumes "page_run (history_view lib) history_calls history_reports (open_history now today) r"
  shows "\<exists>s. r = Some s \<and> tabs_ok MAX_SEARCH_TABS (hp_tabs s) \<and> (\<forall>(i, q) \<in> set (hp_sent s). request_ok q) \<and>
    (\<forall>p i a. InPanel i a \<in> set (fst (click p (history_view lib s))) \<longrightarrow>
       ts_activeTabId (hp_tabs s) = Some i \<and>
       a \<in> set (offered (let q = hp_panels s i in SearchPanel lib (hp_apps s) (pt_panel q) (pt_rows q) (pt_loading q) (pt_result q))))"
proof -
  from history.inv_page_run [OF assms history_start_ok] obtain s where s: "r = Some s" "history_ok s" by blast
  have "ts_activeTabId (hp_tabs s) = Some i \<and>
      a \<in> set (offered (let q = hp_panels s i in SearchPanel lib (hp_apps s) (pt_panel q) (pt_rows q) (pt_loading q) (pt_result q)))"
    if "InPanel i a \<in> set (fst (click p (history_view lib s)))" for p i a
  proof -
    have "InPanel i a \<in> set (offered (history_view lib s))" using that click_offered by (rule rev_subsetD)
    then show ?thesis
      by (auto simp: history_view_def HistoryPage_def HistoryTabBar_def offered_history_tab offered_map Let_def
          dest!: panel_reached split: if_splits)
  qed
  with s show ?thesis by (auto simp: history_ok_def)
qed

lemma history_page_works_witness:
  "\<exists>s. history_call 2 ''2026-01-01'' NewTab (open_history 1 ''2026-01-01'') = Some s \<and> tabs_ok 10 (hp_tabs s) \<and>
     length (ts_tabs (hp_tabs s)) = 2"
proof -
  let ?s = "open_history 1 ''2026-01-01''"
  have "can_call (history_view demo_lib ?s) NewTab"
    by (simp add: can_call_def history_view_def HistoryPage_def HistoryTabBar_def open_history_def history_start_def
      initial_tabs_def MAX_SEARCH_TABS_def)
  then have "page_run (history_view demo_lib) history_calls history_reports ?s (history_call 2 ''2026-01-01'' NewTab ?s)"
    by (rule page_run.used [OF page_run.opened]) (auto simp: history_calls_def)
  from history_page_works [OF this] obtain s where
    s: "history_call 2 ''2026-01-01'' NewTab ?s = Some s" "tabs_ok MAX_SEARCH_TABS (hp_tabs s)" by blast
  moreover have "tb_id (createTab 2) \<noteq> tb_id (createTab 1)" by (simp add: createTab_ids)
  ultimately show ?thesis
    by (auto simp: history_call_def addTab_def openTab_def open_history_def history_start_def initial_tabs_def
        MAX_SEARCH_TABS_def)
qed

text \<open>Enter in the field of the keyword searches while a query is running, which the button does not.\<close>

lemma enter_searches_while_loading:
  "can_call (SearchPanel lib ds s e True result) Search" "Search \<notin> set (offered (SearchPanel lib ds s e True result))"
  by (simp_all add: can_call_formless inputs_panel panel_offers)

end
