(* ===== verification/Ui_App_View.thy ===== *)
theory Ui_App_View
  imports Ui_Login_View Ui_Live_View_Properties Ui_History_Properties
begin

text \<open>
  The application around the pages: the routes and the guarded pages with their places (App.tsx,
  AuthGuard.tsx), the navigation (Navigation.tsx) and the page for unknown paths (NotFoundPage.tsx).
\<close>

section \<open>The view\<close>

datatype app_act =
  GoTo string | LogOut | InLogin login_act | InLive live_act | InHistory history_act

text \<open>The router decides which link is active: \<open>linkActive pathname target\<close> is a parameter.\<close>

definition nav_link :: "(string \<Rightarrow> string \<Rightarrow> bool) \<Rightarrow> string \<Rightarrow> string \<Rightarrow> string \<Rightarrow> app_act node" where
  "nav_link linkActive pathname target label =
     Elem ''NavLink''
       [Attr ''to'' target, OnClick [GoTo target],
        Attr ''class'' (if linkActive pathname target then ''bg-gray-700 text-white''
                        else ''text-muted-foreground hover:text-secondary-foreground hover:bg-secondary'')] [Txt label]"

definition Navigation :: "(string \<Rightarrow> string \<Rightarrow> bool) \<Rightarrow> string \<Rightarrow> ui_user option \<Rightarrow> app_act node" where
  "Navigation linkActive pathname user =
     Elem ''header'' []
       [Elem ''h1'' [] [Txt ''Dashboard''],
        Elem ''nav'' [] [nav_link linkActive pathname ''/admin/live-stream'' ''Live Stream'', nav_link linkActive pathname ''/admin/history'' ''History''],
        Elem ''div'' []
          ((case user of None \<Rightarrow> [] | Some u \<Rightarrow> [Elem ''span'' [] [Txt (uu_name u)]]) @
           [Elem ''Button'' [OnClick [LogOut]] [Elem ''LogOut'' [] [], Elem ''span'' [] [Txt ''%uB85C%uADF8%uC544%uC6C3'']]])]"

definition NotFoundPage :: "app_act node" where
  "NotFoundPage =
     Elem ''div'' [] [Elem ''div'' []
       [Elem ''h1'' [] [Txt ''404''], Elem ''p'' [] [Txt ''%uD398%uC774%uC9C0%uB97C %uCC3E%uC744 %uC218 %uC5C6%uC2B5%uB2C8%uB2E4''],
        Elem ''Button'' [] [Elem ''Link'' [Attr ''to'' ''/admin/login'', OnClick [GoTo ''/admin/login'']] [Txt ''%uD648%uC73C%uB85C %uB3CC%uC544%uAC00%uAE30'']]]]"

text \<open>Both pages are rendered on either path; the one that is not due is transparent and takes no clicks, but in
  its portals: its style refuses the pointer, and where the layer of its active tab accepts it again, the page
  that is due, with the greater \<open>zIndex\<close>, lies over it.\<close>

definition page_layer :: "bool \<Rightarrow> app_act node \<Rightarrow> app_act node" where
  "page_layer due content =
     Elem ''motion.div''
       [Attr ''opacity'' (if due then ''1'' else ''0''), Attr ''scale'' (if due then ''1'' else ''0.98''), Inert (\<not> due),
        Attr ''zIndex'' (if due then ''1'' else ''0'')] [content]"

definition AuthenticatedApp ::
  "(string \<Rightarrow> string \<Rightarrow> bool) \<Rightarrow> string \<Rightarrow> ui_user option \<Rightarrow> live_act node \<Rightarrow> history_act node \<Rightarrow> app_act node" where
  "AuthenticatedApp linkActive pathname user livePage historyPage =
     Elem ''div'' []
       [Navigation linkActive pathname user,
        Elem ''div'' []
          [page_layer (pathname = ''/admin/live-stream'') (map_node InLive livePage),
           page_layer (pathname = ''/admin/history'') (map_node InHistory historyPage)]]"

definition guarded :: "ui_session \<Rightarrow> app_act node \<Rightarrow> app_act node" where
  "guarded s content =
     (case AuthGuard s of
        Spinner \<Rightarrow> Elem ''div'' [] [Elem ''Loader2'' [] []]
      | Redirect p \<Rightarrow> Elem ''Navigate'' [Attr ''to'' p] []
      | _ \<Rightarrow> content)"

definition route_node :: "ui_session \<Rightarrow> login_act node \<Rightarrow> app_act node list" where
  "route_node s loginPage =
     (case route_element s of
        Redirect p \<Rightarrow> [Elem ''Navigate'' [Attr ''to'' p] []]
      | LoginForm \<Rightarrow> [map_node InLogin loginPage]
      | NotFound \<Rightarrow> [NotFoundPage]
      | _ \<Rightarrow> [])"

definition app_view ::
  "(string \<Rightarrow> string \<Rightarrow> bool) \<Rightarrow> ui_session \<Rightarrow> login_act node \<Rightarrow> live_act node \<Rightarrow> history_act node \<Rightarrow> app_act node" where
  "app_view linkActive s loginPage livePage historyPage =
     Elem ''Suspense'' []
       (route_node s loginPage @
        show_if (us_path s \<in> set AUTHENTICATED_PATHS)
          [guarded s (AuthenticatedApp linkActive (us_path s) (us_user s) livePage historyPage)])"

text \<open>
  The whole, of the pages as they are. Where a component throws while it renders, as the live-stream page does
  with a tab without its data, everything is unmounted.
\<close>

definition guard_open :: "ui_session \<Rightarrow> bool" where
  "guard_open s \<longleftrightarrow> us_path s \<in> set AUTHENTICATED_PATHS \<and> AuthGuard s = Content"

definition whole_view ::
  "(string \<Rightarrow> string \<Rightarrow> bool) \<Rightarrow> 'n live_lib \<Rightarrow> ui_lib \<Rightarrow> ui_session \<Rightarrow> login_view \<Rightarrow> 'n live_page \<Rightarrow> history_page \<Rightarrow> app_act node" where
  "whole_view linkActive lib ulib s lg lv hs =
     (if guard_open s \<and> \<not> list_all renders (ts_tabs (lp_tabs lv)) then Txt []
      else app_view linkActive s (view_login lg) (live_view lib lv) (history_view ulib hs))"

section \<open>What clicks reach\<close>

lemma reach_Navigation: "reach (Navigation linkActive p u) = {GoTo ''/admin/live-stream'', GoTo ''/admin/history'', LogOut}"
  by (cases u) (auto simp: Navigation_def nav_link_def reach_plain reach_button)

lemma reach_layer: "reach (page_layer due n) = (if due then reach n else reach_out n)"
  by (simp add: page_layer_def reach_plain)

lemma reach_app:
  "reach (app_view linkActive s loginPage livePage historyPage) =
     (case route_element s of LoginForm \<Rightarrow> InLogin ` reach loginPage | NotFound \<Rightarrow> {GoTo ''/admin/login''} | _ \<Rightarrow> {}) \<union>
     (if guard_open s then
        {GoTo ''/admin/live-stream'', GoTo ''/admin/history'', LogOut} \<union>
        InLive ` (if us_path s = ''/admin/live-stream'' then reach livePage else reach_out livePage) \<union>
        InHistory ` (if us_path s = ''/admin/history'' then reach historyPage else reach_out historyPage)
      else {})"
  by (auto simp: app_view_def route_node_def guarded_def guard_open_def AuthenticatedApp_def NotFoundPage_def reach_Navigation
      reach_layer reach_plain reach_button reach_map show_if_def AuthGuard_def split: view.split)

text \<open>Of the live-stream page the sheet is in a portal, while it is open; of the history page only lists, in
  which one chooses.\<close>

lemma portals_list: "\<not> has_portal (ContainerList q fs only loading data error i n)"
  by (auto simp: ContainerList_def list_skeleton_def service_item_def container_item_def row_star_def Let_def
      case_prod_unfold list_ex_iff show_if_def)

lemma no_list_in_main: "InList sheet c \<notin> reach (Elem t [] (mainContent u k (\<lambda>k t. tab_viewer lib t (w k t))))"
proof -
  have "InList sheet c \<notin> set (offered (Elem t [] (mainContent u k (\<lambda>k t. tab_viewer lib t (w k t)))))"
    by (auto simp: mainContent_def TabBar_def offered_map Let_def)
  then show ?thesis by (rule contra_subsetD [OF reach_offered])
qed

definition sheet_list :: "'n live_page \<Rightarrow> list_act node" where
  "sheet_list s =
     (let (loading, data, error) = lp_containers s; l = lp_list s 1
      in ContainerList (ls_search l) (ls_favorites l) (ls_favoritesOnly l) loading data error
           (selectedId (lp_tabs s)) (selectedServiceName (lp_tabs s)))"

lemma live_portals:
  "reach_out (live_view lib s) = {b \<in> reach (live_view lib s). \<exists>c. b = InList True c} \<and>
   (list_all renders (ts_tabs (lp_tabs s)) \<longrightarrow>
      reach_out (live_view lib s) = (if lp_sheet s then InList True ` reach (sheet_list s) else {}))"
proof (cases "list_all renders (ts_tabs (lp_tabs s))")
  case False
  then show ?thesis by (simp add: live_view_def case_prod_unfold)
next
  case True
  obtain loading data error where answer: "lp_containers s = (loading, data, error)" by (cases "lp_containers s") auto
  let ?list = "\<lambda>k. let l = lp_list s k in ContainerList (ls_search l) (ls_favorites l) (ls_favoritesOnly l) loading data error
    (selectedId (lp_tabs s)) (selectedServiceName (lp_tabs s))"
  let ?main = "\<lambda>k. mainContent (lp_tabs s) k (\<lambda>k t. tab_viewer lib t (lp_viewers s k (tb_id t)))"
  let ?panels = "Elem ''ResizablePanelGroup'' []
    [Elem ''ResizablePanel'' [] (sidebarContent (?list 0)), Elem ''ResizableHandle'' [] [], Elem ''ResizablePanel'' [] (?main 0)]"
  let ?content = "Elem ''SheetContent'' [Portal]
    [Elem ''SheetHeader'' [] [Elem ''SheetTitle'' [] [Txt ''Containers'']], Elem ''div'' [] [map_node (InList True) (?list 1)]]"
  let ?sheet = "Elem ''Sheet'' [Open (lp_sheet s), OnOpenChange (\<lambda>b. [SetSheet b])]
    ([Elem ''SheetTrigger'' [] [Elem ''Button'' [] [Elem ''PanelLeft'' [] []]]] @ show_if (lp_sheet s) [?content])"
  have view: "live_view lib s = Elem ''div'' [] [?panels, ?sheet, Elem ''main'' [] (?main 1)]"
    using True by (simp add: live_view_def LiveStreamPage_def answer)
  have list: "\<not> has_portal (?list k)" for k by (simp add: portals_list Let_def)
  have tabs: "\<not> has_portal (live_tab a t)" for a t by (simp add: live_tab_def Let_def)
  have main: "\<not> list_ex has_portal (?main k)" for k
    by (auto simp: mainContent_def TabBar_def Let_def list_ex_iff tabs)
  have none: "reach_out ?panels = {}" "reach_out (Elem ''main'' [] (?main 1)) = {}"
    using list [of 0] main by (simp_all add: reach_out_free sidebarContent_def)
  have content: "reach ?content = InList True ` reach (sheet_list s)"
    by (simp add: reach_plain reach_map sheet_list_def answer Let_def)
  have sheet: "reach ?sheet = (if lp_sheet s then reach ?content else {})" "reach_out ?sheet = (if lp_sheet s then reach ?content else {})"
    by (simp_all add: reach_plain reach_out_plain reach_out_portal)
  have "InList True c \<notin> reach ?panels" for c
    using no_list_in_main [of True c "''ResizablePanel''" "lp_tabs s" 0 lib "\<lambda>k t. lp_viewers s k (tb_id t)"]
    by (auto simp: reach_plain reach_map sidebarContent_def)
  moreover have "InList True c \<notin> reach (Elem ''main'' [] (?main 1))" for c by (rule no_list_in_main)
  moreover have "reach_out (live_view lib s) = reach_out ?sheet"
    unfolding view using none by (simp add: reach_out_plain)
  moreover have "reach (live_view lib s) = reach ?panels \<union> reach ?sheet \<union> reach (Elem ''main'' [] (?main 1))"
    unfolding view by (simp add: reach_plain Un_assoc)
  moreover have "reach_out ?sheet = {b \<in> reach ?sheet. \<exists>c. b = InList True c}"
    unfolding sheet content by auto
  ultimately show ?thesis using sheet(2) content by auto
qed

lemmas live_reach_out = live_portals [THEN conjunct1] live_portals [THEN conjunct2, rule_format]

lemma history_reach_out: "reach_out (history_view lib s) = {}"
proof -
  have "\<not> has_portal (history_tab a t)" for a t by (simp add: history_tab_def Let_def)
  then have "behind (history_view lib s) = []"
    by (auto simp: history_view_def HistoryPage_def HistoryTabBar_def Let_def offered_map behind_none)
  then show ?thesis using reach_behind [of "history_view lib s"] by simp
qed

text \<open>The pages as they are: the login page, the live-stream page and the history page make one call a click.\<close>

lemma calm_login: "calm (LoginPage show loading verifying p)"
  by (simp add: LoginPage_def credentials_form_def otp_form_def show_if_def)

lemma calm_panel: "calm (SearchPanel lib ds s e loading result)"
proof -
  have "list_all calm (HistoryLogRow lib x key line)" for x key line
    by (auto simp: HistoryLogRow_def metadata_row_def Let_def AnsiText_def show_if_def list_all_iff case_prod_unfold)
  then have "list_all calm (result_area lib e loading result)"
    by (cases result) (auto simp: result_area_def result_table_def skeletons_def show_if_def list_all_iff case_prod_unfold Let_def)
  moreover have "list_all calm (pagination loading result)"
    by (cases result) (auto simp: pagination_def show_if_def)
  ultimately show ?thesis
    by (cases result) (simp_all add: panel_parts summary_bar_def LEVELS_def show_if_def list.pred_map list.pred_True)
qed

lemma calm_history: "calm (history_view lib s)"
  by (simp add: history_view_def HistoryPage_def HistoryTabBar_def history_tab_def calm_panel Let_def list_all_iff)

lemma calm_Navigation: "calm (Navigation linkActive p u)"
  by (cases u) (simp_all add: Navigation_def nav_link_def)

lemma calm_whole: "calm (whole_view linkActive lib ulib s lg lv hs)"
  by (simp add: whole_view_def app_view_def route_node_def guarded_def AuthenticatedApp_def page_layer_def calm_Navigation
      NotFoundPage_def view_login_def calm_login calm_page calm_history show_if_def split: view.split)

lemma sheet_reach: "InList True c \<in> reach (live_view lib lv) \<Longrightarrow> lp_sheet lv"
  using reach_offered [of "live_view lib lv"]
  by (auto simp: live_view_def LiveStreamPage_def sidebarContent_def mainContent_def TabBar_def offered_map Let_def
      split: if_splits prod.splits)

lemma reach_whole:
  defines "ready \<equiv> \<lambda>s. us_isAuthenticated s \<and> \<not> us_isLoading s"
    and "shown \<equiv> \<lambda>lv :: 'n live_page. list_all renders (ts_tabs (lp_tabs lv))"
  shows "InLive b \<in> reach (whole_view linkActive lib ulib s lg lv hs) \<longleftrightarrow>
      ready s \<and> shown lv \<and> b \<in> reach (live_view lib lv) \<and>
      (us_path s = ''/admin/live-stream'' \<or> us_path s = ''/admin/history'' \<and> (\<exists>c. b = InList True c))"
    and "InHistory d \<in> reach (whole_view linkActive lib ulib s lg lv hs) \<longleftrightarrow>
      ready s \<and> shown lv \<and> us_path s = ''/admin/history'' \<and> d \<in> reach (history_view ulib hs)"
    and "InLogin e \<in> reach (whole_view linkActive lib ulib s lg lv hs) \<longleftrightarrow>
      us_path s = ''/admin/login'' \<and> \<not> ready s \<and> e \<in> reach (view_login lg)"
    and "LogOut \<in> reach (whole_view linkActive lib ulib s lg lv hs) \<longleftrightarrow> ready s \<and> shown lv \<and> us_path s \<in> set AUTHENTICATED_PATHS"
proof -
  let ?whole = "whole_view linkActive lib ulib s lg lv hs"
  have open_guard: "guard_open s \<longleftrightarrow> ready s \<and> us_path s \<in> set AUTHENTICATED_PATHS"
    by (auto simp: guard_open_def AuthGuard_def ready_def)
  have all: "(InLive b \<in> reach ?whole \<longleftrightarrow>
      ready s \<and> shown lv \<and> b \<in> reach (live_view lib lv) \<and>
      (us_path s = ''/admin/live-stream'' \<or> us_path s = ''/admin/history'' \<and> (\<exists>c. b = InList True c))) \<and>
    (InHistory d \<in> reach ?whole \<longleftrightarrow>
      ready s \<and> shown lv \<and> us_path s = ''/admin/history'' \<and> d \<in> reach (history_view ulib hs)) \<and>
    (InLogin e \<in> reach ?whole \<longleftrightarrow> us_path s = ''/admin/login'' \<and> \<not> ready s \<and> e \<in> reach (view_login lg)) \<and>
    (LogOut \<in> reach ?whole \<longleftrightarrow> ready s \<and> shown lv \<and> us_path s \<in> set AUTHENTICATED_PATHS)"
  proof (cases "guard_open s \<and> \<not> shown lv")
    case True
    then have "reach ?whole = {}" by (simp add: whole_view_def shown_def)
    with True show ?thesis unfolding open_guard by (auto simp: AUTHENTICATED_PATHS_def)
  next
    case False
    then have whole: "?whole = app_view linkActive s (view_login lg) (live_view lib lv) (history_view ulib hs)"
      unfolding whole_view_def shown_def by (rule if_not_P)
    show ?thesis
      unfolding whole reach_app using False open_guard
      by (auto simp: live_reach_out(1) history_reach_out AUTHENTICATED_PATHS_def route_element_def ready_def split: view.split)
  qed
  then show "InLive b \<in> reach ?whole \<longleftrightarrow>
      ready s \<and> shown lv \<and> b \<in> reach (live_view lib lv) \<and>
      (us_path s = ''/admin/live-stream'' \<or> us_path s = ''/admin/history'' \<and> (\<exists>c. b = InList True c))"
    "InHistory d \<in> reach ?whole \<longleftrightarrow> ready s \<and> shown lv \<and> us_path s = ''/admin/history'' \<and> d \<in> reach (history_view ulib hs)"
    "InLogin e \<in> reach ?whole \<longleftrightarrow> us_path s = ''/admin/login'' \<and> \<not> ready s \<and> e \<in> reach (view_login lg)"
    "LogOut \<in> reach ?whole \<longleftrightarrow> ready s \<and> shown lv \<and> us_path s \<in> set AUTHENTICATED_PATHS" by blast+
qed



end
