(* ===== verification/Server_Start.thy ===== *)
theory Server_Start
  imports Gateway_App_Properties Auth_Service
begin

text \<open>
  The start of both servers: the configuration, the database pool and the keys of the auth server
  (database.module.ts, jwt.service.ts, main.ts), and of the gateway the options of its Redis clients
  (pubsub.provider.ts) and what it answers to a GET below its root (main.ts). Files, the import of keys and the
  static files are parameters.
\<close>

section \<open>The configuration\<close>

text \<open>\<open>ConfigService.get(key, default)\<close>: the validated configuration comes before the process and the default.\<close>

definition config_get :: "(string \<times> env_value) list \<Rightarrow> (string \<rightharpoonup> string) \<Rightarrow> string \<Rightarrow> env_value \<Rightarrow> env_value" where
  "config_get config vars k d =
     (case map_of config k of
        Some v \<Rightarrow> v
      | None \<Rightarrow> (case vars k of Some t \<Rightarrow> EnvText t | None \<Rightarrow> d))"

definition env_string :: "env_value \<Rightarrow> string" where
  "env_string v = (case v of EnvText t \<Rightarrow> t | EnvInt n \<Rightarrow> show_int n)"

section \<open>The auth server\<close>

record pool_options =
  po_host :: env_value
  po_port :: env_value
  po_user :: env_value
  po_password :: env_value
  po_database :: env_value
  po_waitForConnections :: bool
  po_connectionLimit :: int
  po_enableKeepAlive :: bool
  po_keepAliveInitialDelay :: int

definition database_pool :: "(string \<times> env_value) list \<Rightarrow> (string \<rightharpoonup> string) \<Rightarrow> pool_options" where
  "database_pool config vars =
     \<lparr>po_host = config_get config vars ''DB_HOST'' (EnvText ''localhost''),
      po_port = config_get config vars ''DB_PORT'' (EnvInt 3306),
      po_user = config_get config vars ''DB_USERNAME'' (EnvText ''root''),
      po_password = config_get config vars ''DB_PASSWORD'' (EnvText []),
      po_database = config_get config vars ''DB_DATABASE'' (EnvText ''auth''),
      po_waitForConnections = True, po_connectionLimit = 10, po_enableKeepAlive = True, po_keepAliveInitialDelay = 30000\<rparr>"

text \<open>
  Both files are read, then both keys imported; when both files fail, the error of the one that fails
  first is thrown, here that of the private key.
\<close>

definition load_keys ::
  "(string \<Rightarrow> 'e + string) \<Rightarrow> (string \<Rightarrow> string \<Rightarrow> 'e + 'k) \<Rightarrow> (string \<Rightarrow> string \<Rightarrow> 'e + 'k) \<Rightarrow>
   (string \<times> env_value) list \<Rightarrow> (string \<rightharpoonup> string) \<Rightarrow> 'e + 'k \<times> 'k" where
  "load_keys readFile importPKCS8 importSPKI config vars =
     (let privateKeyPath = env_string (config_get config vars ''JWT_PRIVATE_KEY_PATH'' (EnvText ''keys/private.pem''));
          publicKeyPath = env_string (config_get config vars ''JWT_PUBLIC_KEY_PATH'' (EnvText ''keys/public.pem''))
      in case readFile privateKeyPath of
           Inl e \<Rightarrow> Inl e
         | Inr privatePem \<Rightarrow> (case readFile publicKeyPath of
             Inl e \<Rightarrow> Inl e
           | Inr publicPem \<Rightarrow> (case importPKCS8 privatePem JWT_ALGORITHM of
               Inl e \<Rightarrow> Inl e
             | Inr privateKey \<Rightarrow> (case importSPKI publicPem JWT_ALGORITHM of
                 Inl e \<Rightarrow> Inl e
               | Inr publicKey \<Rightarrow> Inr (privateKey, publicKey)))))"

datatype 'e start_error = ConfigRefused "string list" | KeysFailed 'e

record 'k auth_started =
  as_pool :: pool_options
  as_keys :: "'k \<times> 'k"
  as_port :: string

definition auth_start ::
  "env_parser \<Rightarrow> (string \<Rightarrow> 'e + string) \<Rightarrow> (string \<Rightarrow> string \<Rightarrow> 'e + 'k) \<Rightarrow> (string \<Rightarrow> string \<Rightarrow> 'e + 'k) \<Rightarrow>
   (string \<rightharpoonup> string) \<Rightarrow> 'e start_error + 'k auth_started" where
  "auth_start parse readFile importPKCS8 importSPKI vars =
     (case validate parse auth_envSchema vars of
        Inl ks \<Rightarrow> Inl (ConfigRefused ks)
      | Inr config \<Rightarrow> (case load_keys readFile importPKCS8 importSPKI config vars of
          Inl e \<Rightarrow> Inl (KeysFailed e)
        | Inr keys \<Rightarrow> Inr \<lparr>as_pool = database_pool config vars, as_keys = keys, as_port = auth_port vars\<rparr>))"

section \<open>The gateway\<close>

record redis_options =
  ro_host :: string
  ro_port :: int
  ro_lazyConnect :: bool
  ro_enableOfflineQueue :: bool
  ro_maxRetriesPerRequest :: nat
  ro_retryStrategy :: "int \<Rightarrow> int option"

text \<open>\<open>getOrThrow\<close> of a variable that the schema always sets.\<close>

definition pubSub_options :: "(string \<times> env_value) list \<Rightarrow> redis_options option" where
  "pubSub_options config =
     (case (map_of config ''REDIS_HOST'', map_of config ''REDIS_PORT'') of
        (Some h, Some (EnvInt p)) \<Rightarrow>
          Some \<lparr>ro_host = env_string h, ro_port = p, ro_lazyConnect = True, ro_enableOfflineQueue = False,
                ro_maxRetriesPerRequest = 0, ro_retryStrategy = retryStrategy\<rparr>
      | _ \<Rightarrow> None)"

text \<open>
  The waits between the attempts to connect: \<open>n\<close> of them, from the attempt \<open>k\<close> on, as long as the strategy
  gives a delay.
\<close>

fun redis_delays :: "(int \<Rightarrow> int option) \<Rightarrow> nat \<Rightarrow> int \<Rightarrow> int list" where
  "redis_delays strategy 0 k = []"
| "redis_delays strategy (Suc n) k =
     (case strategy k of None \<Rightarrow> [] | Some d \<Rightarrow> d # redis_delays strategy n (k + 1))"

datatype 'f get_reply = StaticFile 'f | Fallback spa_reply | NoRoute

text \<open>
  Each static file has a route of its own, \<open>/\<close> that of its index; the fallback exists if the index file does.
  \<open>process.env.PORT ?? 4000\<close> is the port.
\<close>

definition gateway_get :: "(string \<rightharpoonup> 'f) \<Rightarrow> string \<Rightarrow> 'f get_reply" where
  "gateway_get files url =
     (let path = hd (split_on (CHR ''?'') url);
          file = (if path = ''/'' then ''/index.html'' else path)
      in case files file of
           Some f \<Rightarrow> StaticFile f
         | None \<Rightarrow> if files ''/index.html'' \<noteq> None then Fallback (spa_fallback url) else NoRoute)"

definition gateway_port :: "(string \<rightharpoonup> string) \<Rightarrow> string" where
  "gateway_port vars = nullish_default (vars ''PORT'') ''4000''"

section \<open>Properties\<close>

lemma map_of_mapped: "map_of (map (\<lambda>(k, c). (k, g k c)) xs) k = map_option (g k) (map_of xs k)"
  by (induction xs) auto

lemma validated_text:
  assumes "env_contract url_ok to_number parse" and "validate parse auth_envSchema vars = Inr config"
    and "k \<in> {''DB_HOST'', ''DB_USERNAME'', ''DB_PASSWORD'', ''DB_DATABASE'', ''JWT_PUBLIC_KEY_PATH'', ''JWT_PRIVATE_KEY_PATH''}"
  shows "\<exists>t. vars k = Some t \<and> t \<noteq> [] \<and> map_of config k = Some (EnvText t)"
proof -
  have v: "env_parse url_ok to_number auth_envSchema vars = Inr config"
    using assms(1,2) by (simp add: env_contract_def validate_def)
  have "truthy (vars k)" using auth_starts_iff [OF assms(1), of vars] assms(2,3) by auto
  then obtain c t where t: "vars k = Some (c # t)" by (cases "vars k"; cases "the (vars k)") (auto simp: truthy_def)
  have "config = map (\<lambda>(k, c). (k, the (env_read url_ok to_number c (vars k)))) auth_envSchema"
    using v by (auto simp: env_parse_def Let_def split: if_splits)
  then have "map_of config k = map_option (\<lambda>c. the (env_read url_ok to_number c (vars k))) (map_of auth_envSchema k)"
    by (simp add: map_of_mapped)
  moreover have "\<exists>m. map_of auth_envSchema k = Some (EnvRequired m)"
    using assms(3) by (auto simp: auth_envSchema_def)
  ultimately show ?thesis using t by (auto simp: env_read_def)
qed

text \<open>
  The auth server starts exactly if the schema accepts the environment and both key files can be read and
  imported; the pool is then the configured one, and no default of the pool or of the paths is ever used.
\<close>

lemma auth_starts_exactly:
  assumes "env_contract url_ok to_number parse"
  shows "(\<exists>st. auth_start parse readFile importPKCS8 importSPKI vars = Inr st) \<longleftrightarrow>
    (\<exists>config. validate parse auth_envSchema vars = Inr config) \<and>
    (\<exists>pem k. readFile (the (vars ''JWT_PRIVATE_KEY_PATH'')) = Inr pem \<and> importPKCS8 pem JWT_ALGORITHM = Inr k) \<and>
    (\<exists>pem k. readFile (the (vars ''JWT_PUBLIC_KEY_PATH'')) = Inr pem \<and> importSPKI pem JWT_ALGORITHM = Inr k)"
proof (cases "validate parse auth_envSchema vars")
  case (Inr config)
  note given = validated_text [OF assms Inr]
  have "env_string (config_get config vars ''JWT_PRIVATE_KEY_PATH'' d) = the (vars ''JWT_PRIVATE_KEY_PATH'')"
    "env_string (config_get config vars ''JWT_PUBLIC_KEY_PATH'' d) = the (vars ''JWT_PUBLIC_KEY_PATH'')" for d
    using given [of "''JWT_PRIVATE_KEY_PATH''"] given [of "''JWT_PUBLIC_KEY_PATH''"] by (auto simp: config_get_def env_string_def)
  then show ?thesis
    by (auto simp: auth_start_def Inr load_keys_def Let_def split: sum.split)
qed (simp add: auth_start_def)

lemma pool_as_configured:
  assumes "env_contract url_ok to_number parse" and "auth_start parse readFile importPKCS8 importSPKI vars = Inr st"
  shows "po_host (as_pool st) = EnvText (the (vars ''DB_HOST'')) \<and> po_user (as_pool st) = EnvText (the (vars ''DB_USERNAME'')) \<and>
    po_password (as_pool st) = EnvText (the (vars ''DB_PASSWORD'')) \<and> po_database (as_pool st) = EnvText (the (vars ''DB_DATABASE'')) \<and>
    po_password (as_pool st) \<noteq> EnvText []"
proof -
  from assms(2) obtain config where config: "validate parse auth_envSchema vars = Inr config" "as_pool st = database_pool config vars"
    by (auto simp: auth_start_def split: sum.splits)
  note given = validated_text [OF assms(1) config(1)]
  show ?thesis
    using given [of "''DB_HOST''"] given [of "''DB_USERNAME''"] given [of "''DB_PASSWORD''"] given [of "''DB_DATABASE''"]
    by (auto simp: config(2) database_pool_def config_get_def)
qed

text \<open>The gateway's Redis options are always there; after the first failure it waits ten times, for 27.5 seconds in all.\<close>

lemma gateway_redis:
  assumes "env_contract url_ok to_number parse" and "validate parse envSchema vars = Inr config"
  shows "\<exists>options. pubSub_options config = Some options \<and> (10 < n \<longrightarrow>
    length (redis_delays (ro_retryStrategy options) n 1) = 10 \<and> sum_list (redis_delays (ro_retryStrategy options) n 1) = 27500)"
proof -
  have v: "env_parse url_ok to_number envSchema vars = Inr config" using assms by (simp add: env_contract_def validate_def)
  then have config: "config = map (\<lambda>(k, c). (k, the (env_read url_ok to_number c (vars k)))) envSchema"
    by (auto simp: env_parse_def Let_def split: if_splits)
  have "\<forall>t. vars ''REDIS_PORT'' = Some t \<longrightarrow> to_number t \<noteq> None"
    using gateway_starts_iff [OF assms(1), of vars] assms(2) by auto
  then obtain p where p: "env_read url_ok to_number (EnvNumber 6379) (vars ''REDIS_PORT'') = Some (EnvInt p)"
    by (cases "vars ''REDIS_PORT''") (auto simp: env_read_def)
  have options: "pubSub_options config = Some \<lparr>ro_host = nullish_default (vars ''REDIS_HOST'') ''localhost'', ro_port = p, ro_lazyConnect = True,
      ro_enableOfflineQueue = False, ro_maxRetriesPerRequest = 0, ro_retryStrategy = retryStrategy\<rparr>"
    using p by (simp add: config envSchema_def pubSub_options_def) (simp add: env_read_def env_string_def)
  have "redis_delays retryStrategy n 1 = [500, 1000, 1500, 2000, 2500, 3000, 3500, 4000, 4500, 5000]" if n: "10 < n"
  proof -
    obtain m where "n = 11 + m" using n le_Suc_ex [of 11 n] by auto
    then show ?thesis by (simp add: eval_nat_numeral retryStrategy_def MAX_RETRIES_def)
  qed
  with options show ?thesis by simp
qed

text \<open>
  With the viewer deployed every path gets an answer: a file that exists is served, whatever its name, a
  path of GraphQL or with an extension is not found, and any other is the page itself, which routes it.
\<close>

lemma gateway_get_answers:
  assumes "files ''/index.html'' = Some index"
  shows "gateway_get files url \<noteq> NoRoute \<and>
    (\<forall>f. files (hd (split_on (CHR ''?'') url)) = Some f \<and> hd (split_on (CHR ''?'') url) \<noteq> ''/'' \<longrightarrow> gateway_get files url = StaticFile f) \<and>
    gateway_get files ''/'' = StaticFile index \<and>
    (gateway_get files url = Fallback SpaIndex \<longrightarrow>
       \<not> starts_with ''/graphql'' (hd (split_on (CHR ''?'') url)) \<and> \<not> has_extension (hd (split_on (CHR ''?'') url)))"
  using assms by (auto simp: gateway_get_def spa_fallback_def Let_def split: option.split if_splits)

end
