(* ===== verification/Logger.thy ===== *)
theory Logger
  imports Logging_Properties
begin

text \<open>
  The logger of both servers (winston-logger.service.ts): its levels, the transports it is created with,
  its methods, and what a call writes: a line of the console and a record in each of the two files.
  Winston is a library; relied on is that it passes an entry to every transport if the level of the
  entry is enabled, each transport writing what its format makes of it as one line, and its order of the levels.
\<close>

section \<open>Levels\<close>

text \<open>The levels the service uses, from the most to the least severe.\<close>

datatype log_level = ErrorLevel | WarnLevel | InfoLevel | VerboseLevel | DebugLevel

fun level_name :: "log_level \<Rightarrow> string" where
  "level_name ErrorLevel = ''error''"
| "level_name WarnLevel = ''warn''"
| "level_name InfoLevel = ''info''"
| "level_name VerboseLevel = ''verbose''"
| "level_name DebugLevel = ''debug''"

fun npm_level :: "log_level \<Rightarrow> nat" where
  "npm_level ErrorLevel = 0"
| "npm_level WarnLevel = 1"
| "npm_level InfoLevel = 2"
| "npm_level VerboseLevel = 4"
| "npm_level DebugLevel = 5"

lemma npm_level_inj: "npm_level a = npm_level b \<longleftrightarrow> a = b"
  by (cases a; cases b) simp_all

instantiation log_level :: linorder
begin

definition less_eq_log_level :: "log_level \<Rightarrow> log_level \<Rightarrow> bool" where
  "less_eq_log_level a b \<longleftrightarrow> npm_level a \<le> npm_level b"

definition less_log_level :: "log_level \<Rightarrow> log_level \<Rightarrow> bool" where
  "less_log_level a b \<longleftrightarrow> npm_level a < npm_level b"

instance
  by standard (auto simp: less_eq_log_level_def less_log_level_def npm_level_inj [symmetric])

end

definition level_of :: "string \<Rightarrow> log_level option" where
  "level_of n = find (\<lambda>l. level_name l = n) [ErrorLevel, WarnLevel, InfoLevel, VerboseLevel, DebugLevel]"

lemma level_of_name [simp]: "level_of (level_name l) = Some l"
  by (cases l) (simp_all add: level_of_def)

section \<open>The transports\<close>

definition LOG_DIR :: string where "LOG_DIR = ''logs''"
definition ARCHIVE_DIR :: string where "ARCHIVE_DIR = ''archive''"

text \<open>The directories that are made when the logger is created; \<open>existing\<close> are those there are.\<close>

definition ensureLogDirectories :: "string list \<Rightarrow> string list" where
  "ensureLogDirectories existing =
     foldl (\<lambda>ds d. if d \<in> set ds then ds else ds @ [d]) existing [LOG_DIR, ARCHIVE_DIR]"

datatype transport =
  ConsoleTransport
| FileTransport string string
| RotatingTransport string string string string bool string

definition createActiveFileTransport :: "log_clock \<Rightarrow> transport" where
  "createActiveFileTransport c = FileTransport LOG_DIR (getAppName c @ ''.log'')"

definition createArchiveFileTransport :: "log_clock \<Rightarrow> transport" where
  "createArchiveFileTransport c =
     RotatingTransport ARCHIVE_DIR (getAppName c @ ''.%DATE%'') ''YYYY-MM-DD'' ''.log'' True ''10m''"

record logger =
  lo_level :: log_level
  lo_transports :: "transport list"
  lo_context :: "string option"

text \<open>The constructor: the directories afterwards, and the logger.\<close>

definition new_logger :: "string option \<Rightarrow> log_clock \<Rightarrow> string list \<Rightarrow> string list \<times> logger" where
  "new_logger NODE_ENV c existing =
     (ensureLogDirectories (ensureLogDirectories existing),
      \<lparr>lo_level = (case level_of (getLogLevel NODE_ENV) of None \<Rightarrow> DebugLevel | Some l \<Rightarrow> l),
       lo_transports = [ConsoleTransport, createActiveFileTransport c, createArchiveFileTransport c], lo_context = None\<rparr>)"

definition logger_setContext :: "string \<Rightarrow> logger \<Rightarrow> logger" where
  "logger_setContext context lo = lo\<lparr>lo_context := Some context\<rparr>"

section \<open>Calls\<close>

datatype log_call =
  LogCall string "string option"
| ErrorCall string "string option" "string option"
| WarnCall string "string option"
| DebugCall string "string option"
| VerboseCall string "string option"
| MetaCall log_level string fields "string option"

fun call_level :: "log_call \<Rightarrow> log_level" where
  "call_level (LogCall m c) = InfoLevel"
| "call_level (ErrorCall m t c) = ErrorLevel"
| "call_level (WarnCall m c) = WarnLevel"
| "call_level (DebugCall m c) = DebugLevel"
| "call_level (VerboseCall m c) = VerboseLevel"
| "call_level (MetaCall l m fs c) = l"

fun call_message :: "log_call \<Rightarrow> string" where
  "call_message (LogCall m c) = m"
| "call_message (ErrorCall m t c) = m"
| "call_message (WarnCall m c) = m"
| "call_message (DebugCall m c) = m"
| "call_message (VerboseCall m c) = m"
| "call_message (MetaCall l m fs c) = m"

definition log_method :: "logger \<Rightarrow> request_store option \<Rightarrow> string \<Rightarrow> string option \<Rightarrow> log_entry" where
  "log_method lo store message context = log_plain ''info'' (lo_context lo) store message context"

definition warn_method :: "logger \<Rightarrow> request_store option \<Rightarrow> string \<Rightarrow> string option \<Rightarrow> log_entry" where
  "warn_method lo store message context = log_plain ''warn'' (lo_context lo) store message context"

definition debug_method :: "logger \<Rightarrow> request_store option \<Rightarrow> string \<Rightarrow> string option \<Rightarrow> log_entry" where
  "debug_method lo store message context = log_plain ''debug'' (lo_context lo) store message context"

definition verbose_method :: "logger \<Rightarrow> request_store option \<Rightarrow> string \<Rightarrow> string option \<Rightarrow> log_entry" where
  "verbose_method lo store message context = log_plain ''verbose'' (lo_context lo) store message context"

fun call_entry :: "logger \<Rightarrow> request_store option \<Rightarrow> log_call \<Rightarrow> log_entry" where
  "call_entry lo store (LogCall m c) = log_method lo store m c"
| "call_entry lo store (ErrorCall m t c) = log_error (lo_context lo) store m t c"
| "call_entry lo store (WarnCall m c) = warn_method lo store m c"
| "call_entry lo store (DebugCall m c) = debug_method lo store m c"
| "call_entry lo store (VerboseCall m c) = verbose_method lo store m c"
| "call_entry lo store (MetaCall l m fs c) = logWithMeta (lo_context lo) store (level_name l) m fs c"

text \<open>
  What a call writes, by the transport. The console's format puts the local time \<open>svTime\<close> into its copy
  of the entry.
\<close>

definition koreaTimestamp :: "string \<Rightarrow> log_entry \<Rightarrow> log_entry" where
  "koreaTimestamp svTime e = e\<lparr>le_fields := AList.update ''timestamp'' (Some (JStr svTime)) (le_fields e)\<rparr>"

definition transport_text :: "log_clock \<Rightarrow> string \<Rightarrow> log_entry \<Rightarrow> transport \<Rightarrow> string" where
  "transport_text now svTime e t =
     (case t of ConsoleTransport \<Rightarrow> nestLikeConsoleFormat (lc_pid now) (koreaTimestamp svTime e) | _ \<Rightarrow> ecsJsonFormat now e)"

definition write_call ::
  "logger \<Rightarrow> log_clock \<Rightarrow> string \<Rightarrow> request_store option \<Rightarrow> log_call \<Rightarrow> (transport \<times> string) list" where
  "write_call lo now svTime store c =
     (let e = call_entry lo store c in
      if call_level c \<le> lo_level lo then map (\<lambda>t. (t, transport_text now svTime e t)) (lo_transports lo) else [])"

text \<open>The text that a sequence of calls leaves with a transport: each output with the line feed that ends it.\<close>

definition written :: "transport \<Rightarrow> (transport \<times> string) list \<Rightarrow> string" where
  "written t ws = concat (map (\<lambda>(t', s). if t' = t then s @ [CHR 0x0A] else []) ws)"

section \<open>A record is one line\<close>

definition printable :: "string \<Rightarrow> bool" where
  "printable s \<longleftrightarrow> list_all (\<lambda>c. 32 \<le> code c) s"

lemma printable_simps [simp]:
  "printable []" "printable (c # s) \<longleftrightarrow> 32 \<le> code c \<and> printable s" "printable (s @ t) \<longleftrightarrow> printable s \<and> printable t"
  "printable (concat ss) \<longleftrightarrow> list_all printable ss"
  by (auto simp: printable_def list_all_iff)

lemma printable_escape: "printable (json_escape c)"
proof -
  have hex: "32 \<le> code (hex_digit d)" if "d < 16" for d
    using that by (simp add: hex_digit_def)
  have "code c div 16 < 16" "code c mod 16 < 16" using code_less_256 [of c] by linarith+
  with hex show ?thesis by (simp add: json_escape_def Let_def)
qed

lemma printable_quote [simp]: "printable (json_quote s)"
  by (simp add: json_quote_def list_all_iff printable_escape)

lemma printable_join: "printable sep \<Longrightarrow> list_all printable ss \<Longrightarrow> printable (join sep ss)"
  by (cases ss) (auto simp: join_def list_all_iff)

lemma printable_int [simp]: "printable (show_int n)"
proof -
  have "printable (show_nat k)" for k
    using show_nat_digits [of k] by (auto simp: printable_def list_all_iff is_digit_def)
  then show ?thesis by (simp add: show_int_def)
qed

lemma printable_stringify [simp]: "printable (json_stringify v)"
  by (induction v) (auto simp: list_all_iff intro!: printable_join)

lemma ecs_one_line: "CHR 0x0A \<notin> set (ecsJsonFormat now e)"
  using printable_stringify [of "JObj (ecs_record now e)"] by (auto simp: ecsJsonFormat_def printable_def list_all_iff)

section \<open>What a call writes\<close>

type_synonym logged = "log_clock \<times> string \<times> request_store option \<times> log_call"

definition all_writes :: "logger \<Rightarrow> logged list \<Rightarrow> (transport \<times> string) list" where
  "all_writes lo calls = concat (map (\<lambda>(now, sv, store, c). write_call lo now sv store c) calls)"

definition enabled :: "logger \<Rightarrow> logged \<Rightarrow> bool" where
  "enabled lo = (\<lambda>(now, sv, store, c). call_level c \<le> lo_level lo)"

definition file_record :: "logger \<Rightarrow> logged \<Rightarrow> string" where
  "file_record lo = (\<lambda>(now, sv, store, c). ecsJsonFormat now (call_entry lo store c))"

lemma written_append: "written t (a @ b) = written t a @ written t b"
  by (simp add: written_def)

lemma logger_transports [simp]:
  "lo_transports (snd (new_logger NODE_ENV c existing)) = [ConsoleTransport, createActiveFileTransport c, createArchiveFileTransport c]"
  "createActiveFileTransport c \<noteq> createArchiveFileTransport c" "createActiveFileTransport c \<noteq> ConsoleTransport"
  "createArchiveFileTransport c \<noteq> ConsoleTransport" "createArchiveFileTransport c \<noteq> createActiveFileTransport c"
  by (simp_all add: new_logger_def createActiveFileTransport_def createArchiveFileTransport_def)

lemma written_call:
  assumes "t \<in> {createActiveFileTransport k, createArchiveFileTransport k}"
    and "lo_transports lo = [ConsoleTransport, createActiveFileTransport k, createArchiveFileTransport k]"
  shows "written t (write_call lo now sv store c) =
    (if enabled lo (now, sv, store, c) then file_record lo (now, sv, store, c) @ [CHR 0x0A] else [])"
  using assms
  by (auto simp: written_def write_call_def transport_text_def Let_def enabled_def file_record_def createActiveFileTransport_def
      createArchiveFileTransport_def)

lemma file_lines:
  assumes "t \<in> {createActiveFileTransport k, createArchiveFileTransport k}"
    and "lo_transports lo = [ConsoleTransport, createActiveFileTransport k, createArchiveFileTransport k]"
  shows "split_on (CHR 0x0A) (written t (all_writes lo calls)) = map (file_record lo) (filter (enabled lo) calls) @ [[]]"
proof (induction calls)
  case Nil
  then show ?case by (simp add: all_writes_def written_def)
next
  case (Cons x calls)
  obtain now sv store c where x: "x = (now, sv, store, c)" by (cases x) auto
  have line: "CHR 0x0A \<notin> set (file_record lo x)" by (simp add: x file_record_def ecs_one_line)
  have "written t (all_writes lo (x # calls)) =
      (if enabled lo x then file_record lo x @ CHR 0x0A # [] else []) @ written t (all_writes lo calls)"
    using written_call [OF assms] by (simp add: all_writes_def x written_append)
  then show ?case using Cons split_on_append [OF line] by (cases "enabled lo x") simp_all
qed

lemma distinct_spread: "distinct (map fst a) \<Longrightarrow> distinct (map fst (spread a b))"
  unfolding spread_def by (induction b arbitrary: a) (auto simp: distinct_update)

lemma entry_fields_distinct: "distinct (map fst (le_fields (call_entry lo store c)))"
  by (cases c) (simp_all add: log_method_def warn_method_def debug_method_def verbose_method_def log_plain_def log_error_def
      logWithMeta_def distinct_spread)

lemmas entry_defs = log_method_def warn_method_def debug_method_def verbose_method_def log_plain_def log_error_def logWithMeta_def

lemma entry_level [simp]: "le_level (call_entry lo store c) = level_name (call_level c)"
  by (cases c) (simp_all add: entry_defs)

lemma rest_distinct:
  "distinct (map fst (le_fields e)) \<Longrightarrow>
     distinct (map fst (filter (\<lambda>(k, _). k \<notin> {''level'', ''message'', ''context'', ''trace''}) (le_fields e)))"
  by (rule distinct_map_filter)

text \<open>Message and level of a record are those of the entry, unless a field is named after the key of the level.\<close>

lemma record_message:
  "distinct (map fst (le_fields e)) \<Longrightarrow> map_of (ecs_record now e) ''message'' = Some (JStr (le_message e))"
  unfolding ecs_record_def Let_def fold_fields_get [OF rest_distinct]
  by (simp add: INTERNAL_KEYS_def set_field_get split: option.split)

lemma field_filter: "P k \<Longrightarrow> field (filter (\<lambda>(k, _). P k) m) k = field m k"
  by (simp add: field_def map_of_filter_key)

lemma record_level:
  assumes "distinct (map fst (le_fields e))" and "field (le_fields e) ''log.level'' = None"
  shows "map_of (ecs_record now e) ''log.level'' = Some (JStr (le_level e))"
proof -
  have "field (filter (\<lambda>(k, _). k \<notin> {''level'', ''message'', ''context'', ''trace''}) (le_fields e)) ''log.level'' = None"
    using field_filter [of "\<lambda>k. k \<notin> {''level'', ''message'', ''context'', ''trace''}" "''log.level''" "le_fields e"] assms(2) by simp
  then show ?thesis
    unfolding ecs_record_def Let_def fold_fields_get [OF rest_distinct [OF assms(1)]]
    by (simp add: set_field_get split: option.split)
qed

text \<open>The fields of an entry: those of the call, over the correlation id of the request.\<close>

fun call_meta :: "log_call \<Rightarrow> fields" where
  "call_meta (MetaCall l m fs c) = fs"
| "call_meta _ = []"

lemma map_of_spread: "map_of (spread a b) k = (case map_of (rev b) k of None \<Rightarrow> map_of a k | Some v \<Rightarrow> Some v)"
  unfolding spread_def
  by (induction b arbitrary: a) (auto simp: js_map.get_put map_add_def split: option.splits)

lemma entry_field:
  assumes "k \<notin> {''context'', ''trace''}" and "map_of (call_meta c) k = None"
  shows "field (le_fields (call_entry lo store c)) k =
    (if has_placeholder (call_message c) then None else field (getRequestMeta store) k)"
proof -
  have "map_of (rev (getRequestMeta store)) k = map_of (getRequestMeta store) k"
    by (simp add: getRequestMeta_def split: option.split)
  moreover have "map_of (rev (call_meta c)) k = None" using assms(2) by (simp add: map_of_eq_None_iff)
  ultimately show ?thesis using assms(1)
    by (cases c) (auto simp: field_def map_of_spread entry_defs split: option.split)
qed

text \<open>A field of the call itself, and the message of the entry, to which such a field may be appended.\<close>

lemma own_field:
  assumes "distinct (map fst (call_meta c))" and "map_of (call_meta c) k = Some v" and "\<not> has_placeholder (call_message c)"
  shows "field (le_fields (call_entry lo store c)) k = v"
proof -
  have "map_of (rev (call_meta c)) k = Some v" using assms(1,2) by (simp add: map_of_eq_Some_iff rev_map [symmetric])
  then show ?thesis using assms(3) by (cases c) (auto simp: field_def map_of_spread entry_defs)
qed

lemma entry_message:
  "le_message (call_entry lo store c) =
     (case field (le_fields (call_entry lo store c)) ''message'' of
        Some v \<Rightarrow> if json_truthy v then call_message c @ '' '' @ json_text v else call_message c
      | None \<Rightarrow> call_message c)"
  by (cases c) (auto simp: entry_defs winston_entry_def field_def [of "[]"] split: option.split)

lemma no_message:
  assumes "map_of (call_meta c) ''message'' = None \<or> has_placeholder (call_message c)"
  shows "field (le_fields (call_entry lo store c)) ''message'' = None"
proof (cases "has_placeholder (call_message c)")
  case True
  then show ?thesis by (cases c) (simp_all add: entry_defs field_def)
next
  case False
  then show ?thesis using assms entry_field [of "''message''" c lo store]
    by (simp add: getRequestMeta_def field_def split: option.split)
qed

lemma placeholder_record:
  assumes "has_placeholder (call_message c)"
  shows "ecs_record now (call_entry lo store c) =
    [(''@timestamp'', JStr (lc_iso now)), (''event.created_kst'', JStr (getKoreaIsoTimestamp (lc_parts now))),
     (''event.timezone'', JStr ''Asia/Seoul''), (''log.level'', JStr (level_name (call_level c))),
     (''message'', JStr (call_message c)), (''ecs.version'', JStr ''8.11.0''),
     (''process.pid'', JNum (lc_pid now)), (''service.name'', JStr (getAppName now))]"
proof -
  have e: "call_entry lo store c = \<lparr>le_level = level_name (call_level c), le_message = call_message c, le_fields = []\<rparr>"
    using assms by (cases c) (simp_all add: entry_defs winston_entry_def)
  show ?thesis by (simp add: e ecs_record_def field_def opt_truthy_def)
qed

lemma level_thresholds:
  "l \<le> InfoLevel \<longleftrightarrow> l \<noteq> VerboseLevel \<and> l \<noteq> DebugLevel" "l \<le> DebugLevel"
  by (cases l; simp add: less_eq_log_level_def)+

lemma logger_level:
  "lo_level (snd (new_logger NODE_ENV c existing)) = (if NODE_ENV = Some ''production'' then InfoLevel else DebugLevel)"
  using level_of_name [of InfoLevel] level_of_name [of DebugLevel] by (simp add: new_logger_def getLogLevel_def)

text \<open>C14: every call is one record. In either log file of a logger the lines, split at line feeds, are the
  records of the calls whose level is enabled, in their order, whatever their messages and fields
  contain; in production these are all but the calls at the levels debug and verbose, otherwise all. A
  record has the level of its call, unless the call's own fields say otherwise. Where the message of the call has no
  placeholder (a percent sign before one of the letters c, d, f, i, j, o, O, s, or before another one), the
  record has that message, followed by a message among the call's own fields, and, of a call in a
  request, the request's correlation id unless the call's own fields say otherwise. Where it has one, the record
  has that message, and of the call's fields, its context and its request nothing.\<close>

theorem every_call_is_one_record:
  assumes "t \<in> {createActiveFileTransport k, createArchiveFileTransport k}"
    and lo_def: "lo = (snd (new_logger NODE_ENV k existing))\<lparr>lo_context := own\<rparr>"
    and "distinct (map fst (call_meta c))"
  shows "split_on (CHR 0x0A) (written t (all_writes lo calls)) = map (file_record lo) (filter (enabled lo) calls) @ [[]] \<and>
    (enabled lo (now, sv, store, c) \<longleftrightarrow> NODE_ENV \<noteq> Some ''production'' \<or> call_level c \<notin> {VerboseLevel, DebugLevel}) \<and>
    file_record lo (now, sv, store, c) = json_stringify (JObj (ecs_record now (call_entry lo store c))) \<and>
    (map_of (call_meta c) ''log.level'' = None \<longrightarrow>
       map_of (ecs_record now (call_entry lo store c)) ''log.level'' = Some (JStr (level_name (call_level c)))) \<and>
    (map_of (call_meta c) ''message'' = None \<or> has_placeholder (call_message c) \<longrightarrow>
       map_of (ecs_record now (call_entry lo store c)) ''message'' = Some (JStr (call_message c))) \<and>
    (map_of (call_meta c) ''message'' = Some (Some (JStr extra)) \<and> extra \<noteq> [] \<and> \<not> has_placeholder (call_message c) \<longrightarrow>
       map_of (ecs_record now (call_entry lo store c)) ''message'' = Some (JStr (call_message c @ '' '' @ extra))) \<and>
    (map_of (call_meta c) ''correlationId'' = None \<and> store = Some st \<and> rs_correlationId st = Some i \<and> i \<noteq> [] \<and>
       \<not> has_placeholder (call_message c) \<longrightarrow>
       map_of (ecs_record now (call_entry lo store c)) ''correlationId'' = Some (JStr i)) \<and>
    (has_placeholder (call_message c) \<longrightarrow>
       ecs_record now (call_entry lo store c) =
         [(''@timestamp'', JStr (lc_iso now)), (''event.created_kst'', JStr (getKoreaIsoTimestamp (lc_parts now))),
          (''event.timezone'', JStr ''Asia/Seoul''), (''log.level'', JStr (level_name (call_level c))),
          (''message'', JStr (call_message c)), (''ecs.version'', JStr ''8.11.0''),
          (''process.pid'', JNum (lc_pid now)), (''service.name'', JStr (getAppName now))])"
proof -
  let ?e = "call_entry lo store c"
  have lines: "split_on (CHR 0x0A) (written t (all_writes lo calls)) = map (file_record lo) (filter (enabled lo) calls) @ [[]]"
    by (rule file_lines [OF assms(1)]) (simp add: lo_def)
  have level: "map_of (ecs_record now ?e) ''log.level'' = Some (JStr (level_name (call_level c)))"
    if "map_of (call_meta c) ''log.level'' = None"
    using record_level [OF entry_fields_distinct, of lo store c now] entry_field [of "''log.level''" c lo store] that
    by (simp add: getRequestMeta_def field_def split: option.split if_splits)
  have message: "map_of (ecs_record now ?e) ''message'' = Some (JStr (call_message c))"
    if "map_of (call_meta c) ''message'' = None \<or> has_placeholder (call_message c)"
    unfolding record_message [OF entry_fields_distinct]
    by (subst entry_message) (use that no_message [of c lo store] in simp)
  have more: "map_of (ecs_record now ?e) ''message'' = Some (JStr (call_message c @ '' '' @ extra))"
    if "map_of (call_meta c) ''message'' = Some (Some (JStr extra))" "extra \<noteq> []" "\<not> has_placeholder (call_message c)"
    unfolding record_message [OF entry_fields_distinct]
    by (subst entry_message) (use that own_field [OF assms(3) that(1,3), of lo store] in \<open>simp add: json_truthy_def\<close>)
  have correlation: "map_of (ecs_record now (call_entry lo (Some st) c)) ''correlationId'' = Some (JStr i)"
    if "map_of (call_meta c) ''correlationId'' = None" "rs_correlationId st = Some i" "i \<noteq> []" "\<not> has_placeholder (call_message c)"
    using that entry_field [of "''correlationId''" c lo "Some st"]
    by (intro ecs_keeps_fields entry_fields_distinct)
      (simp_all add: INTERNAL_KEYS_def getRequestMeta_def field_def opt_str_def truthy_def)
  have "enabled lo (now, sv, store, c) \<longleftrightarrow> NODE_ENV \<noteq> Some ''production'' \<or> call_level c \<notin> {VerboseLevel, DebugLevel}"
    by (simp add: enabled_def lo_def logger_level level_thresholds)
  with lines level message more correlation placeholder_record [of c now lo store] show ?thesis
    by (auto simp: file_record_def ecsJsonFormat_def)
qed

definition demo_clock :: log_clock where
  "demo_clock = \<lparr>lc_iso = ''2026-01-01T00:00:00.000Z'', lc_parts = [], lc_pid = 1, lc_SERVICE_NAME = Some ''auth''\<rparr>"

lemma every_call_is_one_record_witness:
  "\<exists>lo. lo = (snd (new_logger (Some ''production'') demo_clock []))\<lparr>lo_context := Some ''HTTP''\<rparr> \<and>
    length (split_on (CHR 0x0A) (written (createActiveFileTransport demo_clock) (all_writes lo
      [(demo_clock, [], None, LogCall [CHR 0x61, CHR 0x0A] None), (demo_clock, [], None, DebugCall ''b'' None)]))) = 2 \<and>
    map_of (ecs_record demo_clock (call_entry lo None
      (MetaCall InfoLevel ''GET /'' [(''message'', Some (JStr ''late''))] None))) ''message'' = Some (JStr ''GET / late'')"
proof -
  let ?lo = "(snd (new_logger (Some ''production'') demo_clock []))\<lparr>lo_context := Some ''HTTP''\<rparr>"
  let ?calls = "[(demo_clock, [], None, LogCall [CHR 0x61, CHR 0x0A] None), (demo_clock, [], None, DebugCall ''b'' None)]"
  let ?c = "MetaCall InfoLevel ''GET /'' [(''message'', Some (JStr ''late''))] None"
  have active: "createActiveFileTransport demo_clock \<in> {createActiveFileTransport demo_clock, createArchiveFileTransport demo_clock}"
    by simp
  have keys: "distinct (map fst (call_meta ?c))" by simp
  have "split_on (CHR 0x0A) (written (createActiveFileTransport demo_clock) (all_writes ?lo ?calls)) =
      map (file_record ?lo) (filter (enabled ?lo) ?calls) @ [[]]"
    "map_of (ecs_record demo_clock (call_entry ?lo None ?c)) ''message'' = Some (JStr ''GET / late'')"
    using every_call_is_one_record [OF active refl keys, where calls = ?calls and now = demo_clock and sv = "[]" and store = None
      and NODE_ENV = "Some ''production''" and existing = "[]" and own = "Some ''HTTP''" and extra = "''late''"]
    by simp_all
  moreover have "filter (enabled ?lo) [(demo_clock, [], None, LogCall [CHR 0x61, CHR 0x0A] None), (demo_clock, [], None, DebugCall ''b'' None)] =
      [(demo_clock, [], None, LogCall [CHR 0x61, CHR 0x0A] None)]"
    by (simp add: enabled_def logger_level level_thresholds)
  ultimately show ?thesis by simp
qed

text \<open>The console has no such protection: a line feed in a message starts a new line.\<close>

lemma console_line_breaks:
  "CHR 0x0A \<in> set m \<Longrightarrow> CHR 0x0A \<in> set (transport_text now sv (call_entry lo store (LogCall m context)) ConsoleTransport)"
  by (auto simp: transport_text_def nestLikeConsoleFormat_def koreaTimestamp_def Let_def log_method_def log_plain_def winston_entry_def
      split: option.splits)

text \<open>Both directories are there when the transports are made, and none is made twice.\<close>

lemma directories_made:
  "set (fst (new_logger NODE_ENV c existing)) = set existing \<union> {LOG_DIR, ARCHIVE_DIR} \<and>
   (distinct existing \<longrightarrow> distinct (fst (new_logger NODE_ENV c existing)))"
  by (auto simp: new_logger_def ensureLogDirectories_def LOG_DIR_def ARCHIVE_DIR_def)

end
