(* ===== verification/Korean_Time.thy ===== *)
theory Korean_Time
  imports Kst_Datetime Logger
begin

text \<open>
  Days and times in Korea: the day the daily report is about (scripts/daily-error-report.mjs,
  \<open>getYesterday\<close>), the day a new search starts with (SearchPanel.tsx, \<open>today\<close>), and the times in the records
  of the logger (winston-logger.service.ts). A \<open>Date\<close> is its time value, as in Kst_Datetime; \<open>offset\<close> is how
  far the zone of the process is ahead of UTC, the same on both days, as it is in Korea, which has no
  summer time.
\<close>

section \<open>Dates of the language\<close>

text \<open>What \<open>toISOString\<close> writes of a day before the \<open>T\<close>, of the years 0 to 9999.\<close>

definition date_text :: "int \<Rightarrow> string" where
  "date_text day =
     (let year = year_from_day day; n = day - day_from_year year; l = leap_day year; month = month_from_day l n
      in pad year 4 @ ''-'' @ pad (month + 1) 2 @ ''-'' @ pad (n - month_start l month + 1) 2)"

definition getDate :: "int \<Rightarrow> int \<Rightarrow> int" where
  "getDate offset d =
     (let day = (d + offset) div 86400000; year = year_from_day day; n = day - day_from_year year; l = leap_day year
      in n - month_start l (month_from_day l n) + 1)"

definition setDate :: "int \<Rightarrow> int \<Rightarrow> int \<Rightarrow> int" where
  "setDate offset date d =
     (let day = (d + offset) div 86400000; year = year_from_day day; n = day - day_from_year year
      in make_day year (month_from_day (leap_day year) n) date * 86400000 + (d + offset) mod 86400000 - offset)"

definition getYesterday :: "int \<Rightarrow> int \<Rightarrow> string" where
  "getYesterday offset now = date_text (setDate offset (getDate offset now - 1) now div 86400000)"

definition today :: "int \<Rightarrow> string" where
  "today now = date_text (now div 86400000)"

text \<open>\<open>toISOString\<close>, and the parts that \<open>Intl.DateTimeFormat\<close> makes of a \<open>Date\<close> for American English with the
  options of the logger: two digits for all but the year, a clock of 24 hours, and thousandths of seconds. The
  formatter looks up in its zone, Asia/Seoul, how far the zone is ahead of UTC at that time: \<open>seoul\<close>.\<close>

definition toISOString :: "int \<Rightarrow> string" where
  "toISOString d =
     (let ms = d mod 86400000
      in date_text (d div 86400000) @ ''T'' @ pad (ms div 3600000) 2 @ '':'' @ pad (ms div 60000 mod 60) 2 @ '':'' @
         pad (ms div 1000 mod 60) 2 @ ''.'' @ pad (ms mod 1000) 3 @ ''Z'')"

definition koreaDateTimeFormatter :: "(int \<Rightarrow> int) \<Rightarrow> int \<Rightarrow> (string \<times> string) list" where
  "koreaDateTimeFormatter seoul d =
     (let day = (d + seoul d) div 86400000; ms = (d + seoul d) mod 86400000;
          year = year_from_day day; n = day - day_from_year year; l = leap_day year; month = month_from_day l n
      in [(''month'', pad (month + 1) 2), (''literal'', ''/''), (''day'', pad (n - month_start l month + 1) 2),
          (''literal'', ''/''), (''year'', show_int year), (''literal'', '', ''), (''hour'', pad (ms div 3600000) 2),
          (''literal'', '':''), (''minute'', pad (ms div 60000 mod 60) 2), (''literal'', '':''),
          (''second'', pad (ms div 1000 mod 60) 2), (''literal'', ''.''), (''fractionalSecond'', pad (ms mod 1000) 3)])"

text \<open>
  The zone has been nine hours ahead since its last summer time ended, on the eighth of October 1988 at 17:00
  UTC; before, it was ahead by other offsets, which the source writes as \<open>+09:00\<close> too.
\<close>

definition SUMMER_TIME_ENDED :: int where
  "SUMMER_TIME_ENDED = 592333200000"

definition seoul_zone :: "(int \<Rightarrow> int) \<Rightarrow> bool" where
  "seoul_zone seoul \<longleftrightarrow> (\<forall>d \<ge> SUMMER_TIME_ENDED. seoul d = KST_OFFSET_MS)"

text \<open>The clock of a record that is written at a time.\<close>

definition clock_at :: "(int \<Rightarrow> int) \<Rightarrow> int \<Rightarrow> int \<Rightarrow> string option \<Rightarrow> log_clock" where
  "clock_at seoul now pid service =
     \<lparr>lc_iso = toISOString now, lc_parts = koreaDateTimeFormatter seoul now, lc_pid = pid, lc_SERVICE_NAME = service\<rparr>"

section \<open>The day of the report\<close>

lemma whole_days: "a * w + r = d + offset \<Longrightarrow> (a - k) * w + r - offset = d - k * w" for a w r d offset k :: int
  by (simp add: left_diff_distrib)

text \<open>The calendar may begin a month, or a year, before: the day before is one day before.\<close>

lemma setDate_back: "setDate offset (getDate offset d - k) d = d - k * 86400000"
proof -
  let ?day = "(d + offset) div 86400000"
  let ?n = "?day - day_from_year (year_from_day ?day)" and ?l = "leap_day (year_from_day ?day)"
  have "0 \<le> ?n" "?n < 365 + ?l" "?l = 0 \<or> ?l = 1"
    using year_from_day [of ?day] by (simp_all add: leap_day_def)
  from month_day [OF this] have "0 \<le> month_from_day ?l ?n" "month_from_day ?l ?n < 12" by simp_all
  then have "make_day (year_from_day ?day) (month_from_day ?l ?n) (?n - month_start ?l (month_from_day ?l ?n) + 1 - k) = ?day - k"
    by (simp add: make_day_def)
  then have "setDate offset (getDate offset d - k) d = (?day - k) * 86400000 + (d + offset) mod 86400000 - offset"
    by (simp only: setDate_def getDate_def Let_def)
  also have "\<dots> = d - k * 86400000"
    by (rule whole_days) (rule div_mult_mod_eq)
  finally show ?thesis .
qed

lemma report_date_is_utc: "getYesterday offset now = date_text (now div 86400000 - 1)"
proof -
  have "(now - 86400000) div 86400000 = now div 86400000 - 1" by simp
  then show ?thesis using setDate_back [of offset now 1] by (simp add: getYesterday_def)
qed

text \<open>In Korea the report is about the day before, but for the nine hours after midnight, in which it is about
  the day before that.\<close>

lemma utc_day:
  "now div 86400000 = (now + KST_OFFSET_MS) div 86400000 - (if (now + KST_OFFSET_MS) mod 86400000 < 9 * 3600000 then 1 else 0)"
proof -
  let ?t = "(now + KST_OFFSET_MS) mod 86400000"
  let ?day = "(now + KST_OFFSET_MS) div 86400000"
  have now: "now = ?day * 86400000 + (?t - 32400000)"
    using div_mult_mod_eq [of "now + KST_OFFSET_MS" 86400000] unfolding KST_OFFSET_MS_def by linarith
  have t: "0 \<le> ?t" "?t < 86400000" by simp_all
  have "now div 86400000 = ?day + (?t - 32400000) div 86400000"
    by (subst now) (simp only: div_mult_self3)
  moreover have "(?t - 32400000) div 86400000 = (if ?t < 32400000 then - 1 else 0)"
    using t int_div_pos_eq [of "?t - 32400000" 86400000 "- 1" "?t + 54000000"] by (simp add: div_pos_pos_trivial)
  ultimately show ?thesis by simp
qed

lemma report_date_in_korea:
  assumes "day = (now + KST_OFFSET_MS) div 86400000"
  shows "getYesterday KST_OFFSET_MS now =
    date_text (if (now + KST_OFFSET_MS) mod 86400000 < 9 * 3600000 then day - 2 else day - 1)"
  by (simp only: report_date_is_utc assms utc_day [of now]) simp

text \<open>The schedule of scripts/crontab-error-report runs it at 23:00 UTC, which is eight in the morning in Korea: on
  the third of March the errors of the first are reported.\<close>

lemma scheduled_report_skips_a_day:
  "formatKstDatetime 1772492400000 = ''2026-03-03 08:00:00.000''" "getYesterday KST_OFFSET_MS 1772492400000 = ''2026-03-01''"
  by code_simp+

text \<open>A search that is opened in those hours starts with the day before.\<close>

lemma today_in_korea:
  assumes "day = (now + KST_OFFSET_MS) div 86400000"
  shows "today now = date_text (if (now + KST_OFFSET_MS) mod 86400000 < 9 * 3600000 then day - 1 else day)"
  by (simp only: today_def assms utc_day [of now]) simp

section \<open>The times of the records\<close>

text \<open>The logger and the columns of the database write Korean time alike, one with a \<open>T\<close> and the offset, the other
  with a space.\<close>

lemma korean_stamp:
  "seoul d = KST_OFFSET_MS \<Longrightarrow>
     getKoreaIsoTimestamp (koreaDateTimeFormatter seoul d) = kst_date d @ ''T'' @ kst_time d @ ''+09:00''"
  by (simp add: getKoreaIsoTimestamp_def getDateTimePart_def koreaDateTimeFormatter_def kst_date_def kst_time_def Let_def)

text \<open>No field of an entry replaces the time of its record, unless it has its name.\<close>

lemma record_created:
  assumes "distinct (map fst (le_fields e))" and "field (le_fields e) ''event.created_kst'' = None"
  shows "map_of (ecs_record now e) ''event.created_kst'' = Some (JStr (getKoreaIsoTimestamp (lc_parts now)))"
proof -
  have "field (filter (\<lambda>(k, _). k \<notin> {''level'', ''message'', ''context'', ''trace''}) (le_fields e)) ''event.created_kst'' = None"
    using field_filter [of "\<lambda>k. k \<notin> {''level'', ''message'', ''context'', ''trace''}" "''event.created_kst''" "le_fields e"] assms(2) by simp
  then show ?thesis
    unfolding ecs_record_def Let_def fold_fields_get [OF rest_distinct [OF assms(1)]]
    by (simp add: set_field_get split: option.split)
qed

lemma call_created:
  assumes "map_of (call_meta c) ''event.created_kst'' = None"
  shows "map_of (ecs_record now (call_entry lo store c)) ''event.created_kst'' = Some (JStr (getKoreaIsoTimestamp (lc_parts now)))"
  using assms entry_field [of "''event.created_kst''" c lo store]
  by (intro record_created entry_fields_distinct) (simp add: getRequestMeta_def field_def split: option.split if_splits)

text \<open>C37: the two servers write Korean time alike. A \<open>Date\<close> written to a DATETIME column and read back is the
  same \<open>Date\<close>, to the millisecond, in all years of four digits in Korea. Since the country's last summer time
  ended in 1988, a record of the logger at that time has the same date and the same time
  of day, joined by a \<open>T\<close> and followed by the offset, whatever is logged, unless a field of the call is named
  \<open>event.created_kst\<close>; read as a column, the stamp without its offset is that \<open>Date\<close> again.\<close>

theorem korean_times_agree:
  assumes "1000 \<le> year_from_day ((now + KST_OFFSET_MS) div 86400000)"
    and "year_from_day ((now + KST_OFFSET_MS) div 86400000) \<le> 9999"
    and "seoul_zone seoul"
  shows "parseKstDatetime (formatKstDatetime now) = Some now \<and>
    formatKstDatetime now = kst_date now @ '' '' @ kst_time now \<and>
    parseKstDatetime (kst_date now @ ''T'' @ kst_time now) = Some now \<and>
    (SUMMER_TIME_ENDED \<le> now \<and> map_of (call_meta c) ''event.created_kst'' = None \<longrightarrow>
      map_of (ecs_record (clock_at seoul now pid service) (call_entry lo store c)) ''event.created_kst'' =
        Some (JStr (kst_date now @ ''T'' @ kst_time now @ ''+09:00'')))"
proof (intro conjI impI)
  show "formatKstDatetime now = kst_date now @ '' '' @ kst_time now" by (rule formatKst_parts)
  show "parseKstDatetime (formatKstDatetime now) = Some now" "parseKstDatetime (kst_date now @ ''T'' @ kst_time now) = Some now"
    using parse_kst [OF assms(1,2)] by (simp_all add: formatKst_parts)
  assume *: "SUMMER_TIME_ENDED \<le> now \<and> map_of (call_meta c) ''event.created_kst'' = None"
  with assms(3) have "seoul now = KST_OFFSET_MS" by (simp add: seoul_zone_def)
  with call_created [OF conjunct2 [OF *], of "clock_at seoul now pid service" lo store]
  show "map_of (ecs_record (clock_at seoul now pid service) (call_entry lo store c)) ''event.created_kst'' =
      Some (JStr (kst_date now @ ''T'' @ kst_time now @ ''+09:00''))"
    by (simp add: clock_at_def korean_stamp)
qed

text \<open>The zone from the autumn of 1987 on, with the summer time of 1988.\<close>

definition demo_seoul :: "int \<Rightarrow> int" where
  "demo_seoul d = (if 579027600000 \<le> d \<and> d < SUMMER_TIME_ENDED then 36000000 else KST_OFFSET_MS)"

lemma korean_times_agree_witness:
  "parseKstDatetime (formatKstDatetime 1700000000123) = Some 1700000000123 \<and>
   map_of (ecs_record (clock_at demo_seoul 1700000000123 1 None) (call_entry (snd (new_logger None demo_clock [])) None (LogCall ''up'' None)))
     ''event.created_kst'' = Some (JStr ''2023-11-15T07:13:20.123+09:00'')"
proof -
  have years: "1000 \<le> year_from_day ((1700000000123 + KST_OFFSET_MS) div 86400000)"
    "year_from_day ((1700000000123 + KST_OFFSET_MS) div 86400000) \<le> 9999" by code_simp+
  have zone: "seoul_zone demo_seoul" by (simp add: seoul_zone_def demo_seoul_def)
  have parts: "kst_date 1700000000123 = ''2023-11-15''" "kst_time 1700000000123 = ''07:13:20.123''" by code_simp+
  note agree = korean_times_agree [OF years zone, of "LogCall ''up'' None" 1 None "snd (new_logger None demo_clock [])" None]
  then have "parseKstDatetime (formatKstDatetime 1700000000123) = Some 1700000000123" by blast
  moreover from agree have "map_of (ecs_record (clock_at demo_seoul 1700000000123 1 None) (call_entry (snd (new_logger None demo_clock [])) None (LogCall ''up'' None)))
     ''event.created_kst'' = Some (JStr ''2023-11-15T07:13:20.123+09:00'')" by (simp add: parts SUMMER_TIME_ENDED_def)
  ultimately show ?thesis by blast
qed

text \<open>In the last summer of summer time the stamp is an hour ahead of the column, with the offset of the winter.\<close>

lemma summer_stamp_is_ahead:
  "formatKstDatetime 583747200000 = ''1988-07-01 17:00:00.000''"
  "getKoreaIsoTimestamp (koreaDateTimeFormatter demo_seoul 583747200000) = ''1988-07-01T18:00:00.000+09:00''"
  by code_simp+

end
