(* ===== verification/Graphql_Schema.thy ===== *)
theory Graphql_Schema
  imports Gateway_App
begin

text \<open>
  The schema of the gateway as the decorators of its models, inputs and resolvers declare it, the
  documents a client may send, and what GraphQL makes of a document, of its variables and of what a
  resolver returns. The executor itself is a library: what is relied on of it is its specification,
  with the serialization of values of another kind as a parameter.
\<close>

section \<open>Types\<close>

datatype gql_type = Named string | ListOf gql_type | NonNull gql_type

datatype gql_def =
  ObjectDef "(string \<times> gql_type) list"
| InputDef "(string \<times> gql_type \<times> json option) list"
| EnumDef "string list"

type_synonym gql_types = "(string \<times> gql_def) list"

text \<open>\<open>@Field(() => T)\<close>, which may not be null, and \<open>@Field(() => T, { nullable: true })\<close>.\<close>

definition field_of :: "string \<Rightarrow> string \<Rightarrow> string \<times> gql_type" where
  "field_of k t = (k, NonNull (Named t))"

definition nullable_field :: "string \<Rightarrow> string \<Rightarrow> string \<times> gql_type" where
  "nullable_field k t = (k, Named t)"

definition list_of :: "string \<Rightarrow> gql_type" where
  "list_of t = NonNull (ListOf (NonNull (Named t)))"

definition input_of :: "string \<Rightarrow> string \<Rightarrow> string \<times> gql_type \<times> json option" where
  "input_of k t = (k, NonNull (Named t), None)"

definition nullable_input :: "string \<Rightarrow> string \<Rightarrow> string \<times> gql_type \<times> json option" where
  "nullable_input k t = (k, Named t, None)"

section \<open>The models and the inputs\<close>

definition AuthToken_type :: gql_def where
  "AuthToken_type = ObjectDef [field_of ''accessToken'' ''String'', field_of ''refreshToken'' ''String'', field_of ''expiresIn'' ''Int'']"

definition LoginResult_type :: gql_def where
  "LoginResult_type =
     ObjectDef [field_of ''requiresTwoFactor'' ''Boolean'', nullable_field ''tokens'' ''AuthToken'',
       nullable_field ''twoFactorToken'' ''String'', nullable_field ''tOtpUrl'' ''String'']"

definition Container_type :: gql_def where
  "Container_type =
     ObjectDef [field_of ''id'' ''String'', field_of ''name'' ''String'', field_of ''image'' ''String'',
       field_of ''status'' ''String'', field_of ''state'' ''String'', field_of ''created'' ''Int'',
       (''ports'', list_of ''String''), nullable_field ''serviceName'' ''String'', nullable_field ''taskSlot'' ''String'',
       nullable_field ''nodeName'' ''String'']"

definition ContainerStats_type :: gql_def where
  "ContainerStats_type =
     ObjectDef [field_of ''id'' ''String'', field_of ''name'' ''String'', field_of ''cpuPercent'' ''Float'',
       field_of ''memUsage'' ''Float'', field_of ''memLimit'' ''Float'']"

definition LogEntry_type :: gql_def where
  "LogEntry_type =
     ObjectDef [field_of ''containerId'' ''String'', field_of ''timestamp'' ''String'', field_of ''message'' ''String'',
       field_of ''stream'' ''String'']"

definition ServiceLogEntry_type :: gql_def where
  "ServiceLogEntry_type =
     ObjectDef [field_of ''containerId'' ''String'', field_of ''serviceName'' ''String'', field_of ''timestamp'' ''String'',
       field_of ''message'' ''String'', field_of ''stream'' ''String'', nullable_field ''event'' ''String'']"

definition LogApp_type :: gql_def where
  "LogApp_type = ObjectDef [field_of ''name'' ''String'', field_of ''node'' ''String'']"

definition LogLine_type :: gql_def where
  "LogLine_type =
     ObjectDef [nullable_field ''timestamp'' ''String'', nullable_field ''level'' ''String'', nullable_field ''source'' ''String'',
       field_of ''message'' ''String'', nullable_field ''metadata'' ''String'', field_of ''node'' ''String'',
       field_of ''file'' ''String'', field_of ''lineNo'' ''Int'']"

definition LogSummary_type :: gql_def where
  "LogSummary_type =
     ObjectDef [field_of ''totalLines'' ''Int'', field_of ''errorCount'' ''Int'', field_of ''warnCount'' ''Int'',
       field_of ''infoCount'' ''Int'', field_of ''fileCount'' ''Int'']"

definition LogSearchResult_type :: gql_def where
  "LogSearchResult_type =
     ObjectDef [(''lines'', list_of ''LogLine''), field_of ''hasMore'' ''Boolean'', field_of ''summary'' ''LogSummary'']"

definition KioskAdminTerminalInfo_type :: gql_def where
  "KioskAdminTerminalInfo_type =
     ObjectDef [field_of ''terminalNo'' ''String'', field_of ''terminalNm'' ''String'', field_of ''addr'' ''String'',
       field_of ''detailAddr'' ''String'', field_of ''lat'' ''String'', field_of ''lon'' ''String'', field_of ''operationDay'' ''String'']"

definition KioskAdminReleaseCurrencyTerminals_type :: gql_def where
  "KioskAdminReleaseCurrencyTerminals_type =
     ObjectDef [field_of ''exchangeRate'' ''Float'', (''terminalInfos'', list_of ''KioskAdminTerminalInfo'')]"

definition LoginInput_type :: gql_def where
  "LoginInput_type = InputDef [input_of ''loginId'' ''String'', input_of ''password'' ''String'']"

definition TotpVerifyInput_type :: gql_def where
  "TotpVerifyInput_type = InputDef [input_of ''totpCode'' ''String'']"

definition RefreshTokenInput_type :: gql_def where
  "RefreshTokenInput_type = InputDef [input_of ''refreshToken'' ''String'']"

definition ChangePasswordInput_type :: gql_def where
  "ChangePasswordInput_type = InputDef [input_of ''currentPassword'' ''String'', input_of ''newPassword'' ''String'']"

definition LogSearchInput_type :: gql_def where
  "LogSearchInput_type =
     InputDef [input_of ''app'' ''String'', input_of ''from'' ''String'', nullable_input ''fromTime'' ''String'',
       input_of ''to'' ''String'', nullable_input ''toTime'' ''String'', nullable_input ''level'' ''String'',
       nullable_input ''keyword'' ''String'', nullable_input ''node'' ''String'', nullable_input ''after'' ''String'',
       (''limit'', Named ''Int'', Some (JNum 100))]"

definition CurrencyCode_type :: gql_def where
  "CurrencyCode_type = EnumDef (map currency_value [CNY, JPY, USD, TWD, VND, EUR, HKD, PHP, SGD, THB, CAD, GBP, MYR, IDR, AUD, KRW])"

definition gateway_types :: gql_types where
  "gateway_types =
     [(''AuthToken'', AuthToken_type), (''LoginResult'', LoginResult_type), (''Container'', Container_type),
      (''ContainerStats'', ContainerStats_type), (''LogEntry'', LogEntry_type), (''ServiceLogEntry'', ServiceLogEntry_type),
      (''LogApp'', LogApp_type), (''LogLine'', LogLine_type), (''LogSummary'', LogSummary_type),
      (''LogSearchResult'', LogSearchResult_type), (''KioskAdminTerminalInfo'', KioskAdminTerminalInfo_type),
      (''KioskAdminReleaseCurrencyTerminals'', KioskAdminReleaseCurrencyTerminals_type),
      (''LoginInput'', LoginInput_type), (''TotpVerifyInput'', TotpVerifyInput_type), (''RefreshTokenInput'', RefreshTokenInput_type),
      (''ChangePasswordInput'', ChangePasswordInput_type), (''LogSearchInput'', LogSearchInput_type), (''CurrencyCode'', CurrencyCode_type)]"

section \<open>The root fields\<close>

text \<open>Arguments and type of a root field: the decorators \<open>@Query\<close>, \<open>@Mutation\<close>, \<open>@Subscription\<close> and \<open>@Args\<close>.\<close>

type_synonym root_field = "(string \<times> gql_type) list \<times> gql_type"

definition auth_fields :: "((string \<times> string) \<times> root_field) list" where
  "auth_fields =
     [((''Mutation'', ''login''), [field_of ''input'' ''LoginInput''], NonNull (Named ''LoginResult'')),
      ((''Mutation'', ''verifyTwoFactor''), [field_of ''input'' ''TotpVerifyInput''], NonNull (Named ''AuthToken'')),
      ((''Mutation'', ''refreshToken''), [field_of ''input'' ''RefreshTokenInput''], NonNull (Named ''AuthToken'')),
      ((''Mutation'', ''changePassword''), [field_of ''input'' ''ChangePasswordInput''], NonNull (Named ''Boolean''))]"

definition streamer_fields :: "((string \<times> string) \<times> root_field) list" where
  "streamer_fields =
     [((''Query'', ''containers''), [], list_of ''Container''),
      ((''Query'', ''containerStats''), [(''containerIds'', list_of ''String'')], list_of ''ContainerStats''),
      ((''Subscription'', ''containerLog''), [field_of ''containerId'' ''String''], NonNull (Named ''LogEntry'')),
      ((''Subscription'', ''serviceLog''), [field_of ''serviceName'' ''String''], NonNull (Named ''ServiceLogEntry''))]"

definition history_fields :: "((string \<times> string) \<times> root_field) list" where
  "history_fields =
     [((''Query'', ''logApps''), [], list_of ''LogApp''),
      ((''Query'', ''logSearch''), [field_of ''input'' ''LogSearchInput''], NonNull (Named ''LogSearchResult''))]"

definition kiosk_fields :: "((string \<times> string) \<times> root_field) list" where
  "kiosk_fields =
     [((''Query'', ''getReleaseCurrencyTerminals''), [field_of ''currencyCode'' ''CurrencyCode''],
       NonNull (Named ''KioskAdminReleaseCurrencyTerminals''))]"

definition root_fields :: "((string \<times> string) \<times> root_field) list" where
  "root_fields = auth_fields @ streamer_fields @ history_fields @ kiosk_fields"

end
