(* ===== verification/Graphql_Execution.thy ===== *)
theory Graphql_Execution
  imports Graphql_Schema
begin

text \<open>
  What is relied on of GraphQL: which documents the server accepts, how it reads the variables of a
  request, and how it completes the value of a resolver into an answer. These are the rules of its
  specification, not code of the platform; the serialization of a value that is not of the kind of its
  scalar is a parameter. With them, the interfaces of TypeScript, and a check that every answer to a
  selection fits an interface, proved sound.
\<close>

section \<open>Documents\<close>

datatype selection = Sel string "selection list"

record gql_document =
  doc_operation :: string
  doc_variables :: "(string \<times> gql_type) list"
  doc_field :: string
  doc_args :: "(string \<times> string) list"
  doc_selection :: "selection list"

fun named_type :: "gql_type \<Rightarrow> string" where
  "named_type (Named n) = n"
| "named_type (ListOf t) = named_type t"
| "named_type (NonNull t) = named_type t"

fun is_nonnull :: "gql_type \<Rightarrow> bool" where
  "is_nonnull (NonNull t) = True"
| "is_nonnull _ = False"

fun sel_name :: "selection \<Rightarrow> string" where
  "sel_name (Sel k sub) = k"

text \<open>An object needs a selection of its own fields, each once; a scalar and an enum take none.\<close>

fun selects :: "(string \<rightharpoonup> gql_def) \<Rightarrow> gql_type \<Rightarrow> selection list \<Rightarrow> bool" where
  "selects S t sels \<longleftrightarrow>
     (case S (named_type t) of
        Some (ObjectDef fs) \<Rightarrow> sels \<noteq> [] \<and> distinct (map sel_name sels) \<and>
          list_all (\<lambda>s. case s of Sel k sub \<Rightarrow> (case map_of fs k of None \<Rightarrow> False | Some t' \<Rightarrow> selects S t' sub)) sels
      | _ \<Rightarrow> sels = [])"

declare selects.simps [simp del]

fun nesting :: "selection \<Rightarrow> nat" where
  "nesting (Sel k sub) = (if sub = [] then 0 else Suc (foldr max (map nesting sub) 0))"

text \<open>
  The server accepts a document whose root field exists, whose arguments are exactly those declared that
  may not be left out or some more that are declared, each from a variable of the argument's type, and
  whose selection fits the type and is not nested deeper than the limit of app.module.ts.
\<close>

definition DEPTH_LIMIT :: nat where "DEPTH_LIMIT = 5"

definition accepted :: "gql_types \<Rightarrow> ((string \<times> string) \<times> root_field) list \<Rightarrow> gql_document \<Rightarrow> bool" where
  "accepted S roots d \<longleftrightarrow>
     (case map_of roots (doc_operation d, doc_field d) of
        None \<Rightarrow> False
      | Some (args, t) \<Rightarrow>
          distinct (map fst (doc_args d)) \<and>
          list_all (\<lambda>(a, v). map_of args a \<noteq> None \<and> map_of (doc_variables d) v = map_of args a) (doc_args d) \<and>
          list_all (\<lambda>(a, u). is_nonnull u \<longrightarrow> a \<in> fst ` set (doc_args d)) args \<and>
          selects (map_of S) t (doc_selection d) \<and>
          nesting (Sel (doc_field d) (doc_selection d)) \<le> DEPTH_LIMIT)"

section \<open>Answers\<close>

text \<open>\<open>Int\<close> is a 32-bit integer. Of the serialization of values of other kinds only its results are relied on.\<close>

definition int32 :: "int \<Rightarrow> bool" where
  "int32 n \<longleftrightarrow> - (2 ^ 31) \<le> n \<and> n < 2 ^ 31"

definition of_scalar :: "string \<Rightarrow> json \<Rightarrow> bool" where
  "of_scalar n v \<longleftrightarrow>
     (case v of
        JStr s \<Rightarrow> n = ''String''
      | JNum i \<Rightarrow> n = ''Float'' \<or> n = ''Int'' \<and> int32 i
      | JBool b \<Rightarrow> n = ''Boolean''
      | _ \<Rightarrow> False)"

type_synonym serializer = "string \<Rightarrow> json \<Rightarrow> json option"

definition serializes :: "serializer \<Rightarrow> bool" where
  "serializes ser \<longleftrightarrow> (\<forall>n v r. ser n v = Some r \<longrightarrow> of_scalar n r)"

definition leaf_value :: "serializer \<Rightarrow> string \<Rightarrow> json \<Rightarrow> json option" where
  "leaf_value ser n v =
     (if of_scalar n v then Some v
      else (case v of JNum i \<Rightarrow> if n = ''Int'' then None else ser n v | _ \<Rightarrow> ser n v))"

lemma selection_smaller: "Sel k sub \<in> set sels \<Longrightarrow> size_list size sub < size_list size sels"
  by (induction sels) auto

text \<open>
  The completed value, and whether an error was recorded below it. A place that may be null takes
  the null of an error; a place that may not hands it on to the object or the list around it.
\<close>

function complete :: "serializer \<Rightarrow> (string \<rightharpoonup> gql_def) \<Rightarrow> gql_type \<Rightarrow> selection list \<Rightarrow> json \<Rightarrow> json \<times> bool" where
  "complete ser S (NonNull t) sels v = (case complete ser S t sels v of (r, e) \<Rightarrow> (r, e \<or> r = JNull))"
| "complete ser S (ListOf t) sels v =
     (case v of
        JNull \<Rightarrow> (JNull, False)
      | JArr vs \<Rightarrow>
          (let rs = map (complete ser S t sels) vs
           in if is_nonnull t \<and> JNull \<in> fst ` set rs then (JNull, True) else (JArr (map fst rs), True \<in> snd ` set rs))
      | _ \<Rightarrow> (JNull, True))"
| "complete ser S (Named n) sels v =
     (if v = JNull then (JNull, False)
      else (case S n of
          Some (ObjectDef fs) \<Rightarrow>
            (let rs = map (\<lambda>s. case s of Sel k sub \<Rightarrow>
                   (case map_of fs k of
                      None \<Rightarrow> (k, False, JNull, True)
                    | Some t \<Rightarrow> (k, is_nonnull t, complete ser S t sub (nullish_default (json_prop v k) JNull)))) sels
             in if \<exists>x \<in> set rs. fst (snd x) \<and> fst (snd (snd x)) = JNull then (JNull, True)
                else (JObj (map (\<lambda>x. (fst x, fst (snd (snd x)))) rs), \<exists>x \<in> set rs. snd (snd (snd x))))
        | _ \<Rightarrow> (case leaf_value ser n v of None \<Rightarrow> (JNull, True) | Some r \<Rightarrow> (r, False))))"
  by pat_completeness auto

termination
  by (relation "measures [\<lambda>(ser, S, t, sels, v). size_list size sels, \<lambda>(ser, S, t, sels, v). size t]")
    (auto intro: selection_smaller)

declare complete.simps [simp del]

text \<open>
  What a client without a policy for partial answers is given: the data of the root field, or an error if
  the resolver failed or any error was recorded.
\<close>

definition answer ::
  "serializer \<Rightarrow> gql_types \<Rightarrow> ((string \<times> string) \<times> root_field) list \<Rightarrow> gql_document \<Rightarrow> json \<Rightarrow> json option" where
  "answer ser S roots d v =
     (case map_of roots (doc_operation d, doc_field d) of
        None \<Rightarrow> None
      | Some (args, t) \<Rightarrow>
          (case complete ser (map_of S) t (doc_selection d) v of (r, e) \<Rightarrow> if e then None else Some (JObj [(doc_field d, r)])))"

section \<open>Interfaces\<close>

datatype ts_type =
  TsString | TsNumber | TsBoolean | TsNull | TsUndefined
| TsArray ts_type | TsObject "(string \<times> ts_type) list" | TsOr ts_type ts_type

text \<open>A property that may be left out: \<open>k?: T\<close>.\<close>

definition optional_property :: "string \<Rightarrow> ts_type \<Rightarrow> string \<times> ts_type" where
  "optional_property k t = (k, TsOr t TsUndefined)"

text \<open>A value has a type; \<open>None\<close> is \<open>undefined\<close>. An object may have more properties than its interface.\<close>

fun ts_has :: "ts_type \<Rightarrow> json option \<Rightarrow> bool" where
  "ts_has TsString x \<longleftrightarrow> (case x of Some (JStr s) \<Rightarrow> True | _ \<Rightarrow> False)"
| "ts_has TsNumber x \<longleftrightarrow> (case x of Some (JNum n) \<Rightarrow> True | _ \<Rightarrow> False)"
| "ts_has TsBoolean x \<longleftrightarrow> (case x of Some (JBool b) \<Rightarrow> True | _ \<Rightarrow> False)"
| "ts_has TsNull x \<longleftrightarrow> x = Some JNull"
| "ts_has TsUndefined x \<longleftrightarrow> x = None"
| "ts_has (TsArray t) x \<longleftrightarrow> (case x of Some (JArr vs) \<Rightarrow> list_all (\<lambda>v. ts_has t (Some v)) vs | _ \<Rightarrow> False)"
| "ts_has (TsObject ps) x \<longleftrightarrow> (case x of Some (JObj fs) \<Rightarrow> list_all (\<lambda>(k, t). ts_has t (map_of fs k)) ps | _ \<Rightarrow> False)"
| "ts_has (TsOr t u) x \<longleftrightarrow> ts_has t x \<or> ts_has u x"

fun alternatives :: "ts_type \<Rightarrow> ts_type list" where
  "alternatives (TsOr t u) = alternatives t @ alternatives u"
| "alternatives t = [t]"

lemma ts_has_alternative: "t \<in> set (alternatives u) \<Longrightarrow> ts_has t x \<Longrightarrow> ts_has u x"
  by (induction u) auto

definition scalar_ts :: "string \<Rightarrow> ts_type option" where
  "scalar_ts n = map_of [(''String'', TsString), (''Int'', TsNumber), (''Float'', TsNumber), (''Boolean'', TsBoolean)] n"

text \<open>Does every answer to a selection on a type fit an interface? A property that is not selected is undefined.\<close>

definition selected :: "string \<Rightarrow> selection list \<Rightarrow> selection list option" where
  "selected k sels = map_of (map (\<lambda>s. case s of Sel k sub \<Rightarrow> (k, sub)) sels) k"

lemma selected_smaller: "selected k sels = Some sub \<Longrightarrow> size_list size sub < size_list size sels"
  by (induction sels) (auto simp: selected_def split: selection.splits if_splits)

lemma alternatives_size: "t \<in> set (alternatives u) \<Longrightarrow> size t \<le> size u"
  by (induction u) auto

function fits :: "(string \<rightharpoonup> gql_def) \<Rightarrow> gql_type \<Rightarrow> selection list \<Rightarrow> ts_type \<Rightarrow> bool" where
  "fits S (NonNull t) sels u \<longleftrightarrow> fits S t sels (TsOr TsNull u)"
| "fits S (ListOf t) sels u \<longleftrightarrow>
     TsNull \<in> set (alternatives u) \<and>
     (\<exists>a \<in> set (alternatives u). case a of
        TsArray b \<Rightarrow> fits S t sels b | _ \<Rightarrow> False)"
| "fits S (Named n) sels u \<longleftrightarrow>
     TsNull \<in> set (alternatives u) \<and>
     (\<exists>a \<in> set (alternatives u). case S n of
        Some (ObjectDef fs) \<Rightarrow>
          (case a of
             TsObject ps \<Rightarrow> list_all (\<lambda>(k, p). case selected k sels of
                 None \<Rightarrow> TsUndefined \<in> set (alternatives p)
               | Some sub \<Rightarrow> (case map_of fs k of None \<Rightarrow> False | Some t \<Rightarrow> fits S t sub p)) ps
           | _ \<Rightarrow> False)
      | _ \<Rightarrow> scalar_ts n = Some a)"
  by pat_completeness auto

termination
  by (relation "measures [\<lambda>(S, t, sels, u). size_list size sels, \<lambda>(S, t, sels, u). size t]")
    (auto intro: selected_smaller)

declare fits.simps [simp del]

lemma map_of_completed:
  "map_of (map (\<lambda>x. (fst x, fst (snd (snd x)))) (map (\<lambda>s. case s of Sel k sub \<Rightarrow> (k, f k sub)) sels)) k =
     (case selected k sels of None \<Rightarrow> None | Some sub \<Rightarrow> Some (fst (snd (f k sub))))"
  by (induction sels) (auto simp: selected_def split: selection.split)

lemma selected_in: "selected k sels = Some sub \<Longrightarrow> Sel k sub \<in> set sels"
  by (induction sels) (auto simp: selected_def split: selection.splits if_splits)

lemma leaf_has:
  assumes "serializes ser" "leaf_value ser n v = Some r" "scalar_ts n = Some u"
  shows "ts_has u (Some r)"
proof -
  have "of_scalar n r"
    using assms(1,2) by (auto simp: leaf_value_def serializes_def split: if_splits json.splits)
  then show ?thesis using assms(3)
    by (cases r) (auto simp: of_scalar_def scalar_ts_def)
qed

text \<open>What fits is what every answer has, unless a null is handed on.\<close>

lemma completed_object:
  assumes "S n = Some (ObjectDef fs)" "complete ser S (Named n) sels v = (r, e)" "r \<noteq> JNull"
  shows "\<exists>o1. r = JObj o1 \<and> (\<forall>k. map_of o1 k =
     (case selected k sels of
        None \<Rightarrow> None
      | Some sub \<Rightarrow> Some (case map_of fs k of None \<Rightarrow> JNull
          | Some t \<Rightarrow> fst (complete ser S t sub (nullish_default (json_prop v k) JNull))))) \<and>
     (\<forall>k sub t. selected k sels = Some sub \<longrightarrow> map_of fs k = Some t \<longrightarrow> is_nonnull t \<longrightarrow>
        fst (complete ser S t sub (nullish_default (json_prop v k) JNull)) \<noteq> JNull)"
proof -
  define f where "f k sub = (case map_of fs k of
      None \<Rightarrow> (False, JNull, True)
    | Some t \<Rightarrow> (is_nonnull t, complete ser S t sub (nullish_default (json_prop v k) JNull)))" for k sub
  have eq: "(case map_of fs k of None \<Rightarrow> (k, False, JNull, True)
      | Some t \<Rightarrow> (k, is_nonnull t, complete ser S t sub (nullish_default (json_prop v k) JNull))) = (k, f k sub)" for k sub
    by (simp add: f_def split: option.split)
  let ?rs = "map (\<lambda>s. case s of Sel k sub \<Rightarrow> (k, f k sub)) sels"
  have r: "r = JObj (map (\<lambda>x. (fst x, fst (snd (snd x)))) ?rs)" and nn: "\<not> (\<exists>x \<in> set ?rs. fst (snd x) \<and> fst (snd (snd x)) = JNull)"
    using assms(1-3) by (auto simp: complete.simps(3) eq Let_def split: if_splits)
  have "map_of (map (\<lambda>x. (fst x, fst (snd (snd x)))) ?rs) k =
     (case selected k sels of None \<Rightarrow> None | Some sub \<Rightarrow> Some (fst (snd (f k sub))))" for k by (rule map_of_completed)
  moreover have "fst (snd (f k sub)) \<noteq> JNull" if "selected k sels = Some sub" "map_of fs k = Some t" "is_nonnull t" for k sub t
  proof -
    have "(k, f k sub) \<in> set ?rs" using selected_in [OF that(1)] by force
    with nn have "\<not> (fst (snd (k, f k sub)) \<and> fst (snd (snd (k, f k sub))) = JNull)" by blast
    with that show ?thesis by (simp add: f_def)
  qed
  ultimately show ?thesis using r
    by (auto simp: f_def split: option.splits)
qed

lemma fits_sound:
  assumes "serializes ser"
  shows "fits S t sels u \<Longrightarrow> complete ser S t sels v = (r, e) \<Longrightarrow> \<not> (is_nonnull t \<and> r = JNull) \<Longrightarrow> ts_has u (Some r)"
proof (induction S t sels u arbitrary: v r e rule: fits.induct)
  case (1 S t sels u)
  then obtain e' where c: "complete ser S t sels v = (r, e')" and r: "r \<noteq> JNull"
    by (auto simp: complete.simps(1) split: prod.splits)
  have "ts_has (TsOr TsNull u) (Some r)"
    using 1(1) [OF _ c] 1(2) r by (simp add: fits.simps(1))
  with r show ?case by simp
next
  case (2 S t sels u)
  from 2(2) obtain a where null: "TsNull \<in> set (alternatives u)" and a: "a \<in> set (alternatives u)"
      "case a of TsArray b \<Rightarrow> fits S t sels b | _ \<Rightarrow> False"
    by (auto simp: fits.simps(2))
  then obtain b where b: "TsArray b \<in> set (alternatives u)" "fits S t sels b" by (cases a) auto
  show ?case
  proof (cases "r = JNull")
    case True
    then show ?thesis using ts_has_alternative [OF null] by simp
  next
    case False
    then obtain vs where vs: "v = JArr vs" "r = JArr (map fst (map (complete ser S t sels) vs))"
        "is_nonnull t \<longrightarrow> JNull \<notin> fst ` set (map (complete ser S t sels) vs)"
      using 2(3) by (auto simp: complete.simps(2) Let_def split: json.splits if_splits)
    have "ts_has b (Some (fst (complete ser S t sels x)))" if "x \<in> set vs" for x
    proof (rule 2(1) [OF b(1) refl b(2)])
      show "complete ser S t sels x = (fst (complete ser S t sels x), snd (complete ser S t sels x))" by simp
      show "\<not> (is_nonnull t \<and> fst (complete ser S t sels x) = JNull)" using vs(3) that by force
    qed
    then have "ts_has (TsArray b) (Some r)" by (auto simp: vs(2) list_all_iff)
    then show ?thesis by (rule ts_has_alternative [OF b(1)])
  qed
next
  case (3 S n sels u)
  from 3(2) have null: "TsNull \<in> set (alternatives u)" by (simp add: fits.simps(3))
  show ?case
  proof (cases "r = JNull")
    case True
    then show ?thesis using ts_has_alternative [OF null] by simp
  next
    case r: False
    show ?thesis
    proof (cases "\<exists>fs. S n = Some (ObjectDef fs)")
      case True
      then obtain fs a where S: "S n = Some (ObjectDef fs)" and a: "a \<in> set (alternatives u)"
          "case a of TsObject ps \<Rightarrow> list_all (\<lambda>(k, p). case selected k sels of
                 None \<Rightarrow> TsUndefined \<in> set (alternatives p)
               | Some sub \<Rightarrow> (case map_of fs k of None \<Rightarrow> False | Some t \<Rightarrow> fits S t sub p)) ps | _ \<Rightarrow> False"
        using 3(2) by (auto simp: fits.simps(3))
      then obtain ps where ps: "TsObject ps \<in> set (alternatives u)"
          "list_all (\<lambda>(k, p). case selected k sels of
                 None \<Rightarrow> TsUndefined \<in> set (alternatives p)
               | Some sub \<Rightarrow> (case map_of fs k of None \<Rightarrow> False | Some t \<Rightarrow> fits S t sub p)) ps"
        by (cases a) auto
      obtain o1 where o1: "r = JObj o1"
        "\<And>k. map_of o1 k = (case selected k sels of None \<Rightarrow> None
           | Some sub \<Rightarrow> Some (case map_of fs k of None \<Rightarrow> JNull
               | Some t \<Rightarrow> fst (complete ser S t sub (nullish_default (json_prop v k) JNull))))"
        "\<And>k sub t. selected k sels = Some sub \<Longrightarrow> map_of fs k = Some t \<Longrightarrow> is_nonnull t \<Longrightarrow>
           fst (complete ser S t sub (nullish_default (json_prop v k) JNull)) \<noteq> JNull"
        using completed_object [OF S 3(3) r] by (metis selected_def)
      have "ts_has p (map_of o1 k)" if kp: "(k, p) \<in> set ps" for k p
      proof (cases "selected k sels")
        case None
        then have "TsUndefined \<in> set (alternatives p)" using ps(2) kp by (auto simp: list_all_iff)
        then show ?thesis using ts_has_alternative [of TsUndefined p] None by (simp add: o1(2))
      next
        case (Some sub)
        then obtain t where t: "map_of fs k = Some t" "fits S t sub p"
          using bspec [OF ps(2) [unfolded list_all_iff] kp] by (auto split: option.splits)
        have "ts_has p (Some (fst (complete ser S t sub (nullish_default (json_prop v k) JNull))))"
          by (rule 3(1) [OF ps(1) S refl refl kp refl Some t(1) t(2) prod.collapse [symmetric]]) (use o1(3) [OF Some t(1)] in blast)
        then show ?thesis by (simp add: o1(2) Some t(1))
      qed
      then have "ts_has (TsObject ps) (Some r)" by (auto simp: o1(1) list_all_iff)
      then show ?thesis by (rule ts_has_alternative [OF ps(1)])
    next
      case False
      then obtain a where a: "a \<in> set (alternatives u)" "scalar_ts n = Some a"
        using 3(2) by (cases "S n"; cases "the (S n)") (auto simp: fits.simps(3))
      have "leaf_value ser n v = Some r"
        using 3(3) r False by (auto simp: complete.simps(3) split: if_splits option.splits gql_def.splits)
      then show ?thesis using leaf_has [OF assms _ a(2)] ts_has_alternative [OF a(1)] by blast
    qed
  qed
qed

section \<open>Variables\<close>

lemma member_smaller: "x \<in> set vs \<Longrightarrow> size x < Suc (size_list size vs)"
  by (induction vs) auto

lemma property_smaller: "(k, x) \<in> set o1 \<Longrightarrow> size x < Suc (size_list (size_prod (\<lambda>x. 0) size) o1)"
  by (induction o1) auto

text \<open>
  The value of a variable as a resolver gets it, \<open>None\<close> where it is refused: an input object takes no
  other fields than its own, a field that is left out gets its default or stays absent, a single value
  stands for a list of one.
\<close>

function input_value :: "(string \<rightharpoonup> gql_def) \<Rightarrow> gql_type \<Rightarrow> json \<Rightarrow> json option" where
  "input_value S (NonNull t) v = (if v = JNull then None else input_value S t v)"
| "input_value S (ListOf t) v =
     (case v of
        JNull \<Rightarrow> Some JNull
      | JArr vs \<Rightarrow> (let rs = map (input_value S t) vs in if None \<in> set rs then None else Some (JArr (map the rs)))
      | _ \<Rightarrow> map_option (\<lambda>r. JArr [r]) (input_value S t v))"
| "input_value S (Named n) v =
     (if v = JNull then Some JNull
      else (case S n of
          None \<Rightarrow> if of_scalar n v then Some v else None
        | Some (EnumDef vs) \<Rightarrow> (case v of JStr s \<Rightarrow> if s \<in> set vs then Some v else None | _ \<Rightarrow> None)
        | Some (ObjectDef fs) \<Rightarrow> None
        | Some (InputDef fs) \<Rightarrow>
            (case v of
               JObj o1 \<Rightarrow>
                 (let rs = map (\<lambda>kv. case kv of (k, x) \<Rightarrow>
                        (k, case map_of fs k of None \<Rightarrow> None | Some (t, d) \<Rightarrow> input_value S t x)) o1;
                      absent = filter (\<lambda>(k, t, d). k \<notin> fst ` set o1) fs
                  in if None \<in> snd ` set rs \<or> (\<exists>(k, t, d) \<in> set absent. is_nonnull t \<and> d = None) then None
                     else Some (JObj (map (\<lambda>(k, x). (k, the x)) rs @
                       concat (map (\<lambda>(k, t, d). case d of None \<Rightarrow> [] | Some x \<Rightarrow> [(k, x)]) absent))))
             | _ \<Rightarrow> None)))"
  by pat_completeness auto

termination
  by (relation "measures [\<lambda>(S, t, v). size v, \<lambda>(S, t, v). size t]")
    (auto simp: member_smaller property_smaller less_imp_neq intro: le_neq_implies_less dest: member_smaller)

declare input_value.simps [simp del]

text \<open>The arguments of the root field, from the variables of the request.\<close>

definition argument :: "gql_types \<Rightarrow> gql_document \<Rightarrow> json \<Rightarrow> string \<Rightarrow> json option" where
  "argument S d vars a =
     Option.bind (map_of (doc_args d) a) (\<lambda>v. Option.bind (map_of (doc_variables d) v) (\<lambda>t.
       Option.bind (json_prop vars v) (input_value (map_of S) t)))"

end
