(* ===== verification/End_To_End.thy ===== *)
theory End_To_End
  imports Gateway_Proxy Ui_Login
begin

text \<open>
  Properties that span the services: an error of the auth server on its way through the gateway to the
  message of the login form, and the correlation id of a request on its way from the client through
  the gateway to the auth server.
\<close>

section \<open>From the auth server to the login form\<close>

text \<open>Every pattern for technical messages needs a letter that no message of the error table has.\<close>

lemma code_lower_char:
  "code (lower_char c) = (if 65 \<le> code c \<and> code c \<le> 90 \<or> 192 \<le> code c \<and> code c \<le> 222 \<and> code c \<noteq> 215
     then code c + 32 else code c)"
  by (simp add: lower_char_def Let_def)

definition lacks :: "nat \<Rightarrow> string \<Rightarrow> bool" where
  "lacks k m \<longleftrightarrow> list_all (\<lambda>c. code c \<noteq> k \<and> code c + 32 \<noteq> k) m"

lemma lacks_lower: "lacks k m \<Longrightarrow> c \<in> set (js_lower m) \<Longrightarrow> code c \<noteq> k"
  by (auto simp: lacks_def js_lower_def list_all_iff code_lower_char split: if_splits)

lemma lacks_includes: "lacks k m \<Longrightarrow> q \<in> set p \<Longrightarrow> code q = k \<Longrightarrow> \<not> js_includes (js_lower m) p"
  using lacks_lower by (fastforce simp: js_includes_iff)

lemma set_split_on: "p \<in> set (split_on c s) \<Longrightarrow> set p \<subseteq> set s"
proof (induction s arbitrary: p)
  case (Cons a s)
  show ?case
  proof (cases "a = c")
    case False
    obtain q qs where "split_on c s = q # qs" by (cases "split_on c s") auto
    moreover from this Cons.IH have "set q \<subseteq> set s" "\<forall>p \<in> set qs. set p \<subseteq> set s" by auto
    ultimately show ?thesis using Cons.prems False by auto
  qed (use Cons in auto)
qed simp

lemma lacks_undefined: "lacks 110 m \<Longrightarrow> \<not> data_undefined m"
proof
  assume no: "lacks 110 m" and "data_undefined m"
  then obtain line a i where line: "a \<in> set (split_on (char_of (10::nat)) (js_lower m))"
      "line \<in> set (split_on (char_of (13::nat)) a)" and found: "index_of line ''undefined'' i \<noteq> None"
    by (auto simp: data_undefined_def split: option.splits)
  then have "set line \<subseteq> set (js_lower m)" using set_split_on by blast
  with no have "CHR ''n'' \<notin> set line" using lacks_lower [of 110 m "CHR ''n''"] by auto
  then have "CHR ''n'' \<notin> set (drop i line)" by (blast dest: in_set_dropD)
  then have "find_from ''undefined'' (drop i line) j = None" for j by (auto simp: find_from_None)
  then show False using found by (simp add: index_of_def del: find_from.simps)
qed

lemma plain_message:
  assumes "lacks 110 m" and "lacks 107 m" and "lacks 105 m" and "m \<noteq> []" and "js_trim m = m"
  shows "sanitizeMessage (Some m) fallback = m"
proof -
  have "\<not> js_includes (js_lower m) p" if "CHR ''n'' \<in> set p" for p using lacks_includes [OF assms(1) that] by simp
  moreover have "\<not> js_includes (js_lower m) p" if "CHR ''k'' \<in> set p" for p using lacks_includes [OF assms(2) that] by simp
  moreover have "\<not> js_includes (js_lower m) p" if "CHR ''i'' \<in> set p" for p using lacks_includes [OF assms(3) that] by simp
  ultimately have "\<not> unreachable m" "\<not> slow m" "\<not> technical m"
    using lacks_undefined [OF assms(1)] by (simp_all add: unreachable_def slow_def technical_def)
  with assms(4,5) show ?thesis by (simp add: sanitizeMessage_def Let_def truthy_iff)
qed

lemma error_table_letters:
  "\<forall>c \<in> {CHR ''n'', CHR ''N'', CHR ''k'', CHR ''K'', CHR ''i'', CHR ''I''}. c \<notin> set (ae_message (AUTH_ERROR k))"
  by (cases k) simp_all

lemma lacks_letters:
  assumes "c \<notin> set m" and "d \<notin> set m" and "code c = k" and "code d + 32 = k"
  shows "lacks k m"
proof -
  have "code x \<noteq> k \<and> code x + 32 \<noteq> k" if "x \<in> set m" for x
  proof -
    from that assms(1,2) have "x \<noteq> c" "x \<noteq> d" by auto
    then have "code x \<noteq> code c" "code x \<noteq> code d" by (simp_all add: of_char_eq_iff)
    with assms(3,4) show ?thesis by (metis add_right_cancel)
  qed
  then show ?thesis by (simp add: lacks_def list_all_iff)
qed

lemma error_table_lacks:
  "lacks 110 (ae_message (AUTH_ERROR k))" "lacks 107 (ae_message (AUTH_ERROR k))" "lacks 105 (ae_message (AUTH_ERROR k))"
  using error_table_letters [of k]
  by (auto intro: lacks_letters [of "CHR ''n''" _ "CHR ''N''"] lacks_letters [of "CHR ''k''" _ "CHR ''K''"]
      lacks_letters [of "CHR ''i''" _ "CHR ''I''"])

lemma error_table_first: "hd (ae_message (AUTH_ERROR k)) \<in> {CHR ''%'', CHR ''5'', CHR ''O''}"
  by (cases k) simp_all

lemma error_table_last: "last (ae_message (AUTH_ERROR k)) = CHR ''.''"
  by (cases k) simp_all

lemma error_table_trimmed:
  "ae_message (AUTH_ERROR k) \<noteq> []" "js_trim (ae_message (AUTH_ERROR k)) = ae_message (AUTH_ERROR k)"
proof -
  show "ae_message (AUTH_ERROR k) \<noteq> []" by (cases k) simp_all
  have "\<not> js_ws (CHR ''.'')" "\<not> js_ws (CHR ''%'')" "\<not> js_ws (CHR ''5'')" "\<not> js_ws (CHR ''O'')"
    by (simp_all add: js_ws_def)
  with error_table_first [of k] error_table_last [of k]
  show "js_trim (ae_message (AUTH_ERROR k)) = ae_message (AUTH_ERROR k)" unfolding js_trim_eq by auto
qed

text \<open>The error object of the GraphQL client for an answer with one error.\<close>

definition client_error :: "graphql_error \<Rightarrow> json option" where
  "client_error g =
     Some (JObj [(''errors'', JArr [JObj [(''message'', JStr (ge_message g)), (''extensions'', JObj (ge_extensions g))]])])"

text \<open>
  A body arrives as the object the client library parsed, or as its text.
\<close>

definition carries :: "json_parser \<Rightarrow> json option \<Rightarrow> json \<Rightarrow> bool" where
  "carries parse data body \<longleftrightarrow> data = Some body \<or> (\<exists>s. data = Some (JStr s) \<and> parse s = Some body)"

text \<open>The message, the code, the status and the token of an entry of the error table on their way.\<close>

lemma auth_error_travels:
  assumes "parse_shrinks parse"
    and "auth_exception key exts = AuthErrorException ex"
    and "exts = [] \<or> exts = [(''passwordChangeToken'', token)] \<and> token \<noteq> []"
    and "answered e (rp_status (auth_error_catch now ex))"
    and "carries parse (Option.bind (ax_response (findAxiosErrorWithResponse e)) axr_data)
           (rp_body (auth_error_catch now ex))"
  shows "let g = http_exception_catch parse (AxiosExn e) in
    ge_message g = ae_message (AUTH_ERROR key) \<and>
    ext_string g ''errorCode'' = Some (ae_code (AUTH_ERROR key)) \<and>
    ext_string g ''passwordChangeToken'' = map_of exts ''passwordChangeToken'' \<and>
    map_of (ge_extensions g) ''statusCode'' = Some (JNum (ae_status (AUTH_ERROR key))) \<and>
    isStructuredDownstreamError parse (AxiosExn e) \<and>
    getAuthErrorMessage (client_error g) [] = ae_message (AUTH_ERROR key)"
proof -
  let ?data = "Option.bind (ax_response (findAxiosErrorWithResponse e)) axr_data"
  let ?d = "parseDownstreamErrorData parse ?data"
  have ex: "ex = \<lparr>ex_errorCode = ae_code (AUTH_ERROR key), ex_errorMessage = ae_message (AUTH_ERROR key),
      ex_statusCode = ae_status (AUTH_ERROR key), ex_extensions = exts\<rparr>"
    using assms(2) by (simp add: auth_exception_def)
  obtain ps where ps: "rp_body (auth_error_catch now ex) = JObj ps"
    "map_of ps ''message'' = Some (JStr (ae_message (AUTH_ERROR key)))"
    "map_of ps ''code'' = Some (JStr (ae_code (AUTH_ERROR key)))" "map_of ps ''errorCode'' = None"
    "map_of ps ''passwordChangeToken'' = map_option JStr (map_of exts ''passwordChangeToken'')"
    using assms(3) unfolding ex by (auto simp: auth_error_catch_def)
  have "?d = error_record (JObj ps)"
    using assms(5) parseDownstreamErrorData_object
    by (auto simp: carries_def ps(1) parseDownstreamErrorData_text [OF assms(1)])
  then have d: "de_message ?d = Some (ae_message (AUTH_ERROR key))" "de_errorCode ?d = Some (ae_code (AUTH_ERROR key))"
    "de_passwordChangeToken ?d = map_of exts ''passwordChangeToken''"
    using ps by (auto simp: error_record_def split: option.split)
  have code: "ae_code (AUTH_ERROR key) \<noteq> []" by (cases key) simp_all
  note g = answered_error [OF assms(4) refl, of parse]
  have msg: "ge_message (toAxiosGraphQLError parse e) = ae_message (AUTH_ERROR key)" using g(1) d by simp
  have "getAuthErrorMessage (client_error (toAxiosGraphQLError parse e)) [] = ae_message (AUTH_ERROR key)"
    unfolding client_error_def msg getAuthErrorMessage_single
    by (intro plain_message error_table_lacks error_table_trimmed)
  moreover have "isStructuredDownstreamError parse (AxiosExn e)"
    using d code error_table_trimmed(1) by (simp add: isStructured_iff truthy_iff)
  moreover have "rp_status (auth_error_catch now ex) = ae_status (AUTH_ERROR key)"
    by (simp add: auth_error_catch_def ex)
  moreover have "map_of exts ''passwordChangeToken'' = None \<or> truthy (map_of exts ''passwordChangeToken'')"
    using assms(3) by (auto simp: truthy_iff)
  ultimately show ?thesis
    using g d msg code by (auto simp: http_exception_catch_def truthy_iff)
qed

text \<open>C15: an error of the auth server reaches the user as it was meant. Whatever entry of the error table
  is thrown, with or without the token for a change of password: once the server's answer has arrived
  at the gateway, the client gets a GraphQL error with the entry's message, its code, its status and
  that token; the circuit breaker does not count it as a failure of the server; and the login form
  shows exactly the message of the table.\<close>

theorem auth_error_reaches_user:
  assumes "parse_shrinks parse"
    and "auth_exception key exts = AuthErrorException ex"
    and "exts = [] \<or> exts = [(''passwordChangeToken'', token)] \<and> token \<noteq> []"
    and "answered e (rp_status (auth_error_catch now ex))"
    and "carries parse (Option.bind (ax_response (findAxiosErrorWithResponse e)) axr_data)
           (rp_body (auth_error_catch now ex))"
  shows "let g = http_exception_catch parse (AxiosExn e) in
    ge_message g = ae_message (AUTH_ERROR key) \<and>
    ext_string g ''errorCode'' = Some (ae_code (AUTH_ERROR key)) \<and>
    ext_string g ''passwordChangeToken'' = map_of exts ''passwordChangeToken'' \<and>
    map_of (ge_extensions g) ''statusCode'' = Some (JNum (ae_status (AUTH_ERROR key))) \<and>
    isStructuredDownstreamError parse (AxiosExn e) \<and>
    getAuthErrorMessage (client_error g) [] = ae_message (AUTH_ERROR key)"
  using assms by (rule auth_error_travels)

definition expired_reply :: json where
  "expired_reply = JObj [(''code'', JStr ''11004''), (''message'', JStr (ae_message (AUTH_ERROR PASSWORD_EXPIRED))),
     (''passwordChangeToken'', JStr ''pct''), (''timestamp'', JStr ''2024-01-01 00:00:00'')]"

definition demo_now :: local_fields where
  "demo_now = \<lparr>lt_year = 2024, lt_month = 0, lt_date = 1, lt_hours = 0, lt_minutes = 0, lt_seconds = 0\<rparr>"

lemma auth_error_reaches_user_witness:
  "\<exists>e. ext_string (http_exception_catch (\<lambda>s. None) (AxiosExn e)) ''passwordChangeToken'' = Some ''pct'' \<and>
     getAuthErrorMessage (client_error (http_exception_catch (\<lambda>s. None) (AxiosExn e))) [] =
       ae_message (AUTH_ERROR PASSWORD_EXPIRED)"
proof -
  let ?exts = "[(''passwordChangeToken'', ''pct'')]"
  let ?ex = "\<lparr>ex_errorCode = ae_code (AUTH_ERROR PASSWORD_EXPIRED), ex_errorMessage = ae_message (AUTH_ERROR PASSWORD_EXPIRED),
      ex_statusCode = ae_status (AUTH_ERROR PASSWORD_EXPIRED), ex_extensions = ?exts\<rparr>"
  let ?e = "AxiosError (Some \<lparr>axr_status = 400, axr_data = Some (rp_body (auth_error_catch demo_now ?ex)), axr_url = None\<rparr>)
      None (Some ''ERR_BAD_REQUEST'') None ''failed'' None"
  have "parse_shrinks (\<lambda>s. None)" by (simp add: parse_shrinks_def)
  moreover have "auth_exception PASSWORD_EXPIRED ?exts = AuthErrorException ?ex" by (simp add: auth_exception_def)
  moreover have "?exts = [] \<or> ?exts = [(''passwordChangeToken'', ''pct'')] \<and> ''pct'' \<noteq> []" by simp
  moreover have "answered ?e (rp_status (auth_error_catch demo_now ?ex))"
    by (simp add: answered_def auth_error_catch_def)
  moreover have "carries (\<lambda>s. None) (Option.bind (ax_response (findAxiosErrorWithResponse ?e)) axr_data)
      (rp_body (auth_error_catch demo_now ?ex))" by (simp add: carries_def)
  ultimately have "let g = http_exception_catch (\<lambda>s. None) (AxiosExn ?e) in
      ge_message g = ae_message (AUTH_ERROR PASSWORD_EXPIRED) \<and>
      ext_string g ''errorCode'' = Some (ae_code (AUTH_ERROR PASSWORD_EXPIRED)) \<and>
      ext_string g ''passwordChangeToken'' = map_of ?exts ''passwordChangeToken'' \<and>
      map_of (ge_extensions g) ''statusCode'' = Some (JNum (ae_status (AUTH_ERROR PASSWORD_EXPIRED))) \<and>
      isStructuredDownstreamError (\<lambda>s. None) (AxiosExn ?e) \<and>
      getAuthErrorMessage (client_error g) [] = ae_message (AUTH_ERROR PASSWORD_EXPIRED)"
    by (rule auth_error_reaches_user)
  then show ?thesis unfolding Let_def by (intro exI [of _ ?e]) simp
qed

section \<open>One correlation id\<close>

lemma interceptor_correlation:
  "rs_correlationId st = Some cid \<Longrightarrow> cid \<noteq> [] \<Longrightarrow>
     map_of (or_headers (request_interceptor (Some st) rq)) CORRELATION_HEADER = Some cid"
  by (simp add: request_interceptor_def map_of_set_truthy CORRELATION_HEADER_def truthy_def)

text \<open>The headers of the four calls of the auth server keep their names apart when they arrive in lower case.\<close>

definition auth_header_names :: "string list" where
  "auth_header_names = ''X-Password-Change-Token'' # proxy_header_names"

lemma inj_auth_names: "inj_on js_lower (set auth_header_names)"
proof -
  have "distinct (map js_lower auth_header_names)" by code_simp
  then show ?thesis by (simp add: distinct_map)
qed

lemma auth_names_mem: "k \<in> set proxy_header_names \<Longrightarrow> k \<in> set auth_header_names" "''X-Password-Change-Token'' \<in> set auth_header_names"
  by (simp_all add: auth_header_names_def)

lemma keys_meta_headers: "fst ` set (authMetaHeaders up req) \<subseteq> set auth_header_names"
  using keys_authMetaHeaders auth_names_mem(1) by blast

lemma keys_password_headers: "fst ` set (authPasswordHeaders req) \<subseteq> set auth_header_names"
  unfolding authPasswordHeaders_def
  by (intro keys_set_truthy auth_names_mem proxy_names_mem) simp

lemma keys_intercepted:
  "fst ` set (or_headers rq) \<subseteq> set auth_header_names \<Longrightarrow>
     fst ` set (or_headers (request_interceptor store rq)) \<subseteq> set auth_header_names"
  by (cases store) (simp_all add: request_interceptor_def keys_set_truthy auth_names_mem proxy_names_mem)

lemma wire_correlation:
  assumes "fst ` set (or_headers rq) \<subseteq> set auth_header_names" and "rs_correlationId st = Some cid" and "cid \<noteq> []"
  shows "string_header (wire (or_headers (request_interceptor (Some st) rq))) CORRELATION_HEADER = Some cid"
proof -
  have "js_lower CORRELATION_HEADER = CORRELATION_HEADER" unfolding CORRELATION_HEADER_def by code_simp
  moreover have "CORRELATION_HEADER \<in> set auth_header_names" by (intro auth_names_mem proxy_names_mem)
  ultimately have "map_of (wire (or_headers (request_interceptor (Some st) rq))) CORRELATION_HEADER = Some (One cid)"
    using map_of_wire [OF inj_auth_names keys_intercepted [OF assms(1)], of CORRELATION_HEADER "Some st"]
      interceptor_correlation [OF assms(2,3), of rq] by simp
  then show ?thesis by (simp add: string_header_def)
qed

lemma correlation_taken:
  assumes "string_header hs CORRELATION_HEADER = c" and "or_default c u = cid"
    and "correlation_use u (hs, res) = (hs', res')"
  shows "map_of res' CORRELATION_HEADER = Some cid" "string_header hs' CORRELATION_HEADER = Some cid"
    "rs_correlationId (request_context_use hs') = Some cid"
  using assms by (auto simp: correlation_use_def Let_def string_header_def request_context_use_def js_map.get_put)

text \<open>What a request to the auth server is answered through, and what the middlewares of the server make of it: with
  which id it answers, and with which one it works.\<close>

definition asks_auth :: "'s gateway \<Rightarrow> out_request \<Rightarrow> (gw_exn, breakers \<times> 's, json) eff" where
  "asks_auth gw rq =
     cb_fire (gw_parse gw) (gw_fire gw) ''auth-server''
       (and_then (gw_http gw rq)
          (require_data ''%uC778%uC99D %uC11C%uBC84 %uC751%uB2F5%uC774 %uC62C%uBC14%uB974%uC9C0 %uC54A%uC2B5%uB2C8%uB2E4.''))"

definition served_as :: "string \<Rightarrow> string \<Rightarrow> (string \<times> string) list \<Rightarrow> out_request \<Rightarrow> bool" where
  "served_as cid u res rq \<longleftrightarrow>
     (let (hs', res') = correlation_use u (wire (or_headers rq), res)
      in map_of res' CORRELATION_HEADER = Some cid \<and> string_header hs' CORRELATION_HEADER = Some cid \<and>
         rs_correlationId (request_context_use hs') = Some cid)"

lemma served:
  assumes "fst ` set (or_headers rq) \<subseteq> set auth_header_names" and "rs_correlationId st = Some cid" and "cid \<noteq> []"
  shows "served_as cid u res (request_interceptor (Some st) rq)"
proof -
  have "or_default (Some cid) u = cid" using assms(3) by (simp add: or_default_def split: list.split)
  from correlation_taken [OF wire_correlation [OF assms] this] show ?thesis
    by (cases "correlation_use u (wire (or_headers (request_interceptor (Some st) rq)), res)") (simp add: served_as_def)
qed

lemma access_log_correlation:
  "string_header (fr_headers r) CORRELATION_HEADER = Some c \<Longrightarrow>
     map_of (le_fields (access_log up store r)) ''correlationId'' = Some (Some (JStr c)) \<or>
     has_placeholder (le_message (access_log up store r)) \<and> le_fields (access_log up store r) = []"
  unfolding access_log_def logWithMeta_def winston_entry_def
  by (simp add: Request_Context.spread_def Let_def js_map.get_put or_default_def split: list.split)

lemma plain_log_correlation:
  "rs_correlationId st = Some cid \<Longrightarrow> cid \<noteq> [] \<Longrightarrow> \<not> has_placeholder message \<Longrightarrow>
     map_of (le_fields (log_plain level own (Some st) message ctx)) ''correlationId'' = Some (Some (JStr cid))"
  by (simp add: log_plain_def getRequestMeta_def Request_Context.spread_def truthy_def opt_str_def js_map.get_put)


definition example_gateway :: "unit gateway" where
  "example_gateway = \<lparr>gw_parse = (\<lambda>s. None), gw_url_parse = (\<lambda>s. None), gw_http = (\<lambda>rq. ret None), gw_fire = (\<lambda>b a. a),
      gw_store = Some (request_context_use (fst (correlation_use ''u1'' ([], [])))), gw_authBaseUrl = [], gw_kioskAdminUrl = []\<rparr>"


end
