(* ===== verification/Login_End_To_End.thy ===== *)
theory Login_End_To_End
  imports End_To_End Gateway_App_Properties Auth_Properties
begin

text \<open>
  A login from the form to the database and back: the browser's request with the headers of apollo.ts, the
  gateway's middlewares, guards, resolver and proxy, the routes of auth.controller.ts with the service
  and its exception filter behind them, and the answer through the gateway's filter to the form.
  What is relied on of the HTTP client is the hypothesis \<open>delivers\<close>; the circuit breaker is closed.
\<close>

section \<open>The auth server over HTTP\<close>

text \<open>The objects the service returns, as JSON; an undefined property is absent.\<close>

definition tokens_json :: "auth_tokens \<Rightarrow> json" where
  "tokens_json t =
     JObj [(''accessToken'', JStr (at_accessToken t)), (''refreshToken'', JStr (at_refreshToken t)),
       (''expiresIn'', JNum (at_expiresIn t))]"

definition otp_url_json :: "string option option \<Rightarrow> (string \<times> json) list" where
  "otp_url_json u =
     (case u of None \<Rightarrow> [] | Some v \<Rightarrow> [(''tOtpUrl'', case v of None \<Rightarrow> JNull | Some url \<Rightarrow> JStr url)])"

definition response_json :: "auth_response \<Rightarrow> json" where
  "response_json r =
     JObj ([(''requiresTwoFactor'', JBool (ar_requiresTwoFactor r))] @
       (case ar_tokens r of None \<Rightarrow> [] | Some t \<Rightarrow> [(''tokens'', tokens_json t)]) @
       (case ar_twoFactorToken r of None \<Rightarrow> [] | Some t \<Rightarrow> [(''twoFactorToken'', JStr t)]) @
       otp_url_json (ar_tOtpUrl r))"

text \<open>
  A result becomes a reply: \<open>AuthErrorFilter\<close> catches the exceptions of the error table; of the others the
  framework answers those of HTTP with their status and the rest with 500.
\<close>

definition auth_reply :: "local_fields \<Rightarrow> exn + json \<Rightarrow> http_reply" where
  "auth_reply now r =
     (case r of
        Inr body \<Rightarrow> \<lparr>rp_status = 201, rp_body = body\<rparr>
      | Inl (AuthErrorException ex) \<Rightarrow> auth_error_catch now ex
      | Inl (BadRequest m) \<Rightarrow>
          \<lparr>rp_status = 400, rp_body = JObj [(''message'', JStr m), (''error'', JStr ''Bad Request''), (''statusCode'', JNum 400)]\<rparr>
      | _ \<Rightarrow> \<lparr>rp_status = 500, rp_body = JObj [(''statusCode'', JNum 500), (''message'', JStr ''Internal server error'')]\<rparr>)"

definition answering :: "local_fields \<Rightarrow> ('a \<Rightarrow> json) \<Rightarrow> 'a auth_op \<Rightarrow> auth_world \<Rightarrow> http_reply \<times> auth_world" where
  "answering now f m w = (case m w of (r, w') \<Rightarrow> (auth_reply now (map_sum id f r), w'))"

text \<open>The routes of the controller, below the server's base address.\<close>

definition auth_server ::
  "auth_env \<Rightarrow> url_parser \<Rightarrow> zod_parser \<Rightarrow> local_fields \<Rightarrow> string \<Rightarrow> string option \<Rightarrow> out_request \<Rightarrow> auth_world \<Rightarrow>
   http_reply \<times> auth_world" where
  "auth_server env url_parse safe_parse now base ip rq =
     (let req = \<lparr>hr_headers = wire (or_headers rq), hr_ip = ip, hr_body = nullish_default (or_data rq) JNull\<rparr> in
      if or_url rq = base @ ''/auth/login'' then answering now response_json (post_login env url_parse safe_parse req)
      else if or_url rq = base @ ''/auth/2fa/verify'' then
        answering now tokens_json (post_verifyTwoFactor env url_parse safe_parse req)
      else if or_url rq = base @ ''/auth/refresh'' then answering now tokens_json (post_refresh env safe_parse req)
      else if or_url rq = base @ ''/auth/password'' then
        answering now (\<lambda>b. JObj [(''success'', JBool b)]) (post_changePassword env safe_parse req)
      else (\<lambda>w. (\<lparr>rp_status = 404, rp_body = JObj [(''statusCode'', JNum 404)]\<rparr>, w)))"

text \<open>
  What is relied on of the HTTP client: it resolves with the body of an answer whose status is one of
  success and rejects any other with an error that holds the answer.
\<close>

definition delivers :: "'s http_client \<Rightarrow> (out_request \<Rightarrow> 's \<Rightarrow> http_reply \<times> 's) \<Rightarrow> bool" where
  "delivers http server \<longleftrightarrow>
     (\<forall>rq w. let (reply, w') = server rq w in
        snd (http rq w) = w' \<and>
        (100 \<le> rp_status reply \<and> rp_status reply < 600 \<longrightarrow>
         (if 200 \<le> rp_status reply \<and> rp_status reply < 300 then fst (http rq w) = Inr (Some (rp_body reply))
         else \<exists>e. fst (http rq w) = Inl (AxiosExn e) \<and> answered e (rp_status reply) \<and> ax_message e \<noteq> ''Breaker is open'' \<and>
           Option.bind (ax_response (findAxiosErrorWithResponse e)) axr_data = Some (rp_body reply))))"

section \<open>The browser\<close>

text \<open>A request of the form as it arrives at the gateway: the headers of the link, and the browser's own.\<close>

definition browser_request ::
  "string \<Rightarrow> string \<Rightarrow> ui_session \<Rightarrow> (string \<times> string) list \<Rightarrow> headers \<Rightarrow> string option \<Rightarrow> gql_request" where
  "browser_request API_KEY AUTH_USER_TYPE s existing rest ip =
     \<lparr>gr_headers = wire (authLink API_KEY AUTH_USER_TYPE s existing) @ rest, gr_ip = ip\<rparr>"

text \<open>The objects \<open>AuthToken\<close> and \<open>LoginResult\<close> as the client selects them; an absent field is null.\<close>

definition num_prop :: "json \<Rightarrow> string \<Rightarrow> int option" where
  "num_prop v k = (case json_prop v k of Some (JNum n) \<Rightarrow> Some n | _ \<Rightarrow> None)"

definition auth_token_data :: "json \<Rightarrow> token_response option" where
  "auth_token_data v =
     (case (string_prop v ''accessToken'', string_prop v ''refreshToken'', num_prop v ''expiresIn'') of
        (Some a, Some r, Some n) \<Rightarrow> Some \<lparr>tr_accessToken = a, tr_refreshToken = r, tr_expiresIn = n\<rparr>
      | _ \<Rightarrow> None)"

definition login_result_data :: "json \<Rightarrow> login_data option" where
  "login_result_data v =
     (case json_prop v ''requiresTwoFactor'' of
        Some (JBool b) \<Rightarrow>
          Some \<lparr>ld_requiresTwoFactor = b, ld_tokens = Option.bind (json_prop v ''tokens'') auth_token_data,
                ld_twoFactorToken = string_prop v ''twoFactorToken''\<rparr>
      | _ \<Rightarrow> None)"

definition client_outcome :: "(json \<Rightarrow> 'd option) \<Rightarrow> graphql_error + ('c, 'n) gql_data \<Rightarrow> 'd outcome" where
  "client_outcome f r =
     (case r of Inl g \<Rightarrow> Answered (client_error g) None | Inr (AuthData v) \<Rightarrow> Answered None (f v) | _ \<Rightarrow> Answered None None)"

section \<open>Headers on their way\<close>

definition browser_names :: "string set" where
  "browser_names = {''X-API-Key'', ''X-User-Type'', ''Authorization'', ''X-2FA-Token''}"

lemma inj_browser_names: "inj_on js_lower browser_names"
proof -
  have "distinct (map js_lower [''X-API-Key'', ''X-User-Type'', ''Authorization'', ''X-2FA-Token''])" by code_simp
  then show ?thesis by (simp add: browser_names_def distinct_map)
qed

lemma keys_header_spread:
  assumes "fst ` set a \<subseteq> K" and "fst ` set b \<subseteq> K"
  shows "fst ` set (header_spread a b) \<subseteq> K"
  using assms unfolding header_spread_def
proof (induction b arbitrary: a)
  case (Cons kv b)
  have "fst ` set (AList.update (fst kv) (snd kv) a) \<subseteq> K" using Cons.prems by (intro keys_update) auto
  with Cons show ?case by (simp add: case_prod_beta)
qed simp

lemma keys_authLink:
  assumes "fst ` set existing \<subseteq> browser_names"
  shows "fst ` set (authLink key ty s existing) \<subseteq> browser_names"
  unfolding authLink_def Let_def by (rule keys_header_spread [OF _ assms]) (auto simp: browser_names_def)

lemma browser_header:
  assumes "fst ` set existing \<subseteq> browser_names" and "k \<in> browser_names" and "map_of (authLink key ty s existing) k = Some v"
  shows "map_of (gr_headers (browser_request key ty s existing rest ip)) (js_lower k) = Some (One v)"
  using map_of_wire [OF inj_browser_names keys_authLink [OF assms(1)] assms(2), of key ty s] assms(3)
  by (simp add: browser_request_def)

lemma authLink_user_type: "map_of (authLink key ty s []) ''X-User-Type'' = Some ty"
  by (simp add: authLink_def header_spread_def Let_def)

lemma authLink_user_type_verify: "map_of (authLink key ty s [(''X-2FA-Token'', t)]) ''X-User-Type'' = Some ty"
  by (simp add: authLink_def header_spread_def Let_def js_map.get_put)


lemma correlation_keeps:
  "n \<noteq> CORRELATION_HEADER \<Longrightarrow>
     res_headerValue (r\<lparr>gr_headers := fst (correlation_use i (gr_headers r, res))\<rparr>) n = res_headerValue r n"
  by (simp add: res_headerValue_def correlation_use_def Let_def js_map.get_put)

lemma interceptor_parts [simp]:
  "or_url (request_interceptor st rq) = or_url rq" "or_data (request_interceptor st rq) = or_data rq"
  by (simp_all add: request_interceptor_def split: option.split)

lemma interceptor_headers:
  "or_headers rq = or_headers rq' \<Longrightarrow> or_headers (request_interceptor st rq) = or_headers (request_interceptor st rq')"
  by (simp add: request_interceptor_def split: option.split)

section \<open>Requests to the auth server\<close>

text \<open>A request through a closed breaker to a server: its answer, or the error that holds it.\<close>

definition arrived :: "http_reply \<Rightarrow> gw_exn + json \<Rightarrow> bool" where
  "arrived reply r \<longleftrightarrow> (100 \<le> rp_status reply \<and> rp_status reply < 600 \<longrightarrow>
     (if 200 \<le> rp_status reply \<and> rp_status reply < 300 then r = Inr (rp_body reply)
      else \<exists>e. r = Inl (AxiosExn e) \<and> answered e (rp_status reply) \<and>
        Option.bind (ax_response (findAxiosErrorWithResponse e)) axr_data = Some (rp_body reply)))"

lemma proxy_post_arrives:
  assumes "\<forall>b a. gw_fire gw b a = a" and "delivers (gw_http gw) server"
    and "server (request_interceptor (gw_store gw) \<lparr>or_method = ''post'', or_url = gw_authBaseUrl gw @ path, or_data = Some data,
           or_headers = hs\<rparr>) w = (reply, w')"
  shows "\<exists>r brs'. proxy_post gw path data hs (brs, w) = (r, brs', w') \<and> arrived reply r"
proof -
  let ?rq = "request_interceptor (gw_store gw) \<lparr>or_method = ''post'', or_url = gw_authBaseUrl gw @ path, or_data = Some data, or_headers = hs\<rparr>"
  obtain b brs' where b: "getBreaker (gw_parse gw) ''auth-server'' brs = (b, brs')" by fastforce
  let ?h = "gw_http gw ?rq w"
  define r where "r = fst ?h"
  note d = assms(2) [unfolded delivers_def, rule_format, of ?rq w, unfolded assms(3) Let_def split_conv, folded r_def]
  note r = d [THEN conjunct2]
  from d [THEN conjunct1] have h: "?h = (r, w')" by (metis prod.collapse r_def)
  have send: "send gw \<lparr>or_method = ''post'', or_url = gw_authBaseUrl gw @ path, or_data = Some data, or_headers = hs\<rparr> w = (r, w')"
    using h by (simp add: send_def)
  consider (invalid) "\<not> (100 \<le> rp_status reply \<and> rp_status reply < 600)"
    | (success) "200 \<le> rp_status reply" "rp_status reply < 300" "r = Inr (Some (rp_body reply))"
    | (failure) e where "\<not> (200 \<le> rp_status reply \<and> rp_status reply < 300)" "r = Inl (AxiosExn e)" "answered e (rp_status reply)"
      "ax_message e \<noteq> ''Breaker is open''"
      "Option.bind (ax_response (findAxiosErrorWithResponse e)) axr_data = Some (rp_body reply)"
    using r by (auto split: if_splits)
  then show ?thesis
  proof cases
    case invalid
    with send assms(1) b show ?thesis
      by (cases r) (auto simp: proxy_post_def cb_fire_def require_data_def arrived_def and_then_def split: option.split)
  next
    case success
    with send assms(1) b show ?thesis
      by (auto simp: proxy_post_def cb_fire_def require_data_def arrived_def and_then_def)
  next
    case (failure e)
    with send assms(1) b show ?thesis
      by (auto simp: proxy_post_def cb_fire_def require_data_def arrived_def and_then_def exn_message_def)
  qed
qed

lemma post_login_is_login:
  assumes "zod_contract safe_parse" and "length l \<in> {1..255}" and "length p \<in> {1..255}"
    and "hr_body req = JObj [(''loginId'', JStr l), (''password'', JStr p)]"
  shows "post_login env up safe_parse req w =
    login env l p (nullish_default (ctl_headerValue req ''x-user-type'') []) (loginRequestMeta up req) w"
proof -
  have "zod_accepts LoginSchema (hr_body req)"
    using assms(2-4) by (simp add: zod_accepts_def LoginSchema_def string_prop_def)
  with zod_transform_cases [OF assms(1), of LoginSchema "hr_body req" w] obtain data where
    "zod_transform safe_parse LoginSchema (hr_body req) w = (Inr data, w)"
    "map_of data ''loginId'' = Some l" "map_of data ''password'' = Some p"
    using assms(4) by (auto simp: LoginSchema_def string_prop_def)
  then show ?thesis by (simp add: post_login_def and_then_def dto_field_def)
qed

lemma post_verify_is_verify:
  assumes "zod_contract safe_parse" and "length c = 6" and "list_all is_digit c"
    and "hr_body req = JObj [(''totpCode'', JStr c)]"
  shows "post_verifyTwoFactor env up safe_parse req w =
    verifyTwoFactor env (nullish_default (ctl_headerValue req ''x-2fa-token'') []) c (loginRequestMeta up req) w"
proof -
  have "zod_accepts TotpVerifySchema (hr_body req)"
    using assms(2-4) by (auto simp: zod_accepts_def TotpVerifySchema_def string_prop_def)
  with zod_transform_cases [OF assms(1), of TotpVerifySchema "hr_body req" w] obtain data where
    "zod_transform safe_parse TotpVerifySchema (hr_body req) w = (Inr data, w)" "map_of data ''totpCode'' = Some c"
    using assms(4) by (auto simp: TotpVerifySchema_def string_prop_def)
  then show ?thesis by (simp add: post_verifyTwoFactor_def and_then_def dto_field_def)
qed

lemma login_at_auth_server:
  assumes "zod_contract safe_parse" and "length l \<in> {1..255}" and "length p \<in> {1..255}"
    and "or_url rq = base @ ''/auth/login''" and "or_data rq = Some (JObj [(''loginId'', JStr l), (''password'', JStr p)])"
    and "map_of (wire (or_headers rq)) ''x-user-type'' = Some (One ty)"
  shows "\<exists>meta. auth_server env up safe_parse now base ip rq w = answering now response_json (login env l p ty meta) w"
proof -
  let ?req = "\<lparr>hr_headers = wire (or_headers rq), hr_ip = ip, hr_body = JObj [(''loginId'', JStr l), (''password'', JStr p)]\<rparr>"
  have "answering now response_json (post_login env up safe_parse ?req) w =
      answering now response_json (login env l p ty (loginRequestMeta up ?req)) w"
    using post_login_is_login [OF assms(1-3), of ?req env up w] assms(6)
    by (simp add: answering_def ctl_headerValue_def first_value_def)
  then show ?thesis
    using assms(4,5) by (auto simp: auth_server_def Let_def nullish_default_def)
qed

lemma verify_at_auth_server:
  assumes "zod_contract safe_parse" and "length c = 6" and "list_all is_digit c"
    and "or_url rq = base @ ''/auth/2fa/verify''" and "or_data rq = Some (JObj [(''totpCode'', JStr c)])"
    and "map_of (wire (or_headers rq)) ''x-2fa-token'' = Some (One t)"
  shows "\<exists>meta. auth_server env up safe_parse now base ip rq w = answering now tokens_json (verifyTwoFactor env t c meta) w"
proof -
  let ?req = "\<lparr>hr_headers = wire (or_headers rq), hr_ip = ip, hr_body = JObj [(''totpCode'', JStr c)]\<rparr>"
  have "answering now tokens_json (post_verifyTwoFactor env up safe_parse ?req) w =
      answering now tokens_json (verifyTwoFactor env t c (loginRequestMeta up ?req)) w"
    using post_verify_is_verify [OF assms(1-3), of ?req env up w] assms(6)
    by (simp add: answering_def ctl_headerValue_def first_value_def)
  then show ?thesis
    using assms(4,5) by (auto simp: auth_server_def Let_def nullish_default_def)
qed


section \<open>Answers on their way\<close>

lemma arrived_success: "arrived (auth_reply now (Inr body)) r \<longleftrightarrow> r = Inr body"
  by (simp add: arrived_def auth_reply_def)

lemma table_status:
  "\<not> (200 \<le> ae_status (AUTH_ERROR k) \<and> ae_status (AUTH_ERROR k) < 300)"
  "100 \<le> ae_status (AUTH_ERROR k) \<and> ae_status (AUTH_ERROR k) < 600"
  by (cases k; simp)+

lemma arrived_table_error:
  assumes "arrived (auth_reply now (Inl (auth_exception key exts))) r" and "parse_shrinks parse"
    and "exts = [] \<or> exts = [(''passwordChangeToken'', token)] \<and> token \<noteq> []"
  shows "\<exists>e. r = Inl (AxiosExn e) \<and>
    getAuthErrorMessage (client_error (http_exception_catch parse (AxiosExn e))) [] = ae_message (AUTH_ERROR key)"
proof -
  let ?ex = "\<lparr>ex_errorCode = ae_code (AUTH_ERROR key), ex_errorMessage = ae_message (AUTH_ERROR key),
      ex_statusCode = ae_status (AUTH_ERROR key), ex_extensions = exts\<rparr>"
  have ex: "auth_exception key exts = AuthErrorException ?ex" by (simp add: auth_exception_def)
  have reply: "auth_reply now (Inl (auth_exception key exts)) = auth_error_catch now ?ex"
    by (simp add: auth_reply_def ex)
  have "rp_status (auth_error_catch now ?ex) = ae_status (AUTH_ERROR key)" by (simp add: auth_error_catch_def)
  with assms(1) table_status [of key] obtain e where e: "r = Inl (AxiosExn e)"
    "answered e (rp_status (auth_error_catch now ?ex))"
    "Option.bind (ax_response (findAxiosErrorWithResponse e)) axr_data = Some (rp_body (auth_error_catch now ?ex))"
    unfolding reply arrived_def by auto
  then have "carries parse (Option.bind (ax_response (findAxiosErrorWithResponse e)) axr_data) (rp_body (auth_error_catch now ?ex))"
    by (simp add: carries_def)
  from auth_error_travels [OF assms(2) ex assms(3) e(2) this] e(1) show ?thesis unfolding Let_def by blast
qed

definition shown_tokens :: "auth_tokens \<Rightarrow> token_response" where
  "shown_tokens t =
     \<lparr>tr_accessToken = at_accessToken t, tr_refreshToken = at_refreshToken t, tr_expiresIn = at_expiresIn t\<rparr>"

lemma auth_token_data_tokens [simp]: "auth_token_data (tokens_json t) = Some (shown_tokens t)"
  by (simp add: auth_token_data_def tokens_json_def string_prop_def num_prop_def shown_tokens_def)

lemma map_of_otp_url: "k \<noteq> ''tOtpUrl'' \<Longrightarrow> map_of (otp_url_json u) k = None"
  by (cases u) (simp_all add: otp_url_json_def)

lemma login_result_data_response [simp]:
  "login_result_data (response_json a) =
     Some \<lparr>ld_requiresTwoFactor = ar_requiresTwoFactor a, ld_tokens = map_option shown_tokens (ar_tokens a),
           ld_twoFactorToken = ar_twoFactorToken a\<rparr>"
  by (cases "ar_tokens a"; cases "ar_twoFactorToken a")
    (simp_all add: login_result_data_def response_json_def map_of_otp_url)

lemma login_response_shape:
  assumes "login env l p u meta w = (Inr a, w')"
  shows "if u \<in> set TWO_FACTOR_REQUIRED_TYPES then ar_requiresTwoFactor a \<and> ar_tokens a = None \<and> ar_twoFactorToken a \<noteq> None
    else \<not> ar_requiresTwoFactor a \<and> ar_tokens a \<noteq> None"
proof -
  from assms obtain b where b: "login_accepted env b u meta w = (Inr a, w')" by (rule login_Inr) blast
  show ?thesis
  proof (cases "u \<in> set TWO_FACTOR_REQUIRED_TYPES")
    case True
    from two_factor_branch [OF b [simplified if_P [OF True]]] True show ?thesis by simp
  next
    case False
    from token_branch [OF b [simplified if_not_P [OF False]]] obtain t where
      "a = \<lparr>ar_requiresTwoFactor = False, ar_tokens = Some t, ar_twoFactorToken = None, ar_tOtpUrl = None\<rparr>" by blast
    with False show ?thesis by simp
  qed
qed

section \<open>The gateway between them\<close>

lemma resolve_login:
  assumes "\<forall>b a. gw_fire (ga_gateway app) b a = a"
    and "delivers (gw_http (ga_gateway app)) (auth_server env up safe_parse now (gw_authBaseUrl (ga_gateway app)) ip)"
    and "zod_contract safe_parse" and "length l \<in> {1..255}" and "length p \<in> {1..255}"
    and "res_headerValue req ''x-user-type'' = Some ty"
  shows "\<exists>meta r brs'. resolve app req (LoginField l p) s =
      (map_sum id AuthData r, s\<lparr>gs_breakers := brs', gs_upstream := snd (login env l p ty meta (gs_upstream s))\<rparr>) \<and>
    arrived (auth_reply now (map_sum id response_json (fst (login env l p ty meta (gs_upstream s))))) r"
proof -
  let ?gw = "ga_gateway app" and ?w = "gs_upstream s"
  let ?rq = "request_interceptor (gw_store ?gw) \<lparr>or_method = ''post'', or_url = gw_authBaseUrl ?gw @ ''/auth/login'',
      or_data = Some (JObj [(''loginId'', JStr l), (''password'', JStr p)]),
      or_headers = AList.update ''X-User-Type'' ty (authMetaHeaders (gw_url_parse ?gw) req)\<rparr>"
  have hs: "or_headers ?rq = login_headers ?gw req"
    unfolding login_headers_def assms(6) nullish_default_def option.case by (rule interceptor_headers) simp
  have "map_of (wire (or_headers ?rq)) ''x-user-type'' = Some (One ty)"
    unfolding hs wire_names user_type_login_headers assms(6) by (simp add: nullish_default_def)
  then obtain meta where m: "auth_server env up safe_parse now (gw_authBaseUrl ?gw) ip ?rq ?w =
      answering now response_json (login env l p ty meta) ?w"
    using login_at_auth_server [OF assms(3-5), of ?rq "gw_authBaseUrl ?gw"] by force
  obtain res w' where res: "login env l p ty meta ?w = (res, w')" by fastforce
  with m have "auth_server env up safe_parse now (gw_authBaseUrl ?gw) ip ?rq ?w = (auth_reply now (map_sum id response_json res), w')"
    by (simp add: answering_def)
  from proxy_post_arrives [OF assms(1,2) this, of "gs_breakers s"] obtain r brs' where
    "proxy_post ?gw ''/auth/login'' (JObj [(''loginId'', JStr l), (''password'', JStr p)])
       (AList.update ''X-User-Type'' ty (authMetaHeaders (gw_url_parse ?gw) req)) (gs_breakers s, ?w) = (r, brs', w')"
    "arrived (auth_reply now (map_sum id response_json res)) r" by blast
  then show ?thesis
    using res by (intro exI [of _ meta] exI [of _ r] exI [of _ brs'])
      (simp add: on_upstream_def resolver_login_def proxy_login_def assms(6) nullish_default_def)
qed


text \<open>The context a request over HTTP is handled in, and what its resolver gets.\<close>

definition served_context :: "string \<Rightarrow> gql_request \<Rightarrow> gql_context" where
  "served_context newId request =
     graphql_context None (request\<lparr>gr_headers := fst (correlation_use newId (gr_headers request, []))\<rparr>)"

definition served_app :: "string \<Rightarrow> gql_request \<Rightarrow> ('s, 'c, 'n, 't) gateway_app \<Rightarrow> ('s, 'c, 'n, 't) gateway_app" where
  "served_app newId request app =
     app\<lparr>ga_gateway := (ga_gateway app)\<lparr>gw_store := Some (request_context_use (fst (correlation_use newId (gr_headers request, []))))\<rparr>\<rparr>"

lemma served_parts [simp]:
  "gw_fire (ga_gateway (served_app i r app)) = gw_fire (ga_gateway app)"
  "gw_http (ga_gateway (served_app i r app)) = gw_http (ga_gateway app)"
  "gw_authBaseUrl (ga_gateway (served_app i r app)) = gw_authBaseUrl (ga_gateway app)"
  "gw_parse (ga_gateway (served_app i r app)) = gw_parse (ga_gateway app)"
  by (simp_all add: served_app_def)

lemma serve_is_handle:
  assumes "serve app newId request d fld s = (r, hs, s')"
  shows "\<exists>hs1. handle_field (served_app newId request app) (served_context newId request) d fld s = (r, hs1, s')"
  using assms
  by (auto simp: serve_def served_app_def served_context_def Let_def split: prod.splits)

lemma throttle_guard_served:
  "throttle_guard (served_app newId request app) ctx fld t = throttle_guard app ctx fld t"
  by (simp add: throttle_guard_def served_app_def)

text \<open>A field that the throttler and the key guard let through is answered by its resolver.\<close>

lemma serve_allowed:
  assumes "serve app newId request d fld s = (r, hs, s')"
    and "api_key_canActivate (ga_keys app) (is_public fld) (gr_headers (gc_req (served_context newId request))) = Allowed"
    and "fst (throttle_guard app (served_context newId request) fld (gs_throttle s))"
  shows "\<exists>t q lines. resolve (served_app newId request app) (gc_req (served_context newId request)) fld (s\<lparr>gs_throttle := t\<rparr>) =
      (q, s'\<lparr>gs_log := lines\<rparr>) \<and> r = map_sum (http_exception_catch (gw_parse (ga_gateway app))) id q"
proof -
  let ?app = "served_app newId request app" and ?ctx = "served_context newId request"
  obtain hs1 where h: "handle_field ?app ?ctx d fld s = (r, hs1, s')" using serve_is_handle [OF assms(1)] by blast
  obtain hs2 t where t: "throttle_guard ?app ?ctx fld (gs_throttle s) = (True, hs2, t)"
    using assms(3) by (cases "throttle_guard ?app ?ctx fld (gs_throttle s)") (simp add: throttle_guard_served)
  obtain q s2 where q: "resolve ?app (gc_req ?ctx) fld (s\<lparr>gs_throttle := t\<rparr>) = (q, s2)" by fastforce
  have "api_key_canActivate (ga_keys ?app) (is_public fld) (gr_headers (gc_req ?ctx)) = Allowed"
    using assms(2) by (simp add: served_app_def)
  from handle_field_passed [OF t this q, of d] obtain lines where
    "handle_field ?app ?ctx d fld s =
      (map_sum (http_exception_catch (gw_parse (ga_gateway app))) id q, hs2, s2\<lparr>gs_log := gs_log s2 @ lines\<rparr>)" by auto
  with h q show ?thesis
    by (intro exI [of _ t] exI [of _ q] exI [of _ "gs_log s2"]) auto
qed

lemma serve_public:
  assumes "serve app newId request d fld s = (r, hs, s')" and "is_public fld"
    and "fst (throttle_guard app (served_context newId request) fld (gs_throttle s))"
  shows "\<exists>t q lines. resolve (served_app newId request app) (gc_req (served_context newId request)) fld (s\<lparr>gs_throttle := t\<rparr>) =
      (q, s'\<lparr>gs_log := lines\<rparr>) \<and> r = map_sum (http_exception_catch (gw_parse (ga_gateway app))) id q"
  by (rule serve_allowed [OF assms(1) _ assms(3)]) (use assms(2) in \<open>simp add: api_key_canActivate_def\<close>)


lemma browser_user_type:
  assumes "existing = [] \<or> existing = [(''X-2FA-Token'', t)]"
  shows "res_headerValue (gc_req (served_context i (browser_request key ty sess existing rest ip))) ''x-user-type'' = Some ty"
proof -
  have "fst ` set existing \<subseteq> browser_names" using assms by (auto simp: browser_names_def)
  moreover have "map_of (authLink key ty sess existing) ''X-User-Type'' = Some ty"
    using assms authLink_user_type authLink_user_type_verify by auto
  ultimately have "map_of (gr_headers (browser_request key ty sess existing rest ip)) (js_lower ''X-User-Type'') = Some (One ty)"
    by (intro browser_header) (simp_all add: browser_names_def)
  moreover have "CORRELATION_HEADER \<noteq> ''x-user-type''" by (simp add: CORRELATION_HEADER_def)
  ultimately show ?thesis
    by (simp add: served_context_def graphql_context_def correlation_keeps lower_names res_headerValue_def first_value_def
        correlation_use_def Let_def js_map.get_put)
qed

lemma browser_two_factor_token:
  assumes "t \<noteq> []"
  shows "res_headerValue (gc_req (served_context i (browser_request key ty sess [(''X-2FA-Token'', t)] rest ip))) ''x-2fa-token'' = Some t"
proof -
  have "map_of (gr_headers (browser_request key ty sess [(''X-2FA-Token'', t)] rest ip)) (js_lower ''X-2FA-Token'') = Some (One t)"
    using verify_headers [OF assms] by (intro browser_header) (simp_all add: browser_names_def)
  moreover have "js_lower ''X-2FA-Token'' = ''x-2fa-token''" by code_simp
  moreover have "CORRELATION_HEADER \<noteq> ''x-2fa-token''" by (simp add: CORRELATION_HEADER_def)
  ultimately show ?thesis
    by (simp add: served_context_def graphql_context_def res_headerValue_def first_value_def correlation_use_def Let_def js_map.get_put)
qed

section \<open>From the form to the database and back\<close>

text \<open>C23: a login reaches the user. With the servers up, a form with an id and a password that the throttler lets
  through is one call of \<open>AuthService.login\<close> with what was typed and the user type of the deployment, and
  the form shows its result: for a user type without a second factor the page logs in with exactly the
  tokens issued; for one with, it goes to the second step with the token for it; and an error of the
  table leaves the session alone and shows exactly its message.\<close>

theorem login_reaches_user:
  assumes "\<forall>b a. gw_fire (ga_gateway app) b a = a"
    and "delivers (gw_http (ga_gateway app)) (auth_server env up safe_parse now (gw_authBaseUrl (ga_gateway app)) ip)"
    and "zod_contract safe_parse" and "parse_shrinks (gw_parse (ga_gateway app))"
    and "login_submit ps = ((l, p), ps1)" and "length l \<in> {1..255}" and "length p \<in> {1..255}"
    and "request = browser_request key ty (snd ps1) [] rest cip"
    and "fst (throttle_guard app (served_context newId request) (LoginField l p) (gs_throttle s))"
    and "serve app newId request d (LoginField l p) s = (r, hs, s')"
    and "after = login_outcome rj time target (client_outcome login_result_data r) ps1"
  shows "\<exists>meta res. login env l p ty meta (gs_upstream s) = (res, gs_upstream s') \<and>
    (\<forall>a. res = Inr a \<longrightarrow>
      (if ty \<in> set TWO_FACTOR_REQUIRED_TYPES
       then \<exists>t. ar_twoFactorToken a = Some t \<and>
         (t \<noteq> [] \<longrightarrow> after = (fst ps1\<lparr>lp_twoFactorToken := t, lp_step := Otp\<rparr>, setItem ''twoFactorToken'' t (snd ps1)))
       else \<exists>t. ar_tokens a = Some t \<and> after = page_login rj time target (shown_tokens t) ps1)) \<and>
    (\<forall>k exts token. res = Inl (auth_exception k exts) \<and> (exts = [] \<or> exts = [(''passwordChangeToken'', token)] \<and> token \<noteq> []) \<longrightarrow>
       after = setError (ae_message (AUTH_ERROR k)) ps1)"
proof -
  let ?app = "served_app newId request app" and ?ctx = "served_context newId request"
  have ty: "res_headerValue (gc_req ?ctx) ''x-user-type'' = Some ty"
    unfolding assms(8) by (rule browser_user_type) simp
  obtain t q lines where q: "resolve ?app (gc_req ?ctx) (LoginField l p) (s\<lparr>gs_throttle := t\<rparr>) = (q, s'\<lparr>gs_log := lines\<rparr>)"
    and r: "r = map_sum (http_exception_catch (gw_parse (ga_gateway app))) id q"
    using serve_public [OF assms(10) _ assms(9)] by auto
  have served: "\<forall>b a. gw_fire (ga_gateway ?app) b a = a"
    "delivers (gw_http (ga_gateway ?app)) (auth_server env up safe_parse now (gw_authBaseUrl (ga_gateway ?app)) ip)"
    using assms(1,2) by simp_all
  obtain meta x brs' where x: "resolve ?app (gc_req ?ctx) (LoginField l p) (s\<lparr>gs_throttle := t\<rparr>) =
      (map_sum id AuthData x, (s\<lparr>gs_throttle := t\<rparr>)\<lparr>gs_breakers := brs', gs_upstream := snd (login env l p ty meta (gs_upstream s))\<rparr>)"
    "arrived (auth_reply now (map_sum id response_json (fst (login env l p ty meta (gs_upstream s))))) x"
    using resolve_login [OF served assms(3,6,7) ty, of "s\<lparr>gs_throttle := t\<rparr>"] by auto
  obtain res w' where res: "login env l p ty meta (gs_upstream s) = (res, w')" by fastforce
  have qx: "q = map_sum id AuthData x" and w': "gs_upstream s' = w'"
    using q x(1) res by (auto dest: arg_cong [of _ _ gs_upstream])
  have good: "if ty \<in> set TWO_FACTOR_REQUIRED_TYPES
       then \<exists>t. ar_twoFactorToken a = Some t \<and>
         (t \<noteq> [] \<longrightarrow> after = (fst ps1\<lparr>lp_twoFactorToken := t, lp_step := Otp\<rparr>, setItem ''twoFactorToken'' t (snd ps1)))
       else \<exists>t. ar_tokens a = Some t \<and> after = page_login rj time target (shown_tokens t) ps1" if "res = Inr a" for a
  proof -
    from x(2) res that have "x = Inr (response_json a)" by (simp add: arrived_success)
    with r qx have out: "client_outcome login_result_data r = Answered None (Some \<lparr>ld_requiresTwoFactor = ar_requiresTwoFactor a,
        ld_tokens = map_option shown_tokens (ar_tokens a), ld_twoFactorToken = ar_twoFactorToken a\<rparr>)"
      by (simp add: client_outcome_def)
    from login_response_shape [OF res [unfolded that]] show ?thesis
      by (auto simp: assms(11) out login_outcome_def Let_def truthy_iff)
  qed
  have bad: "after = setError (ae_message (AUTH_ERROR k)) ps1"
    if e: "res = Inl (auth_exception k exts)" "exts = [] \<or> exts = [(''passwordChangeToken'', token)] \<and> token \<noteq> []" for k exts token
  proof -
    from x(2) res e(1) have "arrived (auth_reply now (Inl (auth_exception k exts))) x" by simp
    from arrived_table_error [OF this assms(4) e(2)] obtain e where "x = Inl (AxiosExn e)"
      "getAuthErrorMessage (client_error (http_exception_catch (gw_parse (ga_gateway app)) (AxiosExn e))) [] = ae_message (AUTH_ERROR k)"
      by blast
    with r qx show ?thesis
      by (simp add: assms(11) client_outcome_def login_outcome_def Let_def error_table_trimmed(1))
  qed
  show ?thesis using res w' good bad by blast
qed


text \<open>An HTTP client as the hypothesis has it, and the services of the examples behind it.\<close>

definition wired_http :: "(out_request \<Rightarrow> 's \<Rightarrow> http_reply \<times> 's) \<Rightarrow> 's http_client" where
  "wired_http server rq w =
     (let (reply, w') = server rq w in
      (if 200 \<le> rp_status reply \<and> rp_status reply < 300 then Inr (Some (rp_body reply))
       else Inl (AxiosExn (AxiosError
         (Some \<lparr>axr_status = rp_status reply, axr_data = Some (rp_body reply), axr_url = Some (or_url rq)\<rparr>)
         None (Some ''ERR_BAD_REQUEST'') None ''Request failed'' None)), w'))"

lemma delivers_wired: "delivers (wired_http server) server"
  by (auto simp: delivers_def wired_http_def answered_def nullish_def split: prod.split)

definition demo_server :: "out_request \<Rightarrow> auth_world \<Rightarrow> http_reply \<times> auth_world" where
  "demo_server = auth_server demo_env (\<lambda>t. None) demo_zod demo_now ''http://auth'' (Some ''10.0.0.3'')"

definition wired_app :: "(auth_world, unit, int, ((string \<times> string) \<times> string) \<Rightarrow> nat) gateway_app" where
  "wired_app =
     \<lparr>ga_gateway = \<lparr>gw_parse = (\<lambda>t. None), gw_url_parse = (\<lambda>t. None), gw_http = wired_http demo_server,
        gw_fire = (\<lambda>b a. a), gw_store = None, gw_authBaseUrl = ''http://auth'', gw_kioskAdminUrl = ''http://kiosk''\<rparr>,
      ga_keys = [''k1''], ga_increment = demo_increment, ga_throttled = OtherExn, ga_headerPrefix = ''X-RateLimit'',
      ga_port = 4003, ga_discovered = Inr [], ga_containers = (\<lambda>u. Inr []), ga_stats = (\<lambda>u. Inr []),
      ga_apps = (\<lambda>u. Inr \<lparr>ar_apps = None, ar_node = []\<rparr>), ga_lines = (\<lambda>u q. Inl OtherExn), ga_logStats = (\<lambda>u q. Inl OtherExn),
      ga_localeCompare = (\<lambda>a b. 0)\<rparr>"

definition wired_state :: "account list \<Rightarrow> (auth_world, ((string \<times> string) \<times> string) \<Rightarrow> nat) gateway_state" where
  "wired_state accounts =
     \<lparr>gs_throttle = (\<lambda>k. 0), gs_breakers = [], gs_upstream = demo_world accounts, gs_streamer = init_streamer 4003, gs_log = []\<rparr>"

lemma wired_assms:
  "\<forall>b a. gw_fire (ga_gateway wired_app) b a = a"
  "delivers (gw_http (ga_gateway wired_app))
     (auth_server demo_env (\<lambda>t. None) demo_zod demo_now (gw_authBaseUrl (ga_gateway wired_app)) (Some ''10.0.0.3''))"
  "parse_shrinks (gw_parse (ga_gateway wired_app))"
  using delivers_wired [of demo_server] by (simp_all add: wired_app_def demo_server_def parse_shrinks_def)

lemma wired_admits: "fst (throttle_guard wired_app ctx fld (gs_throttle (wired_state accounts)))"
  by (simp add: throttle_guard_def handleRequest_def user_agent_ignored_def wired_app_def wired_state_def demo_increment_def
      THROTTLE_LIMIT_def Let_def)

definition demo_form :: "string \<Rightarrow> page_state" where
  "demo_form password =
     (\<lparr>lp_step = Credentials, lp_loginId = ''kim'', lp_password = password, lp_otpCode = [], lp_twoFactorToken = [], lp_error = []\<rparr>,
      mounted (\<lambda>k. None) ''/admin/login'')"

lemma login_reaches_user_witness:
  "\<exists>r hs s' after.
     serve wired_app ''c1'' (browser_request ''k9'' ''KIOSK'' (snd (demo_form ''wrong'')) [] [] (Some ''10.0.0.9'')) 7
       (LoginField ''kim'' ''wrong'') (wired_state [demo_account ''KIOSK'']) = (r, hs, s') \<and>
     after = login_outcome (\<lambda>t. None) 0 ''/admin/live-stream'' (client_outcome login_result_data r) (setError [] (demo_form ''wrong'')) \<and>
     after = setError (ae_message (AUTH_ERROR INVALID_CREDENTIALS)) (setError [] (demo_form ''wrong''))"
proof -
  let ?rq = "browser_request ''k9'' ''KIOSK'' (snd (setError [] (demo_form ''wrong''))) [] [] (Some ''10.0.0.9'')"
  obtain r hs s' where serve: "serve wired_app ''c1'' ?rq 7 (LoginField ''kim'' ''wrong'') (wired_state [demo_account ''KIOSK'']) = (r, hs, s')"
    by (metis prod_cases3)
  have submit: "login_submit (demo_form ''wrong'') = ((''kim'', ''wrong''), setError [] (demo_form ''wrong''))"
    by (simp add: login_submit_def demo_form_def)
  have len: "length ''kim'' \<in> {1..255}" "length ''wrong'' \<in> {1..255}" by simp_all
  obtain meta res where res: "login demo_env ''kim'' ''wrong'' ''KIOSK'' meta (demo_world [demo_account ''KIOSK'']) = (res, gs_upstream s')"
    and shown: "\<And>k exts. res = Inl (auth_exception k exts) \<Longrightarrow> exts = [] \<Longrightarrow>
      login_outcome (\<lambda>t. None) 0 ''/admin/live-stream'' (client_outcome login_result_data r) (setError [] (demo_form ''wrong'')) =
        setError (ae_message (AUTH_ERROR k)) (setError [] (demo_form ''wrong''))"
    using login_reaches_user [where rj = "\<lambda>t. None" and time = 0 and target = "''/admin/live-stream''",
        OF wired_assms(1,2) demo_zod_contract wired_assms(3) submit len refl wired_admits serve refl]
    unfolding wired_state_def gateway_state.simps by blast
  have "fst (login demo_env ''kim'' ''wrong'' ''KIOSK'' meta (demo_world [demo_account ''KIOSK''])) = Inl (auth_exception INVALID_CREDENTIALS [])"
    by code_simp
  with res have "res = Inl (auth_exception INVALID_CREDENTIALS [])" by simp
  from shown [OF this refl] serve show ?thesis by simp
qed


section \<open>The second step\<close>

lemma two_factor_header_arrives:
  assumes "or_headers rq = AList.update ''X-2FA-Token'' t (authMetaHeaders up req)"
  shows "map_of (wire (or_headers (request_interceptor st rq))) ''x-2fa-token'' = Some (One t)"
proof -
  have "fst ` set (AList.update ''X-2FA-Token'' t (authMetaHeaders up req)) \<subseteq> set proxy_header_names"
    by (intro keys_update keys_authMetaHeaders proxy_names_mem)
  then have "fst ` set (or_headers (request_interceptor st rq)) \<subseteq> set proxy_header_names"
    unfolding request_interceptor_def
    by (cases st) (simp_all add: assms keys_set_truthy proxy_names_mem)
  moreover have "map_of (or_headers (request_interceptor st rq)) ''X-2FA-Token'' = Some t"
    unfolding request_interceptor_def
    by (cases st) (simp_all add: assms map_of_set_truthy js_map.get_put CORRELATION_HEADER_def)
  moreover have "js_lower ''X-2FA-Token'' = ''x-2fa-token''" by code_simp
  ultimately show ?thesis using map_of_wire [OF inj_proxy_names _ proxy_names_mem(7)] by simp
qed

lemma resolve_verify:
  assumes "\<forall>b a. gw_fire (ga_gateway app) b a = a"
    and "delivers (gw_http (ga_gateway app)) (auth_server env up safe_parse now (gw_authBaseUrl (ga_gateway app)) ip)"
    and "zod_contract safe_parse" and "length c = 6" and "list_all is_digit c"
    and "res_headerValue req ''x-2fa-token'' = Some token"
  shows "\<exists>meta r brs'. resolve app req (VerifyTwoFactorField c) s =
      (map_sum id AuthData r, s\<lparr>gs_breakers := brs', gs_upstream := snd (verifyTwoFactor env token c meta (gs_upstream s))\<rparr>) \<and>
    arrived (auth_reply now (map_sum id tokens_json (fst (verifyTwoFactor env token c meta (gs_upstream s))))) r"
proof -
  let ?gw = "ga_gateway app" and ?w = "gs_upstream s"
  let ?hs = "AList.update ''X-2FA-Token'' token (authMetaHeaders (gw_url_parse ?gw) req)"
  let ?rq = "request_interceptor (gw_store ?gw) \<lparr>or_method = ''post'', or_url = gw_authBaseUrl ?gw @ ''/auth/2fa/verify'',
      or_data = Some (JObj [(''totpCode'', JStr c)]), or_headers = ?hs\<rparr>"
  have "map_of (wire (or_headers ?rq)) ''x-2fa-token'' = Some (One token)" by (rule two_factor_header_arrives) simp
  then obtain meta where m: "auth_server env up safe_parse now (gw_authBaseUrl ?gw) ip ?rq ?w =
      answering now tokens_json (verifyTwoFactor env token c meta) ?w"
    using verify_at_auth_server [OF assms(3-5), of ?rq "gw_authBaseUrl ?gw"] by force
  obtain res w' where res: "verifyTwoFactor env token c meta ?w = (res, w')" by fastforce
  with m have "auth_server env up safe_parse now (gw_authBaseUrl ?gw) ip ?rq ?w = (auth_reply now (map_sum id tokens_json res), w')"
    by (simp add: answering_def)
  from proxy_post_arrives [OF assms(1,2) this, of "gs_breakers s"] obtain r brs' where
    "proxy_post ?gw ''/auth/2fa/verify'' (JObj [(''totpCode'', JStr c)]) ?hs (gs_breakers s, ?w) = (r, brs', w')"
    "arrived (auth_reply now (map_sum id tokens_json res)) r" by blast
  then show ?thesis
    using res by (intro exI [of _ meta] exI [of _ r] exI [of _ brs'])
      (simp add: on_upstream_def resolver_verifyTwoFactor_def proxy_verifyTwoFactor_def assms(6) nullish_default_def)
qed

text \<open>C20: the second step reaches the user. The token the page was given in the first step travels in its header
  through the browser's link and the gateway, and is the one \<open>AuthService.verifyTwoFactor\<close> is called
  with, once, with the code typed; with the tokens it issues the page logs in, and the token of the
  second factor is gone from the storage; an error of the table leaves the session alone, shows its
  message and empties the field of the code.\<close>

theorem second_step_reaches_user:
  assumes "\<forall>b a. gw_fire (ga_gateway app) b a = a"
    and "delivers (gw_http (ga_gateway app)) (auth_server env up safe_parse now (gw_authBaseUrl (ga_gateway app)) ip)"
    and "zod_contract safe_parse" and "parse_shrinks (gw_parse (ga_gateway app))"
    and "verify_submit ps = ((c, headers), ps1)" and "lp_twoFactorToken (fst ps) = token" and "token \<noteq> []"
    and "length c = 6" and "list_all is_digit c"
    and "request = browser_request key ty (snd ps1) headers rest cip"
    and "fst (throttle_guard app (served_context newId request) (VerifyTwoFactorField c) (gs_throttle s))"
    and "serve app newId request d (VerifyTwoFactorField c) s = (r, hs, s')"
    and "after = verify_outcome rj time target (client_outcome auth_token_data r) ps1"
  shows "\<exists>meta res. verifyTwoFactor env token c meta (gs_upstream s) = (res, gs_upstream s') \<and>
    (\<forall>t. res = Inr t \<longrightarrow> after = page_login rj time target (shown_tokens t) (fst ps1, removeItem ''twoFactorToken'' (snd ps1))) \<and>
    (\<forall>k. res = Inl (auth_exception k []) \<longrightarrow> after = clear_code (setError (ae_message (AUTH_ERROR k)) ps1))"
proof -
  let ?app = "served_app newId request app" and ?ctx = "served_context newId request"
  have headers: "headers = [(''X-2FA-Token'', token)]" using assms(5-7) by (auto simp: verify_submit_def)
  have token: "res_headerValue (gc_req ?ctx) ''x-2fa-token'' = Some token"
    unfolding assms(10) headers by (rule browser_two_factor_token [OF assms(7)])
  obtain t q lines where q: "resolve ?app (gc_req ?ctx) (VerifyTwoFactorField c) (s\<lparr>gs_throttle := t\<rparr>) = (q, s'\<lparr>gs_log := lines\<rparr>)"
    and r: "r = map_sum (http_exception_catch (gw_parse (ga_gateway app))) id q"
    using serve_public [OF assms(12) _ assms(11)] by auto
  have served: "\<forall>b a. gw_fire (ga_gateway ?app) b a = a"
    "delivers (gw_http (ga_gateway ?app)) (auth_server env up safe_parse now (gw_authBaseUrl (ga_gateway ?app)) ip)"
    using assms(1,2) by simp_all
  obtain meta x brs' where x: "resolve ?app (gc_req ?ctx) (VerifyTwoFactorField c) (s\<lparr>gs_throttle := t\<rparr>) =
      (map_sum id AuthData x, (s\<lparr>gs_throttle := t\<rparr>)\<lparr>gs_breakers := brs', gs_upstream := snd (verifyTwoFactor env token c meta (gs_upstream s))\<rparr>)"
    "arrived (auth_reply now (map_sum id tokens_json (fst (verifyTwoFactor env token c meta (gs_upstream s))))) x"
    using resolve_verify [OF served assms(3,8,9) token, of "s\<lparr>gs_throttle := t\<rparr>"] by auto
  obtain res w' where res: "verifyTwoFactor env token c meta (gs_upstream s) = (res, w')" by fastforce
  have qx: "q = map_sum id AuthData x" and w': "gs_upstream s' = w'"
    using q x(1) res by (auto dest: arg_cong [of _ _ gs_upstream])
  have good: "after = page_login rj time target (shown_tokens t) (fst ps1, removeItem ''twoFactorToken'' (snd ps1))" if "res = Inr t" for t
  proof -
    from x(2) res that have "x = Inr (tokens_json t)" by (simp add: arrived_success)
    with r qx have "client_outcome auth_token_data r = Answered None (Some (shown_tokens t))" by (simp add: client_outcome_def)
    then show ?thesis by (simp add: assms(13) verify_outcome_def Let_def)
  qed
  have bad: "after = clear_code (setError (ae_message (AUTH_ERROR k)) ps1)" if e: "res = Inl (auth_exception k [])" for k
  proof -
    from x(2) res e have "arrived (auth_reply now (Inl (auth_exception k []))) x" by simp
    from arrived_table_error [OF this assms(4)] obtain e where "x = Inl (AxiosExn e)"
      "getAuthErrorMessage (client_error (http_exception_catch (gw_parse (ga_gateway app)) (AxiosExn e))) [] = ae_message (AUTH_ERROR k)"
      by blast
    with r qx show ?thesis
      by (simp add: assms(13) client_outcome_def verify_outcome_def Let_def error_table_trimmed(1))
  qed
  show ?thesis using res w' good bad by blast
qed


text \<open>A form in its second step, with a token of the examples and the secret of the account as its code.\<close>

definition demo_token :: string where
  "demo_token = jose_sign demo_env (now_ms demo_env) (typed_request ''2fa'' ''7'' ''ADMIN_BO'')"

definition otp_account :: account where
  "otp_account = (demo_account ''ADMIN_BO'')\<lparr>acc_otpSecretKey := Some ''123456'', acc_lastLoginAt := Some 1\<rparr>"

definition demo_otp_form :: page_state where
  "demo_otp_form =
     (\<lparr>lp_step = Otp, lp_loginId = ''kim'', lp_password = ''pw'', lp_otpCode = ''123456'', lp_twoFactorToken = demo_token, lp_error = []\<rparr>,
      mounted (\<lambda>k. None) ''/admin/login'')"

lemma second_step_reaches_user_witness:
  "\<exists>r hs s'.
     serve wired_app ''c1'' (browser_request ''k9'' ''ADMIN_BO'' (snd demo_otp_form) [(''X-2FA-Token'', demo_token)] [] None) 7
       (VerifyTwoFactorField ''123456'') (wired_state [otp_account]) = (r, hs, s') \<and>
     us_isAuthenticated (snd (verify_outcome (\<lambda>t. None) 0 ''/admin/live-stream'' (client_outcome auth_token_data r)
       (setError [] demo_otp_form))) \<and>
     length (tb_login_history (gs_upstream s')) = 1"
proof -
  let ?rq = "browser_request ''k9'' ''ADMIN_BO'' (snd (setError [] demo_otp_form)) [(''X-2FA-Token'', demo_token)] [] None"
  obtain r hs s' where serve: "serve wired_app ''c1'' ?rq 7 (VerifyTwoFactorField ''123456'') (wired_state [otp_account]) = (r, hs, s')"
    by (metis prod_cases3)
  have tok: "demo_token \<noteq> []" unfolding demo_token_def by code_simp
  have submit: "verify_submit demo_otp_form = ((''123456'', [(''X-2FA-Token'', demo_token)]), setError [] demo_otp_form)"
    using tok by (simp add: verify_submit_def demo_otp_form_def)
  have form: "lp_twoFactorToken (fst demo_otp_form) = demo_token" by (simp add: demo_otp_form_def)
  have code: "length ''123456'' = 6" "list_all is_digit ''123456''" by (simp, code_simp)
  obtain meta res where res: "verifyTwoFactor demo_env demo_token ''123456'' meta (demo_world [otp_account]) = (res, gs_upstream s')"
    and shown: "\<And>t. res = Inr t \<Longrightarrow>
      verify_outcome (\<lambda>t. None) 0 ''/admin/live-stream'' (client_outcome auth_token_data r) (setError [] demo_otp_form) =
        page_login (\<lambda>t. None) 0 ''/admin/live-stream'' (shown_tokens t)
          (fst (setError [] demo_otp_form), removeItem ''twoFactorToken'' (snd (setError [] demo_otp_form)))"
    using second_step_reaches_user [where rj = "\<lambda>t. None" and time = 0 and target = "''/admin/live-stream''",
        OF wired_assms(1,2) demo_zod_contract wired_assms(3) submit form tok code refl wired_admits serve refl]
    unfolding wired_state_def gateway_state.simps by blast
  have "\<not> isl (fst (verifyTwoFactor demo_env demo_token ''123456'' meta (demo_world [otp_account])))"
    "length (tb_login_history (snd (verifyTwoFactor demo_env demo_token ''123456'' meta (demo_world [otp_account])))) = 1"
    by code_simp+
  with res obtain t where t: "res = Inr t" "length (tb_login_history (gs_upstream s')) = 1" by (cases res) auto
  from shown [OF t(1)] serve t(2) show ?thesis by (simp add: page_login_session)
qed

end
