(* ===== verification/Ui_Documents.thy ===== *)
theory Ui_Documents
  imports Graphql_Execution Login_End_To_End Ui_Live_Stream Ui_History
begin

text \<open>
  The documents the browser sends and the interfaces its pages read the answers with (graphql.ts of the
  auth, live-stream and history features), and how they meet the schema of the gateway: every document
  is accepted, the variables reach the resolvers as the pages set them, and the answers hold what the
  resolvers returned, as long as integers have 32 bits.
\<close>

section \<open>The documents\<close>

definition leaves :: "string list \<Rightarrow> selection list" where
  "leaves ks = map (\<lambda>k. Sel k []) ks"

definition token_selection :: "selection list" where
  "token_selection = leaves [''accessToken'', ''refreshToken'', ''expiresIn'']"

definition LOGIN_MUTATION :: gql_document where
  "LOGIN_MUTATION =
     \<lparr>doc_operation = ''Mutation'', doc_variables = [field_of ''input'' ''LoginInput''], doc_field = ''login'',
      doc_args = [(''input'', ''input'')],
      doc_selection = [Sel ''requiresTwoFactor'' [], Sel ''tokens'' token_selection, Sel ''twoFactorToken'' [], Sel ''tOtpUrl'' []]\<rparr>"

definition VERIFY_TWO_FACTOR_MUTATION :: gql_document where
  "VERIFY_TWO_FACTOR_MUTATION =
     \<lparr>doc_operation = ''Mutation'', doc_variables = [field_of ''input'' ''TotpVerifyInput''], doc_field = ''verifyTwoFactor'',
      doc_args = [(''input'', ''input'')], doc_selection = token_selection\<rparr>"

definition REFRESH_TOKEN_MUTATION :: gql_document where
  "REFRESH_TOKEN_MUTATION =
     \<lparr>doc_operation = ''Mutation'', doc_variables = [field_of ''input'' ''RefreshTokenInput''], doc_field = ''refreshToken'',
      doc_args = [(''input'', ''input'')], doc_selection = token_selection\<rparr>"

definition CHANGE_PASSWORD_MUTATION :: gql_document where
  "CHANGE_PASSWORD_MUTATION =
     \<lparr>doc_operation = ''Mutation'', doc_variables = [field_of ''input'' ''ChangePasswordInput''], doc_field = ''changePassword'',
      doc_args = [(''input'', ''input'')], doc_selection = []\<rparr>"

definition CONTAINERS_QUERY :: gql_document where
  "CONTAINERS_QUERY =
     \<lparr>doc_operation = ''Query'', doc_variables = [], doc_field = ''containers'', doc_args = [],
      doc_selection = leaves [''id'', ''name'', ''image'', ''status'', ''state'', ''created'', ''ports'', ''serviceName'', ''taskSlot'',
        ''nodeName'']\<rparr>"

definition CONTAINER_LOG_SUBSCRIPTION :: gql_document where
  "CONTAINER_LOG_SUBSCRIPTION =
     \<lparr>doc_operation = ''Subscription'', doc_variables = [field_of ''containerId'' ''String''], doc_field = ''containerLog'',
      doc_args = [(''containerId'', ''containerId'')], doc_selection = leaves [''containerId'', ''timestamp'', ''message'', ''stream'']\<rparr>"

definition SERVICE_LOG_SUBSCRIPTION :: gql_document where
  "SERVICE_LOG_SUBSCRIPTION =
     \<lparr>doc_operation = ''Subscription'', doc_variables = [field_of ''serviceName'' ''String''], doc_field = ''serviceLog'',
      doc_args = [(''serviceName'', ''serviceName'')],
      doc_selection = leaves [''containerId'', ''serviceName'', ''timestamp'', ''message'', ''stream'', ''event'']\<rparr>"

definition CONTAINER_STATS_QUERY :: gql_document where
  "CONTAINER_STATS_QUERY =
     \<lparr>doc_operation = ''Query'', doc_variables = [(''containerIds'', list_of ''String'')], doc_field = ''containerStats'',
      doc_args = [(''containerIds'', ''containerIds'')], doc_selection = leaves [''id'', ''name'', ''cpuPercent'', ''memUsage'', ''memLimit'']\<rparr>"

definition LOG_APPS_QUERY :: gql_document where
  "LOG_APPS_QUERY =
     \<lparr>doc_operation = ''Query'', doc_variables = [], doc_field = ''logApps'', doc_args = [], doc_selection = leaves [''name'', ''node'']\<rparr>"

definition LOG_SEARCH_QUERY :: gql_document where
  "LOG_SEARCH_QUERY =
     \<lparr>doc_operation = ''Query'', doc_variables = [field_of ''input'' ''LogSearchInput''], doc_field = ''logSearch'',
      doc_args = [(''input'', ''input'')],
      doc_selection =
        [Sel ''lines'' (leaves [''timestamp'', ''level'', ''source'', ''message'', ''metadata'', ''node'', ''file'', ''lineNo'']),
         Sel ''hasMore'' [],
         Sel ''summary'' (leaves [''totalLines'', ''errorCount'', ''warnCount'', ''infoCount'', ''fileCount''])]\<rparr>"

section \<open>The interfaces\<close>

definition strings :: "string list \<Rightarrow> (string \<times> ts_type) list" where
  "strings ks = map (\<lambda>k. (k, TsString)) ks"

definition numbers :: "string list \<Rightarrow> (string \<times> ts_type) list" where
  "numbers ks = map (\<lambda>k. (k, TsNumber)) ks"

definition string_or_null :: ts_type where "string_or_null = TsOr TsString TsNull"

definition AuthTokenResponse :: ts_type where
  "AuthTokenResponse = TsObject (strings [''accessToken'', ''refreshToken''] @ numbers [''expiresIn''])"

definition LoginResponse :: ts_type where
  "LoginResponse = TsObject [(''login'', TsObject
     [(''requiresTwoFactor'', TsBoolean), (''tokens'', TsOr AuthTokenResponse TsNull),
      (''twoFactorToken'', string_or_null), (''tOtpUrl'', string_or_null)])]"

definition VerifyTwoFactorResponse :: ts_type where
  "VerifyTwoFactorResponse = TsObject [(''verifyTwoFactor'', AuthTokenResponse)]"

definition RefreshTokenResponse :: ts_type where
  "RefreshTokenResponse = TsObject [(''refreshToken'', AuthTokenResponse)]"

definition ChangePasswordResponse :: ts_type where
  "ChangePasswordResponse = TsObject [(''changePassword'', TsBoolean)]"

definition Container_interface :: ts_type where
  "Container_interface = TsObject
     (strings [''id'', ''name'', ''image'', ''status'', ''state''] @ numbers [''created''] @ [(''ports'', TsArray TsString)] @
      map (\<lambda>k. optional_property k TsString) [''serviceName'', ''taskSlot'', ''nodeName''])"

definition LogEntry_properties :: "(string \<times> ts_type) list" where
  "LogEntry_properties = strings [''containerId'', ''timestamp'', ''message'', ''stream'']"

definition ServiceLogEntry_interface :: ts_type where
  "ServiceLogEntry_interface =
     TsObject (LogEntry_properties @ strings [''serviceName''] @ [optional_property ''event'' string_or_null])"

definition ContainerStatsData :: ts_type where
  "ContainerStatsData = TsObject (strings [''id'', ''name''] @ numbers [''cpuPercent'', ''memUsage'', ''memLimit''])"

definition LogApp_interface :: ts_type where
  "LogApp_interface = TsObject (strings [''name'', ''node''])"

definition HistoryLogLine :: ts_type where
  "HistoryLogLine = TsObject
     [(''timestamp'', string_or_null), (''level'', string_or_null), (''source'', string_or_null), (''message'', TsString),
      (''metadata'', string_or_null), (''node'', TsString), (''file'', TsString), (''lineNo'', TsNumber)]"

definition LogSummary_interface :: ts_type where
  "LogSummary_interface = TsObject (numbers [''totalLines'', ''errorCount'', ''warnCount'', ''infoCount'', ''fileCount''])"

definition LogSearchResult_interface :: ts_type where
  "LogSearchResult_interface =
     TsObject [(''lines'', TsArray HistoryLogLine), (''hasMore'', TsBoolean), (''summary'', LogSummary_interface)]"

text \<open>Which interface a component names where it uses a document.\<close>

definition ui_documents :: "(gql_document \<times> ts_type) list" where
  "ui_documents =
     [(LOGIN_MUTATION, LoginResponse), (VERIFY_TWO_FACTOR_MUTATION, VerifyTwoFactorResponse),
      (REFRESH_TOKEN_MUTATION, RefreshTokenResponse), (CHANGE_PASSWORD_MUTATION, ChangePasswordResponse),
      (CONTAINERS_QUERY, TsObject [(''containers'', TsArray Container_interface)]),
      (CONTAINER_LOG_SUBSCRIPTION, TsObject [(''containerLog'', TsObject LogEntry_properties)]),
      (SERVICE_LOG_SUBSCRIPTION, TsObject [(''serviceLog'', ServiceLogEntry_interface)]),
      (CONTAINER_STATS_QUERY, TsObject [(''containerStats'', TsArray ContainerStatsData)]),
      (LOG_APPS_QUERY, TsObject [(''logApps'', TsArray LogApp_interface)]),
      (LOG_SEARCH_QUERY, TsObject [(''logSearch'', LogSearchResult_interface)])]"

lemmas document_defs =
  LOGIN_MUTATION_def VERIFY_TWO_FACTOR_MUTATION_def REFRESH_TOKEN_MUTATION_def CHANGE_PASSWORD_MUTATION_def
  CONTAINERS_QUERY_def CONTAINER_LOG_SUBSCRIPTION_def SERVICE_LOG_SUBSCRIPTION_def CONTAINER_STATS_QUERY_def
  LOG_APPS_QUERY_def LOG_SEARCH_QUERY_def leaves_def token_selection_def

lemmas interface_defs =
  strings_def numbers_def string_or_null_def AuthTokenResponse_def LoginResponse_def VerifyTwoFactorResponse_def
  RefreshTokenResponse_def ChangePasswordResponse_def Container_interface_def LogEntry_properties_def
  ServiceLogEntry_interface_def ContainerStatsData_def LogApp_interface_def HistoryLogLine_def LogSummary_interface_def
  LogSearchResult_interface_def optional_property_def

lemmas schema_defs =
  gateway_types_def AuthToken_type_def LoginResult_type_def Container_type_def ContainerStats_type_def LogEntry_type_def
  ServiceLogEntry_type_def LogApp_type_def LogLine_type_def LogSummary_type_def LogSearchResult_type_def
  KioskAdminTerminalInfo_type_def KioskAdminReleaseCurrencyTerminals_type_def LoginInput_type_def TotpVerifyInput_type_def
  RefreshTokenInput_type_def ChangePasswordInput_type_def LogSearchInput_type_def CurrencyCode_type_def
  field_of_def nullable_field_def list_of_def input_of_def nullable_input_def
  root_fields_def auth_fields_def streamer_fields_def history_fields_def kiosk_fields_def

section \<open>Every document is accepted\<close>

lemma documents_accepted: "list_all (\<lambda>(d, u). accepted gateway_types root_fields d) ui_documents"
  by code_simp

text \<open>A property that may be left out is null where the schema lets the field be null.\<close>

fun admit_null :: "ts_type \<Rightarrow> ts_type" where
  "admit_null (TsArray t) = TsArray (admit_null t)"
| "admit_null (TsObject ps) = TsObject (map (\<lambda>(k, t). (k, admit_null t)) ps)"
| "admit_null (TsOr t u) = TsOr (admit_null t) (admit_null u)"
| "admit_null TsUndefined = TsOr TsNull TsUndefined"
| "admit_null t = t"

definition only_property :: "ts_type \<Rightarrow> (string \<times> ts_type) option" where
  "only_property u = (case u of TsObject [kp] \<Rightarrow> Some kp | _ \<Rightarrow> None)"

lemma only_property_Some: "only_property u = Some kp \<longleftrightarrow> u = TsObject [kp]"
  by (auto simp: only_property_def split: ts_type.split list.split)

definition answer_fits :: "gql_types \<Rightarrow> ((string \<times> string) \<times> root_field) list \<Rightarrow> gql_document \<Rightarrow> ts_type \<Rightarrow> bool" where
  "answer_fits S roots d u \<longleftrightarrow>
     (case (map_of roots (doc_operation d, doc_field d), only_property u) of
        (Some (args, NonNull t), Some (k, p)) \<Rightarrow> k = doc_field d \<and> fits (map_of S) (NonNull t) (doc_selection d) p
      | _ \<Rightarrow> False)"

lemma answer_has:
  assumes "serializes ser" "answer_fits S roots d u" "answer ser S roots d v = Some r"
  shows "ts_has u (Some r)"
proof -
  from assms(2) obtain args t k p where t: "map_of roots (doc_operation d, doc_field d) = Some (args, NonNull t)"
    "u = TsObject [(doc_field d, p)]" "fits (map_of S) (NonNull t) (doc_selection d) p"
    by (auto simp: answer_fits_def only_property_Some split: option.splits gql_type.splits)
  obtain x e where c: "complete ser (map_of S) (NonNull t) (doc_selection d) v = (x, e)" by fastforce
  with assms(3) t(1) have r: "r = JObj [(doc_field d, x)]" "\<not> e" by (auto simp: answer_def split: if_splits)
  from c r(2) have "x \<noteq> JNull" by (auto simp: complete.simps(1) split: prod.splits)
  with fits_sound [OF assms(1) t(3) c] have "ts_has p (Some x)" by blast
  then show ?thesis by (simp add: t(2) r(1))
qed

lemma documents_fit:
  "list_all (\<lambda>(d, u). answer_fits gateway_types root_fields d (if d = CONTAINERS_QUERY then admit_null u else u)) ui_documents"
  by code_simp

section \<open>The variables reach the resolvers\<close>

text \<open>A property that is undefined is not sent.\<close>

definition sent_object :: "(string \<times> json option) list \<Rightarrow> json" where
  "sent_object ps = JObj (concat (map (\<lambda>(k, x). case x of None \<Rightarrow> [] | Some v \<Rightarrow> [(k, v)]) ps))"

definition input_variables :: "json \<Rightarrow> json" where
  "input_variables v = JObj [(''input'', v)]"

definition search_object :: "LogSearchInput \<Rightarrow> json" where
  "search_object i = sent_object
     [(''app'', Some (JStr (si_app i))), (''from'', Some (JStr (si_from i))), (''fromTime'', map_option JStr (si_fromTime i)),
      (''to'', Some (JStr (si_to i))), (''toTime'', map_option JStr (si_toTime i)), (''level'', map_option JStr (si_level i)),
      (''keyword'', map_option JStr (si_keyword i)), (''node'', map_option JStr (si_node i)),
      (''after'', map_option JStr (si_after i)), (''limit'', map_option JNum (si_limit i))]"

text \<open>What a resolver reads of its arguments, with the class of its input.\<close>

definition search_input :: "json \<Rightarrow> LogSearchInput option" where
  "search_input v =
     (case (string_prop v ''app'', string_prop v ''from'', string_prop v ''to'') of
        (Some a, Some f, Some t) \<Rightarrow>
          Some \<lparr>si_app = a, si_from = f, si_fromTime = string_prop v ''fromTime'', si_to = t, si_toTime = string_prop v ''toTime'',
                si_level = string_prop v ''level'', si_keyword = string_prop v ''keyword'', si_node = string_prop v ''node'',
                si_after = string_prop v ''after'', si_limit = num_prop v ''limit''\<rparr>
      | _ \<Rightarrow> None)"

definition strings_of :: "json \<Rightarrow> string list option" where
  "strings_of v =
     (case v of JArr vs \<Rightarrow> Option.bind (those (map (\<lambda>x. case x of JStr s \<Rightarrow> Some s | _ \<Rightarrow> None) vs)) Some | _ \<Rightarrow> None)"

definition text_argument :: "gql_document \<Rightarrow> json \<Rightarrow> string \<Rightarrow> string option" where
  "text_argument d vars a = (case argument gateway_types d vars a of Some (JStr s) \<Rightarrow> Some s | _ \<Rightarrow> None)"

definition input_text :: "gql_document \<Rightarrow> json \<Rightarrow> string \<Rightarrow> string option" where
  "input_text d vars k = Option.bind (argument gateway_types d vars ''input'') (\<lambda>v. string_prop v k)"

definition called_field :: "gql_document \<Rightarrow> json \<Rightarrow> gql_field option" where
  "called_field d vars =
     (if doc_field d = ''login'' then
        Option.bind (input_text d vars ''loginId'') (\<lambda>l. map_option (LoginField l) (input_text d vars ''password''))
      else if doc_field d = ''verifyTwoFactor'' then map_option VerifyTwoFactorField (input_text d vars ''totpCode'')
      else if doc_field d = ''refreshToken'' then map_option RefreshTokenField (input_text d vars ''refreshToken'')
      else if doc_field d = ''changePassword'' then
        Option.bind (input_text d vars ''currentPassword'') (\<lambda>c. map_option (ChangePasswordField c) (input_text d vars ''newPassword''))
      else if doc_field d = ''containers'' then Some ContainersField
      else if doc_field d = ''containerStats'' then
        map_option ContainerStatsField (Option.bind (argument gateway_types d vars ''containerIds'') strings_of)
      else if doc_field d = ''containerLog'' then map_option ContainerLogField (text_argument d vars ''containerId'')
      else if doc_field d = ''serviceLog'' then map_option ServiceLogField (text_argument d vars ''serviceName'')
      else if doc_field d = ''logApps'' then Some LogAppsField
      else if doc_field d = ''logSearch'' then
        map_option LogSearchField (Option.bind (argument gateway_types d vars ''input'') search_input)
      else None)"

lemma map_of_sent:
  "distinct (map fst ps) \<Longrightarrow>
     map_of (concat (map (\<lambda>(k, x). case x of None \<Rightarrow> [] | Some v \<Rightarrow> [(k, v)]) ps)) k = Option.bind (map_of ps k) id"
  by (induction ps) (auto split: option.splits simp: map_of_eq_None_iff [THEN iffD2])

lemma map_of_absent:
  "map_of (concat (map (\<lambda>(k, t, d). case d of None \<Rightarrow> [] | Some x \<Rightarrow> [(k, x)]) (filter (\<lambda>(k, t, d). k \<notin> K) fs))) k =
     (if k \<in> K then None else Option.bind (map_of fs k) snd)"
  if "distinct (map fst fs)"
  using that by (induction fs) (auto split: option.splits simp: map_of_eq_None_iff [THEN iffD2])

text \<open>An input of fields that are accepted as they are arrives as it was sent, with its defaults.\<close>

lemma input_arrives:
  assumes "S n = Some (InputDef fs)" and "distinct (map fst ps)" and "distinct (map fst fs)"
    and sent: "\<And>k x. map_of ps k = Some (Some x) \<Longrightarrow> \<exists>t d. map_of fs k = Some (t, d) \<and> input_value S t x = Some x"
    and required: "\<And>k t. map_of fs k = Some (t, None) \<Longrightarrow> is_nonnull t \<Longrightarrow> \<exists>x. map_of ps k = Some (Some x)"
  shows "\<exists>o2. input_value S (NonNull (Named n)) (sent_object ps) = Some (JObj o2) \<and>
    (\<forall>k. map_of o2 k = (case map_of ps k of Some (Some x) \<Rightarrow> Some x | _ \<Rightarrow> Option.bind (map_of fs k) snd))"
proof -
  define o1 where "o1 = concat (map (\<lambda>(k, x). case x of None \<Rightarrow> [] | Some v \<Rightarrow> [(k, v)]) ps)"
  define rs where "rs = map (\<lambda>kv. case kv of (k, x) \<Rightarrow>
           (k, case map_of fs k of None \<Rightarrow> None | Some (t, d) \<Rightarrow> input_value S t x)) o1"
  have mem: "map_of ps k = Some (Some x)" if "(k, x) \<in> set o1" for k x
    using that assms(2) by (auto simp: o1_def split: option.splits)
  then have "(case map_of fs k of None \<Rightarrow> None | Some (t, d) \<Rightarrow> input_value S t x) = Some x" if "(k, x) \<in> set o1" for k x
    using sent [OF mem [OF that]] by auto
  then have rs: "rs = map (\<lambda>(k, x). (k, Some x)) o1" by (auto simp: rs_def)
  let ?absent = "filter (\<lambda>(k, t, d). k \<notin> fst ` set o1) fs"
  have keys: "k \<in> fst ` set o1 \<longleftrightarrow> (\<exists>x. map_of ps k = Some (Some x))" for k
    using mem map_of_SomeD by (fastforce simp: o1_def image_iff)
  have "\<not> (\<exists>(k, t, d) \<in> set ?absent. is_nonnull t \<and> d = None)"
    using required keys assms(3) by fastforce
  moreover have "None \<notin> snd ` set rs" by (auto simp: rs)
  moreover have "map (\<lambda>(k, x). (k, the x)) rs = o1" by (simp add: rs comp_def case_prod_beta)
  ultimately have read: "input_value S (NonNull (Named n)) (sent_object ps) =
      Some (JObj (o1 @ concat (map (\<lambda>(k, t, d). case d of None \<Rightarrow> [] | Some x \<Rightarrow> [(k, x)]) ?absent)))"
    using assms(1) by (simp add: input_value.simps(1,3) sent_object_def o1_def [symmetric] rs_def [symmetric] Let_def)
  have o1: "map_of o1 k = Option.bind (map_of ps k) id" for k
    unfolding o1_def by (rule map_of_sent [OF assms(2)])
  have "map_of (o1 @ concat (map (\<lambda>(k, t, d). case d of None \<Rightarrow> [] | Some x \<Rightarrow> [(k, x)]) ?absent)) k =
      (case map_of ps k of Some (Some x) \<Rightarrow> Some x | _ \<Rightarrow> Option.bind (map_of fs k) snd)" for k
    using keys [of k] by (auto simp: map_add_def o1 map_of_absent [OF assms(3)] split: option.split)
  with read show ?thesis by blast
qed

lemma string_value [simp]:
  "input_value (map_of gateway_types) (NonNull (Named ''String'')) (JStr s) = Some (JStr s)"
  "input_value (map_of gateway_types) (Named ''String'') (JStr s) = Some (JStr s)"
  by (simp_all add: input_value.simps gateway_types_def of_scalar_def)

lemma int_value [simp]: "int32 n \<Longrightarrow> input_value (map_of gateway_types) (Named ''Int'') (JNum n) = Some (JNum n)"
  by (simp add: input_value.simps gateway_types_def of_scalar_def)

lemma strings_value [simp]:
  "input_value (map_of gateway_types) (list_of ''String'') (JArr (map JStr ss)) = Some (JArr (map JStr ss))"
proof -
  have "input_value (map_of gateway_types) (ListOf (NonNull (Named ''String''))) (JArr (map JStr ss)) = Some (JArr (map JStr ss))"
    by (auto simp: input_value.simps(2) Let_def)
  then show ?thesis by (simp add: list_of_def input_value.simps(1) [of _ "ListOf _"])
qed

lemma strings_of_map [simp]: "strings_of (JArr (map JStr ss)) = Some ss"
proof -
  have "those (map Some ss) = Some ss" by (induction ss) auto
  then show ?thesis by (simp add: strings_of_def comp_def)
qed

lemma input_argument:
  "doc_args d = [(''input'', ''input'')] \<Longrightarrow> doc_variables d = [field_of ''input'' n] \<Longrightarrow>
     argument S d (input_variables v) ''input'' = input_value (map_of S) (NonNull (Named n)) v"
  by (simp add: argument_def input_variables_def field_of_def)

lemmas input_types = LoginInput_type_def TotpVerifyInput_type_def RefreshTokenInput_type_def ChangePasswordInput_type_def
  LogSearchInput_type_def input_of_def nullable_input_def

text \<open>The inputs whose fields are all texts that have to be given.\<close>

lemma texts_arrive:
  assumes "map_of gateway_types n = Some (InputDef (map (\<lambda>k. input_of k ''String'') (map fst kvs)))" and "distinct (map fst kvs)"
    and "doc_args d = [(''input'', ''input'')]" and "doc_variables d = [field_of ''input'' n]"
  shows "(k, s) \<in> set kvs \<Longrightarrow> input_text d (input_variables (sent_object (map (\<lambda>(k, s). (k, Some (JStr s))) kvs))) k = Some s"
proof -
  let ?ps = "map (\<lambda>(k, s). (k, Some (JStr s))) kvs" and ?fs = "map (\<lambda>k. input_of k ''String'') (map fst kvs)"
  assume k: "(k, s) \<in> set kvs"
  have ps: "map_of ?ps k = map_option (\<lambda>s. Some (JStr s)) (map_of kvs k)" for k
    by (induction kvs) auto
  have fs: "map_of ?fs k = map_option (\<lambda>s. (NonNull (Named ''String''), None)) (map_of kvs k)" for k
    by (induction kvs) (auto simp: input_of_def)
  have "\<exists>o2. input_value (map_of gateway_types) (NonNull (Named n)) (sent_object ?ps) = Some (JObj o2) \<and>
    (\<forall>k. map_of o2 k = (case map_of ?ps k of Some (Some x) \<Rightarrow> Some x | _ \<Rightarrow> Option.bind (map_of ?fs k) snd))"
  proof (rule input_arrives)
    show "map_of gateway_types n = Some (InputDef ?fs)" by (rule assms(1))
    show "distinct (map fst ?ps)" using assms(2) by (simp add: comp_def case_prod_beta)
    show "distinct (map fst ?fs)" using assms(2) by (simp add: comp_def input_of_def)
  qed (auto simp: ps fs simp del: map_map)
  then obtain o2 where "input_value (map_of gateway_types) (NonNull (Named n)) (sent_object ?ps) = Some (JObj o2)"
    "map_of o2 k = Some (JStr s)"
    using map_of_is_SomeI [OF assms(2) k] by (auto simp: ps)
  then show ?thesis
    by (simp add: input_text_def input_argument [OF assms(3,4)] string_prop_def json_prop_def)
qed

definition auth_variables :: "(string \<times> string) list \<Rightarrow> json" where
  "auth_variables kvs = input_variables (sent_object (map (\<lambda>(k, s). (k, Some (JStr s))) kvs))"

lemma search_arrives:
  assumes "\<And>n. si_limit i = Some n \<Longrightarrow> int32 n"
  shows "\<exists>v. argument gateway_types LOG_SEARCH_QUERY (input_variables (search_object i)) ''input'' = Some v \<and>
    search_input v = Some (i\<lparr>si_limit := Some (nullish_default (si_limit i) 100)\<rparr>)"
proof -
  let ?ps = "[(''app'', Some (JStr (si_app i))), (''from'', Some (JStr (si_from i))), (''fromTime'', map_option JStr (si_fromTime i)),
      (''to'', Some (JStr (si_to i))), (''toTime'', map_option JStr (si_toTime i)), (''level'', map_option JStr (si_level i)),
      (''keyword'', map_option JStr (si_keyword i)), (''node'', map_option JStr (si_node i)),
      (''after'', map_option JStr (si_after i)), (''limit'', map_option JNum (si_limit i))]"
  obtain fs where fs: "LogSearchInput_type = InputDef fs" by (simp add: LogSearchInput_type_def)
  note fs' = fs [unfolded LogSearchInput_type_def input_of_def nullable_input_def, simplified, symmetric]
  have "\<exists>o2. input_value (map_of gateway_types) (NonNull (Named ''LogSearchInput'')) (sent_object ?ps) = Some (JObj o2) \<and>
    (\<forall>k. map_of o2 k = (case map_of ?ps k of Some (Some x) \<Rightarrow> Some x | _ \<Rightarrow> Option.bind (map_of fs k) snd))"
  proof (rule input_arrives)
    show "map_of gateway_types ''LogSearchInput'' = Some (InputDef fs)" by (simp add: gateway_types_def fs)
    show "distinct (map fst ?ps)" "distinct (map fst fs)" by (simp_all add: fs')
    fix k x t
    show "\<exists>t d. map_of fs k = Some (t, d) \<and> input_value (map_of gateway_types) t x = Some x" if "map_of ?ps k = Some (Some x)"
      using that assms by (auto simp: fs' split: if_splits)
    show "\<exists>x. map_of ?ps k = Some (Some x)" if "map_of fs k = Some (t, None)" "is_nonnull t"
      using that by (auto simp: fs' split: if_splits)
  qed
  then obtain o2 where o2: "input_value (map_of gateway_types) (NonNull (Named ''LogSearchInput'')) (sent_object ?ps) = Some (JObj o2)"
    "\<And>k. map_of o2 k = (case map_of ?ps k of Some (Some x) \<Rightarrow> Some x | _ \<Rightarrow> Option.bind (map_of fs k) snd)" by blast
  have "argument gateway_types LOG_SEARCH_QUERY (input_variables (search_object i)) ''input'' = Some (JObj o2)"
    by (simp add: input_argument [of _ "''LogSearchInput''"] LOG_SEARCH_QUERY_def search_object_def o2(1))
  moreover have "string_prop (JObj o2) ''fromTime'' = si_fromTime i" "string_prop (JObj o2) ''toTime'' = si_toTime i"
    "string_prop (JObj o2) ''level'' = si_level i" "string_prop (JObj o2) ''keyword'' = si_keyword i"
    "string_prop (JObj o2) ''node'' = si_node i" "string_prop (JObj o2) ''after'' = si_after i"
    "num_prop (JObj o2) ''limit'' = Some (nullish_default (si_limit i) 100)"
    by (auto simp: string_prop_def num_prop_def json_prop_def o2(2) fs' nullish_default_def split: option.split)
  ultimately show ?thesis
    by (simp add: search_input_def) (simp add: string_prop_def json_prop_def o2(2))
qed

lemma document_fields [simp]:
  "doc_field LOGIN_MUTATION = ''login''" "doc_field VERIFY_TWO_FACTOR_MUTATION = ''verifyTwoFactor''"
  "doc_field REFRESH_TOKEN_MUTATION = ''refreshToken''" "doc_field CONTAINERS_QUERY = ''containers''"
  "doc_field LOG_APPS_QUERY = ''logApps''" "doc_field LOG_SEARCH_QUERY = ''logSearch''"
  by (simp_all add: document_defs)

definition gateway_input :: "string \<Rightarrow> string list \<Rightarrow> bool" where
  "gateway_input n ks \<longleftrightarrow> map_of gateway_types n = Some (InputDef (map (\<lambda>k. input_of k ''String'') ks))"

lemma gateway_inputs:
  "gateway_input ''LoginInput'' [''loginId'', ''password'']" "gateway_input ''TotpVerifyInput'' [''totpCode'']"
  "gateway_input ''RefreshTokenInput'' [''refreshToken'']"
  "gateway_input ''ChangePasswordInput'' [''currentPassword'', ''newPassword'']"
  by (simp_all add: gateway_input_def gateway_types_def input_types)

text \<open>C40: the variables of the browser reach the resolvers. What the pages send with a document passes the
  types of the schema, and the arguments of the root field it names are what the page had: both texts of
  the form, the code, the refresh token, the identifiers of containers, the name of a service, and the
  query of the search panel with every filter that is set and none that is not.\<close>

theorem variables_reach_resolvers:
  "called_field LOGIN_MUTATION (auth_variables [(''loginId'', l), (''password'', p)]) = Some (LoginField l p) \<and>
   called_field VERIFY_TWO_FACTOR_MUTATION (auth_variables [(''totpCode'', c)]) = Some (VerifyTwoFactorField c) \<and>
   called_field REFRESH_TOKEN_MUTATION (auth_variables [(''refreshToken'', t)]) = Some (RefreshTokenField t) \<and>
   called_field CONTAINERS_QUERY (JObj []) = Some ContainersField \<and>
   called_field CONTAINER_STATS_QUERY (JObj [(''containerIds'', JArr (map JStr ids))]) = Some (ContainerStatsField ids) \<and>
   called_field CONTAINER_LOG_SUBSCRIPTION (JObj [(''containerId'', JStr i)]) = Some (ContainerLogField i) \<and>
   called_field SERVICE_LOG_SUBSCRIPTION (JObj [(''serviceName'', JStr n)]) = Some (ServiceLogField n) \<and>
   called_field LOG_APPS_QUERY (JObj []) = Some LogAppsField \<and>
   called_field LOG_SEARCH_QUERY (input_variables (search_object (search_variables cursor s))) =
     Some (LogSearchField (search_variables cursor s))"
proof -
  have search: "\<exists>v. argument gateway_types LOG_SEARCH_QUERY (input_variables (search_object (search_variables cursor s))) ''input'' = Some v \<and>
      search_input v = Some (search_variables cursor s)"
    using search_arrives [of "search_variables cursor s"] by (auto simp: search_variables_def int32_def nullish_default_def)
  have texts: "input_text d (auth_variables kvs) k = Some s"
    if "gateway_input n (map fst kvs)" "distinct (map fst kvs)" "doc_args d = [(''input'', ''input'')]"
      "doc_variables d = [field_of ''input'' n]" "(k, s) \<in> set kvs" for d n kvs k s
    using texts_arrive [OF _ that(2-5)] that(1) by (simp add: auth_variables_def gateway_input_def)
  have "input_text LOGIN_MUTATION (auth_variables [(''loginId'', l), (''password'', p)]) ''loginId'' = Some l"
    "input_text LOGIN_MUTATION (auth_variables [(''loginId'', l), (''password'', p)]) ''password'' = Some p"
    "input_text VERIFY_TWO_FACTOR_MUTATION (auth_variables [(''totpCode'', c)]) ''totpCode'' = Some c"
    "input_text REFRESH_TOKEN_MUTATION (auth_variables [(''refreshToken'', t)]) ''refreshToken'' = Some t"
    by (rule texts [of "''LoginInput''"] texts [of "''TotpVerifyInput''"] texts [of "''RefreshTokenInput''"];
        simp add: document_defs gateway_inputs)+
  then have "called_field LOGIN_MUTATION (auth_variables [(''loginId'', l), (''password'', p)]) = Some (LoginField l p)"
    "called_field VERIFY_TWO_FACTOR_MUTATION (auth_variables [(''totpCode'', c)]) = Some (VerifyTwoFactorField c)"
    "called_field REFRESH_TOKEN_MUTATION (auth_variables [(''refreshToken'', t)]) = Some (RefreshTokenField t)"
    by (simp_all add: called_field_def)
  moreover have "called_field LOG_SEARCH_QUERY (input_variables (search_object (search_variables cursor s))) =
      Some (LogSearchField (search_variables cursor s))"
    using search by (auto simp: called_field_def)
  moreover have "called_field CONTAINER_STATS_QUERY (JObj [(''containerIds'', JArr (map JStr ids))]) = Some (ContainerStatsField ids)"
    "called_field CONTAINER_LOG_SUBSCRIPTION (JObj [(''containerId'', JStr i)]) = Some (ContainerLogField i)"
    "called_field SERVICE_LOG_SUBSCRIPTION (JObj [(''serviceName'', JStr n)]) = Some (ServiceLogField n)"
    by (simp_all add: called_field_def document_defs text_argument_def argument_def json_prop_def field_of_def)
  moreover have "called_field CONTAINERS_QUERY v = Some ContainersField" "called_field LOG_APPS_QUERY v = Some LogAppsField" for v
    by (simp_all add: called_field_def)
  ultimately show ?thesis by blast
qed

end
