(* ===== verification/Ui_Answers.thy ===== *)
theory Ui_Answers
  imports Ui_Documents
begin

text \<open>
  The answers on their way from the resolvers to the pages: the JSON of the values the resolvers return,
  what the schema makes of it, and what the pages read. Integers of the schema have 32 bits; an answer
  with a larger one is refused as a whole.
\<close>

section \<open>What the resolvers return and what the pages read\<close>

definition container_value :: "ui_container \<Rightarrow> json" where
  "container_value c = sent_object
     [(''id'', Some (JStr (uc_id c))), (''name'', Some (JStr (uc_name c))), (''image'', Some (JStr (uc_image c))),
      (''status'', Some (JStr (uc_status c))), (''state'', Some (JStr (uc_state c))), (''created'', Some (JNum (uc_created c))),
      (''ports'', Some (JArr (map JStr (uc_ports c)))), (''serviceName'', map_option JStr (uc_serviceName c)),
      (''taskSlot'', map_option JStr (uc_taskSlot c)), (''nodeName'', map_option JStr (uc_nodeName c))]"

definition container_data :: "json \<Rightarrow> ui_container option" where
  "container_data v =
     (case (string_prop v ''id'', string_prop v ''name'', string_prop v ''image'', string_prop v ''status'', string_prop v ''state'',
            num_prop v ''created'', Option.bind (json_prop v ''ports'') strings_of) of
        (Some i, Some n, Some im, Some st, Some se, Some cr, Some ps) \<Rightarrow>
          Some \<lparr>uc_id = i, uc_name = n, uc_image = im, uc_status = st, uc_state = se, uc_created = cr, uc_ports = ps,
                uc_serviceName = string_prop v ''serviceName'', uc_taskSlot = string_prop v ''taskSlot'',
                uc_nodeName = string_prop v ''nodeName''\<rparr>
      | _ \<Rightarrow> None)"

definition line_value :: "LogLine \<Rightarrow> json" where
  "line_value l = sent_object
     [(''timestamp'', map_option JStr (ll_timestamp l)), (''level'', map_option JStr (ll_level l)),
      (''source'', map_option JStr (ll_source l)), (''message'', Some (JStr (ll_message l))),
      (''metadata'', map_option JStr (ll_metadata l)), (''node'', Some (JStr (ll_node l))), (''file'', Some (JStr (ll_file l))),
      (''lineNo'', Some (JNum (ll_lineNo l)))]"

definition line_data :: "json \<Rightarrow> LogLine option" where
  "line_data v =
     (case (string_prop v ''message'', string_prop v ''node'', string_prop v ''file'', num_prop v ''lineNo'') of
        (Some m, Some n, Some f, Some k) \<Rightarrow>
          Some \<lparr>ll_timestamp = string_prop v ''timestamp'', ll_level = string_prop v ''level'', ll_source = string_prop v ''source'',
                ll_message = m, ll_metadata = string_prop v ''metadata'', ll_node = n, ll_file = f, ll_lineNo = k\<rparr>
      | _ \<Rightarrow> None)"

definition summary_value :: "LogSummary \<Rightarrow> json" where
  "summary_value s = JObj
     [(''totalLines'', JNum (sm_totalLines s)), (''errorCount'', JNum (sm_errorCount s)), (''warnCount'', JNum (sm_warnCount s)),
      (''infoCount'', JNum (sm_infoCount s)), (''fileCount'', JNum (sm_fileCount s))]"

definition summary_data :: "json \<Rightarrow> LogSummary option" where
  "summary_data v =
     (case (num_prop v ''totalLines'', num_prop v ''errorCount'', num_prop v ''warnCount'', num_prop v ''infoCount'', num_prop v ''fileCount'') of
        (Some t, Some e, Some w, Some i, Some f) \<Rightarrow>
          Some \<lparr>sm_totalLines = t, sm_errorCount = e, sm_warnCount = w, sm_infoCount = i, sm_fileCount = f\<rparr>
      | _ \<Rightarrow> None)"

definition search_value :: "LogSearchResult \<Rightarrow> json" where
  "search_value r = JObj
     [(''lines'', JArr (map line_value (sr_lines r))), (''hasMore'', JBool (sr_hasMore r)), (''summary'', summary_value (sr_summary r))]"

definition array_of :: "(json \<Rightarrow> 'a option) \<Rightarrow> json \<Rightarrow> 'a list option" where
  "array_of f v = (case v of JArr vs \<Rightarrow> those (map f vs) | _ \<Rightarrow> None)"

definition bool_prop :: "json \<Rightarrow> string \<Rightarrow> bool option" where
  "bool_prop v k = (case json_prop v k of Some (JBool b) \<Rightarrow> Some b | _ \<Rightarrow> None)"

definition search_data :: "json \<Rightarrow> LogSearchResult option" where
  "search_data v =
     (case (Option.bind (json_prop v ''lines'') (array_of line_data), bool_prop v ''hasMore'',
            Option.bind (json_prop v ''summary'') summary_data) of
        (Some ls, Some b, Some s) \<Rightarrow> Some \<lparr>sr_lines = ls, sr_hasMore = b, sr_summary = s\<rparr>
      | _ \<Rightarrow> None)"

definition app_value :: "LogApp \<Rightarrow> json" where
  "app_value a = JObj [(''name'', JStr (la_name a)), (''node'', JStr (la_node a))]"

definition app_data :: "json \<Rightarrow> LogApp option" where
  "app_data v =
     (case (string_prop v ''name'', string_prop v ''node'') of (Some n, Some d) \<Rightarrow> Some \<lparr>la_name = n, la_node = d\<rparr> | _ \<Rightarrow> None)"

text \<open>What a component finds under the name of the root field.\<close>

text \<open>
  The client of the browser (apollo.ts) keeps what queries return in an \<open>InMemoryCache\<close>, and a page reads
  the result of a query out of it. The cache has one object for each type and \<open>id\<close>: of objects with the same
  \<open>id\<close> in a result the properties are merged, later ones over earlier ones, and each of them is read as the
  merged object. Objects without an \<open>id\<close> stay where they are. In the documents of the browser only the items
  of a list at the root have one (\<open>ids_at_root\<close> below), always with the same properties, so that nothing of an
  earlier result is left. The result of a mutation or subscription is handed on as it is.
\<close>

definition merged_object :: "string \<Rightarrow> json list \<Rightarrow> (string \<times> json) list" where
  "merged_object i vs =
     fold (\<lambda>v fields. case v of JObj fs \<Rightarrow> if string_prop v ''id'' = Some i then obj_merge fields fs else fields | _ \<Rightarrow> fields) vs []"

definition InMemoryCache :: "json \<Rightarrow> json" where
  "InMemoryCache v =
     (case v of
        JArr vs \<Rightarrow> JArr (map (\<lambda>v. case string_prop v ''id'' of None \<Rightarrow> v | Some i \<Rightarrow> JObj (merged_object i vs)) vs)
      | _ \<Rightarrow> v)"

definition read_answer :: "serializer \<Rightarrow> gql_document \<Rightarrow> (json \<Rightarrow> 'a option) \<Rightarrow> json \<Rightarrow> 'a option" where
  "read_answer ser d f v =
     Option.bind (answer ser gateway_types root_fields d v) (\<lambda>r.
     Option.bind (json_prop r (doc_field d)) (\<lambda>x. f (if doc_operation d = ''Query'' then InMemoryCache x else x)))"

lemma ids_at_root:
  "list_all (\<lambda>(d, u). list_all (\<lambda>s. case s of Sel k sub \<Rightarrow> list_all (\<lambda>t. case t of Sel j r \<Rightarrow> j \<noteq> ''id'') sub \<and> (k = ''id'' \<longrightarrow>
     d \<in> {CONTAINERS_QUERY, CONTAINER_STATS_QUERY})) (doc_selection d)) ui_documents"
  by (simp add: ui_documents_def document_defs leaves_def token_selection_def)

section \<open>Completion on the types of the gateway\<close>

abbreviation completed :: "serializer \<Rightarrow> gql_type \<Rightarrow> selection list \<Rightarrow> json \<Rightarrow> json \<times> bool" where
  "completed ser \<equiv> complete ser (map_of gateway_types)"

lemma completed_scalars [simp]:
  "completed ser (Named ''String'') sels (JStr s) = (JStr s, False)"
  "completed ser (Named ''Boolean'') sels (JBool b) = (JBool b, False)"
  "completed ser (Named ''Float'') sels (JNum n) = (JNum n, False)"
  "completed ser (Named ''Int'') sels (JNum n) = (if int32 n then (JNum n, False) else (JNull, True))"
  "completed ser (Named t) sels JNull = (JNull, False)"
  by (simp_all add: complete.simps gateway_types_def leaf_value_def of_scalar_def)

lemma completed_nonnull [simp]:
  "completed ser (NonNull t) sels v = (fst (completed ser t sels v), snd (completed ser t sels v) \<or> fst (completed ser t sels v) = JNull)"
  by (simp add: complete.simps(1) case_prod_beta)

lemma completed_optional [simp]:
  "completed ser (Named ''String'') sels (nullish_default (map_option JStr x) JNull) = (opt_json x, False)"
  by (cases x) (simp_all add: nullish_default_def opt_json_def)

lemma opt_json_string [simp]: "(case opt_json x of JStr s \<Rightarrow> Some s | _ \<Rightarrow> None) = x"
  by (cases x) (simp_all add: opt_json_def)

text \<open>A list is completed item by item; an item that may not be null takes the whole list with it.\<close>

lemma completed_list:
  assumes "\<And>x. completed ser t sels (f x) = (if ok x then (g x, False) else (JNull, True))" and "\<And>x. g x \<noteq> JNull"
  shows "completed ser (ListOf (NonNull t)) sels (JArr (map f xs)) =
    (if \<forall>x \<in> set xs. ok x then (JArr (map g xs), False) else (JNull, True))"
proof (cases "\<forall>x \<in> set xs. ok x")
  case True
  then have "map (completed ser (NonNull t) sels \<circ> f) xs = map (\<lambda>x. (g x, False)) xs" using assms by auto
  then show ?thesis using True assms(2) by (auto simp: complete.simps(2) Let_def comp_def image_iff)
next
  case False
  then obtain x where "x \<in> set xs" "\<not> ok x" by blast
  then have "fst (completed ser (NonNull t) sels (f x)) = JNull" "x \<in> set xs" using assms(1) by simp_all
  then have "JNull \<in> fst ` set (map (completed ser (NonNull t) sels) (map f xs))" by (metis image_eqI image_set)
  with False show ?thesis by (simp add: complete.simps(2) Let_def del: completed_nonnull)
qed

lemma completed_strings [simp]:
  "completed ser (ListOf (NonNull (Named ''String''))) sels (JArr (map JStr ss)) = (JArr (map JStr ss), False)"
  using completed_list [of ser "Named ''String''" sels JStr "\<lambda>x. True" JStr ss] by simp

lemma json_prop_sent [simp]:
  "distinct (map fst ps) \<Longrightarrow> json_prop (sent_object ps) k = Option.bind (map_of ps k) id"
  by (simp add: json_prop_def sent_object_def map_of_sent)

lemma sent_not_null [simp]: "sent_object ps \<noteq> JNull"
  by (simp add: sent_object_def)

lemma type_of_name [simp]:
  "map_of gateway_types ''Container'' = Some Container_type" "map_of gateway_types ''LogLine'' = Some LogLine_type"
  "map_of gateway_types ''LogSummary'' = Some LogSummary_type" "map_of gateway_types ''LogSearchResult'' = Some LogSearchResult_type"
  "map_of gateway_types ''LogApp'' = Some LogApp_type" "map_of gateway_types ''AuthToken'' = Some AuthToken_type"
  "map_of gateway_types ''LoginResult'' = Some LoginResult_type"
  by (simp_all add: gateway_types_def)

lemmas output_types = Container_type_def LogLine_type_def LogSummary_type_def LogSearchResult_type_def LogApp_type_def
  AuthToken_type_def LoginResult_type_def field_of_def nullable_field_def

lemma completed_container:
  "completed ser (Named ''Container'') (doc_selection CONTAINERS_QUERY) (container_value c) =
     (if int32 (uc_created c) then (container_json c, False) else (JNull, True))"
  by (simp add: complete.simps(3) [of _ _ "''Container''"] output_types list_of_def document_defs container_value_def container_json_def)

definition line_answer :: "LogLine \<Rightarrow> json" where
  "line_answer l = JObj
     [(''timestamp'', opt_json (ll_timestamp l)), (''level'', opt_json (ll_level l)), (''source'', opt_json (ll_source l)),
      (''message'', JStr (ll_message l)), (''metadata'', opt_json (ll_metadata l)), (''node'', JStr (ll_node l)),
      (''file'', JStr (ll_file l)), (''lineNo'', JNum (ll_lineNo l))]"

lemma completed_line:
  "completed ser (Named ''LogLine'')
     (leaves [''timestamp'', ''level'', ''source'', ''message'', ''metadata'', ''node'', ''file'', ''lineNo'']) (line_value l) =
     (if int32 (ll_lineNo l) then (line_answer l, False) else (JNull, True))"
  by (simp add: complete.simps(3) [of _ _ "''LogLine''"] output_types leaves_def line_value_def line_answer_def)

lemma plain_prop [simp]: "json_prop (JObj fs) k = map_of fs k"
  by (simp add: json_prop_def)

definition int32_summary :: "LogSummary \<Rightarrow> bool" where
  "int32_summary s \<longleftrightarrow> list_all int32 [sm_totalLines s, sm_errorCount s, sm_warnCount s, sm_infoCount s, sm_fileCount s]"

lemma completed_summary:
  "completed ser (Named ''LogSummary'') (leaves [''totalLines'', ''errorCount'', ''warnCount'', ''infoCount'', ''fileCount'']) (summary_value s) =
     (if int32_summary s then (summary_value s, False) else (JNull, True))"
  by (simp add: complete.simps(3) [of _ _ "''LogSummary''"] output_types leaves_def summary_value_def int32_summary_def nullish_default_def)

definition int32_search :: "LogSearchResult \<Rightarrow> bool" where
  "int32_search r \<longleftrightarrow> (\<forall>l \<in> set (sr_lines r). int32 (ll_lineNo l)) \<and> int32_summary (sr_summary r)"

lemma answers_not_null [simp]: "line_answer l \<noteq> JNull" "container_json c \<noteq> JNull" "summary_value s \<noteq> JNull" "app_value a \<noteq> JNull"
  by (simp_all add: line_answer_def container_json_def summary_value_def app_value_def)

lemma completed_lines:
  "completed ser (ListOf (NonNull (Named ''LogLine'')))
     (leaves [''timestamp'', ''level'', ''source'', ''message'', ''metadata'', ''node'', ''file'', ''lineNo'']) (JArr (map line_value ls)) =
     (if \<forall>l \<in> set ls. int32 (ll_lineNo l) then (JArr (map line_answer ls), False) else (JNull, True))"
  by (rule completed_list) (simp_all add: completed_line)

lemma completed_search:
  "completed ser (Named ''LogSearchResult'') (doc_selection LOG_SEARCH_QUERY) (search_value r) =
     (if int32_search r
      then (JObj [(''lines'', JArr (map line_answer (sr_lines r))), (''hasMore'', JBool (sr_hasMore r)), (''summary'', summary_value (sr_summary r))], False)
      else (JNull, True))"
  by (simp add: complete.simps(3) [of _ _ "''LogSearchResult''"] output_types list_of_def LOG_SEARCH_QUERY_def search_value_def
      completed_lines completed_summary int32_search_def nullish_default_def)

lemma completed_app: "completed ser (Named ''LogApp'') (doc_selection LOG_APPS_QUERY) (app_value a) = (app_value a, False)"
  by (simp add: complete.simps(3) [of _ _ "''LogApp''"] output_types document_defs app_value_def nullish_default_def)

lemma completed_token:
  "completed ser (Named ''AuthToken'') token_selection (tokens_json t) =
     (if int32 (at_expiresIn t) then (tokens_json t, False) else (JNull, True))"
  by (simp add: complete.simps(3) [of _ _ "''AuthToken''"] output_types token_selection_def leaves_def tokens_json_def nullish_default_def)

definition int32_login :: "auth_response \<Rightarrow> bool" where
  "int32_login a \<longleftrightarrow> (\<forall>t. ar_tokens a = Some t \<longrightarrow> int32 (at_expiresIn t))"

definition login_answer :: "auth_response \<Rightarrow> json" where
  "login_answer a = JObj
     [(''requiresTwoFactor'', JBool (ar_requiresTwoFactor a)), (''tokens'', case ar_tokens a of None \<Rightarrow> JNull | Some t \<Rightarrow> tokens_json t),
      (''twoFactorToken'', opt_json (ar_twoFactorToken a)), (''tOtpUrl'', opt_json (Option.bind (ar_tOtpUrl a) id))]"

lemma response_props:
  "json_prop (response_json a) ''requiresTwoFactor'' = Some (JBool (ar_requiresTwoFactor a))"
  "json_prop (response_json a) ''tokens'' = map_option tokens_json (ar_tokens a)"
  "json_prop (response_json a) ''twoFactorToken'' = map_option JStr (ar_twoFactorToken a)"
  "nullish_default (json_prop (response_json a) ''tOtpUrl'') JNull = opt_json (Option.bind (ar_tOtpUrl a) id)"
  by (cases "ar_tokens a"; cases "ar_twoFactorToken a";
      simp add: response_json_def map_of_otp_url otp_url_json_def opt_json_def nullish_default_def split: option.split)+

lemma completed_opt_json [simp]: "completed ser (Named ''String'') sels (opt_json x) = (opt_json x, False)"
  by (cases x) (simp_all add: opt_json_def)

lemma completed_login:
  "completed ser (Named ''LoginResult'') (doc_selection LOGIN_MUTATION) (response_json a) =
     (if int32_login a then (login_answer a, False)
      else (JObj [(''requiresTwoFactor'', JBool (ar_requiresTwoFactor a)), (''tokens'', JNull), (''twoFactorToken'', opt_json (ar_twoFactorToken a)),
              (''tOtpUrl'', opt_json (Option.bind (ar_tOtpUrl a) id))], True))"
proof -
  have "completed ser (Named ''AuthToken'') token_selection (nullish_default (map_option tokens_json (ar_tokens a)) JNull) =
      (if int32_login a then (case ar_tokens a of None \<Rightarrow> JNull | Some t \<Rightarrow> tokens_json t, False) else (JNull, True))"
    by (cases "ar_tokens a") (simp_all add: completed_token int32_login_def nullish_default_def)
  moreover have "response_json a \<noteq> JNull" by (simp add: response_json_def)
  ultimately show ?thesis
    by (simp add: complete.simps(3) [of _ _ "''LoginResult''"] output_types LOGIN_MUTATION_def response_props login_answer_def)
qed

section \<open>Answers arrive as they were returned\<close>

lemma array_read: "(\<And>x. f (g x) = Some x) \<Longrightarrow> array_of f (JArr (map g xs)) = Some xs"
  unfolding array_of_def by (induction xs) (auto simp: comp_def)

lemma null_prop [simp]: "json_prop JNull k = None"
  by (simp add: json_prop_def)

lemma container_read: "container_data (container_json c) = Some c"
  by (simp add: container_data_def container_json_def string_prop_def num_prop_def)

lemma cache_plain [simp]:
  "(\<And>vs. v \<noteq> JArr vs) \<Longrightarrow> InMemoryCache v = v" "InMemoryCache (JObj fs) = JObj fs"
  by (simp_all add: InMemoryCache_def split: json.split)

lemma cache_without_ids: "(\<And>x. string_prop (f x) ''id'' = None) \<Longrightarrow> InMemoryCache (JArr (map f xs)) = JArr (map f xs)"
  by (simp add: InMemoryCache_def)

text \<open>Of containers with the same \<open>id\<close> every one is read as the last.\<close>

definition as_cached :: "ui_container list \<Rightarrow> ui_container \<Rightarrow> ui_container" where
  "as_cached cs c = last (filter (\<lambda>d. uc_id d = uc_id c) cs)"

lemma as_cached_distinct: "distinct (map uc_id cs) \<Longrightarrow> map (as_cached cs) cs = cs"
proof (rule map_idI)
  fix c assume "distinct (map uc_id cs)" "c \<in> set cs"
  then have "\<forall>d \<in> set cs. uc_id d = uc_id c \<longrightarrow> d = c" by (auto simp: distinct_map inj_on_def)
  then have "set (filter (\<lambda>d. uc_id d = uc_id c) cs) = {c}" using \<open>c \<in> set cs\<close> by auto
  then show "as_cached cs c = c" unfolding as_cached_def by (metis empty_iff last_in_set set_empty singletonD insert_not_empty)
qed

lemma map_of_rev_distinct: "distinct (map fst xs) \<Longrightarrow> map_of (rev xs) = map_of xs"
  by (simp add: map_of_inject_set rev_map [symmetric])

lemma same_properties: "json_prop (container_json c) k = None \<longleftrightarrow> json_prop (container_json d) k = None"
  by (simp add: container_json_def)

lemma merged_snoc:
  "merged_object i (vs @ [v]) =
     (case v of JObj fs \<Rightarrow> if string_prop v ''id'' = Some i then obj_merge (merged_object i vs) fs else merged_object i vs
      | _ \<Rightarrow> merged_object i vs)"
  by (simp add: merged_object_def split: json.split)

lemma merged_containers:
  "map_of (merged_object i (map container_json cs)) k =
     (case rev (filter (\<lambda>c. uc_id c = i) cs) of [] \<Rightarrow> None | c # _ \<Rightarrow> json_prop (container_json c) k)"
proof (induction cs rule: rev_induct)
  case Nil
  then show ?case by (simp add: merged_object_def)
next
  case (snoc c cs)
  obtain fs where fs: "container_json c = JObj fs" "distinct (map fst fs)" by (simp add: container_json_def)
  have id: "string_prop (container_json c) ''id'' = Some (uc_id c)" by (simp add: container_json_def string_prop_def)
  have merge: "map_of (obj_merge m fs) k = (case map_of fs k of None \<Rightarrow> map_of m k | Some v \<Rightarrow> Some v)" for m
    by (simp add: map_of_obj_merge map_of_rev_distinct [OF fs(2)])
  have same: "json_prop (container_json d) k = None" if "map_of fs k = None" for d
    using that same_properties [of d k c] by (simp add: fs(1))
  have before: "map_of (merged_object i (map container_json cs)) k = None" if "map_of fs k = None"
    unfolding snoc.IH using same [OF that] by (simp split: list.split)
  show ?case
  proof (cases "uc_id c = i")
    case True
    then have "merged_object i (map container_json cs @ [container_json c]) = obj_merge (merged_object i (map container_json cs)) fs"
      using id fs(1) by (simp add: merged_snoc)
    moreover have "json_prop (container_json c) k = map_of fs k" by (simp add: fs(1))
    ultimately show ?thesis using True before by (cases "map_of fs k") (simp_all add: merge)
  qed (use snoc id fs(1) in \<open>simp add: merged_snoc\<close>)
qed

lemma container_data_cong: "(\<And>k. json_prop v k = json_prop w k) \<Longrightarrow> container_data v = container_data w"
  unfolding container_data_def string_prop_def num_prop_def by (simp only:)

lemma those_map: "(\<And>x. x \<in> set xs \<Longrightarrow> f x = Some (g x)) \<Longrightarrow> those (map f xs) = Some (map g xs)"
  by (induction xs) auto

lemma cached_containers:
  "array_of container_data (InMemoryCache (JArr (map container_json cs))) = Some (map (as_cached cs) cs)"
proof -
  have id: "string_prop (container_json c) ''id'' = Some (uc_id c)" for c by (simp add: container_json_def string_prop_def)
  have "container_data (JObj (merged_object (uc_id c) (map container_json cs))) = Some (as_cached cs c)" if "c \<in> set cs" for c
  proof -
    have "filter (\<lambda>d. uc_id d = uc_id c) cs \<noteq> []" using that by (auto simp: filter_empty_conv)
    then have "rev (filter (\<lambda>d. uc_id d = uc_id c) cs) = as_cached cs c # tl (rev (filter (\<lambda>d. uc_id d = uc_id c) cs))"
      by (simp add: as_cached_def hd_rev [symmetric])
    then have "json_prop (JObj (merged_object (uc_id c) (map container_json cs))) k = json_prop (container_json (as_cached cs c)) k" for k
      using merged_containers [of "uc_id c" cs k] by (metis list.case(2) plain_prop)
    from container_data_cong [OF this] show ?thesis by (simp add: container_read)
  qed
  from those_map [of cs, OF this] show ?thesis by (simp add: InMemoryCache_def id array_of_def comp_def)
qed

lemma line_read: "line_data (line_answer l) = Some l"
  by (simp add: line_data_def line_answer_def string_prop_def num_prop_def)

lemma summary_read: "summary_data (summary_value s) = Some s"
  by (simp add: summary_data_def summary_value_def num_prop_def)

lemma app_read: "app_data (app_value a) = Some a"
  by (simp add: app_data_def app_value_def string_prop_def)

lemma search_read:
  "search_data (JObj [(''lines'', JArr (map line_answer (sr_lines r))), (''hasMore'', JBool (sr_hasMore r)),
     (''summary'', summary_value (sr_summary r))]) = Some r"
  by (simp add: search_data_def array_read [OF line_read] bool_prop_def summary_read)

lemma login_read: "login_result_data (login_answer a) = login_result_data (response_json a)"
  by (cases "ar_tokens a"; cases "ar_twoFactorToken a")
    (simp_all add: login_result_data_def login_answer_def response_props string_prop_def opt_json_def auth_token_data_def num_prop_def)

lemma tokens_selected: "doc_selection VERIFY_TWO_FACTOR_MUTATION = token_selection"
  by (simp add: VERIFY_TWO_FACTOR_MUTATION_def)

lemma root_of:
  "map_of root_fields (doc_operation CONTAINERS_QUERY, ''containers'') = Some ([], list_of ''Container'')"
  "map_of root_fields (doc_operation LOG_SEARCH_QUERY, ''logSearch'') = Some ([field_of ''input'' ''LogSearchInput''], NonNull (Named ''LogSearchResult''))"
  "map_of root_fields (doc_operation LOG_APPS_QUERY, ''logApps'') = Some ([], list_of ''LogApp'')"
  "map_of root_fields (doc_operation LOGIN_MUTATION, ''login'') = Some ([field_of ''input'' ''LoginInput''], NonNull (Named ''LoginResult''))"
  "map_of root_fields (doc_operation VERIFY_TWO_FACTOR_MUTATION, ''verifyTwoFactor'') =
       Some ([field_of ''input'' ''TotpVerifyInput''], NonNull (Named ''AuthToken''))"
  by (simp_all add: root_fields_def auth_fields_def streamer_fields_def history_fields_def document_defs)

lemma answers_arrive_search:
  "read_answer ser LOG_SEARCH_QUERY search_data (search_value r) = (if int32_search r then Some r else None)"
  by (simp add: read_answer_def answer_def root_of completed_search search_read)

lemma answers_arrive_containers:
  "read_answer ser CONTAINERS_QUERY (array_of container_data) (JArr (map container_value cs)) =
     (if \<forall>c \<in> set cs. int32 (uc_created c) then Some (map (as_cached cs) cs) else None)"
proof -
  have "completed ser (ListOf (NonNull (Named ''Container''))) (doc_selection CONTAINERS_QUERY) (JArr (map container_value cs)) =
      (if \<forall>c \<in> set cs. int32 (uc_created c) then (JArr (map container_json cs), False) else (JNull, True))"
    by (rule completed_list) (simp_all add: completed_container)
  then have answer: "answer ser gateway_types root_fields CONTAINERS_QUERY (JArr (map container_value cs)) =
      (if \<forall>c \<in> set cs. int32 (uc_created c) then Some (JObj [(''containers'', JArr (map container_json cs))]) else None)"
    by (simp add: answer_def root_of list_of_def)
  have "doc_operation CONTAINERS_QUERY = ''Query''" by (simp add: document_defs)
  then show ?thesis unfolding read_answer_def answer using cached_containers by simp
qed


text \<open>One container that is created on 19 January 2038 at 03:14:08 UTC or later empties the list.\<close>

lemma containers_fail_in_2038:
  "\<exists>c \<in> set cs. 2147483648 \<le> uc_created c \<Longrightarrow>
     read_answer ser CONTAINERS_QUERY (array_of container_data) (JArr (map container_value cs)) = None"
  using answers_arrive_containers [of ser cs] by (force simp: int32_def)

section \<open>Documents, schema and interfaces\<close>

text \<open>C34: the browser and the gateway agree on the schema. Every document of the browser is accepted: its
  root field exists, takes the variables with the types declared for them, and has every field that is
  selected. Whatever a resolver returns, an answer without errors has the interface the page names; only
  the properties of a container that may be left out are null instead.\<close>

theorem browser_agrees_with_schema:
  assumes "serializes ser" and "(d, u) \<in> set ui_documents" and "answer ser gateway_types root_fields d v = Some r"
  shows "accepted gateway_types root_fields d \<and> ts_has (if d = CONTAINERS_QUERY then admit_null u else u) (Some r)"
  using documents_accepted documents_fit assms answer_has [OF assms(1) _ assms(3)] by (fastforce simp: list_all_iff)

lemma browser_agrees_with_schema_witness:
  "ts_has LoginResponse (Some (JObj [(''login'', JObj [(''requiresTwoFactor'', JBool True), (''tokens'', JNull), (''twoFactorToken'', JStr ''t''),
     (''tOtpUrl'', JNull)])]))"
proof -
  have "serializes (\<lambda>n v. None)" "(LOGIN_MUTATION, LoginResponse) \<in> set ui_documents"
    by (simp_all add: serializes_def ui_documents_def)
  moreover have "answer (\<lambda>n v. None) gateway_types root_fields LOGIN_MUTATION (JObj [(''requiresTwoFactor'', JBool True), (''twoFactorToken'', JStr ''t'')]) =
    Some (JObj [(''login'', JObj [(''requiresTwoFactor'', JBool True), (''tokens'', JNull), (''twoFactorToken'', JStr ''t''), (''tOtpUrl'', JNull)])])"
    by code_simp
  moreover have "LOGIN_MUTATION \<noteq> CONTAINERS_QUERY" by (simp add: document_defs)
  ultimately show ?thesis using browser_agrees_with_schema by fastforce
qed

lemma container_properties_null:
  "answer ser gateway_types root_fields CONTAINERS_QUERY (JArr [container_value c]) =
     (if int32 (uc_created c) then Some (JObj [(''containers'', JArr [container_json c])]) else None) \<and>
   (uc_serviceName c = None \<longrightarrow> \<not> ts_has Container_interface (Some (container_json c)))"
proof -
  have "completed ser (ListOf (NonNull (Named ''Container''))) (doc_selection CONTAINERS_QUERY) (JArr (map container_value [c])) =
      (if \<forall>c \<in> set [c]. int32 (uc_created c) then (JArr (map container_json [c]), False) else (JNull, True))"
    by (rule completed_list) (simp_all add: completed_container)
  moreover have "map_of root_fields (doc_operation CONTAINERS_QUERY, ''containers'') = Some ([], list_of ''Container'')"
    by (simp add: root_fields_def auth_fields_def streamer_fields_def document_defs)
  ultimately show ?thesis
    by (simp add: answer_def list_of_def) (simp add: container_json_def interface_defs opt_json_def)
qed

end
