(* ===== verification/Search_End_To_End.thy ===== *)
theory Search_End_To_End
  imports Ui_Answers Ui_History_Properties
begin

text \<open>
  A search from the form to the hosts and back to the table: the document and the variables of the panel,
  the browser's link with the key of the deployment, the gateway's guards and resolver, the answer as the
  schema makes it, and the rows of the table.
\<close>

lemma browser_key:
  "map_of (gr_headers (gc_req (served_context i (browser_request key ty sess [] rest ip)))) ''x-api-key'' = Some (One key)"
proof -
  have "map_of (authLink key ty sess []) ''X-API-Key'' = Some key"
    by (simp add: authLink_def header_spread_def Let_def)
  then have "map_of (gr_headers (browser_request key ty sess [] rest ip)) (js_lower ''X-API-Key'') = Some (One key)"
    by (intro browser_header) (simp_all add: browser_names_def)
  moreover have "js_lower ''X-API-Key'' = ''x-api-key''" by code_simp
  moreover have "CORRELATION_HEADER \<noteq> ''x-api-key''" by (simp add: CORRELATION_HEADER_def)
  ultimately show ?thesis
    by (simp add: served_context_def graphql_context_def correlation_use_def Let_def js_map.get_put)
qed

lemma resolve_search:
  "resolve (served_app i rq app) req (LogSearchField input) gs =
     (map_sum id SearchData (search (ga_localeCompare app) (ga_discovered app) (ga_port app) (ga_lines app) (ga_logStats app) input),
      gs\<lparr>gs_breakers := fire_each (gw_parse (ga_gateway app)) ''log-history'' (ga_discovered app) (gs_breakers gs)\<rparr>)"
  by (simp add: resolver_logSearch_def from_hosts_def served_app_def)

text \<open>C19: a search reaches the table. The button of the panel sends the document of a search with the query
  of the form; the schema accepts it, and with the key of the deployment among the gateway's and the throttler
  letting it through it is one call of the search over the hosts with exactly this query. It changes no
  subscription and no other server, and of the breakers it only makes the one of the log history, if there
  is a host and it was not there. What the search finds arrives at the panel unchanged if its
  integers have 32 bits, and the table then has one row for each line found, in order; if one has not,
  nothing arrives. A failure of the search is answered with the error the filter makes of it.\<close>

theorem search_reaches_table:
  assumes "pn_app s \<noteq> []" and "key \<noteq> []" and "key \<in> set (ga_keys app)"
    and "request = browser_request key ty sess [] rest cip"
    and "panel_step result Search (s, e) = (Some (vars, label), s1, e1)"
    and "called_field LOG_SEARCH_QUERY (input_variables (search_object vars)) = Some fld"
    and "fst (throttle_guard app (served_context newId request) fld (gs_throttle gs))"
    and "serve app newId request d fld gs = (r, hs, gs')"
  shows "accepted gateway_types root_fields LOG_SEARCH_QUERY \<and>
    (\<exists>found. found = search (ga_localeCompare app) (ga_discovered app) (ga_port app) (ga_lines app) (ga_logStats app) (search_variables None s) \<and>
      r = map_sum (http_exception_catch (gw_parse (ga_gateway app))) SearchData found \<and>
      (\<forall>x. found = Inr x \<longrightarrow>
        read_answer ser LOG_SEARCH_QUERY search_data (search_value x) = (if int32_search x then Some x else None) \<and>
        map texts (nodes_where is_row (SearchPanel lib apps s1 (rows_after (Some x) e1) False (Some x))) = map (line_texts lib) (sr_lines x))) \<and>
    (\<forall>k. map_of (gs_breakers gs') k =
      (if k = ''log-history'' \<and> map_of (gs_breakers gs) k = None \<and> (\<exists>h hosts. ga_discovered app = Inr (h # hosts))
       then Some (new_breaker (gw_parse (ga_gateway app)) k) else map_of (gs_breakers gs) k)) \<and>
    gs_streamer gs' = gs_streamer gs \<and> gs_upstream gs' = gs_upstream gs"
proof -
  have vars: "vars = search_variables None s"
    using assms(1,5) by (simp add: handleSearch_def)
  obtain v where "argument gateway_types LOG_SEARCH_QUERY (input_variables (search_object vars)) ''input'' = Some v"
    "search_input v = Some vars"
    using search_arrives [of vars] by (auto simp: vars search_variables_def int32_def nullish_default_def)
  with assms(6) have fld: "fld = LogSearchField vars" by (simp add: called_field_def)
  have key: "api_key_canActivate (ga_keys app) (is_public fld) (gr_headers (gc_req (served_context newId request))) = Allowed"
    using assms(2,3) browser_key by (simp add: api_key_guard_iff key_valid_def assms(4))
  obtain t q lines where q: "resolve (served_app newId request app) (gc_req (served_context newId request)) fld (gs\<lparr>gs_throttle := t\<rparr>) =
      (q, gs'\<lparr>gs_log := lines\<rparr>)" "r = map_sum (http_exception_catch (gw_parse (ga_gateway app))) id q"
    using serve_allowed [OF assms(8) key assms(7)] by blast
  let ?found = "search (ga_localeCompare app) (ga_discovered app) (ga_port app) (ga_lines app) (ga_logStats app) vars"
  let ?brs = "fire_each (gw_parse (ga_gateway app)) ''log-history'' (ga_discovered app) (gs_breakers gs)"
  have r: "r = map_sum (http_exception_catch (gw_parse (ga_gateway app))) SearchData ?found"
    and same: "gs'\<lparr>gs_log := lines\<rparr> = gs\<lparr>gs_throttle := t, gs_breakers := ?brs\<rparr>"
    using q unfolding fld resolve_search by (auto simp: sum.map_comp comp_def)
  have frame: "gs_streamer gs' = gs_streamer gs \<and> gs_upstream gs' = gs_upstream gs"
    using arg_cong [OF same, of gs_streamer] arg_cong [OF same, of gs_upstream] by simp
  have breakers: "gs_breakers gs' = ?brs" using arg_cong [OF same, of gs_breakers] by simp
  have accepted: "accepted gateway_types root_fields LOG_SEARCH_QUERY"
    using documents_accepted by (simp add: list_all_iff ui_documents_def)
  from r frame accepted show ?thesis
    by (auto simp: vars rows_panel answers_arrive_search breakers fire_each_breakers)
qed

definition found_app :: "(nat, unit, int, ((string \<times> string) \<times> string) \<Rightarrow> nat) gateway_app" where
  "found_app = demo_gateway_app\<lparr>ga_discovered := Inr [''h''], ga_localeCompare := js_compare,
     ga_lines := (\<lambda>u q. Inr \<lparr>lr_lines = Some [demo_line ''10:01'', demo_line ''10:00''], lr_node = ''n1'', lr_hasMore = False\<rparr>)\<rparr>"

lemma search_reaches_table_witness:
  "\<exists>x hs gs'. serve found_app ''c1'' (browser_request ''k1'' ''ADMIN'' (mounted (\<lambda>k. None) ''/admin/history'') [] [] (Some ''10.0.0.9'')) 7
      (LogSearchField (search_variables None ((new_panel ''2026-01-01'')\<lparr>pn_app := ''auth''\<rparr>))) demo_gateway_state = (Inr (SearchData x), hs, gs') \<and>
    map ts (sr_lines x) = [''10:00'', ''10:01''] \<and>
    map texts (nodes_where is_row (SearchPanel demo_lib [] ((new_panel ''2026-01-01'')\<lparr>pn_app := ''auth'', pn_afterCursor := None\<rparr>) [] False (Some x))) =
      map (line_texts demo_lib) (sr_lines x)"
proof -
  let ?s = "(new_panel ''2026-01-01'')\<lparr>pn_app := ''auth''\<rparr>"
  let ?rq = "browser_request ''k1'' ''ADMIN'' (mounted (\<lambda>k. None) ''/admin/history'') [] [] (Some ''10.0.0.9'')"
  let ?fld = "LogSearchField (search_variables None ?s)"
  obtain r hs gs' where serve: "serve found_app ''c1'' ?rq 7 ?fld demo_gateway_state = (r, hs, gs')" by (metis prod_cases3)
  have step: "panel_step None Search (?s, []) = (Some (search_variables None ?s, search_label ?s), ?s\<lparr>pn_afterCursor := None\<rparr>, [])"
    by (simp add: handleSearch_def)
  have fld: "called_field LOG_SEARCH_QUERY (input_variables (search_object (search_variables None ?s))) = Some ?fld"
    using search_arrives [of "search_variables None ?s"] by (auto simp: called_field_def search_variables_def int32_def nullish_default_def)
  have admits: "fst (throttle_guard found_app (served_context ''c1'' ?rq) ?fld (gs_throttle demo_gateway_state))"
    by (simp add: throttle_guard_def handleRequest_def user_agent_ignored_def found_app_def demo_gateway_app_def demo_gateway_state_def
        demo_increment_def THROTTLE_LIMIT_def Let_def)
  have keys: "pn_app ?s \<noteq> []"
    "''k1'' \<noteq> []" "''k1'' \<in> set (ga_keys found_app)" by (simp_all add: found_app_def demo_gateway_app_def)
  let ?fetch = "\<lambda>u q. Inr \<lparr>lr_lines = Some [demo_line ''10:01'', demo_line ''10:00''], lr_node = ''n1'', lr_hasMore = False\<rparr>"
  have hosts: "search (ga_localeCompare found_app) (ga_discovered found_app) (ga_port found_app) (ga_lines found_app) (ga_logStats found_app)
      (search_variables None ?s) = search js_compare (Inr [''h'']) 4003 ?fetch (\<lambda>u q. Inl OtherExn) (search_variables None ?s)"
    by (simp add: found_app_def demo_gateway_app_def)
  obtain x where found: "search js_compare (Inr [''h'']) 4003 ?fetch (\<lambda>u q. Inl OtherExn) (search_variables None ?s) = Inr x"
    by (simp add: search_eq Let_def)
  then have "sr_lines x = [(demo_line ''10:00'')\<lparr>ll_node := ''n1''\<rparr>, (demo_line ''10:01'')\<lparr>ll_node := ''n1''\<rparr>]"
    by (auto simp: search_eq Let_def demo_line_def search_variables_def opt_text_def new_panel_def
        kept_def node_skipped_def truthy_def lines_of_def ts_def slice_to_def)
  then have x: "map ts (sr_lines x) = [''10:00'', ''10:01'']" by (simp add: ts_def demo_line_def)
  note reached = search_reaches_table [OF keys refl step fld admits serve, of _ demo_lib "[]", THEN conjunct2, THEN conjunct1]
  then obtain y where y: "y = search (ga_localeCompare found_app) (ga_discovered found_app) (ga_port found_app) (ga_lines found_app)
      (ga_logStats found_app) (search_variables None ?s)"
    "r = map_sum (http_exception_catch (gw_parse (ga_gateway found_app))) SearchData y"
    "\<forall>x. y = Inr x \<longrightarrow> map texts (nodes_where is_row (SearchPanel demo_lib [] (?s\<lparr>pn_afterCursor := None\<rparr>) (rows_after (Some x) []) False (Some x))) =
      map (line_texts demo_lib) (sr_lines x)" by blast
  have "y = Inr x" unfolding y(1) hosts found ..
  with y(2,3) have r: "r = Inr (SearchData x)" "map texts (nodes_where is_row (SearchPanel demo_lib [] (?s\<lparr>pn_afterCursor := None\<rparr>)
      (rows_after (Some x) []) False (Some x))) = map (line_texts demo_lib) (sr_lines x)" by simp_all
  have "rows_after (Some x) [] = []" by (simp add: rows_after_def)
  with r(2) have "map texts (nodes_where is_row (SearchPanel demo_lib [] ((new_panel ''2026-01-01'')\<lparr>pn_app := ''auth'', pn_afterCursor := None\<rparr>)
      [] False (Some x))) = map (line_texts demo_lib) (sr_lines x)" by simp
  with serve [unfolded r(1)] x show ?thesis by (intro exI [of _ x] exI [of _ hs] exI [of _ gs'] conjI)
qed

end
