(* ===== verification/Stream_End_To_End.thy ===== *)
theory Stream_End_To_End
  imports Ui_Answers Log_Streamer_Properties Ui_Live_Stream_Properties
begin

text \<open>
  A log line from the message of a log-streamer to the viewer of its service: the gateway's callback and the
  topic it publishes on, the subscription's answer as the schema makes it, and the browser's callback with
  the buffer behind it. The transport between the gateway's publishers and its subscribers is a library:
  what is published on a topic is what its subscribers get.
\<close>

section \<open>The answers of a subscription\<close>

text \<open>The entry a subscription's callback gets.\<close>

definition service_entry_data :: "json \<Rightarrow> service_log_entry option" where
  "service_entry_data v =
     (case (string_prop v ''containerId'', string_prop v ''serviceName'', string_prop v ''timestamp'', string_prop v ''message'',
            string_prop v ''stream'') of
        (Some c, Some n, Some t, Some m, Some st) \<Rightarrow>
          Some \<lparr>se_containerId = c, se_timestamp = t, se_message = m, se_stream = st, se_serviceName = n, se_event = string_prop v ''event''\<rparr>
      | _ \<Rightarrow> None)"

text \<open>The value of the root field in what has been published.\<close>

definition published_value :: "json \<Rightarrow> string \<Rightarrow> json" where
  "published_value payload k = nullish_default (json_prop payload k) JNull"

text \<open>The entry as it is answered.\<close>

definition service_json :: "string \<Rightarrow> string \<Rightarrow> string option \<Rightarrow> string option \<Rightarrow> string option \<Rightarrow> string option \<Rightarrow> json" where
  "service_json c n t m st ev =
     JObj [(''containerId'', JStr c), (''serviceName'', JStr n), (''timestamp'', opt_json t), (''message'', opt_json m),
       (''stream'', opt_json st), (''event'', opt_json ev)]"

lemma map_of_opt_entry: "map_of (opt_entry k v @ fs) j = (if j = k \<and> v \<noteq> None then map_option JStr v else map_of fs j)"
  by (cases v) (auto simp: opt_entry_def)

lemma service_payload_props:
  "published_value (service_payload c n m st ev) ''serviceLog'' = JObj l \<Longrightarrow>
     map_of l ''containerId'' = Some (JStr c) \<and> map_of l ''serviceName'' = Some (JStr n) \<and>
     map_of l ''timestamp'' = map_option JStr (string_prop m ''timestamp'') \<and>
     map_of l ''message'' = map_option JStr (string_prop m ''message'') \<and>
     map_of l ''stream'' = map_option JStr st \<and> map_of l ''event'' = Some ev"
  by (auto simp: published_value_def service_payload_def nullish_default_def map_of_opt_entry simp del: map_of_append)

lemma service_type: "map_of gateway_types ''ServiceLogEntry'' = Some ServiceLogEntry_type"
  by (simp add: gateway_types_def)

lemma service_root:
  "map_of root_fields (doc_operation SERVICE_LOG_SUBSCRIPTION, doc_field SERVICE_LOG_SUBSCRIPTION) =
     Some ([field_of ''serviceName'' ''String''], NonNull (Named ''ServiceLogEntry''))"
  by (simp add: root_fields_def auth_fields_def streamer_fields_def SERVICE_LOG_SUBSCRIPTION_def)

text \<open>An entry is answered exactly if it has its time, its message and its stream.\<close>

lemma completed_service:
  assumes "published_value (service_payload c n m st (opt_json ev)) ''serviceLog'' = JObj l"
  shows "completed ser (Named ''ServiceLogEntry'') (doc_selection SERVICE_LOG_SUBSCRIPTION) (JObj l) =
    (if string_prop m ''timestamp'' \<noteq> None \<and> string_prop m ''message'' \<noteq> None \<and> st \<noteq> None
     then (service_json c n (string_prop m ''timestamp'') (string_prop m ''message'') st ev, False) else (JNull, True))"
proof -
  note props = service_payload_props [OF assms]
  show ?thesis
    by (cases "string_prop m ''timestamp''"; cases "string_prop m ''message''"; cases st; cases ev)
      (simp_all add: complete.simps(3) [of _ _ "''ServiceLogEntry''"] service_type ServiceLogEntry_type_def field_of_def nullable_field_def
        SERVICE_LOG_SUBSCRIPTION_def leaves_def props service_json_def opt_json_def nullish_default_def)
qed

lemma service_root_field: "doc_field SERVICE_LOG_SUBSCRIPTION = ''serviceLog''"
  by (simp add: SERVICE_LOG_SUBSCRIPTION_def)

lemma service_answer:
  "read_answer ser SERVICE_LOG_SUBSCRIPTION service_entry_data (published_value (service_payload c n m st (opt_json ev)) ''serviceLog'') =
    (case (string_prop m ''timestamp'', string_prop m ''message'', st) of
       (Some t, Some x, Some y) \<Rightarrow>
         Some \<lparr>se_containerId = c, se_timestamp = t, se_message = x, se_stream = y, se_serviceName = n, se_event = ev\<rparr>
     | _ \<Rightarrow> None)"
proof -
  obtain l where l: "published_value (service_payload c n m st (opt_json ev)) ''serviceLog'' = JObj l"
    by (simp add: published_value_def service_payload_def nullish_default_def)
  have "doc_field SERVICE_LOG_SUBSCRIPTION = ''serviceLog''" by (rule service_root_field)
  then show ?thesis
    unfolding l read_answer_def answer_def service_root
    by (cases "string_prop m ''timestamp''"; cases "string_prop m ''message''"; cases st; cases ev)
      (simp_all add: completed_service [OF l], simp_all add: service_json_def service_entry_data_def string_prop_def opt_json_def)
qed

section \<open>A line reaches the viewer\<close>

lemma log_message_published:
  assumes "parse data = Some m" and "string_prop m ''type'' = Some ''log''"
    and "string_prop m ''containerId'' = Some c" and "c \<noteq> []" and "string_prop m ''serviceName'' = Some n" and "n \<noteq> []"
  shows "ls_published (on_message parse data g) = ls_published g @
    [(''CONTAINER_LOG.'' @ c, container_payload c m),
     (''SERVICE_LOG.'' @ n, service_payload c n m (string_prop m ''stream'') JNull)]"
  using assms by (simp add: on_message_def publish_def nullish_default_def truthy_def Let_def)

lemma subscribed_broadcast: "ls_preSubs (broadcastToAll m s) = ls_preSubs s"
proof -
  have keeps: "(\<And>x s. ls_preSubs (f x s) = ls_preSubs s) \<Longrightarrow> ls_preSubs (fold f xs s) = ls_preSubs s" for f :: "'x \<Rightarrow> streamer \<Rightarrow> streamer" and xs
    by (induction xs arbitrary: s) auto
  show ?thesis unfolding broadcastToAll_def by (rule keeps) (simp add: set_socket_def split: prod.split option.split)
qed

lemma ensured_active:
  assumes "c \<noteq> []"
  shows "c \<in> fst ` set (sv_active (ensureActiveContainer c v s))" and "c \<in> fst ` set (sv_colors (ensureActiveContainer c v s))"
proof -
  have "map_of (sv_active (getContainerColor c s)) c \<noteq> None \<Longrightarrow> c \<in> fst ` set (sv_active (getContainerColor c s))"
    by (simp add: map_of_eq_None_iff)
  then show "c \<in> fst ` set (sv_active (ensureActiveContainer c v s))"
    using assms by (auto simp: ensureActiveContainer_def Let_def keys_update_set)
  show "c \<in> fst ` set (sv_colors (ensureActiveContainer c v s))"
    using assms getContainerColor_grows(3) [of c s] by (simp add: ensureActiveContainer_def Let_def)
qed

lemma ensured_buffer [simp]: "sv_buffer (ensureActiveContainer c v s) = sv_buffer s"
  by (simp add: ensureActiveContainer_def getContainerColor_def Let_def)

lemma frame_shows:
  assumes "length (lb_logs b) + length (lb_batch b) < m"
  shows "set (lb_logs (buffer_step m srt lc stamp Frame (addLog e b))) = set (lb_logs b) \<union> set (lb_batch b) \<union> {e}"
  using assms by (auto simp: addLog_def flushBatch_def Let_def)

lemma viewer_takes:
  assumes "\<not> sv_paused s" and "se_event e = None" and "se_containerId e \<noteq> []"
    and "length (lb_logs (sv_buffer s)) + length (lb_batch (sv_buffer s)) < 5000"
    and "s' = viewer_step name lc ViewerFrame (viewer_step name lc (ServiceLog (Some e)) s)"
  shows "set (lb_logs (sv_buffer s')) = set (lb_logs (sv_buffer s)) \<union> set (lb_batch (sv_buffer s)) \<union> {e} \<and>
    se_containerId e \<in> fst ` set (sv_active s') \<and> se_containerId e \<in> fst ` set (sv_colors s')"
  using assms ensured_active [OF assms(3)] frame_shows [OF assms(4), of True lc se_timestamp e]
  by (simp add: on_service_log_def del: buffer_step.simps)

text \<open>The viewer after what has been published has reached its callback, and the next frame.\<close>

definition shown_after ::
  "serializer \<Rightarrow> string \<Rightarrow> (string \<Rightarrow> string \<Rightarrow> int) \<Rightarrow> json \<Rightarrow> service_viewer \<Rightarrow> service_viewer" where
  "shown_after ser name lc payload s =
     viewer_step name lc ViewerFrame
       (viewer_step name lc
         (ServiceLog (read_answer ser SERVICE_LOG_SUBSCRIPTION service_entry_data
           (published_value payload (doc_field SERVICE_LOG_SUBSCRIPTION)))) s)"

lemma shown_nothing:
  assumes "read_answer ser SERVICE_LOG_SUBSCRIPTION service_entry_data (published_value p (doc_field SERVICE_LOG_SUBSCRIPTION)) = None"
  shows "shown_after ser name lc p s = viewer_step name lc ViewerFrame s"
  unfolding shown_after_def assms by (simp add: on_service_log_def)

lemma shown_entry:
  assumes "read_answer ser SERVICE_LOG_SUBSCRIPTION service_entry_data (published_value p (doc_field SERVICE_LOG_SUBSCRIPTION)) = Some e"
    and "\<not> sv_paused s" and "se_event e = None" and "se_containerId e \<noteq> []"
    and "length (lb_logs (sv_buffer s)) + length (lb_batch (sv_buffer s)) < 5000"
  shows "set (lb_logs (sv_buffer (shown_after ser name lc p s))) = set (lb_logs (sv_buffer s)) \<union> set (lb_batch (sv_buffer s)) \<union> {e} \<and>
    se_containerId e \<in> fst ` set (sv_active (shown_after ser name lc p s)) \<and>
    se_containerId e \<in> fst ` set (sv_colors (shown_after ser name lc p s))"
  by (rule viewer_takes [OF assms(2-5)]) (simp only: shown_after_def assms(1))

text \<open>C27: a log line reaches the viewer of its service. A message of a log-streamer with a line of a container
  of a service is published on the topic of the container and, last, on the topic that the subscribers of
  that service listen to, and nowhere else. If it has a time, a text and a stream, then a viewer of the
  service that is not paused and holds fewer than five thousand lines shows this very entry after the next
  frame, beside all the lines it had, and the container is among its active ones and has a colour. If one of
  the three is missing, the schema makes the answer null and the viewer changes by nothing but the frame.\<close>

theorem log_line_reaches_viewer:
  assumes "parse data = Some m" and "string_prop m ''type'' = Some ''log''"
    and "string_prop m ''containerId'' = Some c" and "c \<noteq> []" and "string_prop m ''serviceName'' = Some n" and "n \<noteq> []"
    and "g' = ls_step ws_ok parse (SocketMessage data) g"
    and "\<not> sv_paused s" and "length (lb_logs (sv_buffer s)) + length (lb_batch (sv_buffer s)) < 5000"
  shows "(snd (fst (subscribeToServiceLogs n h)), ''SERVICE_LOG.'' @ n) \<in> set (ls_preSubs (snd (subscribeToServiceLogs n h))) \<and>
    (\<exists>p. ls_published g' = ls_published g @ [(''CONTAINER_LOG.'' @ c, container_payload c m), (''SERVICE_LOG.'' @ n, p)] \<and>
      (case (string_prop m ''timestamp'', string_prop m ''message'', string_prop m ''stream'') of
         (Some t, Some x, Some st) \<Rightarrow>
           set (lb_logs (sv_buffer (shown_after ser n lc p s))) =
             set (lb_logs (sv_buffer s)) \<union> set (lb_batch (sv_buffer s)) \<union>
             {\<lparr>se_containerId = c, se_timestamp = t, se_message = x, se_stream = st, se_serviceName = n, se_event = None\<rparr>} \<and>
           c \<in> fst ` set (sv_active (shown_after ser n lc p s)) \<and> c \<in> fst ` set (sv_colors (shown_after ser n lc p s))
       | _ \<Rightarrow> shown_after ser n lc p s = viewer_step n lc ViewerFrame s))"
proof
  show "(snd (fst (subscribeToServiceLogs n h)), ''SERVICE_LOG.'' @ n) \<in> set (ls_preSubs (snd (subscribeToServiceLogs n h)))"
    by (simp add: subscribeToServiceLogs_def subscribed_broadcast Let_def split: prod.split)
next
  obtain p where p: "p = service_payload c n m (string_prop m ''stream'') (opt_json None)" by simp
  have null: "opt_json None = JNull" by (simp add: opt_json_def)
  have pub: "ls_published g' = ls_published g @ [(''CONTAINER_LOG.'' @ c, container_payload c m), (''SERVICE_LOG.'' @ n, p)]"
    unfolding p null assms(7) ls_step.simps using assms(1-6) by (rule log_message_published)
  let ?answer = "read_answer ser SERVICE_LOG_SUBSCRIPTION service_entry_data (published_value p (doc_field SERVICE_LOG_SUBSCRIPTION))"
  have answer: "?answer = (case (string_prop m ''timestamp'', string_prop m ''message'', string_prop m ''stream'') of
       (Some t, Some x, Some st) \<Rightarrow>
         Some \<lparr>se_containerId = c, se_timestamp = t, se_message = x, se_stream = st, se_serviceName = n, se_event = None\<rparr>
     | _ \<Rightarrow> None)"
    unfolding p service_root_field service_answer ..
  have none: "shown_after ser n lc p s = viewer_step n lc ViewerFrame s" if "?answer = None"
    by (rule shown_nothing [OF that])
  note some = shown_entry [OF _ assms(8) _ _ assms(9), of ser p, where name = n and lc = lc]
  show "\<exists>p. ls_published g' = ls_published g @ [(''CONTAINER_LOG.'' @ c, container_payload c m), (''SERVICE_LOG.'' @ n, p)] \<and>
      (case (string_prop m ''timestamp'', string_prop m ''message'', string_prop m ''stream'') of
         (Some t, Some x, Some st) \<Rightarrow>
           set (lb_logs (sv_buffer (shown_after ser n lc p s))) =
             set (lb_logs (sv_buffer s)) \<union> set (lb_batch (sv_buffer s)) \<union>
             {\<lparr>se_containerId = c, se_timestamp = t, se_message = x, se_stream = st, se_serviceName = n, se_event = None\<rparr>} \<and>
           c \<in> fst ` set (sv_active (shown_after ser n lc p s)) \<and> c \<in> fst ` set (sv_colors (shown_after ser n lc p s))
       | _ \<Rightarrow> shown_after ser n lc p s = viewer_step n lc ViewerFrame s)"
    by (intro exI [of _ p] conjI pub; cases "string_prop m ''timestamp''"; cases "string_prop m ''message''"; cases "string_prop m ''stream''")
      (use answer none some assms(4) in \<open>simp_all del: viewer_step.simps\<close>)
qed

lemma log_line_reaches_viewer_witness:
  "\<exists>p. ls_published (ls_step (\<lambda>_. True) (\<lambda>_. Some (JObj
       [(''type'', JStr ''log''), (''containerId'', JStr ''c1''), (''serviceName'', JStr ''api''), (''timestamp'', JStr ''t1''),
        (''message'', JStr ''up''), (''stream'', JStr ''stdout'')])) (SocketMessage []) (init_streamer 4003)) =
      [(''CONTAINER_LOG.c1'', container_payload ''c1'' (JObj
         [(''type'', JStr ''log''), (''containerId'', JStr ''c1''), (''serviceName'', JStr ''api''), (''timestamp'', JStr ''t1''),
          (''message'', JStr ''up''), (''stream'', JStr ''stdout'')])), (''SERVICE_LOG.api'', p)] \<and>
    set (lb_logs (sv_buffer (shown_after (\<lambda>n v. None) ''api'' js_compare p (open_viewer \<lparr>sg_serviceName = ''api'', sg_containers = []\<rparr>)))) =
      {\<lparr>se_containerId = ''c1'', se_timestamp = ''t1'', se_message = ''up'', se_stream = ''stdout'', se_serviceName = ''api'', se_event = None\<rparr>}"
proof -
  let ?m = "JObj [(''type'', JStr ''log''), (''containerId'', JStr ''c1''), (''serviceName'', JStr ''api''), (''timestamp'', JStr ''t1''),
        (''message'', JStr ''up''), (''stream'', JStr ''stdout'')]"
  let ?s = "open_viewer \<lparr>sg_serviceName = ''api'', sg_containers = []\<rparr>"
  have s: "\<not> sv_paused ?s" "length (lb_logs (sv_buffer ?s)) + length (lb_batch (sv_buffer ?s)) < 5000"
    "lb_logs (sv_buffer ?s) = []" "lb_batch (sv_buffer ?s) = []"
    by (simp_all add: open_viewer_def empty_buffer_def)
  have m: "string_prop ?m ''type'' = Some ''log''" "string_prop ?m ''containerId'' = Some ''c1''"
    "string_prop ?m ''serviceName'' = Some ''api''" "string_prop ?m ''timestamp'' = Some ''t1''"
    "string_prop ?m ''message'' = Some ''up''" "string_prop ?m ''stream'' = Some ''stdout''"
    by (simp_all add: string_prop_def)
  have "ls_published (init_streamer 4003) = []" by (simp add: init_streamer_def)
  with log_line_reaches_viewer [of "\<lambda>_. Some ?m" "[]" ?m "''c1''" "''api''" _ "\<lambda>_. True" "init_streamer 4003" ?s, OF refl m(1,2) _ m(3) _ refl s(1,2),
      of undefined "\<lambda>n v. None" js_compare] m s(3,4)
  show ?thesis by auto
qed

end
