(* ===== verification/Spec2Isabelle.thy ===== *)
theory Spec2Isabelle
  imports Auth_Properties Kst_Datetime Gateway_App_Properties Log_Streamer_Properties Log_History_Properties
    Error_Report_Properties Logging_Properties Ui_Tabs Ui_Log_Buffer Ui_Log_Search_Properties
    Ui_Session_Properties Ui_Jwt_Payload Ui_Live_Stream_Properties Ui_Format Ui_App_View Server_Start Korean_Time
    Search_End_To_End Stream_End_To_End
begin

text \<open>
  A verification library of the platform: an auth server (apps/auth), a GraphQL gateway (apps/gateway),
  what both share (libs/shared), a log viewer in the browser (apps/ui) and a report script (scripts).

  The browser sends GraphQL requests to the gateway, with the tokens it keeps. The gateway calls the auth
  server over HTTP through a circuit breaker, and the log-streamers, one on each host, over HTTP and
  WebSockets; it turns every failure into a GraphQL error. The auth server keeps the accounts, decides
  on logins and issues tokens. The report script reads the errors of a day from the gateway and posts
  them.

  \<^bold>\<open>The theories and the code.\<close>

  JS_Prelude: the standard library that every part uses (strings, \<open>trim\<close>, \<open>split\<close>, \<open>sort\<close>, \<open>Map\<close>, \<open>Set\<close>,
  numbers as texts), operations with errors and state (\<open>eff\<close>), and the interfaces as locales:
  \<open>comparator\<close> (a sorting function; extended in Text_Order to
  \<open>linear_comparator\<close>, whose sorting has one result, and interpreted there), \<open>preserved\<close> (a relation that every
  operation keeps; interpreted on the database in Account_Store and Auth_Lockout), \<open>ordered_map\<close>
  (\<open>Map\<close>; interpreted on association lists) and \<open>machine\<close> (an event machine with an invariant;
  interpreted by the log-streamer proxy and the viewer of a service). Three more are stated where they are
  provided or used: \<open>keyed_table\<close> by Account_Store, \<open>ref_counter\<close> by Log_Streamer_Invariants, and \<open>page\<close> (a
  page with its view, the calls of its elements and the reports of its queries) by Ui_Markup, which
  every page of the browser interprets.
  Text_Order: the comparison of texts and its sorting lemmas. Json: JSON values and \<open>stringify\<close>.

  Account_Store, Login_History: libs/shared/src/constants, apps/auth/src/database/schema.ts,
  account.service.ts and login-history.service.ts; the database is a record of lists. Jwt_Tokens:
  jwt.service.ts, jwt.strategy.ts, totp.service.ts. Auth_Service: auth.service.ts and the error table.
  Auth_Lockout: the abstract lock-out counter and the proof that \<open>login\<close> implements it. Auth_Properties:
  what logins, second factors, refreshes and changes of a password guarantee. Auth_Example: a concrete
  environment for the examples. Auth_Http: the schemas, the validation pipe, the controller and the filter.
  Kst_Datetime: kst-datetime.ts. Access_Channel: libs/shared/src/common/http/access-channel.ts.

  Request_Context, Logging_Properties: the middlewares, the access log, the logging interceptor and the
  formats of libs/shared/src/common. Logger: winston-logger.service.ts with its levels, transports
  and methods. Gateway_Errors: the exception filters with the lines they log, and the circuit breaker of
  the gateway. Gateway_Proxy: auth-proxy, kiosk-admin-proxy, the guards, global-http.module.ts,
  pubsub.provider.ts, discover-log-streamers.ts and the fallback route of main.ts.
  Log_Streamer, Log_Streamer_Invariants, Log_Streamer_Properties: log-streamer-proxy.service.ts as a
  machine of events (calls, timers, socket callbacks, DNS answers) and its invariants.
  Log_History_Search, Log_History_Properties: log-history.service.ts.
  Gateway_App, Gateway_App_Properties: the environment schemas (env.schema.ts of both servers), the
  resolvers of the four modules with the guards their decorators name, the throttler's guard, and the
  way of a request through what app.module.ts registers.
  Korean_Time: the times in the records, the day of the report and the day a search starts with.
  Server_Start: the start of both servers: configuration, database pool, keys, Redis options, static files.
  Graphql_Schema: the types, inputs and root fields that the decorators of the models and resolvers
  declare. Graphql_Execution: what is relied on of GraphQL (validation, variables, completion of answers),
  the interfaces of TypeScript, and a check, proved sound, that answers fit an interface.
  Error_Report, Error_Report_Properties: scripts/daily-error-report.mjs.

  Ui_Tabs: useTabs.ts. Ui_Log_Buffer: useLogBuffer.ts. Ui_Log_Search, Ui_Log_Search_Properties:
  useLogSearch.ts, useLogFilter.ts, useDebouncedValue.ts, highlight-html.ts. Ui_Live_Stream,
  Ui_Live_Stream_Properties: ContainerList.tsx, LiveStreamPage.tsx, ServiceLogViewer.tsx, LogViewer.tsx,
  useAutoScroll.ts. Ui_History: SearchPanel.tsx, HistoryPage.tsx. Ui_Format: lib/utils.ts.
  Ui_Markup: what a component renders, as a tree of elements with their handlers, and what a click, a
  key, an entry or a form calls. Ui_Live_View, Ui_History_View, Ui_Login_View, Ui_App_View, with
  Ui_Live_View_Properties and Ui_History_Properties: the components of the three pages and of the frame
  around them (LogRow.tsx, HighlightedAnsiText.tsx, TabBar.tsx, HistoryTabBar.tsx, AnsiText.tsx,
  Navigation.tsx, NotFoundPage.tsx, and the rendering parts of the files above), and each page as a
  machine of what its user does and what its queries report. Ui_Session, Ui_Session_Properties,
  Ui_Jwt_Payload: token.ts, AuthContext.tsx, AuthGuard.tsx, App.tsx, apollo.ts. Ui_Login: LoginPage.tsx and
  error-message.ts. Ui_Documents, Ui_Answers: the documents and interfaces of graphql.ts and how they meet
  the schema. End_To_End, Login_End_To_End, Search_End_To_End, Stream_End_To_End: properties that span the
  services; the second joins the form, the gateway and the auth server with its database into one system,
  the third follows a search from the form to the hosts and back to the table, the fourth a log line from
  the message of a log-streamer to the viewer of its service.

  \<^bold>\<open>What the lemmas show.\<close>

  Login: the refinement of the lock-out counter, what a success means, that tokens of one kind do not
  pass for another where the code looks, and where it does not (a refresh token passes for an access token when
  a password is changed), that a password changes only with a credential, and that no
  request changes what it must not. Gateway: every failure has a code and a status, the breaker does not
  count what the client sees as a structured error, connections serve exactly the live subscriptions,
  reference counts count, reconnections back off and stop; both servers start exactly with an
  environment their schemas accept, only a request with a configured key reaches what is not public, a
  client has at most the limit of requests in a window, the log of a success holds no argument, and
  every call of the logger is one line of its files. An HTTP exception keeps its status, and a GraphQL error
  is passed on. Queries: merged, ordered, bounded, complete
  but for hosts that failed; the report counts the errors of a day and posts one message at most. Browser: tabs, buffer, search, highlighting, the lists of containers and
  replicas, the pages of a search, session and login form; and for each page, that whatever is clicked,
  typed, sent and answered, no handler throws, its state stays consistent, only the part that is shown
  takes clicks (or a sheet left open over it), and what it shows is what it has been given. Round
  trips: dates in DATETIME columns (and the same times in the records), tabs in the storage, the payload of tokens. End to end: an error
  of the auth server reaches the login form with its own message, one correlation id follows a
  request through both services, and what the auth server decides on a login or a second factor is
  what the form shows and the session keeps; the access channel of a login is the same for both servers; a
  search finds what the hosts have and the table shows it; a log line reaches the viewer of its service. Every
  document of the browser is accepted by the schema, its variables reach the resolvers, and what they
  return reaches the page, as long as its integers have 32 bits and its objects have ids of their own.

  \<^bold>\<open>Choices of the model.\<close>

  Strings are Latin-1; constant texts outside it are written as \<open>escape\<close> writes them. Numbers of the
  program are integers; the delay of a browser timer is a 32-bit word. Asynchronous code is cut where it
  waits, so that other events can come between. What a component renders is a tree of elements with the
  attributes that depend on the state or carry a handler; class names that never change are left out,
  an element whose style refuses the pointer is marked \<open>Inert\<close>, and the content of a sheet, a popover or a select, which
  the component library puts elsewhere in the document, \<open>Portal\<close>: it takes clicks all the same. A page that throws
  while it renders, as the live-stream page does with a stored tab that lacks its data, leaves nothing of the whole. The rows in view (the virtualizer),
  ansi-to-html, dayjs, the clock format and floating-point sums are parameters of the views. Libraries are parameters, with what is relied on as
  named hypotheses: jose, bcrypt, otplib, zod (\<open>zod_contract\<close>), axios, opossum, \<open>URL\<close>,
  \<open>JSON.parse\<close> (\<open>parse_shrinks\<close>), DNS, fetch, WebSockets, the reading of the environment
  (\<open>env_contract\<close>), GraphQL (\<open>serializes\<close> for values of other kinds), the throttler's storage (\<open>window_storage\<close>: it counts a
  client's requests in its window up to the one that blocks it, and then no more), the zone of Korea
  (\<open>seoul_zone\<close>: nine hours ahead since 1988), the link of the two servers (\<open>delivers\<close>), the router. Two recursions on parsed error bodies have fuel:
  every nested text is shorter than the one around it, so the length of the text is enough (proved in
  Gateway_Errors). The loop that counts matches is a partial function, proved to end.
  Two libraries are written out where the code depends on what they do with its data: Winston merges the metadata of
  a call into its entry, but leaves it out where the message holds a placeholder (\<open>winston_entry\<close>), and the cache
  of the Apollo client keeps one object for an id (\<open>InMemoryCache\<close>). The log of the gateway's model (\<open>gs_log\<close>) holds
  the lines of the logging interceptor and of the exception filter. Firing the breaker of a domain for the hosts
  makes that breaker (\<open>fire_each\<close>); what the requests settle with is a parameter.

  \<^bold>\<open>Not modelled.\<close>

  The log-streamer itself (another language), the component library and constant class
  names, animations, the declarations of the Nest modules, the
  drivers of the database and of Redis, the lines the HTTP client's interceptors log, what covers a page while a sheet
  or a select is open over it, tests, build files and shell scripts.
\<close>

end
